(* ===== verification/Korik_Prelude.thy ===== *)
theory Korik_Prelude
  imports Main "HOL-Library.AList"
begin

text \<open>
  Shared ground of the development: the part of the Go language and of package \<open>time\<close> that
  every component uses, and the generic lemmas on association lists and list tails.

  \<^item> A Go \<open>time.Time\<close> is an integer, the nanoseconds since Go's zero time, so that
    \<open>IsZero\<close> is equality with 0; a \<open>time.Duration\<close> is an integer number of nanoseconds,
    and \<open>Sub\<close> saturates at the bounds of \<open>int64\<close> as the library's does.
    The clock is an argument: an operation that calls \<open>time.Now()\<close> takes \<open>now\<close>.
  \<^item> A Go map is an association list with distinct keys. The order of the list is the order in
    which \<open>range\<close> visits the map; Go leaves it unspecified and the theorems hold for
    every list.
  \<^item> A call that can fail to return is a value of type \<open>outcome\<close>: it returns, it waits for a
    lock that is never released, or it panics.
\<close>

named_theorems korik_defs \<open>definitions of the operations, unfolded by the component proofs\<close>
named_theorems korik_inv \<open>preservation of the component invariants\<close>

subsection \<open>Time\<close>

type_synonym gotime = int
type_synonym duration = int

abbreviation Millisecond :: duration where "Millisecond \<equiv> 1000000"
abbreviation Second :: duration where "Second \<equiv> 1000000000"
abbreviation Minute :: duration where "Minute \<equiv> 60000000000"
abbreviation Hour :: duration where "Hour \<equiv> 3600000000000"

definition IsZero :: "gotime \<Rightarrow> bool" where
  "IsZero t \<longleftrightarrow> t = 0"

definition minDuration :: duration where "minDuration = - (2 ^ 63)"
definition maxDuration :: duration where "maxDuration = 2 ^ 63 - 1"

definition Sub :: "gotime \<Rightarrow> gotime \<Rightarrow> duration" where
  "Sub t u = max minDuration (min maxDuration (t - u))"

lemma Sub_mono: "t \<le> t' \<Longrightarrow> Sub t u \<le> Sub t' u"
  by (auto simp: Sub_def)

lemma Sub_self [simp]: "Sub t t = 0"
  by (simp add: Sub_def minDuration_def maxDuration_def)

lemma Sub_nonneg: "u \<le> t \<Longrightarrow> 0 \<le> Sub t u"
  by (simp add: Sub_def minDuration_def maxDuration_def)

lemma Sub_exact: "minDuration \<le> t - u \<Longrightarrow> t - u \<le> maxDuration \<Longrightarrow> Sub t u = t - u"
  by (simp add: Sub_def)

lemma Sub_greater: "0 \<le> d \<Longrightarrow> d < maxDuration \<Longrightarrow> d < Sub t u \<longleftrightarrow> d < t - u"
  by (auto simp: Sub_def minDuration_def)

lemma Sub_le: "u \<le> t \<Longrightarrow> Sub t u \<le> t - u"
  by (simp add: Sub_def minDuration_def)

subsection \<open>Calls that may not return\<close>

datatype 'a outcome = Returns 'a | Blocks | Panics

fun bind_outcome :: "'a outcome \<Rightarrow> ('a \<Rightarrow> 'b outcome) \<Rightarrow> 'b outcome" where
  "bind_outcome (Returns x) f = f x"
| "bind_outcome Blocks f = Blocks"
| "bind_outcome Panics f = Panics"

lemma bind_outcome_Returns:
  "bind_outcome x f = Returns y \<Longrightarrow> (\<And>a. x = Returns a \<Longrightarrow> f a = Returns y \<Longrightarrow> thesis) \<Longrightarrow> thesis"
  by (cases x) auto

subsection \<open>Association lists as Go maps\<close>

definition goMap :: "('k \<times> 'v) list \<Rightarrow> bool" where
  "goMap m \<longleftrightarrow> distinct (map fst m)"

abbreviation haskey :: "('k \<times> 'v) list \<Rightarrow> 'k \<Rightarrow> bool" where
  "haskey m k \<equiv> map_of m k \<noteq> None"

lemma goMap_Nil [simp, intro]: "goMap []"
  by (simp add: goMap_def)

lemma goMap_update [simp, intro]: "goMap m \<Longrightarrow> goMap (AList.update k v m)"
  by (simp add: goMap_def distinct_update)

lemma goMap_delete [simp, intro]: "goMap m \<Longrightarrow> goMap (AList.delete k m)"
  by (simp add: goMap_def distinct_delete)

lemma goMap_filter [simp, intro]: "goMap m \<Longrightarrow> goMap (filter P m)"
  by (induction m) (auto simp: goMap_def)

lemma map_of_AList_update [simp]: "map_of (AList.update k v m) = (map_of m)(k \<mapsto> v)"
  by (rule update_conv')

lemma map_of_AList_delete [simp]: "map_of (AList.delete k m) = (map_of m)(k := None)"
  by (rule delete_conv')

lemma map_of_filter_goMap:
  "goMap m \<Longrightarrow> map_of (filter P m) k =
     (case map_of m k of None \<Rightarrow> None | Some v \<Rightarrow> if P (k, v) then Some v else None)"
proof (induction m)
  case (Cons e m)
  obtain k' v' where e: "e = (k', v')" by force
  have fresh: "map_of m k' = None"
    using Cons.prems by (simp add: e goMap_def map_of_eq_None_iff)
  have IH: "map_of (filter P m) k =
     (case map_of m k of None \<Rightarrow> None | Some v \<Rightarrow> if P (k, v) then Some v else None)"
    using Cons.IH Cons.prems by (simp add: goMap_def)
  show ?case
    using IH fresh by (auto simp: e)
qed simp

lemma goMap_in_set: "goMap m \<Longrightarrow> (k, v) \<in> set m \<longleftrightarrow> map_of m k = Some v"
  by (simp add: goMap_def)

lemma length_update:
  "length (AList.update k v m) = (if haskey m k then length m else Suc (length m))"
  by (induction m) auto

lemma length_delete:
  "goMap m \<Longrightarrow> length (AList.delete k m) = (if haskey m k then length m - 1 else length m)"
proof (induction m)
  case (Cons e m)
  obtain k' v' where e: "e = (k', v')" by force
  have fresh: "map_of m k' = None"
    using Cons.prems by (simp add: e goMap_def map_of_eq_None_iff)
  have "AList.delete k m = m" if "map_of m k = None"
    using that by (simp add: delete_id map_of_eq_None_iff)
  moreover have "0 < length m" if "map_of m k = Some v" for v
    using that by (cases m) auto
  ultimately show ?case
    using Cons.IH Cons.prems fresh by (auto simp: e goMap_def split: if_splits)
qed simp

subsection \<open>The last elements of a list\<close>

text \<open>\<open>xs[len(xs)-n:]\<close> where \<open>n \<le> len(xs)\<close>, and the whole list otherwise.\<close>

definition takeLast :: "nat \<Rightarrow> 'a list \<Rightarrow> 'a list" where
  "takeLast n xs = drop (length xs - n) xs"

lemma length_takeLast [simp]: "length (takeLast n xs) = min n (length xs)"
  by (simp add: takeLast_def)

lemma takeLast_all: "length xs \<le> n \<Longrightarrow> takeLast n xs = xs"
  by (simp add: takeLast_def)

lemma takeLast_takeLast_append: "takeLast n (takeLast n xs @ ys) = takeLast n (xs @ ys)"
proof (cases "length xs \<le> n")
  case False
  then have "length xs - n + (n + length ys - n) = length xs + length ys - n" by simp
  then show ?thesis
    using False by (simp add: takeLast_def add.commute)
qed (simp add: takeLast_all)

lemma set_takeLast: "set (takeLast n xs) \<subseteq> set xs"
  by (simp add: takeLast_def set_drop_subset)

lemma last_takeLast: "0 < n \<Longrightarrow> xs \<noteq> [] \<Longrightarrow> last (takeLast n xs) = last xs"
  by (simp add: takeLast_def)

lemma suffix_takeLast: "\<exists>ys. xs = ys @ takeLast n xs"
  by (metis append_take_drop_id takeLast_def)

text \<open>A list cut into consecutive slices of one length.\<close>

lemma concat_slices:
  assumes "0 < s"
  shows "concat (map (\<lambda>p. take s (drop (p * s) xs)) [0..<k]) = take (k * s) xs"
proof (induction k)
  case (Suc k)
  have "take (k * s) xs @ take s (drop (k * s) xs) = take (k * s + s) xs"
    by (simp add: take_add)
  then show ?case using Suc by (simp add: add.commute)
qed simp

end
