(* ===== verification/Circuit.thy ===== *)
theory Circuit
  imports Korik_Prelude
begin

text \<open>
  The circuit breaker of \<^verbatim>\<open>src/internal/circuit/circuit.go\<close>: addresses whose handshakes failed
  \<open>threshold\<close> times in a row are skipped until \<open>cooldown\<close> has passed. The state is the
  code's two maps; the contract a client relies on is the locale \<open>circuit_gate\<close>, one small
  automaton per address, and the code's four methods interpret it.
\<close>

subsection \<open>The breaker of the code\<close>

record Breaker =
  failures :: "(string \<times> int) list"
  blockedAt :: "(string \<times> gotime) list"
  threshold :: int
  cooldown :: duration

datatype circuit_error = CircuitOpen string int duration

definition NewBreaker :: "int \<Rightarrow> duration \<Rightarrow> Breaker" where
  "NewBreaker th cd =
     \<lparr>failures = [], blockedAt = [],
      threshold = (if th \<le> 0 then 5 else th),
      cooldown = (if cd \<le> 0 then Minute else cd)\<rparr>"

definition Failures :: "string \<Rightarrow> Breaker \<Rightarrow> int" where
  "Failures addr b = (case map_of (failures b) addr of None \<Rightarrow> 0 | Some n \<Rightarrow> n)"

definition Skip :: "gotime \<Rightarrow> string \<Rightarrow> Breaker \<Rightarrow> bool \<times> Breaker" where
  "Skip now addr b =
     (case map_of (blockedAt b) addr of
        None \<Rightarrow> (False, b)
      | Some since \<Rightarrow>
          if cooldown b < Sub now since
          then (False, b\<lparr>blockedAt := AList.delete addr (blockedAt b),
                         failures := AList.delete addr (failures b)\<rparr>)
          else (True, b))"

definition RecordSuccess :: "string \<Rightarrow> Breaker \<Rightarrow> Breaker" where
  "RecordSuccess addr b =
     b\<lparr>failures := AList.delete addr (failures b),
       blockedAt := AList.delete addr (blockedAt b)\<rparr>"

definition RecordFailure :: "gotime \<Rightarrow> string \<Rightarrow> Breaker \<Rightarrow> circuit_error option \<times> Breaker" where
  "RecordFailure now addr b =
     (let n = Failures addr b + 1;
          b1 = b\<lparr>failures := AList.update addr n (failures b)\<rparr>
      in if threshold b1 \<le> n
         then (Some (CircuitOpen addr n (cooldown b1)),
               b1\<lparr>blockedAt := AList.update addr now (blockedAt b1)\<rparr>)
         else (None, b1))"

lemmas breaker_defs [korik_defs] =
  NewBreaker_def Failures_def Skip_def RecordSuccess_def RecordFailure_def

subsection \<open>The contract: one automaton per address\<close>

datatype gate = Closed int | Open int gotime

definition gate_fail :: "int \<Rightarrow> gotime \<Rightarrow> gate \<Rightarrow> gate" where
  "gate_fail th now g =
     (let n = (case g of Closed k \<Rightarrow> k | Open k _ \<Rightarrow> k) + 1
      in if th \<le> n then Open n now else Closed n)"

definition gate_poll :: "duration \<Rightarrow> gotime \<Rightarrow> gate \<Rightarrow> bool \<times> gate" where
  "gate_poll cd now g =
     (case g of Closed k \<Rightarrow> (False, g)
      | Open k since \<Rightarrow> if cd < Sub now since then (False, Closed 0) else (True, g))"

locale circuit_gate =
  fixes skip :: "gotime \<Rightarrow> string \<Rightarrow> 'b \<Rightarrow> bool \<times> 'b"
    and succeed :: "string \<Rightarrow> 'b \<Rightarrow> 'b"
    and fail :: "gotime \<Rightarrow> string \<Rightarrow> 'b \<Rightarrow> 'b"
    and view :: "'b \<Rightarrow> string \<Rightarrow> gate"
    and limit :: "'b \<Rightarrow> int"
    and cool :: "'b \<Rightarrow> duration"
    and inv :: "'b \<Rightarrow> bool"
  assumes skip_view: "inv b \<Longrightarrow>
      view (snd (skip now a b)) = (view b)(a := snd (gate_poll (cool b) now (view b a)))"
    and skip_result: "inv b \<Longrightarrow> fst (skip now a b) = fst (gate_poll (cool b) now (view b a))"
    and succeed_view: "inv b \<Longrightarrow> view (succeed a b) = (view b)(a := Closed 0)"
    and fail_view: "inv b \<Longrightarrow> view (fail now a b) = (view b)(a := gate_fail (limit b) now (view b a))"
    and inv_ops: "inv b \<Longrightarrow> inv (snd (skip now a b))" "inv b \<Longrightarrow> inv (succeed a b)"
      "inv b \<Longrightarrow> inv (fail now a b)"
    and consts_ops [simp]: "limit (snd (skip now a b)) = limit b" "limit (succeed a b) = limit b"
      "limit (fail now a b) = limit b" "cool (snd (skip now a b)) = cool b"
      "cool (succeed a b) = cool b" "cool (fail now a b) = cool b"
begin

lemma fail_many:
  assumes "inv b" and "view b a = Closed 0" and "ts \<noteq> []" and "0 < limit b"
  shows "view (fold (\<lambda>t. fail t a) ts b) a =
           (if limit b \<le> int (length ts) then Open (int (length ts)) (last ts)
            else Closed (int (length ts)))
         \<and> inv (fold (\<lambda>t. fail t a) ts b)
         \<and> limit (fold (\<lambda>t. fail t a) ts b) = limit b
         \<and> cool (fold (\<lambda>t. fail t a) ts b) = cool b"
  using assms(3)
proof (induction ts rule: rev_induct)
  case (snoc t ts)
  show ?case
  proof (cases "ts = []")
    case True
    then show ?thesis
      using assms by (simp add: fail_view gate_fail_def inv_ops)
  next
    case False
    then show ?thesis
      using snoc.IH assms(4) by (auto simp: fail_view gate_fail_def inv_ops)
  qed
qed simp

lemma skip_after_failures:
  assumes "inv b" and "view b a = Closed 0" and "ts \<noteq> []" and "0 < limit b"
  shows "fst (skip now a (fold (\<lambda>t. fail t a) ts b)) \<longleftrightarrow>
           limit b \<le> int (length ts) \<and> Sub now (last ts) \<le> cool b"
  using fail_many [OF assms] by (auto simp: skip_result gate_poll_def)

lemma other_address_untouched:
  assumes "inv b" and "a \<noteq> a'"
  shows "view (fail now a b) a' = view b a'" "view (succeed a b) a' = view b a'"
    "view (snd (skip now a b)) a' = view b a'"
  using assms by (simp_all add: fail_view succeed_view skip_view)

end

subsection \<open>The code implements the contract\<close>

definition breaker_view :: "Breaker \<Rightarrow> string \<Rightarrow> gate" where
  "breaker_view b a =
     (case map_of (blockedAt b) a of
        None \<Rightarrow> Closed (Failures a b) | Some t \<Rightarrow> Open (Failures a b) t)"

definition breaker_inv :: "Breaker \<Rightarrow> bool" where
  "breaker_inv b \<longleftrightarrow> goMap (failures b) \<and> goMap (blockedAt b) \<and> 0 < threshold b \<and> 0 < cooldown b \<and>
     list_all (\<lambda>(a, n). 0 < n) (failures b) \<and>
     list_all (\<lambda>(a, t). threshold b \<le> Failures a b) (blockedAt b) \<and>
     list_all (\<lambda>(a, n). threshold b \<le> n \<longrightarrow> haskey (blockedAt b) a) (failures b)"

lemma breaker_invI:
  assumes "goMap (failures b)" "goMap (blockedAt b)" "0 < threshold b" "0 < cooldown b"
    and "\<And>a n. map_of (failures b) a = Some n \<Longrightarrow> 0 < n"
    and "\<And>a t. map_of (blockedAt b) a = Some t \<Longrightarrow> threshold b \<le> Failures a b"
    and "\<And>a n. map_of (failures b) a = Some n \<Longrightarrow> threshold b \<le> n \<Longrightarrow> haskey (blockedAt b) a"
  shows "breaker_inv b"
  using assms by (auto simp: breaker_inv_def list_all_iff goMap_in_set)

lemma breaker_invD:
  assumes "breaker_inv b"
  shows "goMap (failures b)" "goMap (blockedAt b)" "0 < threshold b" "0 < cooldown b"
    "\<And>a n. map_of (failures b) a = Some n \<Longrightarrow> 0 < n"
    "\<And>a t. map_of (blockedAt b) a = Some t \<Longrightarrow> threshold b \<le> Failures a b"
    "\<And>a n. map_of (failures b) a = Some n \<Longrightarrow> threshold b \<le> n \<Longrightarrow> haskey (blockedAt b) a"
  using assms by (auto simp: breaker_inv_def list_all_iff dest!: map_of_SomeD)

lemma breaker_update_commute:
  "b\<lparr>blockedAt := x, failures := y\<rparr> = b\<lparr>failures := y, blockedAt := x\<rparr>"
  by simp

lemma breaker_inv_New [korik_inv]: "breaker_inv (NewBreaker th cd)"
  by (simp add: breaker_inv_def NewBreaker_def)

lemma Failures_update [simp]:
  "Failures a (b\<lparr>blockedAt := m\<rparr>) = Failures a b"
  "Failures a (b\<lparr>failures := AList.update a' n (failures b)\<rparr>) = (if a = a' then n else Failures a b)"
  "Failures a (b\<lparr>failures := AList.delete a' (failures b)\<rparr>) = (if a = a' then 0 else Failures a b)"
  by (simp_all add: Failures_def)

lemma Failures_update2 [simp]:
  "Failures a (b\<lparr>failures := AList.update a' n (failures b), blockedAt := m\<rparr>) =
     (if a = a' then n else Failures a b)"
  "Failures a (b\<lparr>failures := AList.delete a' (failures b), blockedAt := m\<rparr>) =
     (if a = a' then 0 else Failures a b)"
  by (simp_all add: Failures_def)

lemma Failures_nonneg: "breaker_inv b \<Longrightarrow> 0 \<le> Failures a b"
  by (auto simp: Failures_def split: option.splits dest!: breaker_invD(5))

lemma breaker_inv_reset:
  assumes "breaker_inv b"
  shows "breaker_inv (b\<lparr>failures := AList.delete a (failures b), blockedAt := AList.delete a (blockedAt b)\<rparr>)"
  by (rule breaker_invI) (use breaker_invD [OF assms] in \<open>auto split: if_splits\<close>)

lemma breaker_inv_Success [korik_inv]: "breaker_inv b \<Longrightarrow> breaker_inv (RecordSuccess a b)"
  unfolding RecordSuccess_def by (rule breaker_inv_reset)

lemma breaker_inv_Skip [korik_inv]: "breaker_inv b \<Longrightarrow> breaker_inv (snd (Skip now a b))"
  using breaker_inv_reset [of b a]
  by (auto simp: Skip_def breaker_update_commute split: option.splits)

lemma breaker_inv_Failure [korik_inv]:
  assumes "breaker_inv b"
  shows "breaker_inv (snd (RecordFailure now a b))"
  using breaker_invD [OF assms] Failures_nonneg [OF assms, of a]
  by (intro breaker_invI; fastforce simp: RecordFailure_def Let_def split: if_splits)

interpretation breaker: circuit_gate Skip RecordSuccess
  "\<lambda>now a b. snd (RecordFailure now a b)" breaker_view threshold cooldown breaker_inv
proof unfold_locales
  fix b :: Breaker and now a
  assume inv: "breaker_inv b"
  show "breaker_view (snd (Skip now a b)) =
          (breaker_view b)(a := snd (gate_poll (cooldown b) now (breaker_view b a)))"
    by (auto simp: fun_eq_iff breaker_view_def Skip_def gate_poll_def breaker_update_commute
        split: option.splits)
  show "fst (Skip now a b) = fst (gate_poll (cooldown b) now (breaker_view b a))"
    by (auto simp: breaker_view_def Skip_def gate_poll_def split: option.splits)
  show "breaker_view (RecordSuccess a b) = (breaker_view b)(a := Closed 0)"
    by (auto simp: fun_eq_iff breaker_view_def RecordSuccess_def split: option.splits)
  show "breaker_view (snd (RecordFailure now a b)) =
          (breaker_view b)(a := gate_fail (threshold b) now (breaker_view b a))"
    using breaker_invD(6) [OF inv, of a]
    by (auto simp: fun_eq_iff breaker_view_def RecordFailure_def gate_fail_def Let_def
        split: option.splits)
qed (simp_all add: korik_inv, auto simp: breaker_defs Let_def split: option.splits)

subsection \<open>Properties\<close>

text \<open>
  From a fresh breaker, after any non-empty sequence of failures of one address, at times
  \<open>ts\<close>, the address is skipped at \<open>now\<close> exactly when there were at least
  \<open>threshold\<close> failures and no more than \<open>cooldown\<close> has passed since the last of
  them. The constants are the ones \<open>New\<close> puts in place of non-positive arguments.
\<close>

theorem breaker_skips_exactly_when_open:
  assumes "ts \<noteq> []"
  shows "fst (Skip now a (fold (\<lambda>t b. snd (RecordFailure t a b)) ts (NewBreaker th cd))) \<longleftrightarrow>
           (if th \<le> 0 then 5 else th) \<le> int (length ts) \<and>
           Sub now (last ts) \<le> (if cd \<le> 0 then Minute else cd)"
proof -
  have "0 < threshold (NewBreaker th cd)" "breaker_view (NewBreaker th cd) a = Closed 0"
    by (simp_all add: NewBreaker_def breaker_view_def Failures_def)
  from breaker.skip_after_failures [OF breaker_inv_New this(2) assms this(1), of now]
  show ?thesis by (simp add: NewBreaker_def)
qed

theorem breaker_skips_exactly_when_open_witness:
  "fst (Skip 30 ''10.0.0.1:9999''
     (fold (\<lambda>t b. snd (RecordFailure t ''10.0.0.1:9999'' b)) [10, 20] (NewBreaker 2 100)))"
  using breaker_skips_exactly_when_open [of "[10, 20]" 30 "''10.0.0.1:9999''" 2 100]
  by (simp add: Sub_def minDuration_def maxDuration_def)

text \<open>
  C29. Refinement: every method of the breaker acts on the abstract automaton of its own address
  and on nothing else, from every state that satisfies the invariant, which all of them keep.
\<close>

theorem breaker_refines_gate:
  assumes "breaker_inv b"
  shows "breaker_view (snd (RecordFailure now a b)) =
           (breaker_view b)(a := gate_fail (threshold b) now (breaker_view b a)) \<and>
         breaker_view (RecordSuccess a b) = (breaker_view b)(a := Closed 0) \<and>
         fst (Skip now a b) = fst (gate_poll (cooldown b) now (breaker_view b a)) \<and>
         breaker_view (snd (Skip now a b)) =
           (breaker_view b)(a := snd (gate_poll (cooldown b) now (breaker_view b a))) \<and>
         breaker_inv (snd (RecordFailure now a b)) \<and> breaker_inv (RecordSuccess a b) \<and>
         breaker_inv (snd (Skip now a b))"
  using assms
  by (simp add: breaker.fail_view breaker.succeed_view breaker.skip_view breaker.skip_result
      korik_inv)

theorem breaker_refines_gate_witness:
  "breaker_view (RecordSuccess ''x'' (NewBreaker 0 0)) =
     (breaker_view (NewBreaker 0 0))(''x'' := Closed 0)"
  using breaker_refines_gate [OF breaker_inv_New, of _ "''x''" 0 0] by blast

end
