(* ===== verification/Dedup.thy ===== *)
theory Dedup
  imports Korik_Prelude
begin

text \<open>
  The store of message IDs of \<^verbatim>\<open>src/internal/dedup/dedup.go\<close>. \<open>Add\<close> reports whether an ID is
  new and remembers it; at capacity it first drops expired IDs and then evicts the oldest ones.
  The locale \<open>replay_filter\<close> is what the node relies on: a repeated ID is refused as long as
  fewer than \<open>max\<close> other IDs came after it, within the TTL.
\<close>

subsection \<open>The store of the code\<close>

record Seen =
  ids :: "(string \<times> gotime) list"
  maxIds :: int
  seenTTL :: duration

definition NewSeen :: "int \<Rightarrow> duration \<Rightarrow> Seen" where
  "NewSeen capacity ttl =
     \<lparr>ids = [], maxIds = (if capacity \<le> 0 then 10000 else capacity),
      seenTTL = (if ttl \<le> 0 then Hour else ttl)\<rparr>"

text \<open>The scan for the oldest entry: the loop variables are \<open>oldest\<close>, \<open>oldestTime\<close>, \<open>first\<close>.\<close>

fun oldest_scan :: "(string \<times> gotime) list \<Rightarrow> string \<times> gotime \<times> bool \<Rightarrow> string \<times> gotime \<times> bool" where
  "oldest_scan [] acc = acc"
| "oldest_scan ((key, ts) # es) (oldest, oldestTime, first) =
     oldest_scan es (if first \<or> ts < oldestTime then (key, ts, False)
                     else (oldest, oldestTime, first))"

abbreviation oldest_of :: "(string \<times> gotime) list \<Rightarrow> string" where
  "oldest_of es \<equiv> fst (oldest_scan es ('''', 0, True))"

lemma oldest_scan_in:
  "fst (oldest_scan es (k, t, f)) \<in> insert k (fst ` set es)"
proof (induction es arbitrary: k t f)
  case (Cons e es)
  obtain key ts where "e = (key, ts)" by force
  then show ?case
    using Cons.IH [of key ts False] Cons.IH [of k t f]
    by (cases "f \<or> ts < t") (simp_all, blast+)
qed simp

function evict_oldest :: "int \<Rightarrow> (string \<times> gotime) list \<Rightarrow> (string \<times> gotime) list" where
  "evict_oldest cap es =
     (if cap \<le> int (length es)
      then (if oldest_of es = '''' then es else evict_oldest cap (AList.delete (oldest_of es) es))
      else es)"
  by pat_completeness auto
termination
proof (relation "measure (\<lambda>(cap, es). length es)")
  fix cap :: int and es :: "(string \<times> gotime) list"
  assume "oldest_of es \<noteq> ''''"
  then have "oldest_of es \<in> fst ` set es"
    using oldest_scan_in [of es "''''" 0 True] by simp
  then have "length (AList.delete (oldest_of es) es) < length es"
    by (auto simp: AList.delete_eq intro!: length_filter_less)
  then show "((cap, AList.delete (oldest_of es) es), cap, es) \<in> measure (\<lambda>(cap, es). length es)"
    by simp
qed simp

declare evict_oldest.simps [simp del]

definition SeenAdd :: "gotime \<Rightarrow> string \<Rightarrow> Seen \<Rightarrow> bool \<times> Seen" where
  "SeenAdd now mid s =
     (if mid = '''' then (True, s)
      else if haskey (ids s) mid then (False, s)
      else let m1 = (if maxIds s \<le> int (length (ids s))
                     then filter (\<lambda>(key, ts). \<not> seenTTL s < Sub now ts) (ids s)
                     else ids s);
               m2 = evict_oldest (maxIds s) m1
           in (True, s\<lparr>ids := AList.update mid now m2\<rparr>))"

definition Has :: "gotime \<Rightarrow> string \<Rightarrow> Seen \<Rightarrow> bool \<times> Seen" where
  "Has now mid s =
     (if mid = '''' then (False, s)
      else case map_of (ids s) mid of
             None \<Rightarrow> (False, s)
           | Some ts \<Rightarrow> if seenTTL s < Sub now ts
                        then (False, s\<lparr>ids := AList.delete mid (ids s)\<rparr>)
                        else (True, s))"

definition SeenLen :: "Seen \<Rightarrow> nat" where
  "SeenLen s = length (ids s)"

subsection \<open>Invariant\<close>

definition seen_inv :: "Seen \<Rightarrow> bool" where
  "seen_inv s \<longleftrightarrow> goMap (ids s) \<and> \<not> haskey (ids s) '''' \<and> 0 < maxIds s \<and> 0 < seenTTL s \<and>
     int (length (ids s)) \<le> maxIds s"

lemma seen_inv_New [korik_inv]: "seen_inv (NewSeen c t)"
  by (simp add: seen_inv_def NewSeen_def)

lemma oldest_of_in:
  assumes "es \<noteq> []"
  shows "oldest_of es \<in> fst ` set es"
proof -
  obtain k t es' where es: "es = (k, t) # es'"
    using assms by (cases es) auto
  then show ?thesis
    using oldest_scan_in [of es' k t False] by auto
qed

lemma evict_oldest_goMap: "goMap es \<Longrightarrow> goMap (evict_oldest cap es)"
proof (induction cap es rule: evict_oldest.induct)
  case (1 cap es)
  then show ?case
    by (subst evict_oldest.simps) simp
qed

lemma evict_oldest_sub:
  "map_of (evict_oldest cap es) k = Some v \<Longrightarrow> map_of es k = Some v"
proof (induction cap es rule: evict_oldest.induct)
  case (1 cap es)
  show ?case
    using "1.prems" "1.IH"
    by (subst (asm) evict_oldest.simps) (auto split: if_splits)
qed

lemma evict_oldest_bound:
  assumes "0 < cap" and "\<not> haskey es ''''"
  shows "int (length (evict_oldest cap es)) < cap"
  using assms
proof (induction cap es rule: evict_oldest.induct)
  case (1 cap es)
  show ?case
  proof (cases "cap \<le> int (length es)")
    case True
    then have "es \<noteq> []" using "1.prems" by auto
    then have "oldest_of es \<noteq> ''''"
      using oldest_of_in [of es] "1.prems"(2) by (force simp: map_of_eq_None_iff)
    then show ?thesis
      using True "1.IH" "1.prems" by (subst evict_oldest.simps) simp
  qed (subst evict_oldest.simps, simp)
qed

lemma seen_inv_Add [korik_inv]:
  assumes "seen_inv s"
  shows "seen_inv (snd (SeenAdd now mid s))"
proof -
  define m1 where "m1 = (if maxIds s \<le> int (length (ids s))
     then filter (\<lambda>(key, ts). \<not> seenTTL s < Sub now ts) (ids s) else ids s)"
  have m1: "goMap m1" "\<not> haskey m1 ''''"
    using assms by (auto simp: m1_def seen_inv_def map_of_filter_goMap)
  have "int (length (evict_oldest (maxIds s) m1)) < maxIds s"
    by (rule evict_oldest_bound) (use assms m1 in \<open>auto simp: seen_inv_def\<close>)
  moreover have "\<not> haskey (evict_oldest (maxIds s) m1) ''''"
    using evict_oldest_sub [of "maxIds s" m1 "''''"] m1(2)
    by (cases "map_of (evict_oldest (maxIds s) m1) ''''") auto
  ultimately show ?thesis
    using assms evict_oldest_goMap [OF m1(1), of "maxIds s"]
    by (auto simp: SeenAdd_def Let_def seen_inv_def length_update simp flip: m1_def)
qed

lemma seen_inv_Has [korik_inv]: "seen_inv s \<Longrightarrow> seen_inv (snd (Has now mid s))"
  by (auto simp: Has_def seen_inv_def length_delete split: option.splits)

subsection \<open>How long an ID is remembered\<close>

text \<open>The entries other than \<open>x\<close> that are not older than \<open>t\<close>.\<close>

definition newer_than :: "string \<Rightarrow> gotime \<Rightarrow> (string \<times> gotime) list \<Rightarrow> nat" where
  "newer_than x t es = length (filter (\<lambda>(k, ts). k \<noteq> x \<and> t \<le> ts) es)"

lemma oldest_scan_le:
  "fst (oldest_scan es (k, t, False)) = x \<Longrightarrow> goMap ((k, t) # es) \<Longrightarrow>
   map_of ((k, t) # es) x = Some tx \<Longrightarrow> \<forall>(k', ts) \<in> set ((k, t) # es). tx \<le> ts"
proof (induction es arbitrary: k t)
  case (Cons e es)
  obtain k' t' where e: "e = (k', t')" by force
  have fresh: "k \<noteq> k'" "map_of es k = None" "map_of es k' = None"
    using Cons.prems(2) by (auto simp: e goMap_def map_of_eq_None_iff)
  show ?case
  proof (cases "t' < t")
    case True
    have neq: "x \<noteq> k"
      using Cons.prems(1) oldest_scan_in [of es k' t' False] True fresh
      by (auto simp: e map_of_eq_None_iff)
    then show ?thesis
      using Cons.IH [of k' t'] Cons.prems True by (fastforce simp: e goMap_def)
  next
    case False
    have neq: "x \<noteq> k'"
      using Cons.prems(1) oldest_scan_in [of es k t False] False fresh
      by (auto simp: e map_of_eq_None_iff)
    then have "\<forall>(k', ts) \<in> set ((k, t) # es). tx \<le> ts"
      using Cons.IH [of k t] Cons.prems False by (auto simp: e goMap_def split: if_splits)
    then show ?thesis
      using False by (auto simp: e)
  qed
qed simp

lemma oldest_of_le:
  assumes "goMap es" and "oldest_of es = x" and "map_of es x = Some tx" and "(k, ts) \<in> set es"
  shows "tx \<le> ts"
proof -
  obtain k0 t0 es' where es: "es = (k0, t0) # es'"
    using assms(4) by (cases es) auto
  have "fst (oldest_scan es' (k0, t0, False)) = x"
    using assms(2) by (simp add: es)
  with assms(1,3,4) show ?thesis
    using oldest_scan_le [of es' k0 t0 x tx] unfolding es by blast
qed

lemma newer_than_all:
  assumes "goMap es" and "map_of es x = Some t" and "\<And>k ts. (k, ts) \<in> set es \<Longrightarrow> t \<le> ts"
  shows "length es = Suc (newer_than x t es)"
proof -
  have "filter (\<lambda>(k, ts). k \<noteq> x \<and> t \<le> ts) es = AList.delete x es"
    unfolding AList.delete_eq using assms(3) by (intro filter_cong) auto
  moreover have "0 < length es"
    using assms(2) by (auto dest: map_of_SomeD)
  ultimately show ?thesis
    using assms(1,2) by (simp add: newer_than_def length_delete)
qed

lemma newer_than_delete: "newer_than x t (AList.delete k es) \<le> newer_than x t es"
  unfolding newer_than_def AList.delete_eq by (induction es) auto

lemma evict_oldest_keeps:
  assumes "goMap es" and "map_of es x = Some t" and "Suc (newer_than x t es) < cap"
  shows "map_of (evict_oldest (int cap) es) x = Some t \<and>
         newer_than x t (evict_oldest (int cap) es) \<le> newer_than x t es"
  using assms
proof (induction "int cap" es rule: evict_oldest.induct)
  case (1 es)
  show ?case
  proof (cases "int cap \<le> int (length es) \<and> oldest_of es \<noteq> ''''")
    case True
    have "oldest_of es \<noteq> x"
    proof
      assume "oldest_of es = x"
      then have "length es = Suc (newer_than x t es)"
        using oldest_of_le [OF "1.prems"(1) _ "1.prems"(2)] newer_than_all [OF "1.prems"(1,2)]
        by blast
      with True "1.prems"(3) show False by simp
    qed
    then show ?thesis
      using "1.hyps" "1.prems" True newer_than_delete [of x t "oldest_of es" es]
      by (subst (1 2) evict_oldest.simps) force
  qed (subst (1 2) evict_oldest.simps, use "1.prems" in auto)
qed

lemma newer_than_filter: "newer_than x t (filter P es) \<le> newer_than x t es"
  unfolding newer_than_def by (induction es) auto

lemma newer_than_update:
  "newer_than x t (AList.update k v es) \<le> Suc (newer_than x t es)"
  unfolding newer_than_def by (induction es) auto

lemma SeenAdd_keeps:
  assumes "seen_inv s" and "map_of (ids s) x = Some t"
    and "int (Suc (newer_than x t (ids s))) < maxIds s"
    and "Sub now t \<le> seenTTL s" and "y \<noteq> x"
  shows "map_of (ids (snd (SeenAdd now y s))) x = Some t \<and>
         newer_than x t (ids (snd (SeenAdd now y s))) \<le> Suc (newer_than x t (ids s))"
proof -
  define m1 where "m1 = (if maxIds s \<le> int (length (ids s))
     then filter (\<lambda>(key, ts). \<not> seenTTL s < Sub now ts) (ids s) else ids s)"
  have m1: "goMap m1" "map_of m1 x = Some t" "newer_than x t m1 \<le> newer_than x t (ids s)"
    using assms newer_than_filter by (auto simp: m1_def seen_inv_def map_of_filter_goMap)
  have "map_of (evict_oldest (maxIds s) m1) x = Some t \<and>
        newer_than x t (evict_oldest (maxIds s) m1) \<le> newer_than x t m1"
    using evict_oldest_keeps [OF m1(1,2), of "nat (maxIds s)"] m1(3) assms(3) by simp
  then show ?thesis
    using assms(2,5) m1(3) newer_than_update [of x t y now "evict_oldest (maxIds s) m1"]
    by (simp add: SeenAdd_def Let_def flip: m1_def)
qed

subsection \<open>The contract of a replay filter\<close>

text \<open>
  The provider offers \<open>add\<close>; \<open>age s x\<close> is the time \<open>x\<close> was recorded, \<open>rank s x\<close> the
  number of other records that are not older, \<open>room s\<close> how many records fit and
  \<open>span s\<close> how long one is good for.
\<close>

locale replay_filter =
  fixes add :: "gotime \<Rightarrow> string \<Rightarrow> 's \<Rightarrow> bool \<times> 's"
    and age :: "'s \<Rightarrow> string \<Rightarrow> gotime option"
    and rank :: "'s \<Rightarrow> string \<Rightarrow> nat"
    and room :: "'s \<Rightarrow> int"
    and span :: "'s \<Rightarrow> duration"
    and inv :: "'s \<Rightarrow> bool"
  assumes add_refuses: "x \<noteq> '''' \<Longrightarrow> fst (add now x s) \<longleftrightarrow> age s x = None"
    and add_refused_state: "x \<noteq> '''' \<Longrightarrow> age s x \<noteq> None \<Longrightarrow> snd (add now x s) = s"
    and add_records: "inv s \<Longrightarrow> x \<noteq> '''' \<Longrightarrow> age s x = None \<Longrightarrow>
      age (snd (add now x s)) x = Some now"
    and add_keeps: "inv s \<Longrightarrow> age s x = Some t \<Longrightarrow> int (Suc (rank s x)) < room s \<Longrightarrow>
      Sub now t \<le> span s \<Longrightarrow> y \<noteq> x \<Longrightarrow>
      age (snd (add now y s)) x = Some t \<and> rank (snd (add now y s)) x \<le> Suc (rank s x)"
    and add_inv: "inv s \<Longrightarrow> inv (snd (add now x s))"
    and add_params [simp]: "room (snd (add now x s)) = room s" "span (snd (add now x s)) = span s"
begin

lemma keeps_many:
  assumes "inv s" and "age s x = Some t" and "x \<noteq> ''''"
    and "int (rank s x + length ys) < room s"
    and "\<forall>(now, y) \<in> set ys. Sub now t \<le> span s"
  shows "age (fold (\<lambda>(now, y) s. snd (add now y s)) ys s) x = Some t"
  using assms
proof (induction ys arbitrary: s)
  case (Cons e ys)
  obtain now y where e: "e = (now, y)" by force
  show ?case
  proof (cases "y = x")
    case True
    then show ?thesis
      using Cons.prems Cons.IH [of s] by (simp add: e add_refused_state)
  next
    case False
    have "age (snd (add now y s)) x = Some t \<and> rank (snd (add now y s)) x \<le> Suc (rank s x)"
      by (rule add_keeps) (use Cons.prems False in \<open>auto simp: e\<close>)
    then show ?thesis
      using Cons.prems Cons.IH [of "snd (add now y s)"] by (simp add: e add_inv)
  qed
qed simp

lemma second_add_refused:
  assumes "inv s" and "x \<noteq> ''''" and "fst (add t x s)"
    and "int (rank (snd (add t x s)) x + length ys) < room s"
    and "\<forall>(now, y) \<in> set ys. Sub now t \<le> span s"
  shows "\<not> fst (add now x (fold (\<lambda>(now, y) s. snd (add now y s)) ys (snd (add t x s))))"
proof -
  have "age (snd (add t x s)) x = Some t"
    using assms(1-3) by (simp add: add_refuses add_records)
  then have "age (fold (\<lambda>(now, y) s. snd (add now y s)) ys (snd (add t x s))) x = Some t"
    by (rule keeps_many [rotated]) (use assms in \<open>auto simp: add_inv\<close>)
  then show ?thesis
    using assms(2) by (simp add: add_refuses)
qed

end

definition seen_age :: "Seen \<Rightarrow> string \<Rightarrow> gotime option" where
  "seen_age s = map_of (ids s)"

definition seen_rank :: "Seen \<Rightarrow> string \<Rightarrow> nat" where
  "seen_rank s x = (case map_of (ids s) x of None \<Rightarrow> 0 | Some t \<Rightarrow> newer_than x t (ids s))"

interpretation seen: replay_filter SeenAdd seen_age seen_rank maxIds seenTTL seen_inv
proof unfold_locales
  fix s :: Seen and now t :: gotime and x y
  show "x \<noteq> '''' \<Longrightarrow> fst (SeenAdd now x s) \<longleftrightarrow> seen_age s x = None"
    by (auto simp: SeenAdd_def seen_age_def Let_def)
  show "x \<noteq> '''' \<Longrightarrow> seen_age s x \<noteq> None \<Longrightarrow> snd (SeenAdd now x s) = s"
    by (auto simp: SeenAdd_def seen_age_def Let_def)
  show "seen_inv s \<Longrightarrow> x \<noteq> '''' \<Longrightarrow> seen_age s x = None \<Longrightarrow>
      seen_age (snd (SeenAdd now x s)) x = Some now"
    by (auto simp: SeenAdd_def seen_age_def Let_def)
  show "seen_inv s \<Longrightarrow> seen_age s x = Some t \<Longrightarrow> int (Suc (seen_rank s x)) < maxIds s \<Longrightarrow>
      Sub now t \<le> seenTTL s \<Longrightarrow> y \<noteq> x \<Longrightarrow>
      seen_age (snd (SeenAdd now y s)) x = Some t \<and>
      seen_rank (snd (SeenAdd now y s)) x \<le> Suc (seen_rank s x)"
    using SeenAdd_keeps [of s x t now y] by (auto simp: seen_age_def seen_rank_def)
qed (auto simp: korik_inv, auto simp: SeenAdd_def Let_def)

subsection \<open>Properties\<close>

lemma rank_after_add:
  assumes "seen_inv s" and "x \<noteq> ''''" and "\<not> haskey (ids s) x"
    and "\<And>k ts. (k, ts) \<in> set (ids s) \<Longrightarrow> ts < t"
  shows "seen_rank (snd (SeenAdd t x s)) x = 0"
proof -
  have old: "ts < t" if "(k, ts) \<in> set (evict_oldest cap (filter P (ids s)))" for k ts cap P
  proof -
    have "goMap (filter P (ids s))" using assms(1) by (simp add: seen_inv_def)
    with that have "map_of (filter P (ids s)) k = Some ts"
      using evict_oldest_goMap evict_oldest_sub by (metis goMap_in_set)
    then show ?thesis using assms(4) by (auto dest!: map_of_SomeD)
  qed
  have zero: "newer_than x t (AList.update x t es) = 0" if "\<forall>(k, ts) \<in> set es. ts < t" for es
    using that unfolding newer_than_def by (induction es) (auto simp: filter_empty_conv)
  have "ids s = filter (\<lambda>_. True) (ids s)" by simp
  then show ?thesis
    using assms(2,3) old [of _ _ "maxIds s" "\<lambda>_. True"]
      old [of _ _ "maxIds s" "\<lambda>(key, ts). \<not> seenTTL s < Sub t ts"]
    by (auto simp: SeenAdd_def Let_def seen_rank_def intro!: zero)
qed

lemma seen_replay:
  assumes "seen_inv s" and "x \<noteq> ''''" and "fst (SeenAdd t x s)"
    and "\<forall>(k, ts) \<in> set (ids s). ts < t"
    and "int (length ys) < maxIds s" and "\<forall>(now, y) \<in> set ys. Sub now t \<le> seenTTL s"
  shows "\<not> fst (SeenAdd now x (fold (\<lambda>(now, y) s. snd (SeenAdd now y s)) ys (snd (SeenAdd t x s))))"
proof -
  have "\<not> haskey (ids s) x"
    using assms(2,3) by (simp add: seen.add_refuses seen_age_def)
  then have "seen_rank (snd (SeenAdd t x s)) x = 0"
    using assms(1,2,4) rank_after_add by blast
  then show ?thesis
    by (intro seen.second_add_refused) (use assms in auto)
qed

text \<open>
  Replay protection: once an ID was accepted at time \<open>t\<close> (later than everything recorded),
  it is refused again after any sequence of further IDs, as long as that sequence is shorter
  than the capacity and no ID of it came later than the TTL after \<open>t\<close>.
\<close>

theorem replay_is_refused:
  assumes "seen_inv s" and "x \<noteq> ''''" and "fst (SeenAdd t x s)"
    and "\<forall>(k, ts) \<in> set (ids s). ts < t"
    and "int (length ys) < maxIds s" and "\<forall>(now, y) \<in> set ys. Sub now t \<le> seenTTL s"
  shows "\<not> fst (SeenAdd now x (fold (\<lambda>(now, y) s. snd (SeenAdd now y s)) ys (snd (SeenAdd t x s))))"
  using assms by (rule seen_replay)

theorem replay_is_refused_witness:
  "\<not> fst (SeenAdd 9 ''a'' (fold (\<lambda>(now, y) s. snd (SeenAdd now y s)) [(7, ''b'')]
     (snd (SeenAdd 5 ''a'' (NewSeen 2 100)))))"
  using replay_is_refused [OF seen_inv_New, of "''a''" 5 2 100 "[(7, ''b'')]" 9]
  by (simp add: NewSeen_def SeenAdd_def Sub_def minDuration_def maxDuration_def)

text \<open>
  Bound and functional behaviour: whatever is added, the store never holds more than its
  capacity, \<open>Add\<close> answers false exactly for a recorded ID, and after it a non-empty ID
  is recorded.
\<close>

theorem seen_bounded_and_records:
  assumes "seen_inv s" and "x \<noteq> ''''"
  shows "int (SeenLen (snd (SeenAdd now x s))) \<le> maxIds s \<and>
         (fst (SeenAdd now x s) \<longleftrightarrow> \<not> haskey (ids s) x) \<and>
         haskey (ids (snd (SeenAdd now x s))) x \<and> seen_inv (snd (SeenAdd now x s))"
proof -
  have "seen_inv (snd (SeenAdd now x s))" using assms(1) by (rule seen_inv_Add)
  moreover have "haskey (ids (snd (SeenAdd now x s))) x"
    using assms(2) by (auto simp: SeenAdd_def Let_def)
  ultimately show ?thesis
    using assms(2) seen.add_params(1) [of now x s]
    by (auto simp: seen_inv_def SeenLen_def seen.add_refuses seen_age_def)
qed

theorem seen_bounded_and_records_witness:
  "int (SeenLen (snd (SeenAdd 3 ''c'' (NewSeen 1 0)))) \<le> 1"
  using seen_bounded_and_records [OF seen_inv_New, of "''c''" 3 1 0] by (simp add: NewSeen_def)

end
