(* ===== verification/Go_Float.thy ===== *)
theory Go_Float
  imports Complex_Main "HOL-Library.Log_Nat" Korik_Prelude
begin

text \<open>
  The \<open>float64\<close> arithmetic of the rate limiter. A float64 is a rational number and an
  arithmetic operation is the exact one followed by \<open>f64\<close>, rounding to the nearest number
  with a 53-bit significand, ties to even (IEEE 754 binary64, without overflow to infinity and
  without subnormals: the values of the limiter stay between 1 ns and the capacity). What the
  limiter's proofs need of rounding is the locale \<open>float_rounding\<close>; \<open>f64\<close> interprets it.
\<close>

subsection \<open>Integer division as Go has it\<close>

definition go_div :: "int \<Rightarrow> int \<Rightarrow> int" where
  "go_div a b = sgn a * sgn b * (\<bar>a\<bar> div \<bar>b\<bar>)"

definition go_mod :: "int \<Rightarrow> int \<Rightarrow> int" where
  "go_mod a b = a - b * go_div a b"

lemma go_div_nonneg: "0 \<le> a \<Longrightarrow> 0 < b \<Longrightarrow> go_div a b = a div b"
  by (cases "a = 0") (auto simp: go_div_def)

lemma go_mod_nonneg: "0 \<le> a \<Longrightarrow> 0 < b \<Longrightarrow> go_mod a b = a mod b"
  by (simp add: go_mod_def go_div_nonneg minus_mult_div_eq_mod)

subsection \<open>Rounding to 53 bits\<close>

text \<open>Round a rational to the nearest integer, ties to even.\<close>

definition round_even :: "rat \<Rightarrow> int" where
  "round_even y =
     (let k = \<lfloor>y\<rfloor>; r = y - of_int k
      in if r < 1/2 then k else if 1/2 < r then k + 1 else if even k then k else k + 1)"

text \<open>The exponent \<open>e\<close> with \<open>2^e \<le> x < 2^(e+1)\<close> of a positive rational.\<close>

definition binade :: "rat \<Rightarrow> int" where
  "binade x =
     (let (n, d) = quotient_of x; e = bitlen n - bitlen d
      in if x < 2 powi e then e - 1 else e)"

definition round_pos :: "rat \<Rightarrow> rat" where
  "round_pos x = (let e = binade x in of_int (round_even (x * 2 powi (52 - e))) * 2 powi (e - 52))"

definition f64 :: "rat \<Rightarrow> rat" where
  "f64 x = (if x = 0 then 0 else if 0 < x then round_pos x else - round_pos (- x))"

lemma round_even_bounds: "\<lfloor>y\<rfloor> \<le> round_even y" "round_even y \<le> \<lfloor>y\<rfloor> + 1"
  by (auto simp: round_even_def Let_def)

lemma round_even_int [simp]: "round_even (of_int k) = k"
  by (simp add: round_even_def)

lemma round_even_mono:
  assumes "y \<le> z"
  shows "round_even y \<le> round_even z"
proof (cases "\<lfloor>y\<rfloor> = \<lfloor>z\<rfloor>")
  case True
  with assms show ?thesis by (auto simp: round_even_def Let_def)
next
  case False
  have "\<lfloor>y\<rfloor> \<le> \<lfloor>z\<rfloor>" using assms by (rule floor_mono)
  with False have "\<lfloor>y\<rfloor> + 1 \<le> \<lfloor>z\<rfloor>" by simp
  with round_even_bounds(2) [of y] round_even_bounds(1) [of z] show ?thesis by linarith
qed

lemma round_even_error: "\<bar>of_int (round_even y) - y\<bar> \<le> (1/2 :: rat)"
proof -
  have "of_int \<lfloor>y\<rfloor> \<le> y" "y < of_int \<lfloor>y\<rfloor> + 1" by linarith+
  then show ?thesis by (auto simp: round_even_def Let_def)
qed

lemma pow2_bitlen:
  assumes "0 < n"
  shows "(2 :: rat) powi (bitlen n - 1) \<le> of_int n" "of_int n < (2 :: rat) powi bitlen n"
proof -
  have pos: "0 < bitlen n"
    using assms bitlen_nonneg [of n] bitlen_eq_zero_iff [of n] by linarith
  have b: "2 ^ nat (bitlen n - 1) \<le> n" "n < 2 ^ nat (bitlen n)"
    using bitlen_bounds [OF assms] by auto
  have "(2 :: rat) powi (bitlen n - 1) = of_int (2 ^ nat (bitlen n - 1))"
    using pos by (simp add: power_int_def)
  then show "(2 :: rat) powi (bitlen n - 1) \<le> of_int n"
    using b(1) by (simp only: of_int_le_iff)
  have "(2 :: rat) powi bitlen n = of_int (2 ^ nat (bitlen n))"
    using pos by (simp add: power_int_def)
  then show "of_int n < (2 :: rat) powi bitlen n"
    using b(2) by (simp only: of_int_less_iff)
qed

lemma binade_bounds:
  assumes "0 < x"
  shows "2 powi (binade x) \<le> x" "x < 2 powi (binade x + 1)"
proof -
  obtain n d where q: "quotient_of x = (n, d)" by force
  have d: "0 < d" using quotient_of_denom_pos [OF q] .
  have x: "x = of_int n / of_int d" using quotient_of_div [OF q] .
  have n: "0 < n" using assms d by (simp add: x zero_less_divide_iff)
  let ?e = "bitlen n - bitlen d"
  have "x < 2 powi bitlen n / 2 powi (bitlen d - 1)"
    unfolding x using pow2_bitlen [OF n] pow2_bitlen [OF d] d n
    by (intro frac_less) (auto simp: less_imp_le)
  also have "\<dots> = 2 powi (?e + 1)"
    by (simp add: power_int_diff power_int_add)
  finally have up: "x < 2 powi (?e + 1)" .
  have "2 powi (?e - 1) = (2 :: rat) powi (bitlen n - 1) / 2 powi bitlen d"
    by (simp add: power_int_diff power_int_add)
  also have "\<dots> \<le> x"
    unfolding x using pow2_bitlen [OF n] pow2_bitlen [OF d] d n
    by (intro frac_le) (auto simp: less_imp_le)
  finally have lo: "2 powi (?e - 1) \<le> x" .
  show "2 powi (binade x) \<le> x" "x < 2 powi (binade x + 1)"
    using up lo by (auto simp: binade_def q Let_def)
qed

lemma pow2_less_iff [simp]: "(2 :: rat) powi a < 2 powi b \<longleftrightarrow> a < b"
  by (meson not_less one_less_numeral_iff power_int_increasing power_int_strict_increasing
      semiring_norm(76) order_less_imp_le)

lemma binade_unique:
  assumes "2 powi e \<le> x" and "x < 2 powi (e + 1)"
  shows "binade x = e"
proof -
  have "0 < x" using assms(1) by (meson less_le_trans zero_less_numeral zero_less_power_int)
  from binade_bounds [OF this] assms have "(2 :: rat) powi e < 2 powi (binade x + 1)"
    "(2 :: rat) powi (binade x) < 2 powi (e + 1)" by linarith+
  then show ?thesis unfolding pow2_less_iff by linarith
qed

lemma pow2_pos [simp]: "(0 :: rat) < 2 powi a"
  by (simp add: zero_less_power_int)

lemma pow2_le_iff [simp]: "(2 :: rat) powi a \<le> 2 powi b \<longleftrightarrow> a \<le> b"
  by (simp flip: not_less)

lemma pow2_mult: "(2 :: rat) powi a * 2 powi b = 2 powi (a + b)"
  by (simp add: power_int_add)

lemma round_pos_scaled:
  "round_pos x * 2 powi (52 - binade x) = of_int (round_even (x * 2 powi (52 - binade x)))"
  by (simp add: round_pos_def Let_def pow2_mult mult.assoc)

lemma scaled_bounds:
  assumes "0 < x"
  shows "of_int (2 ^ 52) \<le> x * 2 powi (52 - binade x)" "x * 2 powi (52 - binade x) \<le> of_int (2 ^ 53)"
proof -
  have "2 powi binade x * 2 powi (52 - binade x) \<le> x * 2 powi (52 - binade x)"
    using binade_bounds(1) [OF assms] by (simp add: mult_right_mono)
  then show "of_int (2 ^ 52) \<le> x * 2 powi (52 - binade x)" by (simp add: pow2_mult)
  have "x * 2 powi (52 - binade x) \<le> 2 powi (binade x + 1) * 2 powi (52 - binade x)"
    using binade_bounds(2) [OF assms] by (simp add: mult_right_mono)
  then show "x * 2 powi (52 - binade x) \<le> of_int (2 ^ 53)" by (simp add: pow2_mult)
qed

lemma round_pos_bounds:
  assumes "0 < x"
  shows "2 powi binade x \<le> round_pos x" "round_pos x \<le> 2 powi (binade x + 1)"
proof -
  let ?s = "2 powi (52 - binade x) :: rat"
  have lo: "2 ^ 52 \<le> round_even (x * ?s)"
    using round_even_mono [OF scaled_bounds(1) [OF assms]] by (simp only: round_even_int)
  have hi: "round_even (x * ?s) \<le> 2 ^ 53"
    using round_even_mono [OF scaled_bounds(2) [OF assms]] by (simp only: round_even_int)
  have "2 powi binade x * ?s \<le> round_pos x * ?s"
    unfolding round_pos_scaled pow2_mult using lo
    by (metis (no_types, opaque_lifting) add.commute diff_add_cancel of_int_le_iff of_int_numeral
        of_int_power power_int_numeral)
  then show "2 powi binade x \<le> round_pos x" by simp
  have "round_pos x * ?s \<le> 2 powi (binade x + 1) * ?s"
    unfolding round_pos_scaled pow2_mult using hi
    by (simp add: of_int_le_iff [where 'a = rat, of _ "2 ^ 53", symmetric] del: of_int_le_iff)
  then show "round_pos x \<le> 2 powi (binade x + 1)" by simp
qed

lemma round_pos_positive: "0 < x \<Longrightarrow> 0 < round_pos x"
  by (meson less_le_trans pow2_pos round_pos_bounds(1))

lemma binade_mono:
  assumes "0 < x" and "x \<le> y"
  shows "binade x \<le> binade y"
proof -
  have "(2 :: rat) powi binade x < 2 powi (binade y + 1)"
    using binade_bounds(1) [OF assms(1)] binade_bounds(2) [of y] assms by linarith
  then show ?thesis unfolding pow2_less_iff by simp
qed

lemma round_pos_mono:
  assumes "0 < x" and "x \<le> y"
  shows "round_pos x \<le> round_pos y"
proof (cases "binade x = binade y")
  case True
  let ?s = "2 powi (52 - binade y) :: rat"
  have "round_even (x * ?s) \<le> round_even (y * ?s)"
    by (intro round_even_mono mult_right_mono) (use assms in auto)
  then have "round_pos x * ?s \<le> round_pos y * ?s"
    using round_pos_scaled [of x] round_pos_scaled [of y] True by simp
  then show ?thesis by simp
next
  case False
  with binade_mono [OF assms] have "(2 :: rat) powi (binade x + 1) \<le> 2 powi binade y" by simp
  with round_pos_bounds(2) [OF assms(1)] round_pos_bounds(1) [of y] assms show ?thesis
    by linarith
qed

lemma round_pos_error:
  assumes "0 < x"
  shows "\<bar>round_pos x - x\<bar> \<le> 2 powi (-53) * x"
proof -
  let ?s = "2 powi (52 - binade x) :: rat"
  have "\<bar>round_pos x - x\<bar> * ?s = \<bar>(round_pos x - x) * ?s\<bar>" by (simp add: abs_mult)
  also have "\<dots> = \<bar>of_int (round_even (x * ?s)) - x * ?s\<bar>"
    by (simp add: left_diff_distrib round_pos_scaled)
  also have "\<dots> \<le> 1/2" by (rule round_even_error)
  also have "1/2 = 2 powi (-53) * (2 powi binade x * ?s)"
    by (simp add: pow2_mult)
  also have "\<dots> \<le> 2 powi (-53) * x * ?s"
    using binade_bounds(1) [OF assms] by (simp add: mult.assoc mult_left_mono mult_right_mono)
  finally show ?thesis by simp
qed

lemma round_pos_int:
  assumes "0 < k" and "k \<le> 2 ^ 53"
  shows "round_pos (of_int k) = of_int k"
proof -
  define e where "e = binade (of_int k)"
  have e: "2 powi e \<le> (of_int k :: rat)" "(of_int k :: rat) < 2 powi (e + 1)"
    using binade_bounds [of "of_int k"] assms(1) by (simp_all add: e_def)
  have "\<exists>j. of_int k * (2 :: rat) powi (52 - e) = of_int j"
  proof (cases "e \<le> 52")
    case True
    then have "of_int k * (2 :: rat) powi (52 - e) = of_int (k * 2 ^ nat (52 - e))"
      by (simp add: power_int_def)
    then show ?thesis by blast
  next
    case False
    have "(2 :: rat) powi 53 \<le> 2 powi e" unfolding pow2_le_iff using False by simp
    with e(1) have "(2 :: rat) ^ 53 \<le> of_int k" by simp
    then have "2 ^ 53 \<le> k"
      by (metis of_int_le_iff of_int_numeral of_int_power)
    with assms(2) have k: "k = 2 ^ 53" by simp
    have "(2 :: rat) powi e \<le> 2 powi 53" using e(1) by (simp add: k)
    with False have "e = 53" unfolding pow2_le_iff by simp
    then show ?thesis by (intro exI [of _ "2 ^ 52"]) (simp add: k power_int_def)
  qed
  then obtain j where j: "of_int k * (2 :: rat) powi (52 - e) = of_int j" ..
  have "round_pos (of_int k) * 2 powi (52 - e) = of_int k * 2 powi (52 - e)"
    using round_pos_scaled [of "of_int k"] by (simp add: j flip: e_def)
  then show ?thesis by simp
qed

subsection \<open>What the clients use of rounding\<close>

locale float_rounding =
  fixes fl :: "rat \<Rightarrow> rat" and u :: rat
  assumes fl_mono: "x \<le> y \<Longrightarrow> fl x \<le> fl y"
    and fl_int: "\<bar>k\<bar> \<le> 2 ^ 53 \<Longrightarrow> fl (of_int k) = of_int k"
    and fl_error: "\<bar>fl x - x\<bar> \<le> u * \<bar>x\<bar>"
    and unit_bounds: "0 \<le> u" "u \<le> 1"
begin

lemma fl_nonneg: "0 \<le> x \<Longrightarrow> 0 \<le> fl x"
  using fl_mono [of 0 x] fl_int [of 0] by simp

lemma fl_upper: "0 \<le> x \<Longrightarrow> fl x \<le> (1 + u) * x"
  using fl_error [of x] by (simp add: algebra_simps abs_le_iff)

end

interpretation float64: float_rounding f64 "2 powi (-53)"
proof unfold_locales
  fix x y :: rat
  assume "x \<le> y"
  then show "f64 x \<le> f64 y"
    using round_pos_mono [of x y] round_pos_mono [of "- y" "- x"] round_pos_positive [of y]
      round_pos_positive [of "- x"]
    by (auto simp: f64_def)
next
  fix k :: int
  assume "\<bar>k\<bar> \<le> 2 ^ 53"
  then show "f64 (of_int k) = of_int k"
    using round_pos_int [of k] round_pos_int [of "- k"] by (auto simp: f64_def)
next
  fix x :: rat
  show "\<bar>f64 x - x\<bar> \<le> 2 powi (-53) * \<bar>x\<bar>"
  proof (cases "x < 0")
    case True
    then have "f64 x - x = - (round_pos (- x) - (- x))" by (simp add: f64_def)
    then have "\<bar>f64 x - x\<bar> = \<bar>round_pos (- x) - (- x)\<bar>" by (simp only: abs_minus_cancel)
    with True round_pos_error [of "- x"] show ?thesis by simp
  next
    case False
    then show ?thesis using round_pos_error [of x] by (auto simp: f64_def)
  qed
qed (simp_all add: power_int_def power_le_one)

end
