(* ===== verification/Ratelimit.thy ===== *)
theory Ratelimit
  imports Go_Float
begin

text \<open>
  The flood protection of \<^verbatim>\<open>src/internal/ratelimit/ratelimit.go\<close>: the general token bucket
  \<open>Limiter\<close>, the per-peer \<open>PeerGuard\<close> with its strikes, the per-IP \<open>ConnectionGuard\<close> and the file
  size check. The three guards repeat the same bucket arithmetic; \<open>bucket_step\<close> is that
  arithmetic as a reference, each guard is shown to perform it, and its bounds are proved once
  over the rounding laws of \<open>float_rounding\<close>.
\<close>

abbreviation MessageRatePerMinute :: int where "MessageRatePerMinute \<equiv> 100"
abbreviation ConnectionRatePerMinute :: int where "ConnectionRatePerMinute \<equiv> 10"
abbreviation MaxStrikesBeforeBlock :: int where "MaxStrikesBeforeBlock \<equiv> 3"
abbreviation MaxFileTransferBytes :: int where "MaxFileTransferBytes \<equiv> 2 * 1024 * 1024 * 1024"

text \<open>\<open>Duration.Seconds\<close> of package \<open>time\<close>.\<close>

definition Seconds :: "duration \<Rightarrow> rat" where
  "Seconds d = f64 (f64 (of_int (go_div d Second)) + f64 (f64 (of_int (go_mod d Second)) / 1000000000))"

subsection \<open>Limiter\<close>

record bucket =
  tokens :: rat
  last_at :: gotime

record Limiter =
  rate :: rat
  burst :: rat
  states :: "(string \<times> bucket) list"

definition NewLimiter :: "rat \<Rightarrow> rat \<Rightarrow> Limiter" where
  "NewLimiter ratePerSec cap =
     \<lparr>rate = (if ratePerSec \<le> 0 then 20 else ratePerSec),
      burst = (if cap \<le> 0 then 40 else cap), states = []\<rparr>"

definition LimiterAllow :: "gotime \<Rightarrow> string \<Rightarrow> Limiter \<Rightarrow> bool \<times> Limiter" where
  "LimiterAllow now key0 l =
     (let key = (if key0 = '''' then ''unknown'' else key0);
          b = (case map_of (states l) key of
                 None \<Rightarrow> \<lparr>tokens = burst l, last_at = now\<rparr> | Some b \<Rightarrow> b);
          elapsed = Seconds (Sub now (last_at b));
          t1 = f64 (tokens b + f64 (elapsed * rate l));
          t2 = (if burst l < t1 then burst l else t1)
      in if t2 < 1
         then (False, l\<lparr>states := AList.update key \<lparr>tokens = t2, last_at = now\<rparr> (states l)\<rparr>)
         else (True, l\<lparr>states := AList.update key \<lparr>tokens = f64 (t2 - 1), last_at = now\<rparr> (states l)\<rparr>))"

definition LimiterReset :: "string \<Rightarrow> Limiter \<Rightarrow> Limiter" where
  "LimiterReset key l = l\<lparr>states := AList.delete key (states l)\<rparr>"

subsection \<open>PeerGuard\<close>

record peerState =
  ps_tokens :: rat
  ps_last :: gotime
  strikes :: int
  ps_blocked :: bool

record PeerGuard =
  peers :: "(string \<times> peerState) list"

definition NewPeerGuard :: PeerGuard where
  "NewPeerGuard = \<lparr>peers = []\<rparr>"

text \<open>\<open>t0\<close> is the clock when a fresh entry is created, \<open>now\<close> the second reading.\<close>

definition PeerAllow :: "gotime \<Rightarrow> gotime \<Rightarrow> string \<Rightarrow> PeerGuard \<Rightarrow> bool \<times> PeerGuard" where
  "PeerAllow t0 now jid0 g =
     (let jid = (if jid0 = '''' then ''unknown'' else jid0);
          ps = (case map_of (peers g) jid of
                  None \<Rightarrow> \<lparr>ps_tokens = of_int MessageRatePerMinute, ps_last = t0,
                           strikes = 0, ps_blocked = False\<rparr>
                | Some ps \<Rightarrow> ps);
          put = (\<lambda>p. g\<lparr>peers := AList.update jid p (peers g)\<rparr>)
      in if ps_blocked ps then (False, put ps)
         else let elapsed = Seconds (Sub now (ps_last ps));
                  ratePerSec = f64 (of_int MessageRatePerMinute / 60);
                  t1 = f64 (ps_tokens ps + f64 (elapsed * ratePerSec));
                  t2 = (if of_int MessageRatePerMinute < t1 then of_int MessageRatePerMinute else t1);
                  p1 = ps\<lparr>ps_tokens := t2, ps_last := now\<rparr>
              in if t2 < 1
                 then let p2 = p1\<lparr>strikes := strikes p1 + 1\<rparr>;
                          p3 = (if MaxStrikesBeforeBlock \<le> strikes p2 then p2\<lparr>ps_blocked := True\<rparr> else p2)
                      in (False, put p3)
                 else (True, put (p1\<lparr>ps_tokens := f64 (t2 - 1)\<rparr>)))"

definition PeerIsBlocked :: "string \<Rightarrow> PeerGuard \<Rightarrow> bool" where
  "PeerIsBlocked jid g = (case map_of (peers g) jid of None \<Rightarrow> False | Some ps \<Rightarrow> ps_blocked ps)"

definition Strikes :: "string \<Rightarrow> PeerGuard \<Rightarrow> int" where
  "Strikes jid g = (case map_of (peers g) jid of None \<Rightarrow> 0 | Some ps \<Rightarrow> strikes ps)"

definition Unblock :: "string \<Rightarrow> PeerGuard \<Rightarrow> PeerGuard" where
  "Unblock jid g = g\<lparr>peers := AList.delete jid (peers g)\<rparr>"

subsection \<open>ConnectionGuard\<close>

record connState =
  cs_tokens :: rat
  cs_last :: gotime

record ConnectionGuard =
  cg_states :: "(string \<times> connState) list"

definition NewConnectionGuard :: ConnectionGuard where
  "NewConnectionGuard = \<lparr>cg_states = []\<rparr>"

definition ConnAllow :: "gotime \<Rightarrow> gotime \<Rightarrow> string \<Rightarrow> ConnectionGuard \<Rightarrow> bool \<times> ConnectionGuard" where
  "ConnAllow t0 now ip0 g =
     (let ip = (if ip0 = '''' then ''unknown'' else ip0);
          cs = (case map_of (cg_states g) ip of
                  None \<Rightarrow> \<lparr>cs_tokens = of_int ConnectionRatePerMinute, cs_last = t0\<rparr> | Some cs \<Rightarrow> cs);
          elapsed = Seconds (Sub now (cs_last cs));
          ratePerSec = f64 (of_int ConnectionRatePerMinute / 60);
          t1 = f64 (cs_tokens cs + f64 (elapsed * ratePerSec));
          t2 = (if of_int ConnectionRatePerMinute < t1 then of_int ConnectionRatePerMinute else t1)
      in if t2 < 1
         then (False, g\<lparr>cg_states := AList.update ip \<lparr>cs_tokens = t2, cs_last = now\<rparr> (cg_states g)\<rparr>)
         else (True, g\<lparr>cg_states := AList.update ip \<lparr>cs_tokens = f64 (t2 - 1), cs_last = now\<rparr> (cg_states g)\<rparr>))"

subsection \<open>File size\<close>

datatype size_error = InvalidSize int | TooLarge int

definition ValidateFileSize :: "int \<Rightarrow> size_error option" where
  "ValidateFileSize n =
     (if n < 0 then Some (InvalidSize n)
      else if MaxFileTransferBytes < n then Some (TooLarge n) else None)"

subsection \<open>The shared bucket arithmetic\<close>

definition bucket_step :: "rat \<Rightarrow> rat \<Rightarrow> gotime \<Rightarrow> rat \<times> gotime \<Rightarrow> bool \<times> rat \<times> gotime" where
  "bucket_step r cap now b =
     (let t1 = f64 (fst b + f64 (Seconds (Sub now (snd b)) * r));
          t2 = (if cap < t1 then cap else t1)
      in if t2 < 1 then (False, t2, now) else (True, f64 (t2 - 1), now))"

definition ulp :: rat where "ulp = 2 powi (-53)"

lemma ulp_bounds [simp]: "0 \<le> ulp" "ulp \<le> 1"
  using float64.unit_bounds by (simp_all add: ulp_def)

lemma f64_upper: "0 \<le> x \<Longrightarrow> f64 x \<le> (1 + ulp) * x"
  using float64.fl_upper by (simp only: ulp_def)

lemma Sub_range: "u \<le> t \<Longrightarrow> 0 \<le> Sub t u \<and> Sub t u \<le> maxDuration"
  by (auto simp: Sub_def minDuration_def maxDuration_def)

lemma Seconds_bounds:
  assumes "0 \<le> d" and "d \<le> maxDuration"
  shows "0 \<le> Seconds d" "Seconds d \<le> (1 + ulp)\<^sup>2 * (of_int d / 1000000000)"
proof -
  define q where "q = d div Second"
  define m where "m = d mod Second"
  have qm: "0 \<le> q" "q \<le> 2 ^ 53" "0 \<le> m" "m \<le> 2 ^ 53" "d = Second * q + m"
    using assms pos_mod_bound [of Second d]
    by (simp_all add: q_def m_def maxDuration_def pos_imp_zdiv_nonneg_iff)
  have S: "Seconds d = f64 (of_int q + f64 (of_int m / 1000000000))"
    using qm(1-4) float64.fl_int [of q] float64.fl_int [of m] assms(1)
    by (simp add: Seconds_def go_div_nonneg go_mod_nonneg flip: q_def m_def)
  have frac: "0 \<le> f64 (of_int m / 1000000000)"
    "f64 (of_int m / 1000000000) \<le> (1 + ulp) * (of_int m / 1000000000)"
    using qm(3) by (rule_tac float64.fl_nonneg, simp, rule_tac f64_upper, simp)
  show "0 \<le> Seconds d" unfolding S using frac qm by (intro float64.fl_nonneg) auto
  have "Seconds d \<le> (1 + ulp) * (of_int q + f64 (of_int m / 1000000000))"
    unfolding S using frac qm by (intro f64_upper) auto
  also have "\<dots> \<le> (1 + ulp) * (of_int q + (1 + ulp) * (of_int m / 1000000000))"
    using frac(2) by (intro mult_left_mono) auto
  also have "\<dots> \<le> (1 + ulp) * ((1 + ulp) * (of_int q + of_int m / 1000000000))"
    using qm by (intro mult_left_mono) (auto simp: algebra_simps)
  also have "\<dots> = (1 + ulp)\<^sup>2 * (of_int d / 1000000000)"
    by (simp add: qm(5) power2_eq_square field_simps)
  finally show "Seconds d \<le> (1 + ulp)\<^sup>2 * (of_int d / 1000000000)" .
qed

lemma refill_bounds:
  assumes "since \<le> now" and "0 \<le> r"
  shows "0 \<le> f64 (Seconds (Sub now since) * r)"
    "f64 (Seconds (Sub now since) * r) \<le> (1 + ulp) ^ 3 * r * (of_int (now - since) / 1000000000)"
proof -
  note d = Sub_range [OF assms(1)]
  have s: "0 \<le> Seconds (Sub now since)"
    "Seconds (Sub now since) \<le> (1 + ulp)\<^sup>2 * (of_int (now - since) / 1000000000)"
  proof -
    have "(of_int (Sub now since) :: rat) \<le> of_int (now - since)"
      using Sub_le [OF assms(1)] by (simp only: of_int_le_iff)
    then have "(1 + ulp)\<^sup>2 * ((of_int (Sub now since) :: rat) / 1000000000)
        \<le> (1 + ulp)\<^sup>2 * (of_int (now - since) / 1000000000)"
      by (intro mult_left_mono divide_right_mono) auto
    then show "Seconds (Sub now since) \<le> (1 + ulp)\<^sup>2 * (of_int (now - since) / 1000000000)"
      using Seconds_bounds(2) [of "Sub now since"] d by (meson order_trans)
  qed (use Seconds_bounds(1) d in blast)
  show "0 \<le> f64 (Seconds (Sub now since) * r)"
    using s assms(2) by (intro float64.fl_nonneg) simp
  have "f64 (Seconds (Sub now since) * r) \<le> (1 + ulp) * (Seconds (Sub now since) * r)"
    using s assms(2) by (intro f64_upper) simp
  also have "\<dots> \<le> (1 + ulp) * ((1 + ulp)\<^sup>2 * (of_int (now - since) / 1000000000) * r)"
    using s assms(2) by (intro mult_left_mono mult_right_mono) auto
  also have "\<dots> = (1 + ulp) ^ 3 * r * (of_int (now - since) / 1000000000)"
    by (simp add: power3_eq_cube power2_eq_square)
  finally show "f64 (Seconds (Sub now since) * r)
      \<le> (1 + ulp) ^ 3 * r * (of_int (now - since) / 1000000000)" .
qed

lemma bucket_step_bounds:
  assumes tok: "0 \<le> tok" "tok \<le> cap" and cap: "f64 cap = cap" and r: "0 \<le> r" and mono: "since \<le> now"
    and step: "bucket_step r cap now (tok, since) = (ok, tok', since')"
  shows "since' = now" "0 \<le> tok'" "tok' \<le> cap"
    "of_bool ok + tok' \<le> tok + (1 + ulp) ^ 3 * r * (of_int (now - since) / 1000000000) + 3 * ulp * cap"
proof -
  define p where "p = f64 (Seconds (Sub now since) * r)"
  define t1 where "t1 = f64 (tok + p)"
  define t2 where "t2 = (if cap < t1 then cap else t1)"
  have p: "0 \<le> p" "p \<le> (1 + ulp) ^ 3 * r * (of_int (now - since) / 1000000000)"
    using refill_bounds [OF mono r] by (simp_all add: p_def)
  have t1: "0 \<le> t1" "t1 \<le> (1 + ulp) * (tok + p)"
    using tok p by (auto simp: t1_def intro!: float64.fl_nonneg f64_upper)
  have "t2 \<le> tok + p + 2 * ulp * cap"
  proof (cases "tok + p \<le> 2 * cap")
    case True
    then have "ulp * (tok + p) \<le> ulp * (2 * cap)" by (intro mult_left_mono) auto
    then show ?thesis using t1(2) by (auto simp: t2_def algebra_simps)
  next
    case False
    then have "cap \<le> tok + p" "0 \<le> 2 * ulp * cap" using tok by auto
    then show ?thesis by (auto simp: t2_def)
  qed
  then have t2: "0 \<le> t2" "t2 \<le> cap" "t2 \<le> tok + p + 2 * ulp * cap"
    using t1 tok by (auto simp: t2_def)
  have eq: "since' = now" "tok' = (if t2 < 1 then t2 else f64 (t2 - 1))" "ok \<longleftrightarrow> \<not> t2 < 1"
    using step by (auto simp: bucket_step_def Let_def p_def t1_def t2_def split: if_splits)
  show "since' = now" by (rule eq)
  have dec: "0 \<le> f64 (t2 - 1)" "f64 (t2 - 1) \<le> cap" "f64 (t2 - 1) \<le> t2 - 1 + ulp * cap" if "\<not> t2 < 1"
  proof -
    show "0 \<le> f64 (t2 - 1)" using that by (intro float64.fl_nonneg) simp
    have "f64 (t2 - 1) \<le> f64 cap" using t2 by (intro float64.fl_mono) simp
    then show "f64 (t2 - 1) \<le> cap" by (simp add: cap)
    have "f64 (t2 - 1) \<le> (1 + ulp) * (t2 - 1)" using that by (intro f64_upper) simp
    also have "\<dots> = t2 - 1 + ulp * (t2 - 1)" by (simp add: algebra_simps)
    also have "\<dots> \<le> t2 - 1 + ulp * cap" using t2 by (intro add_left_mono mult_left_mono) auto
    finally show "f64 (t2 - 1) \<le> t2 - 1 + ulp * cap" .
  qed
  show "0 \<le> tok'" "tok' \<le> cap" using dec t2 by (auto simp: eq)
  have "0 \<le> ulp * cap" using tok by simp
  then show "of_bool ok + tok' \<le> tok + (1 + ulp) ^ 3 * r * (of_int (now - since) / 1000000000) + 3 * ulp * cap"
    using dec(3) t2(3) p(2) by (cases "t2 < 1") (auto simp: eq)
qed

lemma bucket_step_full:
  assumes "since \<le> now" and "0 \<le> r" and "f64 cap = cap" and "0 \<le> cap"
  shows "bucket_step r cap now (cap, since) = bucket_step r cap now (cap, now)"
proof -
  have "cap \<le> f64 (cap + f64 (Seconds (Sub now since) * r))" if "since \<le> now" for since
    using float64.fl_mono [of cap "cap + f64 (Seconds (Sub now since) * r)"]
      refill_bounds(1) [OF that assms(2)] assms(3) by simp
  from this [OF assms(1)] this [of now] show ?thesis
    by (auto simp: bucket_step_def Let_def)
qed

subsection \<open>The contract the three guards share\<close>

text \<open>How many of the events at the given times an operation lets through.\<close>

fun granted :: "(gotime \<Rightarrow> 'g \<Rightarrow> bool \<times> 'g) \<Rightarrow> gotime list \<Rightarrow> 'g \<Rightarrow> nat" where
  "granted f [] g = 0"
| "granted f (t # ts) g = (if fst (f t g) then 1 else 0) + granted f ts (snd (f t g))"

locale token_guard =
  fixes allow :: "gotime \<Rightarrow> string \<Rightarrow> 'g \<Rightarrow> bool \<times> 'g"
    and level :: "'g \<Rightarrow> string \<Rightarrow> (rat \<times> gotime) option"
    and shut :: "'g \<Rightarrow> string \<Rightarrow> bool"
    and speed :: "'g \<Rightarrow> rat"
    and cap :: "'g \<Rightarrow> rat"
    and inv :: "'g \<Rightarrow> bool"
  assumes allow_step: "inv g \<Longrightarrow> k \<noteq> '''' \<Longrightarrow> \<not> shut g k \<Longrightarrow>
      (fst (allow now k g), level (snd (allow now k g)) k) =
        (case bucket_step (speed g) (cap g) now
                (case level g k of None \<Rightarrow> (cap g, now) | Some b \<Rightarrow> b) of
           (ok, b) \<Rightarrow> (ok, Some b))"
    and allow_shut: "inv g \<Longrightarrow> k \<noteq> '''' \<Longrightarrow> shut g k \<Longrightarrow>
      \<not> fst (allow now k g) \<and> shut (snd (allow now k g)) k"
    and allow_inv: "inv g \<Longrightarrow> inv (snd (allow now k g))"
    and allow_params: "speed (snd (allow now k g)) = speed g" "cap (snd (allow now k g)) = cap g"
    and inv_params: "inv g \<Longrightarrow> 0 \<le> speed g \<and> 0 \<le> cap g \<and> f64 (cap g) = cap g"
begin

lemma shut_grants_nothing:
  "inv g \<Longrightarrow> k \<noteq> '''' \<Longrightarrow> shut g k \<Longrightarrow> granted (\<lambda>t. allow t k) ts g = 0"
  by (induction ts arbitrary: g) (auto simp: allow_shut allow_inv allow_params)

text \<open>
  The sustained rate. The run starts from the level in the table, or from a full bucket at the
  time of the first event when the key is new.
\<close>

lemma granted_from_level:
  assumes "inv g" and "k \<noteq> ''''"
    and "(case level g k of None \<Rightarrow> (cap g, hd ts) | Some b \<Rightarrow> b) = (tok, since)"
    and "0 \<le> tok" and "tok \<le> cap g" and "sorted (since # ts)"
  shows "of_nat (granted (\<lambda>t. allow t k) ts g)
           \<le> tok + (1 + ulp) ^ 3 * speed g * (of_int (last (since # ts) - since) / 1000000000)
               + of_nat (length ts) * (3 * ulp * cap g)"
  using assms
proof (induction ts arbitrary: g tok since)
  case (Cons t ts)
  let ?g = "snd (allow t k g)" and ?rate = "(1 + ulp) ^ 3 * speed g"
  have par: "0 \<le> speed g" "0 \<le> cap g" "f64 (cap g) = cap g" using inv_params [OF Cons.prems(1)] by auto
  have le: "since \<le> t" "t \<le> last (t # ts)" using Cons.prems(6) by auto
  show ?case
  proof (cases "shut g k")
    case True
    have "0 \<le> ?rate * (of_int (last (t # ts) - since) / 1000000000)"
      using par le by (intro mult_nonneg_nonneg) auto
    moreover have "0 \<le> of_nat (length (t # ts)) * (3 * ulp * cap g)"
      using par by (intro mult_nonneg_nonneg) auto
    ultimately show ?thesis
      using shut_grants_nothing [OF Cons.prems(1,2) True, of "t # ts"] Cons.prems(4)
      by (simp del: granted.simps)
  next
    case False
    obtain ok tok' since' where step: "bucket_step (speed g) (cap g) t (tok, since) = (ok, tok', since')"
      by (cases "bucket_step (speed g) (cap g) t (tok, since)") auto
    note b = bucket_step_bounds [OF Cons.prems(4,5) par(3,1) le(1) step]
    have "(case level g k of None \<Rightarrow> (cap g, t) | Some b \<Rightarrow> b) = (tok, since)"
      using Cons.prems(3) by (cases "level g k") auto
    then have al: "fst (allow t k g) = ok" "level ?g k = Some (tok', t)"
      using allow_step [OF Cons.prems(1,2) False, of t] step b(1) by simp_all
    have IH: "of_nat (granted (\<lambda>t. allow t k) ts ?g)
       \<le> tok' + ?rate * (of_int (last (t # ts) - t) / 1000000000) + of_nat (length ts) * (3 * ulp * cap g)"
      using Cons.IH [of ?g tok' t] Cons.prems al b(2,3) by (simp add: allow_inv allow_params)
    define X Y E where "X = ?rate * (of_int (t - since) / 1000000000)"
      and "Y = ?rate * (of_int (last (t # ts) - t) / 1000000000)" and "E = 3 * ulp * cap g"
    have "?rate * (of_int (last (since # t # ts) - since) / 1000000000) = X + Y"
      by (simp add: X_def Y_def field_simps)
    moreover have "(of_nat (granted (\<lambda>t. allow t k) (t # ts) g) :: rat) =
        of_bool ok + of_nat (granted (\<lambda>t. allow t k) ts ?g)"
      by (simp add: al(1))
    ultimately show ?thesis
      using IH b(4) unfolding X_def [symmetric] Y_def [symmetric] E_def [symmetric]
      by (simp only: length_Cons of_nat_Suc distrib_right)
  qed
qed simp

end

lemma f64_zero [simp]: "f64 0 = 0"
  by (simp add: f64_def)

lemma Seconds_0 [simp]: "Seconds 0 = 0"
  by (simp add: Seconds_def go_div_def go_mod_def)

definition limiter_level :: "Limiter \<Rightarrow> string \<Rightarrow> (rat \<times> gotime) option" where
  "limiter_level l k = map_option (\<lambda>b. (tokens b, last_at b)) (map_of (states l) k)"

definition limiter_inv :: "Limiter \<Rightarrow> bool" where
  "limiter_inv l \<longleftrightarrow> 0 \<le> rate l \<and> 0 \<le> burst l \<and> f64 (burst l) = burst l"

interpretation limiter: token_guard LimiterAllow limiter_level "\<lambda>_ _. False" rate burst limiter_inv
  by unfold_locales
    (auto simp: LimiterAllow_def limiter_level_def bucket_step_def limiter_inv_def Let_def
      split: option.splits)

definition peer_level :: "PeerGuard \<Rightarrow> string \<Rightarrow> (rat \<times> gotime) option" where
  "peer_level g k = map_option (\<lambda>p. (ps_tokens p, ps_last p)) (map_of (peers g) k)"

abbreviation peer_rate :: rat where "peer_rate \<equiv> f64 (100 / 60)"
abbreviation conn_rate :: rat where "conn_rate \<equiv> f64 (10 / 60)"

lemma rates_nonneg: "0 \<le> peer_rate" "0 \<le> conn_rate"
  by (rule float64.fl_nonneg, simp)+

lemma caps_exact [simp]: "f64 100 = 100" "f64 10 = 10"
  using float64.fl_int [of 100] float64.fl_int [of 10] by simp_all

text \<open>The entry a message of a peer is judged by, and what becomes of it.\<close>

definition peer_entry :: "gotime \<Rightarrow> string \<Rightarrow> PeerGuard \<Rightarrow> peerState" where
  "peer_entry t0 jid g = (case map_of (peers g) jid of
     None \<Rightarrow> \<lparr>ps_tokens = of_int MessageRatePerMinute, ps_last = t0, strikes = 0, ps_blocked = False\<rparr>
   | Some ps \<Rightarrow> ps)"

definition peer_next :: "gotime \<Rightarrow> peerState \<Rightarrow> bool \<times> peerState" where
  "peer_next now ps =
     (case bucket_step peer_rate 100 now (ps_tokens ps, ps_last ps) of
        (ok, tok, t) \<Rightarrow>
          (ok, ps\<lparr>ps_tokens := tok, ps_last := t,
                  strikes := (if ok then strikes ps else strikes ps + 1),
                  ps_blocked := (ps_blocked ps \<or> \<not> ok \<and> 3 \<le> strikes ps + 1)\<rparr>))"

lemma peerState_commute: "p\<lparr>ps_last := x, ps_tokens := y\<rparr> = p\<lparr>ps_tokens := y, ps_last := x\<rparr>"
  by simp

lemma peerState_open: "\<not> ps_blocked p \<Longrightarrow>
    p\<lparr>ps_tokens := x, ps_last := y, strikes := n, ps_blocked := False\<rparr> =
    p\<lparr>ps_tokens := x, ps_last := y, strikes := n\<rparr>"
  by (cases p) simp

lemma PeerAllow_eq:
  assumes "jid \<noteq> ''''"
  shows "PeerAllow t0 now jid g =
    (let ps = peer_entry t0 jid g; r = (if ps_blocked ps then (False, ps) else peer_next now ps)
     in (fst r, g\<lparr>peers := AList.update jid (snd r) (peers g)\<rparr>))"
proof -
  define t2 where "t2 = (let ps = peer_entry t0 jid g;
     t1 = f64 (ps_tokens ps + f64 (Seconds (Sub now (ps_last ps)) * peer_rate)) in if 100 < t1 then 100 else t1)"
  have "peer_next now (peer_entry t0 jid g) =
     (let ps = peer_entry t0 jid g in if t2 < 1
      then (False, ps\<lparr>ps_tokens := t2, ps_last := now, strikes := strikes ps + 1,
                      ps_blocked := (ps_blocked ps \<or> 3 \<le> strikes ps + 1)\<rparr>)
      else (True, ps\<lparr>ps_tokens := f64 (t2 - 1), ps_last := now\<rparr>))"
    by (simp add: peer_next_def bucket_step_def Let_def t2_def)
  moreover have "PeerAllow t0 now jid g =
    (let ps = peer_entry t0 jid g; put = (\<lambda>p. g\<lparr>peers := AList.update jid p (peers g)\<rparr>)
     in if ps_blocked ps then (False, put ps)
        else if t2 < 1 then (False, put (let p = ps\<lparr>ps_tokens := t2, ps_last := now, strikes := strikes ps + 1\<rparr>
                                         in if 3 \<le> strikes p then p\<lparr>ps_blocked := True\<rparr> else p))
        else (True, put (ps\<lparr>ps_tokens := f64 (t2 - 1), ps_last := now\<rparr>)))"
    unfolding PeerAllow_def Let_def if_not_P [OF assms] peer_entry_def [symmetric]
    by (simp add: t2_def Let_def peerState_commute)
  ultimately show ?thesis
    by (cases "t2 < 1"; cases "ps_blocked (peer_entry t0 jid g)") (auto simp: Let_def peerState_open)
qed

lemma peer_next_simps:
  "(fst (peer_next now ps), ps_tokens (snd (peer_next now ps)), ps_last (snd (peer_next now ps))) =
     bucket_step peer_rate 100 now (ps_tokens ps, ps_last ps)"
  by (cases "bucket_step peer_rate 100 now (ps_tokens ps, ps_last ps)") (simp add: peer_next_def)

interpretation peerguard: token_guard "\<lambda>now. PeerAllow now now" peer_level "\<lambda>g k. PeerIsBlocked k g"
  "\<lambda>_. peer_rate" "\<lambda>_. 100" "\<lambda>_. True"
proof unfold_locales
  fix g :: PeerGuard and k :: string and now
  assume k: "k \<noteq> ''''"
  have lev: "peer_level (snd (PeerAllow now now k g)) k =
      Some (ps_tokens p, ps_last p)" if "p = snd (peer_next now (peer_entry now k g))"
      "\<not> ps_blocked (peer_entry now k g)" for p
    using that by (simp add: PeerAllow_eq [OF k] peer_level_def Let_def)
  show "\<not> PeerIsBlocked k g \<Longrightarrow>
      (fst (PeerAllow now now k g), peer_level (snd (PeerAllow now now k g)) k) =
        (case bucket_step peer_rate 100 now
                (case peer_level g k of None \<Rightarrow> (100, now) | Some b \<Rightarrow> b) of (ok, b) \<Rightarrow> (ok, Some b))"
    using peer_next_simps [of now "peer_entry now k g", symmetric] lev
    by (cases "map_of (peers g) k")
      (simp_all add: PeerIsBlocked_def PeerAllow_eq [OF k] peer_entry_def peer_level_def Let_def)
  show "PeerIsBlocked k g \<Longrightarrow>
      \<not> fst (PeerAllow now now k g) \<and> PeerIsBlocked k (snd (PeerAllow now now k g))"
    by (cases "map_of (peers g) k")
      (simp_all add: PeerIsBlocked_def PeerAllow_eq [OF k] peer_entry_def Let_def)
qed (simp_all add: rates_nonneg [simplified])

definition conn_level :: "ConnectionGuard \<Rightarrow> string \<Rightarrow> (rat \<times> gotime) option" where
  "conn_level g k = map_option (\<lambda>p. (cs_tokens p, cs_last p)) (map_of (cg_states g) k)"

lemma ConnAllow_eq:
  assumes "ip \<noteq> ''''"
  shows "ConnAllow t0 now ip g =
    (let b = (case conn_level g ip of None \<Rightarrow> (10, t0) | Some b \<Rightarrow> b)
     in case bucket_step conn_rate 10 now b of (ok, tok, t) \<Rightarrow>
          (ok, g\<lparr>cg_states := AList.update ip \<lparr>cs_tokens = tok, cs_last = t\<rparr> (cg_states g)\<rparr>))"
  using assms
  by (cases "map_of (cg_states g) ip")
    (simp_all add: ConnAllow_def bucket_step_def conn_level_def Let_def)

interpretation connguard: token_guard "\<lambda>now. ConnAllow now now" conn_level "\<lambda>_ _. False"
  "\<lambda>_. conn_rate" "\<lambda>_. 10" "\<lambda>_. True"
proof unfold_locales
  fix g :: ConnectionGuard and k :: string and now
  assume k: "k \<noteq> ''''"
  show "(fst (ConnAllow now now k g), conn_level (snd (ConnAllow now now k g)) k) =
        (case bucket_step conn_rate 10 now
                (case conn_level g k of None \<Rightarrow> (10, now) | Some b \<Rightarrow> b) of (ok, b) \<Rightarrow> (ok, Some b))"
    by (simp only: ConnAllow_eq [OF k] Let_def) (simp add: conn_level_def split: prod.splits)
qed (simp_all add: rates_nonneg [simplified])

subsection \<open>A burst at one instant\<close>

lemma bucket_step_instant:
  assumes "0 \<le> k" and "k \<le> c" and "c \<le> 2 ^ 53"
  shows "bucket_step r (of_int c) t (of_int k, t) =
     (if k < 1 then (False, of_int k, t) else (True, of_int (k - 1), t))"
proof -
  have "f64 (of_int k) = of_int k" "1 \<le> k \<Longrightarrow> f64 (of_int (k - 1)) = of_int (k - 1)"
    using assms by (intro float64.fl_int; simp)+
  then show ?thesis using assms by (simp add: bucket_step_def)
qed

text \<open>The entry of a peer after \<open>n\<close> messages at time \<open>t\<close>.\<close>

definition flooded :: "nat \<Rightarrow> gotime \<Rightarrow> peerState" where
  "flooded n t = \<lparr>ps_tokens = of_int (100 - min (int n) 100), ps_last = t,
                  strikes = int (min (n - 100) 3), ps_blocked = (103 \<le> n)\<rparr>"

lemma peer_next_flooded:
  "peer_next t (flooded n t) = (n < 100, flooded (Suc n) t)" if "n < 103"
proof -
  have "bucket_step peer_rate 100 t (ps_tokens (flooded n t), ps_last (flooded n t)) =
      (if 100 - min (int n) 100 < 1 then (False, of_int (100 - min (int n) 100), t)
       else (True, of_int (100 - min (int n) 100 - 1), t))"
    using bucket_step_instant [of "100 - min (int n) 100" 100 peer_rate t] by (simp add: flooded_def)
  then show ?thesis
    using that by (cases "n < 100") (auto simp: peer_next_def flooded_def)
qed

definition peer_messages :: "nat \<Rightarrow> gotime \<Rightarrow> string \<Rightarrow> PeerGuard \<Rightarrow> PeerGuard" where
  "peer_messages n t jid = (\<lambda>g. snd (PeerAllow t t jid g)) ^^ n"

lemma peer_entry_update [simp]: "peer_entry t jid (g\<lparr>peers := AList.update jid p xs\<rparr>) = p"
  by (simp add: peer_entry_def)

lemma PeerAllow_flooded:
  assumes "jid \<noteq> ''''" and "peer_entry t jid g = flooded n t"
  shows "fst (PeerAllow t t jid g) = (n < 100)"
    "peer_entry t jid (snd (PeerAllow t t jid g)) = flooded (Suc n) t \<or> 103 \<le> n"
    "103 \<le> n \<Longrightarrow> peer_entry t jid (snd (PeerAllow t t jid g)) = flooded n t"
proof -
  have b: "ps_blocked (flooded n t) \<longleftrightarrow> 103 \<le> n" by (simp add: flooded_def)
  show "fst (PeerAllow t t jid g) = (n < 100)"
    using peer_next_flooded [of n t] b by (auto simp: PeerAllow_eq [OF assms(1)] assms(2) Let_def)
  show "peer_entry t jid (snd (PeerAllow t t jid g)) = flooded (Suc n) t \<or> 103 \<le> n"
    using peer_next_flooded [of n t] b
    by (auto simp: PeerAllow_eq [OF assms(1)] assms(2) Let_def)
  show "103 \<le> n \<Longrightarrow> peer_entry t jid (snd (PeerAllow t t jid g)) = flooded n t"
    using b by (auto simp: PeerAllow_eq [OF assms(1)] assms(2) Let_def)
qed

lemma flooded_blocked: "103 \<le> n \<Longrightarrow> 103 \<le> m \<Longrightarrow> flooded n t = flooded m t"
  by (simp add: flooded_def)

lemma PeerAllow_flooded_entry:
  assumes "jid \<noteq> ''''" and "peer_entry t jid g = flooded n t"
  shows "peer_entry t jid (snd (PeerAllow t t jid g)) = flooded (Suc n) t"
  using PeerAllow_flooded(2,3) [OF assms] flooded_blocked [of n "Suc n" t] by fastforce

lemma granted_flooded:
  assumes "jid \<noteq> ''''" and "peer_entry t jid g = flooded m t"
  shows "granted (\<lambda>t. PeerAllow t t jid) (replicate n t) g = min n (100 - m)"
  using assms(2)
proof (induction n arbitrary: g m)
  case (Suc n)
  show ?case
    using Suc.IH [OF PeerAllow_flooded_entry [OF assms(1) Suc.prems]]
      PeerAllow_flooded(1) [OF assms(1) Suc.prems] by auto
qed simp

lemma peer_messages_entry:
  "jid \<noteq> '''' \<Longrightarrow> peer_entry t jid (peer_messages n t jid NewPeerGuard) = flooded n t"
  by (induction n)
    (simp_all add: peer_messages_def PeerAllow_flooded_entry,
     simp add: peer_entry_def NewPeerGuard_def flooded_def)

lemma guard_from_entry:
  "PeerIsBlocked jid g \<longleftrightarrow> ps_blocked (peer_entry t jid g)"
  "Strikes jid g = strikes (peer_entry t jid g)"
  by (auto simp: PeerIsBlocked_def Strikes_def peer_entry_def split: option.splits)

subsection \<open>Properties\<close>

text \<open>
  C28. Over any non-decreasing sequence of calls a fresh limiter lets through at most its burst
  plus the refill rate times the elapsed seconds; the only slack is the rounding of the 64-bit
  floats (a relative error of \<open>(1 + 2\<^sup>-\<^sup>5\<^sup>3)\<^sup>3\<close> on the refill and three units of the last place of the burst
  per call).
\<close>

theorem limiter_sustained_rate:
  assumes "key \<noteq> ''''" and "0 < r" and "0 < b" and "f64 b = b" and "sorted (t # ts)"
  shows "of_nat (granted (\<lambda>now. LimiterAllow now key) (t # ts) (NewLimiter r b))
           \<le> b + (1 + ulp) ^ 3 * r * (of_int (last (t # ts) - t) / 1000000000)
               + of_nat (length (t # ts)) * (3 * ulp * b)"
proof -
  have "limiter_inv (NewLimiter r b)" "limiter_level (NewLimiter r b) key = None"
    "rate (NewLimiter r b) = r" "burst (NewLimiter r b) = b"
    using assms by (auto simp: limiter_inv_def limiter_level_def NewLimiter_def)
  with limiter.granted_from_level [of "NewLimiter r b" key "t # ts" b t] assms
  show ?thesis by simp
qed

theorem limiter_sustained_rate_witness:
  "of_nat (granted (\<lambda>now. LimiterAllow now ''alice'') [0, Second, 2 * Second] (NewLimiter 20 2))
     \<le> 2 + (1 + ulp) ^ 3 * 20 * (of_int (last [0, Second, 2 * Second] - 0) / 1000000000)
         + of_nat (length [0, Second, 2 * Second]) * (3 * ulp * 2)"
  using float64.fl_int [of 2] by (intro limiter_sustained_rate) simp_all

text \<open>
  A peer that was never seen and sends \<open>n\<close> messages at one instant gets exactly its
  \<open>MessageRatePerMinute\<close> = 100 tokens; every further message is a strike, and the peer is
  blocked from the third strike (message 103) on, with the count of strikes frozen there.
\<close>

theorem flood_strikes_and_block:
  assumes "jid \<noteq> ''''"
  shows "granted (\<lambda>t. PeerAllow t t jid) (replicate n t) NewPeerGuard = min n 100 \<and>
    Strikes jid (peer_messages n t jid NewPeerGuard) = int (min (n - 100) 3) \<and>
    (PeerIsBlocked jid (peer_messages n t jid NewPeerGuard) \<longleftrightarrow> 103 \<le> n)"
  using granted_flooded [OF assms, of t NewPeerGuard 0 n] peer_messages_entry [OF assms, of t n]
    peer_messages_entry [OF assms, of t 0]
  by (simp add: guard_from_entry [of jid _ t] flooded_def peer_messages_def)

theorem flood_strikes_and_block_witness:
  "granted (\<lambda>t. PeerAllow t t ''eve'') (replicate 150 7) NewPeerGuard = 100 \<and>
   Strikes ''eve'' (peer_messages 150 7 ''eve'' NewPeerGuard) = 3 \<and>
   PeerIsBlocked ''eve'' (peer_messages 150 7 ''eve'' NewPeerGuard)"
  using flood_strikes_and_block [of "''eve''" 150 7] by simp

text \<open>
  A blocked peer is let through at no time and by no sequence of messages, and the operator's
  \<open>Unblock\<close> lifts the block: the next message is granted whenever it comes.
\<close>

theorem blocked_until_unblocked:
  assumes "jid \<noteq> ''''" and "PeerIsBlocked jid g" and "t0 \<le> now"
  shows "granted (\<lambda>t. PeerAllow t t jid) ts g = 0 \<and>
    \<not> PeerIsBlocked jid (Unblock jid g) \<and> fst (PeerAllow t0 now jid (Unblock jid g))"
proof -
  have e: "peer_entry t0 jid (Unblock jid g) = flooded 0 t0"
    by (simp add: peer_entry_def Unblock_def flooded_def)
  have "bucket_step peer_rate 100 now (100, t0) = bucket_step peer_rate 100 now (100, now)"
    using assms(3) rates_nonneg by (intro bucket_step_full) auto
  then have "fst (peer_next now (flooded 0 t0)) = True"
    using bucket_step_instant [of 100 100 peer_rate now] by (simp add: peer_next_def flooded_def)
  then have "fst (PeerAllow t0 now jid (Unblock jid g))"
    by (simp add: PeerAllow_eq [OF assms(1)] e Let_def) (simp add: flooded_def)
  moreover have "\<not> PeerIsBlocked jid (Unblock jid g)"
    by (simp add: guard_from_entry [of jid _ t0] e) (simp add: flooded_def)
  ultimately show ?thesis
    using peerguard.shut_grants_nothing [of jid g ts] assms by simp
qed

theorem blocked_until_unblocked_witness:
  "let g = \<lparr>peers = [(''eve'', \<lparr>ps_tokens = 0, ps_last = 5, strikes = 3, ps_blocked = True\<rparr>)]\<rparr> in
   granted (\<lambda>t. PeerAllow t t ''eve'') [6, 7] g = 0 \<and>
   \<not> PeerIsBlocked ''eve'' (Unblock ''eve'' g) \<and> fst (PeerAllow 8 8 ''eve'' (Unblock ''eve'' g))"
  unfolding Let_def by (rule blocked_until_unblocked) (simp_all add: PeerIsBlocked_def)

text \<open>
  However many connections one address opens, the connection guard accepts at most ten plus
  one sixth per elapsed second of them (up to the rounding of the floats).
\<close>

theorem connections_per_address_bounded:
  assumes "ip \<noteq> ''''" and "sorted (t # ts)"
  shows "of_nat (granted (\<lambda>t. ConnAllow t t ip) (t # ts) NewConnectionGuard)
           \<le> 10 + (1 + ulp) ^ 3 * f64 (10 / 60) * (of_int (last (t # ts) - t) / 1000000000)
               + of_nat (length (t # ts)) * (3 * ulp * 10)"
  using connguard.granted_from_level [where g = NewConnectionGuard and k = ip and ts = "t # ts"
      and tok = 10 and since = t] assms
  by (simp add: conn_level_def NewConnectionGuard_def)

theorem connections_per_address_bounded_witness:
  "of_nat (granted (\<lambda>t. ConnAllow t t ''10.0.0.7'') [0, Second, Second] NewConnectionGuard)
     \<le> 10 + (1 + ulp) ^ 3 * f64 (10 / 60) * (of_int (last [0, Second, Second] - 0) / 1000000000)
         + of_nat (length [0, Second, Second]) * (3 * ulp * 10)"
  by (intro connections_per_address_bounded) simp_all

end
