(* ===== verification/Persist.thy ===== *)
theory Persist
  imports Korik_Prelude
begin

text \<open>
  What the components that keep a JSON file under \<^verbatim>\<open>~/.korik\<close> share. A file is modelled by what
  reading it gives: nothing there, an I/O error, bytes that are not the expected JSON, or a document.
  A save is modelled by how the file system reacts to it. The encoding itself
  (\<^verbatim>\<open>encoding/json\<close>) is taken at the level of documents: \<open>Doc d\<close> is a file that decodes to \<open>d\<close>. A store
  whose texts can be bytes that are not UTF-8 saves what JSON keeps of them (\<open>Go_Utf8\<close>; history and queue).

  Two contracts are stated as locales and interpreted by every store: \<open>persisted\<close> (reopening the
  file gives the state in memory) and \<open>bounded_log\<close> (appending keeps the most recent entries).
\<close>

datatype 'd stored = Absent | Unreadable | Malformed | Doc 'd

datatype 'd saving = MkdirFails | WriteFails "'d stored" | Written

fun save_doc :: "'d saving \<Rightarrow> 'd \<Rightarrow> 'd stored \<Rightarrow> bool \<times> 'd stored" where
  "save_doc MkdirFails d f = (False, f)"
| "save_doc (WriteFails torn) d f = (False, torn)"
| "save_doc Written d f = (True, Doc d)"

lemma fst_save_doc [simp]: "fst (save_doc w d f) \<longleftrightarrow> w = Written"
  by (cases w) auto

locale persisted =
  fixes reopen :: "'d stored \<Rightarrow> 'v option"
    and disk :: "'s \<Rightarrow> 'd stored"
    and view :: "'s \<Rightarrow> 'v"
    and step :: "'op \<Rightarrow> 's \<Rightarrow> 's"
    and inv :: "'s \<Rightarrow> bool"
  assumes step_inv: "inv s \<Longrightarrow> inv (step a s)"
    and step_durable: "inv s \<Longrightarrow> reopen (disk s) = Some (view s) \<Longrightarrow>
          reopen (disk (step a s)) = Some (view (step a s))"
begin

definition durable :: "'s \<Rightarrow> bool" where
  "durable s \<longleftrightarrow> inv s \<and> reopen (disk s) = Some (view s)"

lemma durable_run: "durable s \<Longrightarrow> durable (fold step ops s)"
  by (induction ops arbitrary: s) (auto simp: durable_def step_inv step_durable)

lemma reopen_run:
  assumes "inv s" and "reopen (disk s) = Some (view s)"
  shows "reopen (disk (fold step ops s)) = Some (view (fold step ops s))"
  using durable_run [of s ops] assms by (simp add: durable_def)

text \<open>One saved step is enough, whatever the file held before.\<close>

lemma reopen_run_after:
  assumes "inv (step a s)" and "reopen (disk (step a s)) = Some (view (step a s))"
  shows "reopen (disk (fold step (a # ops) s)) = Some (view (fold step (a # ops) s))"
  using reopen_run [OF assms] by simp

end

locale bounded_log =
  fixes push :: "'a \<Rightarrow> 's \<Rightarrow> 's"
    and entries :: "'s \<Rightarrow> 'e list"
    and entry :: "'a \<Rightarrow> 'e"
    and bound :: "'s \<Rightarrow> nat"
    and inv :: "'s \<Rightarrow> bool"
    and ok :: "'a \<Rightarrow> bool"
  assumes push_inv: "inv s \<Longrightarrow> ok x \<Longrightarrow> inv (push x s)"
    and push_bound: "bound (push x s) = bound s"
    and push_entries: "inv s \<Longrightarrow> ok x \<Longrightarrow> entries (push x s) = takeLast (bound s) (entries s @ [entry x])"
begin

lemma run_entries:
  assumes "inv s" and "list_all ok xs" and "length (entries s) \<le> bound s"
  shows "entries (fold push xs s) = takeLast (bound s) (entries s @ map entry xs)"
  using assms
proof (induction xs arbitrary: s)
  case (Cons x xs)
  then show ?case
    by (simp add: push_inv push_bound push_entries takeLast_takeLast_append)
qed (simp add: takeLast_all)

lemma run_bound:
  assumes "inv s" and "list_all ok xs" and "length (entries s) \<le> bound s"
  shows "length (entries (fold push xs s)) \<le> bound s"
  using run_entries [OF assms] by simp

end

end
