(* ===== verification/Go_Strings.thy ===== *)
theory Go_Strings
  imports Korik_Prelude "HOL-Library.Sublist" "HOL-Library.Word"
begin

text \<open>
  The string functions of Go that the program calls. A Go string is the list of its bytes, which is
  what \<^typ>\<open>string\<close> is here. Modelled from the packages \<^verbatim>\<open>strings\<close>, \<^verbatim>\<open>strconv\<close>, \<^verbatim>\<open>fmt\<close>,
  \<^verbatim>\<open>encoding/hex\<close> and \<^verbatim>\<open>unicode/utf8\<close>: searching, splitting, trimming, decimal and
  hexadecimal conversion and the decoding of UTF-8. The lemmas are the round trips of the
  conversions. Lower-casing of strings with bytes outside ASCII rests on the Unicode tables and is a parameter.
\<close>

type_synonym byte = "8 word"

definition byte_of :: "char \<Rightarrow> nat" where "byte_of c = of_char c"

lemma byte_of_less [simp]: "byte_of c < 256"
  by (simp add: byte_of_def)

lemma char_of_byte_of [simp]: "char_of (byte_of c) = c"
  by (simp add: byte_of_def)

lemma byte_of_char_of: "n < 256 \<Longrightarrow> byte_of (char_of n) = n"
  by (simp add: byte_of_def)

subsection \<open>Searching\<close>

definition HasPrefix :: "string \<Rightarrow> string \<Rightarrow> bool" where
  "HasPrefix s p \<longleftrightarrow> take (length p) s = p"

definition HasSuffix :: "string \<Rightarrow> string \<Rightarrow> bool" where
  "HasSuffix s p \<longleftrightarrow> length p \<le> length s \<and> drop (length s - length p) s = p"

lemma HasPrefix_prefix: "HasPrefix s p \<longleftrightarrow> prefix p s"
  by (metis HasPrefix_def append_eq_conv_conj append_take_drop_id prefix_def)

text \<open>\<open>strings.Index\<close>; -1 is \<open>None\<close>.\<close>

fun Index :: "string \<Rightarrow> string \<Rightarrow> nat option" where
  "Index [] sub = (if sub = [] then Some 0 else None)"
| "Index (c # s) sub = (if HasPrefix (c # s) sub then Some 0 else map_option Suc (Index s sub))"

definition Contains :: "string \<Rightarrow> string \<Rightarrow> bool" where
  "Contains s sub \<longleftrightarrow> Index s sub \<noteq> None"

lemma Contains_sublist: "Contains s sub \<longleftrightarrow> sublist sub s"
proof (induction s)
  case (Cons c s)
  then show ?case
    by (auto simp: Contains_def HasPrefix_prefix sublist_Cons_right)
qed (auto simp: Contains_def)

fun IndexByte :: "string \<Rightarrow> char \<Rightarrow> nat option" where
  "IndexByte [] c = None"
| "IndexByte (d # s) c = (if d = c then Some 0 else map_option Suc (IndexByte s c))"

subsection \<open>Splitting and joining\<close>

text \<open>\<open>strings.Split\<close> with a separator of one byte.\<close>

fun Split :: "string \<Rightarrow> char \<Rightarrow> string list" where
  "Split [] sep = [[]]"
| "Split (c # s) sep =
     (if c = sep then [] # Split s sep
      else case Split s sep of [] \<Rightarrow> [[c]] | w # ws \<Rightarrow> (c # w) # ws)"

fun Join :: "string list \<Rightarrow> string \<Rightarrow> string" where
  "Join [] sep = []"
| "Join [w] sep = w"
| "Join (w # v # ws) sep = w @ sep @ Join (v # ws) sep"

lemma Split_not_Nil [simp]: "Split s sep \<noteq> []"
  by (induction s) (auto split: list.splits)

lemma Join_Split: "Join (Split s sep) [sep] = s"
proof (induction s)
  case (Cons c s)
  then show ?case
    by (cases "Split s sep" rule: list.exhaust; cases "tl (Split s sep)") auto
qed simp

lemma Split_no_sep: "sep \<notin> set s \<Longrightarrow> Split s sep = [s]"
  by (induction s) auto

lemma Split_append: "sep \<notin> set w \<Longrightarrow> Split (w @ sep # s) sep = w # Split s sep"
  by (induction w) auto

lemma Split_Join:
  "ws \<noteq> [] \<Longrightarrow> list_all (\<lambda>w. sep \<notin> set w) ws \<Longrightarrow> Split (Join ws [sep]) sep = ws"
  by (induction ws "[sep]" rule: Join.induct) (auto simp: Split_no_sep Split_append)

lemma Split_parts: "w \<in> set (Split s sep) \<Longrightarrow> sep \<notin> set w"
  by (induction s arbitrary: w) (auto split: if_splits list.splits)

subsection \<open>White space\<close>

text \<open>The UTF-8 encodings of the characters of \<open>unicode.IsSpace\<close>.\<close>

definition spaces :: "string list" where
  "spaces = map (map char_of)
     ([[9], [10], [11], [12], [13], [32], [0xC2, 0x85], [0xC2, 0xA0], [0xE1, 0x9A, 0x80],
       [0xE2, 0x80, 0xA8], [0xE2, 0x80, 0xA9], [0xE2, 0x80, 0xAF], [0xE2, 0x81, 0x9F], [0xE3, 0x80, 0x80]]
      @ map (\<lambda>i. [0xE2, 0x80, 0x80 + i]) [0..<11 :: nat])"

definition leading_space :: "string \<Rightarrow> nat" where
  "leading_space s = (case find (HasPrefix s) spaces of None \<Rightarrow> 0 | Some p \<Rightarrow> length p)"

lemma leading_space_le: "leading_space s \<le> length s"
proof (cases "find (HasPrefix s) spaces")
  case (Some p)
  then have "prefix p s" by (auto simp: find_Some_iff HasPrefix_prefix)
  then show ?thesis using Some by (simp add: leading_space_def prefix_length_le)
qed (simp add: leading_space_def)

lemma leading_space_shorter: "0 < leading_space s \<Longrightarrow> length s - leading_space s < length s"
  using leading_space_le [of s] by linarith

function TrimLeft :: "string \<Rightarrow> string" where
  "TrimLeft s = (if leading_space s = 0 then s else TrimLeft (drop (leading_space s) s))"
  by auto
termination
  by (relation "measure length") (auto simp: leading_space_shorter)

declare TrimLeft.simps [simp del]

definition trailing_space :: "string \<Rightarrow> nat" where
  "trailing_space s = (case find (HasSuffix s) spaces of None \<Rightarrow> 0 | Some p \<Rightarrow> length p)"

lemma trailing_space_le: "trailing_space s \<le> length s"
  by (auto simp: trailing_space_def find_Some_iff HasSuffix_def split: option.splits)

lemma trailing_space_shorter: "0 < trailing_space s \<Longrightarrow> length s - trailing_space s < length s"
  using trailing_space_le [of s] by linarith

function TrimRight :: "string \<Rightarrow> string" where
  "TrimRight s = (if trailing_space s = 0 then s else TrimRight (take (length s - trailing_space s) s))"
  by auto
termination
  by (relation "measure length") (auto simp: trailing_space_shorter)

declare TrimRight.simps [simp del]

definition TrimSpace :: "string \<Rightarrow> string" where
  "TrimSpace s = TrimRight (TrimLeft s)"

text \<open>\<open>strings.Fields\<close>: the scan with the field read so far.\<close>

function fields_scan :: "string \<Rightarrow> string \<Rightarrow> string list" where
  "fields_scan acc [] = (if acc = [] then [] else [acc])"
| "fields_scan acc (c # s) =
     (if leading_space (c # s) = 0 then fields_scan (acc @ [c]) s
      else (if acc = [] then [] else [acc]) @ fields_scan [] (drop (leading_space (c # s)) (c # s)))"
  by pat_completeness auto
termination
  by (relation "measure (length \<circ> snd)") (use leading_space_le in \<open>auto intro: diff_less\<close>)

definition Fields :: "string \<Rightarrow> string list" where
  "Fields s = fields_scan [] s"

subsection \<open>Case\<close>

definition ascii :: "char \<Rightarrow> bool" where "ascii c \<longleftrightarrow> byte_of c < 128"

definition lower_ascii :: "char \<Rightarrow> char" where
  "lower_ascii c = (if 65 \<le> byte_of c \<and> byte_of c \<le> 90 then char_of (byte_of c + 32) else c)"

text \<open>\<open>uni\<close> is \<open>strings.ToLower\<close> on strings with a byte outside ASCII.\<close>

definition ToLower :: "(string \<Rightarrow> string) \<Rightarrow> string \<Rightarrow> string" where
  "ToLower uni s = (if list_all ascii s then map lower_ascii s else uni s)"

subsection \<open>Decimal numbers\<close>

definition digit :: "nat \<Rightarrow> char" where "digit d = char_of (48 + d)"

fun nat_digits :: "nat \<Rightarrow> string" where
  "nat_digits n = (if n < 10 then [digit n] else nat_digits (n div 10) @ [digit (n mod 10)])"

declare nat_digits.simps [simp del]

definition Itoa :: "int \<Rightarrow> string" where
  "Itoa i = (if i < 0 then CHR ''-'' # nat_digits (nat (- i)) else nat_digits (nat i))"

definition is_digit :: "char \<Rightarrow> bool" where
  "is_digit c \<longleftrightarrow> 48 \<le> byte_of c \<and> byte_of c \<le> 57"

definition digits_value :: "string \<Rightarrow> nat" where
  "digits_value s = foldl (\<lambda>v c. 10 * v + (byte_of c - 48)) 0 s"

text \<open>\<open>strconv.Atoi\<close> on a 64-bit platform.\<close>

definition Atoi :: "string \<Rightarrow> int option" where
  "Atoi s =
     (let neg = HasPrefix s ''-'';
          ds = (if neg \<or> HasPrefix s ''+'' then tl s else s);
          v = int (digits_value ds)
      in if ds = [] \<or> \<not> list_all is_digit ds then None
         else if neg then (if v \<le> 2 ^ 63 then Some (- v) else None)
         else if v < 2 ^ 63 then Some v else None)"

text \<open>\<open>fmt.Sprintf("%0wd", n)\<close> for a number that is not negative.\<close>

definition pad0 :: "nat \<Rightarrow> nat \<Rightarrow> string" where
  "pad0 w n = replicate (w - length (nat_digits n)) CHR ''0'' @ nat_digits n"

lemma is_digit_digit [simp]: "d < 10 \<Longrightarrow> is_digit (digit d)"
  by (simp add: is_digit_def digit_def byte_of_char_of)

lemma byte_of_digit [simp]: "d < 10 \<Longrightarrow> byte_of (digit d) = 48 + d"
  by (simp add: digit_def byte_of_char_of)

lemma nat_digits_all: "list_all is_digit (nat_digits n)"
  by (induction n rule: nat_digits.induct) (subst nat_digits.simps, simp)

lemma nat_digits_not_Nil [simp]: "nat_digits n \<noteq> []"
  by (subst nat_digits.simps) simp

lemma digits_value_snoc: "digits_value (s @ [c]) = 10 * digits_value s + (byte_of c - 48)"
  by (simp add: digits_value_def)

lemma digits_value_nat_digits [simp]: "digits_value (nat_digits n) = n"
proof (induction n rule: nat_digits.induct)
  case (1 n)
  then show ?case
    by (cases "n < 10"; subst nat_digits.simps) (simp_all add: digits_value_snoc, simp add: digits_value_def)
qed

lemma digits_value_zeros [simp]: "digits_value (replicate k CHR ''0'' @ s) = digits_value s"
  by (induction k) (simp_all add: digits_value_def byte_of_def)

lemma hd_nat_digits: "hd (nat_digits n) \<noteq> CHR ''-'' \<and> hd (nat_digits n) \<noteq> CHR ''+''"
proof -
  have "is_digit (hd (nat_digits n))"
    using nat_digits_all [of n] by (cases "nat_digits n") auto
  then show ?thesis by (auto simp: is_digit_def byte_of_def)
qed

lemma HasPrefix_single: "HasPrefix s [c] \<longleftrightarrow> s \<noteq> [] \<and> hd s = c"
  by (cases s) (auto simp: HasPrefix_def)

lemma Atoi_Itoa: "- (2 ^ 63) \<le> i \<Longrightarrow> i < 2 ^ 63 \<Longrightarrow> Atoi (Itoa i) = Some i"
  using hd_nat_digits [of "nat i"] nat_digits_all
  by (auto simp: Atoi_def Itoa_def Let_def HasPrefix_single)

lemma Itoa_inj: "Itoa i = Itoa j \<Longrightarrow> i = j"
proof -
  have v: "Itoa i = Itoa j \<Longrightarrow> i < 0 \<longleftrightarrow> j < 0"
    using hd_nat_digits [of "nat i"] hd_nat_digits [of "nat j"]
    by (auto simp: Itoa_def split: if_splits) (metis list.sel(1))+
  assume eq: "Itoa i = Itoa j"
  with v have "nat_digits (nat \<bar>i\<bar>) = nat_digits (nat \<bar>j\<bar>)" by (auto simp: Itoa_def split: if_splits)
  then have "nat \<bar>i\<bar> = nat \<bar>j\<bar>" by (metis digits_value_nat_digits)
  with v [OF eq] show "i = j" by (auto split: abs_split)
qed

subsection \<open>Hexadecimal\<close>

definition hex_digit :: "nat \<Rightarrow> char" where
  "hex_digit d = (if d < 10 then char_of (48 + d) else char_of (87 + d))"

definition hex_value :: "char \<Rightarrow> nat option" where
  "hex_value c =
     (let n = byte_of c in
      if 48 \<le> n \<and> n \<le> 57 then Some (n - 48)
      else if 97 \<le> n \<and> n \<le> 102 then Some (n - 87)
      else if 65 \<le> n \<and> n \<le> 70 then Some (n - 55) else None)"

definition EncodeToString :: "string \<Rightarrow> string" where
  "EncodeToString bs = concat (map (\<lambda>b. [hex_digit (byte_of b div 16), hex_digit (byte_of b mod 16)]) bs)"

fun DecodeString :: "string \<Rightarrow> string option" where
  "DecodeString [] = Some []"
| "DecodeString [c] = None"
| "DecodeString (c # d # s) =
     (case (hex_value c, hex_value d) of
        (Some h, Some l) \<Rightarrow> map_option (\<lambda>r. char_of (16 * h + l) # r) (DecodeString s)
      | _ \<Rightarrow> None)"

lemma hex_value_digit [simp]: "d < 16 \<Longrightarrow> hex_value (hex_digit d) = Some d"
  by (auto simp: hex_value_def hex_digit_def Let_def byte_of_char_of)

lemma DecodeString_Encode [simp]: "DecodeString (EncodeToString bs) = Some bs"
proof (induction bs)
  case (Cons b bs)
  have "byte_of b div 16 < 16" "16 * (byte_of b div 16) + byte_of b mod 16 = byte_of b"
    using byte_of_less [of b] by (linarith, simp)
  then show ?case using Cons by (simp add: EncodeToString_def)
qed (simp add: EncodeToString_def)

lemma length_EncodeToString [simp]: "length (EncodeToString bs) = 2 * length bs"
  by (induction bs) (simp_all add: EncodeToString_def)

lemma hex_value_less: "hex_value c = Some n \<Longrightarrow> n < 16"
  by (auto simp: hex_value_def Let_def split: if_splits)

lemma length_DecodeString: "DecodeString s = Some bs \<Longrightarrow> length s = 2 * length bs"
  by (induction s arbitrary: bs rule: DecodeString.induct) (auto split: option.splits)

lemma DecodeString_Some_iff:
  "(\<exists>bs. DecodeString s = Some bs) \<longleftrightarrow> even (length s) \<and> list_all (\<lambda>c. hex_value c \<noteq> None) s"
  by (induction s rule: DecodeString.induct) (auto split: option.splits)

lemma Join_sublist: "w \<in> set ws \<Longrightarrow> sublist w (Join ws sep)"
proof (induction ws sep rule: Join.induct)
  case (3 v w' ws sep)
  then show ?case
    by (auto intro: sublist_appendI) (metis append_assoc sublist_append_leftI sublist_order.order_trans)+
qed auto

lemma Split_sublist: "w \<in> set (Split s sep) \<Longrightarrow> sublist w s"
  using Join_sublist [of w "Split s sep" "[sep]"] by (simp add: Join_Split)

subsection \<open>White space and words\<close>

lemma space_bytes:
  assumes "p \<in> set spaces"
  shows "p \<noteq> []" "byte_of (hd p) \<in> {9, 10, 11, 12, 13, 32, 0xC2, 0xE1, 0xE2, 0xE3}"
    "byte_of (hd p) < 128 \<Longrightarrow> length p = 1"
  using assms by (auto simp: spaces_def byte_of_char_of)

lemma leading_space_none:
  assumes "byte_of c \<notin> {9, 10, 11, 12, 13, 32, 0xC2, 0xE1, 0xE2, 0xE3}"
  shows "leading_space (c # s) = 0"
proof -
  have "\<not> HasPrefix (c # s) p" if "p \<in> set spaces" for p
    using space_bytes(1,2) [OF that] assms by (cases p) (auto simp: HasPrefix_def)
  then have "find (HasPrefix (c # s)) spaces = None" by (auto simp: find_None_iff)
  then show ?thesis by (simp add: leading_space_def)
qed

lemma leading_space_blank: "leading_space (CHR '' '' # s) = 1"
proof -
  have "char_of (32 :: nat) = CHR '' ''" using char_of_byte_of [of "CHR '' ''"] by (simp add: byte_of_def)
  then have mem: "'' '' \<in> set spaces" by (simp add: spaces_def)
  have "find (HasPrefix (CHR '' '' # s)) spaces \<noteq> None"
    using mem by (auto simp: find_None_iff HasPrefix_def)
  then obtain p where p: "find (HasPrefix (CHR '' '' # s)) spaces = Some p" by blast
  then have mem: "p \<in> set spaces" and pre: "prefix p (CHR '' '' # s)"
    by (auto simp: find_Some_iff HasPrefix_prefix)
  have "hd p = CHR '' ''"
    using pre space_bytes(1) [OF mem] by (auto simp: prefix_Cons)
  then have "length p = 1"
    using space_bytes(3) [OF mem] by (simp add: byte_of_def)
  then show ?thesis using p by (simp add: leading_space_def)
qed

text \<open>A word that begins no white space anywhere.\<close>

definition solid :: "string \<Rightarrow> bool" where
  "solid w \<longleftrightarrow> w \<noteq> [] \<and> list_all (\<lambda>c. byte_of c \<notin> {9, 10, 11, 12, 13, 32, 0xC2, 0xE1, 0xE2, 0xE3}) w"

lemma fields_scan_solid:
  "list_all (\<lambda>c. byte_of c \<notin> {9, 10, 11, 12, 13, 32, 0xC2, 0xE1, 0xE2, 0xE3}) w \<Longrightarrow>
    fields_scan acc (w @ s) = fields_scan (acc @ w) s"
  by (induction w arbitrary: acc) (simp_all add: leading_space_none)

lemma Fields_Join: "list_all solid ws \<Longrightarrow> ws \<noteq> [] \<Longrightarrow> Fields (Join ws '' '') = ws"
  unfolding Fields_def
proof (induction ws "'' ''" rule: Join.induct)
  case (2 w)
  then show ?case using fields_scan_solid [of w "[]" "[]"] by (simp add: solid_def)
next
  case (3 w v ws)
  have "fields_scan [] (w @ '' '' @ Join (v # ws) '' '') = fields_scan w (CHR '' '' # Join (v # ws) '' '')"
    using 3 fields_scan_solid [of w "[]"] by (simp add: solid_def del: fields_scan.simps)
  then show ?case using 3 by (simp add: leading_space_blank solid_def)
qed simp

lemma pad0_digits: "list_all is_digit (pad0 w n)"
  using nat_digits_all by (auto simp: pad0_def list_all_iff is_digit_def byte_of_def)

lemma digits_solid: "list_all is_digit w \<Longrightarrow> w \<noteq> [] \<Longrightarrow> solid w"
  by (auto simp: solid_def list_all_iff is_digit_def)

lemma pad0_inj [simp]: "pad0 k n = pad0 k m \<longleftrightarrow> n = m"
  by (metis digits_value_nat_digits digits_value_zeros pad0_def)

subsection \<open>Trimming\<close>

abbreviation no_space :: "string \<Rightarrow> bool" where
  "no_space w \<equiv> list_all (\<lambda>c. byte_of c \<notin> {9, 10, 11, 12, 13, 32, 0xC2, 0xE1, 0xE2, 0xE3}) w"

lemma plain_no_space: "no_space s \<Longrightarrow> p \<in> set spaces \<Longrightarrow> \<not> sublist p s"
  using space_bytes(1,2) [of p] by (cases p) (auto simp: sublist_def list_all_iff)

lemma TrimSpace_plain: "no_space s \<Longrightarrow> TrimSpace s = s"
proof -
  assume s: "no_space s"
  have "leading_space s = 0"
  proof -
    have "\<not> HasPrefix s p" if "p \<in> set spaces" for p
      using plain_no_space [OF s that] by (auto simp: HasPrefix_prefix)
    then show ?thesis by (auto simp: leading_space_def find_Some_iff split: option.splits)
  qed
  moreover have "trailing_space s = 0"
  proof -
    have "\<not> HasSuffix s p" if "p \<in> set spaces" for p
      using plain_no_space [OF s that] by (metis HasSuffix_def sublist_drop)
    then show ?thesis by (auto simp: trailing_space_def find_Some_iff split: option.splits)
  qed
  ultimately show ?thesis by (simp add: TrimSpace_def TrimLeft.simps [of s] TrimRight.simps [of s])
qed

lemma ascii_space:
  assumes "list_all ascii s" and "p \<in> set spaces" and "sublist p s"
  obtains c where "p = [c]" "byte_of c \<in> {9, 10, 11, 12, 13, 32}"
proof -
  obtain c w where p: "p = c # w" using space_bytes(1) [OF assms(2)] by (cases p) auto
  then have "c \<in> set s" using assms(3) by (auto simp: sublist_def)
  then have "byte_of c < 128" using assms(1) by (auto simp: list_all_iff ascii_def)
  then show ?thesis using that space_bytes(2,3) [OF assms(2)] p by auto
qed

lemma filter_TrimLeft:
  assumes "list_all ascii s" and "\<forall>c\<in>set s. P c \<longrightarrow> byte_of c \<notin> {9, 10, 11, 12, 13, 32}"
  shows "filter P (TrimLeft s) = filter P s \<and> set (TrimLeft s) \<subseteq> set s"
  using assms
proof (induction s rule: TrimLeft.induct)
  case (1 s)
  show ?case
  proof (cases "leading_space s = 0")
    case False
    then obtain p where p: "find (HasPrefix s) spaces = Some p" by (auto simp: leading_space_def split: option.splits)
    then have "p \<in> set spaces" "prefix p s" by (auto simp: find_Some_iff HasPrefix_prefix)
    then obtain c where c: "p = [c]" "byte_of c \<in> {9, 10, 11, 12, 13, 32}"
      using ascii_space [OF 1(2)] by blast
    obtain t where s: "s = c # t" using \<open>prefix p s\<close> c(1) by (auto simp: prefix_def)
    have t: "drop (leading_space s) s = t" using p c(1) s by (simp add: leading_space_def)
    have "TrimLeft s = TrimLeft t" using False t by (simp add: TrimLeft.simps [of s])
    moreover have "\<not> P c" using 1(3) c(2) s by auto
    ultimately show ?thesis
      using 1(1) [OF False, unfolded t] 1(2,3) s by auto
  qed (simp add: TrimLeft.simps [of s])
qed

lemma filter_TrimRight:
  assumes "list_all ascii s" and "\<forall>c\<in>set s. P c \<longrightarrow> byte_of c \<notin> {9, 10, 11, 12, 13, 32}"
  shows "filter P (TrimRight s) = filter P s"
  using assms
proof (induction s rule: TrimRight.induct)
  case (1 s)
  show ?case
  proof (cases "trailing_space s = 0")
    case False
    then obtain p where p: "find (HasSuffix s) spaces = Some p" by (auto simp: trailing_space_def split: option.splits)
    then have sp: "p \<in> set spaces" "HasSuffix s p" by (auto simp: find_Some_iff)
    then have "sublist p s" by (metis HasSuffix_def sublist_drop)
    then obtain c where c: "p = [c]" "byte_of c \<in> {9, 10, 11, 12, 13, 32}"
      using ascii_space [OF 1(2) sp(1)] by blast
    obtain t where s: "s = t @ [c]"
      using sp(2) c(1) by (metis HasSuffix_def append_take_drop_id)
    have t: "take (length s - trailing_space s) s = t" using p c(1) s by (simp add: trailing_space_def)
    have "TrimRight s = TrimRight t" using False t by (simp add: TrimRight.simps [of s])
    moreover have "\<not> P c" using 1(3) c(2) s by auto
    ultimately show ?thesis
      using 1(1) [OF False, unfolded t] 1(2,3) s by auto
  qed (simp add: TrimRight.simps [of s])
qed

lemma filter_TrimSpace:
  assumes "list_all ascii s" and "\<forall>c\<in>set s. P c \<longrightarrow> byte_of c \<notin> {9, 10, 11, 12, 13, 32}"
  shows "filter P (TrimSpace s) = filter P s"
  using filter_TrimLeft [OF assms] filter_TrimRight [of "TrimLeft s" P] assms
  by (auto simp: TrimSpace_def list_all_iff)

text \<open>A text whose first and last bytes are no part of white space.\<close>

lemma space_last: "p \<in> set spaces \<Longrightarrow> byte_of (last p) \<in> {9, 10, 11, 12, 13, 32} \<or> 128 \<le> byte_of (last p)"
  by (auto simp: spaces_def byte_of_char_of)

lemma TrimSpace_ends:
  assumes "s \<noteq> []" and "byte_of (hd s) \<notin> {9, 10, 11, 12, 13, 32, 0xC2, 0xE1, 0xE2, 0xE3}"
    and "byte_of (last s) \<notin> {9, 10, 11, 12, 13, 32}" and "byte_of (last s) < 128"
  shows "TrimSpace s = s"
proof -
  have "leading_space s = 0" using assms(1,2) leading_space_none by (cases s) auto
  moreover have "\<not> HasSuffix s p" if "p \<in> set spaces" for p
  proof
    assume "HasSuffix s p"
    then obtain t where "s = t @ p" by (metis HasSuffix_def append_take_drop_id)
    then have "last s = last p" using space_bytes(1) [OF that] by simp
    then show False using space_last [OF that] assms(3,4) by auto
  qed
  then have "trailing_space s = 0" by (auto simp: trailing_space_def find_Some_iff split: option.splits)
  ultimately show ?thesis by (simp add: TrimSpace_def TrimLeft.simps [of s] TrimRight.simps [of s])
qed

end
