(* ===== verification/Go_Utf8.thy ===== *)
theory Go_Utf8
  imports Go_Strings
begin

text \<open>
  UTF-8 as \<^verbatim>\<open>unicode/utf8\<close> decodes it, and what \<^verbatim>\<open>encoding/json\<close> makes of a string. A string of Go is any
  sequence of bytes; the encoder writes the replacement character U+FFFD for every byte that starts no
  valid encoding, so the string that is read back is \<open>json_text\<close> of the one that was written.
\<close>

text \<open>One step of the UTF-8 decoder: the code point and what follows it.\<close>

definition cont :: "nat \<Rightarrow> nat \<Rightarrow> nat \<Rightarrow> bool" where "cont lo hi b \<longleftrightarrow> lo \<le> b \<and> b \<le> hi"

fun decode_rune :: "nat list \<Rightarrow> (nat \<times> nat list) option" where
  "decode_rune [] = None"
| "decode_rune (b # bs) =
     (if b < 0x80 then Some (b, bs)
      else if cont 0xC2 0xDF b then
        (case bs of c # r \<Rightarrow> if cont 0x80 0xBF c then Some ((b - 0xC0) * 64 + (c - 0x80), r) else None
                  | _ \<Rightarrow> None)
      else if cont 0xE0 0xEF b then
        (case bs of c # d # r \<Rightarrow>
           if cont (if b = 0xE0 then 0xA0 else 0x80) (if b = 0xED then 0x9F else 0xBF) c \<and> cont 0x80 0xBF d
           then Some (((b - 0xE0) * 64 + (c - 0x80)) * 64 + (d - 0x80), r) else None
         | _ \<Rightarrow> None)
      else if cont 0xF0 0xF4 b then
        (case bs of c # d # e # r \<Rightarrow>
           if cont (if b = 0xF0 then 0x90 else 0x80) (if b = 0xF4 then 0x8F else 0xBF) c \<and>
              cont 0x80 0xBF d \<and> cont 0x80 0xBF e
           then Some ((((b - 0xF0) * 64 + (c - 0x80)) * 64 + (d - 0x80)) * 64 + (e - 0x80), r) else None
         | _ \<Rightarrow> None)
      else None)"

lemma decode_rune_shorter: "decode_rune bs = Some (r, rest) \<Longrightarrow> length rest < length bs"
  by (cases bs) (auto split: if_splits list.splits)

text \<open>The code points of a valid string; \<open>None\<close> is \<open>!utf8.ValidString\<close>.\<close>

function runes :: "nat list \<Rightarrow> nat list option" where
  "runes bs =
     (if bs = [] then Some []
      else case decode_rune bs of None \<Rightarrow> None | Some (r, rest) \<Rightarrow> map_option ((#) r) (runes rest))"
  by auto
termination
  by (relation "measure length") (auto simp: decode_rune_shorter)

declare runes.simps [simp del]

definition ValidString :: "string \<Rightarrow> bool" where
  "ValidString s \<longleftrightarrow> runes (map byte_of s) \<noteq> None"

subsection \<open>Strings through JSON\<close>

function json_bytes :: "nat list \<Rightarrow> nat list" where
  "json_bytes bs =
     (case bs of
        [] \<Rightarrow> []
      | b # r \<Rightarrow> (case decode_rune bs of
                   None \<Rightarrow> 0xEF # 0xBF # 0xBD # json_bytes r
                 | Some (c, rest) \<Rightarrow> take (length bs - length rest) bs @ json_bytes rest))"
  by auto
termination
  by (relation "measure length") (auto simp del: decode_rune.simps dest: decode_rune_shorter)

declare json_bytes.simps [simp del]

definition json_text :: "string \<Rightarrow> string" where
  "json_text s = map char_of (json_bytes (map byte_of s))"

lemma decode_rune_suffix: "decode_rune bs = Some (c, rest) \<Longrightarrow> \<exists>pre. bs = pre @ rest"
  by (cases bs) (auto split: if_splits list.splits)

lemma decode_rune_split:
  assumes "decode_rune bs = Some (c, rest)"
  shows "take (length bs - length rest) bs @ rest = bs"
proof -
  obtain pre where "bs = pre @ rest" using decode_rune_suffix [OF assms] by blast
  then show ?thesis by simp
qed

lemma json_bytes_longer: "length bs \<le> length (json_bytes bs)"
proof (induction bs rule: json_bytes.induct)
  case (1 bs)
  show ?case
  proof (cases bs)
    case (Cons b r)
    show ?thesis
    proof (cases "decode_rune bs")
      case None
      then show ?thesis using 1(1) [OF Cons] Cons by (subst json_bytes.simps) (simp del: decode_rune.simps)
    next
      case (Some p)
      then obtain c rest where p: "decode_rune bs = Some (c, rest)" by (cases p) auto
      then have "length rest \<le> length (json_bytes rest)" using 1(2) Cons by blast
      then show ?thesis
        using p Cons decode_rune_shorter [OF p] by (subst json_bytes.simps) (simp del: decode_rune.simps)
    qed
  qed simp
qed

text \<open>A text survives exactly when it is valid UTF-8; otherwise it gets longer.\<close>

lemma json_bytes_valid: "json_bytes bs = bs \<longleftrightarrow> runes bs \<noteq> None"
proof (induction bs rule: json_bytes.induct)
  case (1 bs)
  show ?case
  proof (cases bs)
    case Nil
    then show ?thesis by (simp add: json_bytes.simps runes.simps)
  next
    case (Cons b r)
    show ?thesis
    proof (cases "decode_rune bs")
      case None
      have "length bs < length (json_bytes bs)"
        using None Cons json_bytes_longer [of r] by (subst json_bytes.simps) (simp del: decode_rune.simps)
      moreover have "runes bs = None" using None Cons by (subst runes.simps) (simp del: decode_rune.simps)
      ultimately show ?thesis by auto
    next
      case (Some p)
      then obtain c rest where p: "decode_rune bs = Some (c, rest)" by (cases p) auto
      have "json_bytes bs = take (length bs - length rest) bs @ json_bytes rest"
        using p Cons by (subst json_bytes.simps) (simp del: decode_rune.simps)
      then have "json_bytes bs = bs \<longleftrightarrow> json_bytes rest = rest"
        using decode_rune_split [OF p] by (metis same_append_eq)
      moreover have "runes bs \<noteq> None \<longleftrightarrow> runes rest \<noteq> None"
        using p Cons by (subst runes.simps) (simp del: decode_rune.simps)
      moreover have "json_bytes rest = rest \<longleftrightarrow> runes rest \<noteq> None" using 1(2) p Cons by blast
      ultimately show ?thesis by blast
    qed
  qed
qed

lemma json_bytes_small: "\<forall>b \<in> set bs. b < 256 \<Longrightarrow> \<forall>b \<in> set (json_bytes bs). b < 256"
proof (induction bs rule: json_bytes.induct)
  case (1 bs)
  show ?case
  proof (cases bs)
    case (Cons b r)
    show ?thesis
    proof (cases "decode_rune bs")
      case None
      then show ?thesis using 1 Cons by (subst json_bytes.simps) (simp del: decode_rune.simps)
    next
      case (Some p)
      then obtain c rest where p: "decode_rune bs = Some (c, rest)" by (cases p) auto
      have "set (take (length bs - length rest) bs) \<subseteq> set bs" "set rest \<subseteq> set bs"
        using decode_rune_suffix [OF p] by (auto dest: in_set_takeD)
      then show ?thesis
        using p Cons 1(2) [OF Cons p] 1(3) by (subst json_bytes.simps) (auto simp del: decode_rune.simps)
    qed
  qed (simp add: json_bytes.simps)
qed

lemma json_text_eq: "json_text s = s \<longleftrightarrow> ValidString s"
proof -
  have "map byte_of (json_text s) = json_bytes (map byte_of s)"
    using json_bytes_small [of "map byte_of s"] by (auto simp: json_text_def byte_of_char_of intro: map_idI)
  moreover have "inj byte_of" by (rule inj_on_inverseI [where g = char_of]) simp
  ultimately show ?thesis using json_bytes_valid [of "map byte_of s"] by (metis ValidString_def inj_map_eq_map)
qed

lemma json_text_valid [simp]: "ValidString s \<Longrightarrow> json_text s = s"
  by (simp add: json_text_eq)

end
