(* ===== verification/Msg_Queue.thy ===== *)
theory Msg_Queue
  imports Persist Go_Utf8
begin

text \<open>
  The offline queue of \<^verbatim>\<open>src/internal/queue/queue.go\<close>: the messages that wait for a peer, in the order
  they were queued, at most 1000 of them for all peers together, rewritten to disk after every change. As in the history, what
  the file gives when it is read has been through JSON.
\<close>

record OutgoingMessage =
  om_ID :: string
  om_ToJID :: string
  om_Body :: string
  om_CreatedAt :: gotime
  om_Attempts :: int

record Queue =
  q_items :: "OutgoingMessage list"
  q_file :: "OutgoingMessage list stored"

abbreviation MaxMessages :: nat where "MaxMessages \<equiv> 1000"

definition NewQueue :: "OutgoingMessage list stored \<Rightarrow> Queue" where
  "NewQueue f = \<lparr>q_items = (case f of Doc ms \<Rightarrow> ms | _ \<Rightarrow> []), q_file = f\<rparr>"

definition json_outgoing :: "OutgoingMessage \<Rightarrow> OutgoingMessage" where
  "json_outgoing m =
     m\<lparr>om_ID := json_text (om_ID m), om_ToJID := json_text (om_ToJID m), om_Body := json_text (om_Body m)\<rparr>"

definition saveLocked :: "OutgoingMessage list saving \<Rightarrow> Queue \<Rightarrow> bool \<times> Queue" where
  "saveLocked w q =
     (let r = save_doc w (map json_outgoing (q_items q)) (q_file q) in (fst r, q\<lparr>q_file := snd r\<rparr>))"

text \<open>\<open>fmt\<close> is the rendering of a time by \<^verbatim>\<open>Format(time.RFC3339Nano)\<close> in the local time zone.\<close>

definition with_id :: "(gotime \<Rightarrow> string) \<Rightarrow> OutgoingMessage \<Rightarrow> OutgoingMessage" where
  "with_id fmt msg =
     (if om_ID msg = '''' then msg\<lparr>om_ID := om_ToJID msg @ '':'' @ fmt (om_CreatedAt msg)\<rparr> else msg)"

definition Enqueue ::
    "(gotime \<Rightarrow> string) \<Rightarrow> OutgoingMessage list saving \<Rightarrow> OutgoingMessage \<Rightarrow> Queue \<Rightarrow> bool \<times> Queue" where
  "Enqueue fmt w msg0 q =
     (let msg = with_id fmt msg0;
          items = q_items q @ [msg];
          items' = (if MaxMessages < length items then drop (length items - MaxMessages) items else items)
      in saveLocked w (q\<lparr>q_items := items'\<rparr>))"

definition Pending :: "Queue \<Rightarrow> OutgoingMessage list" where
  "Pending q = q_items q"

definition Remove :: "OutgoingMessage list saving \<Rightarrow> string \<Rightarrow> Queue \<Rightarrow> bool \<times> Queue" where
  "Remove w mid q = saveLocked w (q\<lparr>q_items := filter (\<lambda>m. om_ID m \<noteq> mid) (q_items q)\<rparr>)"

definition MarkAttempt :: "OutgoingMessage list saving \<Rightarrow> string \<Rightarrow> Queue \<Rightarrow> Queue" where
  "MarkAttempt w mid q =
     snd (saveLocked w (q\<lparr>q_items :=
       map (\<lambda>m. if om_ID m = mid then m\<lparr>om_Attempts := om_Attempts m + 1\<rparr> else m) (q_items q)\<rparr>))"

definition QueueLen :: "Queue \<Rightarrow> nat" where
  "QueueLen q = length (q_items q)"

subsection \<open>The contracts\<close>

lemma q_items_saveLocked [simp]: "q_items (snd (saveLocked w q)) = q_items q"
  by (simp add: saveLocked_def Let_def)

lemma q_file_saveLocked [simp]: "q_file (snd (saveLocked Written q)) = Doc (map json_outgoing (q_items q))"
  by (simp add: saveLocked_def Let_def)

lemma fst_saveLocked [simp]: "fst (saveLocked w q) \<longleftrightarrow> w = Written"
  by (simp add: saveLocked_def Let_def)

lemma Enqueue_items:
  "q_items (snd (Enqueue fmt w m q)) = takeLast MaxMessages (q_items q @ [with_id fmt m])"
  by (simp add: Enqueue_def Let_def takeLast_def)

type_synonym enqueue_call = "(gotime \<Rightarrow> string) \<times> OutgoingMessage list saving \<times> OutgoingMessage"

definition enqueue_call :: "enqueue_call \<Rightarrow> Queue \<Rightarrow> Queue" where
  "enqueue_call c q = snd (Enqueue (fst c) (fst (snd c)) (snd (snd c)) q)"

interpretation qlog: bounded_log enqueue_call Pending "\<lambda>(fmt, w, m). with_id fmt m"
  "\<lambda>_. MaxMessages" "\<lambda>_. True" "\<lambda>_. True"
  by unfold_locales (simp_all add: enqueue_call_def Pending_def Enqueue_items split: prod.splits)

datatype queue_op = EnqueueOp "gotime \<Rightarrow> string" OutgoingMessage | RemoveOp string | MarkOp string

fun queue_step :: "queue_op \<Rightarrow> Queue \<Rightarrow> Queue" where
  "queue_step (EnqueueOp fmt m) q = snd (Enqueue fmt Written m q)"
| "queue_step (RemoveOp mid) q = snd (Remove Written mid q)"
| "queue_step (MarkOp mid) q = MarkAttempt Written mid q"

lemma queue_step_file: "q_file (queue_step a q) = Doc (map json_outgoing (q_items (queue_step a q)))"
  by (cases a) (simp_all add: Enqueue_def Remove_def MarkAttempt_def Let_def)

interpretation qdisk: persisted "\<lambda>f. Some (Pending (NewQueue f))" q_file
  "\<lambda>q. map json_outgoing (Pending q)" queue_step "\<lambda>_. True"
  by unfold_locales (simp_all add: queue_step_file NewQueue_def Pending_def)

subsection \<open>Properties\<close>

text \<open>
  C30. The queue is a bounded FIFO over all peers: after any number of \<open>Enqueue\<close> calls, for whatever
  peers, and whatever the disk does, the pending messages are the most recent 1000 of the old ones followed by the new ones in
  call order, each under the identifier it was given or got. The bound counts the messages of all peers
  together, where requirement 7.6, which the comment of the code cites, has 1000 for each peer:
  messages for one peer push out those of another (\<open>full_queue_forgets_peer\<close>).
\<close>

theorem queue_keeps_newest:
  assumes "QueueLen q \<le> MaxMessages"
  shows "Pending (fold enqueue_call calls q) =
     takeLast MaxMessages (Pending q @ map (\<lambda>(fmt, w, m). with_id fmt m) calls)"
  using qlog.run_entries [where s = q and xs = calls] assms by (simp add: QueueLen_def Pending_def list_all_iff)

text \<open>
  Nothing is kept apart for a peer: a thousand messages for others, and every message that waited for
  this one is gone.
\<close>

theorem full_queue_forgets_peer:
  assumes "QueueLen q \<le> MaxMessages" and "MaxMessages \<le> length calls"
    and "list_all (\<lambda>(fmt, w, m). om_ToJID m \<noteq> jid) calls"
  shows "filter (\<lambda>m. om_ToJID m = jid) (Pending (fold enqueue_call calls q)) = []"
proof -
  have "Pending (fold enqueue_call calls q) = takeLast MaxMessages (Pending q @ map (\<lambda>(fmt, w, m). with_id fmt m) calls)"
    using qlog.run_entries [where s = q and xs = calls] assms(1) by (simp add: QueueLen_def Pending_def list_all_iff)
  also have "\<dots> = takeLast MaxMessages (map (\<lambda>(fmt, w, m). with_id fmt m) calls)"
    using assms(2) by (simp add: takeLast_def)
  finally have "set (Pending (fold enqueue_call calls q)) \<subseteq> set (map (\<lambda>(fmt, w, m). with_id fmt m) calls)"
    using set_takeLast by metis
  then show ?thesis using assms(3) by (fastforce simp: filter_empty_conv list_all_iff with_id_def split: if_splits)
qed

theorem queue_keeps_newest_witness:
  "let m = (\<lambda>b. \<lparr>om_ID = ''x'', om_ToJID = ''j'', om_Body = b, om_CreatedAt = 5, om_Attempts = 0\<rparr>) in
   Pending (fold enqueue_call [(\<lambda>_. '''', Written, m ''one''), (\<lambda>_. '''', MkdirFails, m ''two'')] (NewQueue Absent)) =
     [m ''one'', m ''two'']"
  unfolding Let_def
  by (subst queue_keeps_newest) (simp_all add: NewQueue_def QueueLen_def Pending_def with_id_def takeLast_def)

text \<open>
  Once one save has succeeded, the queue survives a restart at every later moment: after any
  sequence of successful operations, opening the file gives the pending messages in memory, as JSON keeps them.
\<close>

theorem queue_survives_restart:
  "Pending (NewQueue (q_file (fold queue_step (a # ops) q))) = map json_outgoing (Pending (fold queue_step (a # ops) q))"
  using qdisk.reopen_run_after [of a q ops]
  by (simp add: queue_step_file NewQueue_def Pending_def)

theorem full_queue_forgets_peer_witness:
  "let m = (\<lambda>j. \<lparr>om_ID = ''x'', om_ToJID = j, om_Body = ''hi'', om_CreatedAt = 5, om_Attempts = 0\<rparr>) in
   filter (\<lambda>m. om_ToJID m = ''bob'')
     (Pending (fold enqueue_call (replicate 1000 (\<lambda>_. ''t'', Written, m ''carol'')) \<lparr>q_items = [m ''bob''], q_file = Absent\<rparr>)) = []"
  unfolding Let_def by (rule full_queue_forgets_peer) (simp_all add: QueueLen_def list_all_iff)

end
