(* ===== verification/Chat_History.thy ===== *)
theory Chat_History
  imports Persist Go_Utf8 "HOL-Library.Word" "HOL-Library.Sublist"
begin

text \<open>
  The message history of \<^verbatim>\<open>src/internal/history/history.go\<close>: the window in memory, its pruning
  by expiry and by size, the paging and look-up functions and the file behind it. What is put into the
  window is any bytes (a body that was decrypted is not checked); what a file gives when it is read has been
  through JSON, which keeps valid UTF-8 only.
\<close>

record ChatMessage =
  cm_ID :: string
  cm_From :: string
  cm_JID :: string
  cm_LID :: string
  cm_SenderDevice :: string
  cm_Seq :: "64 word"
  cm_GroupID :: string
  cm_ReplyTo :: string
  cm_Body :: string
  cm_Timestamp :: gotime
  cm_Direction :: string
  cm_ExpiresAt :: gotime

record History =
  h_maxSize :: int
  h_messages :: "ChatMessage list"
  h_ttl :: duration
  h_totalStored :: int
  h_tailOnly :: bool
  h_file :: "ChatMessage list stored"

datatype history_error = ReadFailed | NotJSON

abbreviation hlen :: "History \<Rightarrow> int" where "hlen h \<equiv> int (length (h_messages h))"

definition expired :: "gotime \<Rightarrow> ChatMessage \<Rightarrow> bool" where
  "expired now m \<longleftrightarrow> \<not> IsZero (cm_ExpiresAt m) \<and> cm_ExpiresAt m < now"

definition pruneExpiredLocked :: "gotime \<Rightarrow> History \<Rightarrow> History" where
  "pruneExpiredLocked now h =
     (if h_messages h = [] then h
      else h\<lparr>h_messages := filter (\<lambda>m. \<not> expired now m) (h_messages h)\<rparr>)"

text \<open>\<open>None\<close> is the \<open>os.IsNotExist\<close> error, which the caller tolerates.\<close>

definition history_load :: "gotime \<Rightarrow> History \<Rightarrow> history_error option + History" where
  "history_load now h =
     (case h_file h of
        Absent \<Rightarrow> Inl None
      | Unreadable \<Rightarrow> Inl (Some ReadFailed)
      | Malformed \<Rightarrow> Inl (Some NotJSON)
      | Doc ms \<Rightarrow> Inr (pruneExpiredLocked now (h\<lparr>h_messages := ms, h_totalStored := int (length ms)\<rparr>)))"

definition NewWithTail ::
    "gotime \<Rightarrow> ChatMessage list stored \<Rightarrow> int \<Rightarrow> int \<Rightarrow> history_error + History" where
  "NewWithTail now f maxSize tailLimit =
     (let h = \<lparr>h_maxSize = maxSize, h_messages = [], h_ttl = 0, h_totalStored = 0,
               h_tailOnly = False, h_file = f\<rparr>;
          tail = (\<lambda>h. if 0 < tailLimit \<and> tailLimit < hlen h
                     then h\<lparr>h_messages := drop (nat (hlen h - tailLimit)) (h_messages h), h_tailOnly := True\<rparr>
                     else h)
      in case history_load now h of
           Inl (Some e) \<Rightarrow> Inl e
         | Inl None \<Rightarrow> Inr (tail h)
         | Inr h' \<Rightarrow> Inr (tail h'))"

text \<open>\<open>New\<close>; the program itself opens its history with \<open>NewWithTail\<close> and a tail of 500.\<close>

definition NewHistory :: "gotime \<Rightarrow> ChatMessage list stored \<Rightarrow> int \<Rightarrow> history_error + History" where
  "NewHistory now f maxSize = NewWithTail now f maxSize 0"

text \<open>A message as it is read back from the JSON that was written for it: every string is
  \<open>json_text\<close> of what it was, numbers and times are unchanged.\<close>

definition json_message :: "ChatMessage \<Rightarrow> ChatMessage" where
  "json_message m =
     m\<lparr>cm_ID := json_text (cm_ID m), cm_From := json_text (cm_From m), cm_JID := json_text (cm_JID m),
       cm_LID := json_text (cm_LID m), cm_SenderDevice := json_text (cm_SenderDevice m),
       cm_GroupID := json_text (cm_GroupID m), cm_ReplyTo := json_text (cm_ReplyTo m),
       cm_Body := json_text (cm_Body m), cm_Direction := json_text (cm_Direction m)\<rparr>"

definition ValidMessage :: "ChatMessage \<Rightarrow> bool" where
  "ValidMessage m \<longleftrightarrow> list_all ValidString
     [cm_ID m, cm_From m, cm_JID m, cm_LID m, cm_SenderDevice m, cm_GroupID m, cm_ReplyTo m, cm_Body m, cm_Direction m]"

definition history_save :: "ChatMessage list saving \<Rightarrow> History \<Rightarrow> bool \<times> History" where
  "history_save w h =
     (let r = save_doc w (map json_message (h_messages h)) (h_file h) in (fst r, h\<lparr>h_file := snd r\<rparr>))"

text \<open>\<open>now\<close> is the clock for the new message's expiry, \<open>now'\<close> the clock of the pruning.\<close>

definition HistoryAdd ::
    "ChatMessage list saving \<Rightarrow> gotime \<Rightarrow> gotime \<Rightarrow> ChatMessage \<Rightarrow> History \<Rightarrow> bool \<times> History" where
  "HistoryAdd w now now' msg0 h0 =
     (let msg = (if 0 < h_ttl h0 \<and> IsZero (cm_ExpiresAt msg0)
                 then msg0\<lparr>cm_ExpiresAt := now + h_ttl h0\<rparr> else msg0);
          h1 = h0\<lparr>h_messages := h_messages h0 @ [msg], h_totalStored := h_totalStored h0 + 1\<rparr>;
          h2 = pruneExpiredLocked now' h1;
          h3 = (if 0 < h_maxSize h2 \<and> h_maxSize h2 < hlen h2
                then let dropped = hlen h2 - h_maxSize h2;
                         ms = drop (nat (hlen h2 - h_maxSize h2)) (h_messages h2);
                         total = h_totalStored h2 - dropped
                     in h2\<lparr>h_messages := ms,
                           h_totalStored := (if total < int (length ms) then int (length ms) else total)\<rparr>
                else h2)
      in history_save w h3)"

definition SetTTL :: "duration \<Rightarrow> History \<Rightarrow> History" where
  "SetTTL ttl h = h\<lparr>h_ttl := ttl\<rparr>"

definition PruneExpired :: "ChatMessage list saving \<Rightarrow> gotime \<Rightarrow> History \<Rightarrow> int \<times> History" where
  "PruneExpired w now h =
     (let h1 = pruneExpiredLocked now h;
          removed = hlen h - hlen h1
      in if 0 < removed
         then let total = h_totalStored h1 - removed;
                  h2 = h1\<lparr>h_totalStored := (if total < hlen h1 then hlen h1 else total)\<rparr>
              in (removed, snd (history_save w h2))
         else (removed, h1))"

definition GetAll :: "History \<Rightarrow> ChatMessage list" where
  "GetAll h = h_messages h"

definition GetLast :: "int \<Rightarrow> History \<Rightarrow> ChatMessage list" where
  "GetLast n h =
     (if n \<le> 0 \<or> h_messages h = [] then []
      else let start = (if n < hlen h then hlen h - n else 0) in drop (nat start) (h_messages h))"

definition GetSince :: "gotime \<Rightarrow> History \<Rightarrow> ChatMessage list" where
  "GetSince since h = filter (\<lambda>m. since < cm_Timestamp m) (h_messages h)"

definition GetPage :: "int \<Rightarrow> int \<Rightarrow> History \<Rightarrow> ChatMessage list" where
  "GetPage page pageSize h =
     (if pageSize \<le> 0 \<or> page < 0 \<or> h_messages h = [] then []
      else let start = page * pageSize
           in if hlen h \<le> start then []
              else let stop = (if hlen h < start + pageSize then hlen h else start + pageSize)
                   in take (nat (stop - start)) (drop (nat start) (h_messages h)))"

text \<open>The scan of \<open>FindByIDPrefix\<close>; the accumulator is the prefix match met so far.\<close>

fun find_scan :: "string \<Rightarrow> ChatMessage list \<Rightarrow> ChatMessage option \<Rightarrow> ChatMessage option" where
  "find_scan pre [] found = found"
| "find_scan pre (m # ms) found =
     (if cm_ID m = pre then Some m
      else if pre \<noteq> '''' \<and> length pre \<le> length (cm_ID m) \<and> take (length pre) (cm_ID m) = pre
      then (if found \<noteq> None then None else find_scan pre ms (Some m))
      else find_scan pre ms found)"

definition FindByIDPrefix :: "string \<Rightarrow> History \<Rightarrow> ChatMessage option" where
  "FindByIDPrefix pre h = find_scan pre (h_messages h) None"

definition TotalStored :: "History \<Rightarrow> int" where
  "TotalStored h = (if h_tailOnly h then h_totalStored h else hlen h)"

definition LoadOlder :: "int \<Rightarrow> int \<Rightarrow> History \<Rightarrow> ChatMessage list" where
  "LoadOlder offset0 limit h =
     (case h_file h of
        Doc ms \<Rightarrow>
          (let offset = (if offset0 < 0 then 0 else offset0); n = int (length ms)
           in if n \<le> offset \<or> limit \<le> 0 then []
              else let stop = (if n < offset + limit then n else offset + limit)
                   in take (nat (stop - offset)) (drop (nat offset) ms))
      | _ \<Rightarrow> [])"

definition HistoryClear :: "ChatMessage list saving \<Rightarrow> History \<Rightarrow> bool \<times> History" where
  "HistoryClear w h = history_save w (h\<lparr>h_messages := [], h_totalStored := 0\<rparr>)"

subsection \<open>What the operations do to the window\<close>

definition stamped :: "gotime \<Rightarrow> duration \<Rightarrow> ChatMessage \<Rightarrow> ChatMessage" where
  "stamped now ttl m = (if 0 < ttl \<and> IsZero (cm_ExpiresAt m) then m\<lparr>cm_ExpiresAt := now + ttl\<rparr> else m)"

lemma pruneExpiredLocked_eq:
  "pruneExpiredLocked now h = h\<lparr>h_messages := filter (\<lambda>m. \<not> expired now m) (h_messages h)\<rparr>"
  by (cases h) (auto simp: pruneExpiredLocked_def)

lemma history_save_simps [simp]:
  "h_messages (snd (history_save w h)) = h_messages h"
  "h_maxSize (snd (history_save w h)) = h_maxSize h"
  "h_ttl (snd (history_save w h)) = h_ttl h"
  "h_file (snd (history_save Written h)) = Doc (map json_message (h_messages h))"
  "fst (history_save w h) \<longleftrightarrow> w = Written"
  by (simp_all add: history_save_def Let_def)

lemma HistoryAdd_messages:
  "h_messages (snd (HistoryAdd w now now' m h)) =
     (let ms = filter (\<lambda>m. \<not> expired now' m) (h_messages h @ [stamped now (h_ttl h) m])
      in if 0 < h_maxSize h then takeLast (nat (h_maxSize h)) ms else ms)"
  by (simp add: HistoryAdd_def Let_def pruneExpiredLocked_eq takeLast_def stamped_def
      nat_diff_distrib nat_add_distrib)

lemma HistoryAdd_params [simp]:
  "h_maxSize (snd (HistoryAdd w now now' m h)) = h_maxSize h"
  "h_ttl (snd (HistoryAdd w now now' m h)) = h_ttl h"
  "h_file (snd (HistoryAdd Written now now' m h)) = Doc (map json_message (h_messages (snd (HistoryAdd Written now now' m h))))"
  by (simp_all add: HistoryAdd_def Let_def pruneExpiredLocked_eq)

lemma PruneExpired_messages [simp]:
  "h_messages (snd (PruneExpired w now h)) = filter (\<lambda>m. \<not> expired now m) (h_messages h)"
  "h_maxSize (snd (PruneExpired w now h)) = h_maxSize h"
  "h_ttl (snd (PruneExpired w now h)) = h_ttl h"
  by (simp_all add: PruneExpired_def Let_def pruneExpiredLocked_eq)

lemma PruneExpired_file:
  "h_file (snd (PruneExpired Written now h)) = Doc (map json_message (h_messages (snd (PruneExpired Written now h)))) \<or>
   h_file (snd (PruneExpired Written now h)) = h_file h \<and>
   h_messages (snd (PruneExpired Written now h)) = h_messages h"
proof (cases "length (filter (\<lambda>m. \<not> expired now m) (h_messages h)) < length (h_messages h)")
  case False
  then have "filter (\<lambda>m. \<not> expired now m) (h_messages h) = h_messages h"
    by (metis filter_id_conv length_filter_less)
  then show ?thesis by (simp add: PruneExpired_def Let_def pruneExpiredLocked_eq)
qed (simp add: PruneExpired_def Let_def pruneExpiredLocked_eq)

datatype history_op =
    AddOp "ChatMessage list saving" gotime gotime ChatMessage
  | PruneOp "ChatMessage list saving" gotime
  | TTLOp duration
  | ClearOp "ChatMessage list saving"

fun history_step :: "history_op \<Rightarrow> History \<Rightarrow> History" where
  "history_step (AddOp w now now' m) h = snd (HistoryAdd w now now' m h)"
| "history_step (PruneOp w now) h = snd (PruneExpired w now h)"
| "history_step (TTLOp d) h = SetTTL d h"
| "history_step (ClearOp w) h = snd (HistoryClear w h)"

subsection \<open>The contracts\<close>

type_synonym add_call = "ChatMessage list saving \<times> gotime \<times> gotime \<times> ChatMessage"

fun add_call :: "add_call \<Rightarrow> History \<Rightarrow> History" where
  "add_call (w, now, now', m) h = snd (HistoryAdd w now now' m h)"

definition plain_history :: "History \<Rightarrow> bool" where
  "plain_history h \<longleftrightarrow> h_ttl h \<le> 0 \<and> 0 < h_maxSize h \<and> list_all (\<lambda>m. IsZero (cm_ExpiresAt m)) (h_messages h)"

lemma plain_add:
  assumes "plain_history h" and "IsZero (cm_ExpiresAt m)"
  shows "h_messages (snd (HistoryAdd w now now' m h)) = takeLast (nat (h_maxSize h)) (h_messages h @ [m])"
proof -
  have "filter (\<lambda>m. \<not> expired now' m) (h_messages h @ [m]) = h_messages h @ [m]"
    using assms by (auto simp: filter_id_conv expired_def plain_history_def list_all_iff)
  then show ?thesis
    using assms(1) by (simp add: HistoryAdd_messages stamped_def plain_history_def Let_def)
qed

interpretation hlog: bounded_log add_call GetAll "\<lambda>(w, now, now', m). m" "\<lambda>h. nat (h_maxSize h)"
  plain_history "\<lambda>(w, now, now', m). IsZero (cm_ExpiresAt m)"
proof unfold_locales
  fix h and x :: add_call
  assume h: "plain_history h" and "(\<lambda>(w, now, now', m). IsZero (cm_ExpiresAt m)) x"
  then obtain w now now' m where x: "x = (w, now, now', m)" and m: "IsZero (cm_ExpiresAt m)"
    by (cases x) auto
  show "GetAll (add_call x h) = takeLast (nat (h_maxSize h)) (GetAll h @ [case x of (w, now, now', m) \<Rightarrow> m])"
    using plain_add [OF h m] by (simp add: x GetAll_def)
  have "set (takeLast (nat (h_maxSize h)) (h_messages h @ [m])) \<subseteq> set (h_messages h @ [m])"
    by (rule set_takeLast)
  then show "plain_history (add_call x h)"
    using h m plain_add [OF h m] by (auto simp: x plain_history_def list_all_iff)
qed (auto)

text \<open>
  What the program has of the history when it opens the file at time \<open>now\<close>: \<^verbatim>\<open>main.go\<close> calls
  \<open>NewWithTail\<close> with a tail of 500 messages.
\<close>

definition reopened :: "gotime \<Rightarrow> int \<Rightarrow> ChatMessage list stored \<Rightarrow> ChatMessage list option" where
  "reopened now maxSize f = (case NewWithTail now f maxSize 500 of Inl _ \<Rightarrow> None | Inr h \<Rightarrow> Some (GetAll h))"

lemma reopened_Doc [simp]:
  "reopened now maxSize (Doc ms) = Some (takeLast 500 (filter (\<lambda>m. \<not> expired now m) ms))"
  by (simp add: reopened_def NewWithTail_def history_load_def Let_def pruneExpiredLocked_eq GetAll_def takeLast_def
      nat_diff_distrib)

lemma expired_json_message [simp]: "expired now (json_message m) = expired now m"
  by (simp add: expired_def json_message_def)

lemma json_message_valid: "json_message m = (if ValidMessage m then m else json_message m)"
  by (simp add: json_message_def ValidMessage_def)

lemma takeLast_map: "takeLast n (map f xs) = map f (takeLast n xs)"
  by (simp add: takeLast_def drop_map)

lemma reopened_saved:
  "reopened now maxSize (Doc (map json_message ms)) =
     Some (map json_message (takeLast 500 (filter (\<lambda>m. \<not> expired now m) ms)))"
  by (simp add: filter_map o_def takeLast_map)

lemma reopened_empty: "reopened now maxSize (Doc []) = Some (map json_message (takeLast 500 []))"
  by (simp add: takeLast_def)

definition unexpired :: "gotime \<Rightarrow> History \<Rightarrow> ChatMessage list" where
  "unexpired now h = filter (\<lambda>m. \<not> expired now m) (GetAll h)"

fun written :: "history_op \<Rightarrow> history_op" where
  "written (AddOp w now now' m) = AddOp Written now now' m"
| "written (PruneOp w now) = PruneOp Written now"
| "written (TTLOp d) = TTLOp d"
| "written (ClearOp w) = ClearOp Written"

interpretation hdisk: persisted "reopened now maxSize" h_file
  "\<lambda>h. map json_message (takeLast 500 (unexpired now h))" "\<lambda>a. history_step (written a)"
  "\<lambda>_. True" for now maxSize
proof unfold_locales
  fix h a assume old: "reopened now maxSize (h_file h) =
      Some (map json_message (takeLast 500 (unexpired now h)))"
  show "reopened now maxSize (h_file (history_step (written a) h)) =
      Some (map json_message (takeLast 500 (unexpired now (history_step (written a) h))))"
  proof (cases a)
    case (PruneOp w t)
    then show ?thesis
      using PruneExpired_file [of t h] old by (auto simp: unexpired_def GetAll_def reopened_saved simp del: filter_filter reopened_Doc)
  qed (use old in \<open>auto simp: unexpired_def GetAll_def SetTTL_def HistoryClear_def reopened_saved reopened_empty simp del: reopened_Doc\<close>)
qed simp

subsection \<open>Paging\<close>

lemma GetPage_nat:
  "0 < s \<Longrightarrow> GetPage (int p) (int s) h = take s (drop (p * s) (h_messages h))"
  by (auto simp: GetPage_def Let_def nat_mult_distrib of_nat_mult [symmetric] simp del: of_nat_mult)

subsection \<open>Look-up by identifier\<close>

abbreviation hits :: "string \<Rightarrow> ChatMessage \<Rightarrow> bool" where
  "hits pre m \<equiv> pre \<noteq> '''' \<and> prefix pre (cm_ID m)"

lemma prefix_slice: "length pre \<le> length s \<and> take (length pre) s = pre \<longleftrightarrow> prefix pre s"
  by (metis append_eq_conv_conj length_take min.absorb_iff2 prefix_def take_is_prefix)

lemma find_scan_sound:
  assumes "find_scan pre ms found = Some m"
    and "\<And>x. found = Some x \<Longrightarrow> hits pre x"
  shows "m \<in> set ms \<and> cm_ID m = pre \<or>
    hits pre m \<and> (\<forall>x\<in>set ms. cm_ID x \<noteq> pre) \<and>
    (case found of Some y \<Rightarrow> m = y \<and> filter (hits pre) ms = [] | None \<Rightarrow> filter (hits pre) ms = [m])"
  using assms
proof (induction pre ms found rule: find_scan.induct)
  case (2 pre x ms found)
  show ?case
  proof (cases "cm_ID x = pre")
    case False
    show ?thesis
      using 2 False by (cases "hits pre x"; cases found) (auto simp: prefix_slice split: if_splits option.splits)
  qed (use 2 in auto)
qed (auto split: option.splits)

subsection \<open>Properties\<close>

text \<open>
  With a size limit and no expiry the window is the most recent \<open>maxSize\<close> messages, in
  order, after any sequence of \<open>Add\<close> calls and whatever the disk does.
\<close>

theorem history_keeps_newest:
  assumes "plain_history h" and "hlen h \<le> h_maxSize h"
    and "list_all (\<lambda>(w, now, now', m). IsZero (cm_ExpiresAt m)) calls"
  shows "GetAll (fold add_call calls h) =
     takeLast (nat (h_maxSize h)) (GetAll h @ map (\<lambda>(w, now, now', m). m) calls)"
  using hlog.run_entries [OF assms(1,3)] assms(1,2) by (simp add: GetAll_def plain_history_def)

definition alive_op :: "gotime \<Rightarrow> history_op \<Rightarrow> bool" where
  "alive_op t a = (case a of AddOp w now now' m \<Rightarrow> now' \<le> t | PruneOp w now \<Rightarrow> now \<le> t
                            | TTLOp d \<Rightarrow> True | ClearOp w \<Rightarrow> False)"

lemma alive_step:
  assumes "x \<in> set (h_messages h)" and "alive_op (cm_ExpiresAt x) a" and "h_maxSize h \<le> 0"
  shows "x \<in> set (h_messages (history_step a h))" "h_maxSize (history_step a h) \<le> 0"
  using assms
  by (cases a; simp add: alive_op_def HistoryAdd_messages expired_def SetTTL_def)+

lemma alive_run:
  assumes "x \<in> set (h_messages h)" and "list_all (alive_op (cm_ExpiresAt x)) ops" and "h_maxSize h \<le> 0"
  shows "x \<in> set (h_messages (fold history_step ops h))"
  using assms by (induction ops arbitrary: h) (auto simp: alive_step)

text \<open>
  C31. Disappearing messages. A message added at \<open>now\<close> under a time to live stays in an
  unlimited window through every sequence of additions, prunings and changes of the time to live whose
  clock has not passed the expiry (\<open>Clear\<close>, which empties the window, is not among them); pruning at any later
  time removes it. A change of the time to live concerns later messages only, and that includes switching it
  off: the message is removed all the same, although requirement 12.7 asks that nothing be deleted once the
  mode is disabled.
\<close>

theorem disappearing_messages:
  assumes "0 < h_ttl h" and "h_maxSize h \<le> 0" and "IsZero (cm_ExpiresAt m)"
    and "0 \<le> now" and "now' \<le> now + h_ttl h" and "now + h_ttl h < late"
    and "list_all (alive_op (now + h_ttl h)) ops"
  shows "let x = m\<lparr>cm_ExpiresAt := now + h_ttl h\<rparr>;
             h' = fold history_step ops (snd (HistoryAdd w now now' m h))
         in x \<in> set (GetAll h') \<and> x \<notin> set (GetAll (snd (PruneExpired w' late h')))"
proof -
  let ?x = "m\<lparr>cm_ExpiresAt := now + h_ttl h\<rparr>" and ?h = "snd (HistoryAdd w now now' m h)"
  have "?x \<in> set (h_messages ?h)"
    using assms by (simp add: HistoryAdd_messages stamped_def expired_def)
  then have "?x \<in> set (h_messages (fold history_step ops ?h))"
    using assms by (intro alive_run) auto
  moreover have "expired late ?x"
    using assms by (simp add: expired_def IsZero_def)
  ultimately show ?thesis by (simp add: GetAll_def Let_def)
qed

text \<open>
  C32. The history survives a restart. After an addition and any sequence of operations whose saves
  succeed, opening the file as the program does, at any time, gives the last 500 of the messages of the window that
  have not expired by then, in their order, and each of them as it was when its strings are valid UTF-8. A message whose
  strings are not (the body of a peer is stored unchecked) comes back with U+FFFD for each byte that cannot be decoded.
\<close>

theorem history_survives_restart:
  "let h' = fold (\<lambda>a. history_step (written a)) (AddOp Written t t' m # ops) h
   in reopened now maxSize (h_file h') =
        Some (map (\<lambda>x. if ValidMessage x then x else json_message x) (takeLast 500 (unexpired now h')))"
  using hdisk.reopen_run_after [where a = "AddOp Written t t' m"]
  unfolding json_message_valid [symmetric]
  by (simp add: unexpired_def GetAll_def Let_def reopened_saved del: reopened_Doc)

text \<open>
  Bytes that are not UTF-8 do not survive: a message with such a body is shown as it came until the
  program is restarted, and has another body from then on.
\<close>

theorem invalid_body_changes_on_disk:
  assumes "\<not> ValidString (cm_Body m)" and "h_ttl h \<le> 0" and "IsZero (cm_ExpiresAt m)"
  shows "let h' = snd (HistoryAdd Written t t' m h)
         in \<exists>x xs. reopened now maxSize (h_file h') = Some (xs @ [x]) \<and> x = json_message m \<and> cm_Body x \<noteq> cm_Body m"
proof -
  have "\<not> expired t' m" "\<not> expired now m" using assms(3) by (simp_all add: expired_def)
  moreover have "cm_Body (json_message m) \<noteq> cm_Body m"
    using assms(1) json_text_eq [of "cm_Body m"] by (simp add: json_message_def)
  moreover have "\<exists>ys. h_messages (snd (HistoryAdd Written t t' m h)) = ys @ [m]"
  proof (cases "0 < h_maxSize h")
    case True
    then have "takeLast (nat (h_maxSize h)) (filter (\<lambda>m. \<not> expired t' m) (h_messages h) @ [m]) =
        drop (length (filter (\<lambda>m. \<not> expired t' m) (h_messages h)) + 1 - nat (h_maxSize h))
          (filter (\<lambda>m. \<not> expired t' m) (h_messages h)) @ [m]"
      by (simp add: takeLast_def)
    then show ?thesis using True assms(2) calculation(1) by (simp add: HistoryAdd_messages stamped_def Let_def)
  qed (use assms(2) calculation(1) in \<open>simp add: HistoryAdd_messages stamped_def Let_def\<close>)
  ultimately show ?thesis
    by (auto simp: Let_def reopened_saved takeLast_def simp del: reopened_Doc)
qed

text \<open>
  The pages partition the window: for every positive page size, the pages from number 0 on,
  one after the other, are the window, and every page after them is empty.
\<close>

theorem pages_partition_history:
  assumes "0 < s" and "length (GetAll h) \<le> k * s"
  shows "concat (map (\<lambda>p. GetPage (int p) (int s) h) [0..<k]) = GetAll h \<and> GetPage (int k) (int s) h = []"
proof -
  have "concat (map (\<lambda>p. GetPage (int p) (int s) h) [0..<k]) = take (k * s) (h_messages h)"
    using concat_slices [OF assms(1), of "h_messages h" k] by (simp add: GetPage_nat [OF assms(1)])
  then show ?thesis using assms by (simp add: GetAll_def GetPage_nat)
qed

text \<open>
  A short identifier never resolves to the wrong message: what \<open>FindByIDPrefix\<close> returns
  either has exactly that identifier, or is the only message of the window whose identifier starts with it.
\<close>

theorem short_id_unambiguous:
  assumes "FindByIDPrefix pre h = Some m"
  shows "m \<in> set (GetAll h) \<and> (cm_ID m = pre \<or>
     pre \<noteq> '''' \<and> filter (\<lambda>x. prefix pre (cm_ID x)) (GetAll h) = [m])"
proof -
  have "m \<in> set (h_messages h) \<and> cm_ID m = pre \<or> hits pre m \<and> filter (hits pre) (h_messages h) = [m]"
    using find_scan_sound [of pre "h_messages h" None m] assms by (auto simp: FindByIDPrefix_def)
  then show ?thesis
  proof
    assume only: "hits pre m \<and> filter (hits pre) (h_messages h) = [m]"
    then have "m \<in> set (h_messages h)"
      using filter_eq_Cons_iff [of "hits pre" "h_messages h" m "[]"] by auto
    with only show ?thesis by (auto simp: GetAll_def)
  qed (simp add: GetAll_def)
qed

text \<open>
  The history file is not the full log once the window was loaded with a tail limit: the
  first message added overwrites the file with the tail, and the older messages are gone from it.
\<close>

theorem tail_window_overwrites_file:
  assumes "0 < n" and "n < length ms" and "list_all (\<lambda>m. IsZero (cm_ExpiresAt m)) ms"
    and "IsZero (cm_ExpiresAt m)"
  shows "\<exists>h. NewWithTail now (Doc ms) 0 (int n) = Inr h \<and> TotalStored h = int (length ms) \<and>
     h_file (snd (HistoryAdd Written now' now'' m h)) = Doc (map json_message (takeLast n ms @ [m]))"
proof -
  have all: "filter (\<lambda>m. \<not> expired t m) xs = xs" if "set xs \<subseteq> set ms \<union> {m}" for t xs
    using that assms(3,4) by (auto simp: filter_id_conv list_all_iff expired_def)
  define h where "h = \<lparr>h_maxSize = 0, h_messages = takeLast n ms, h_ttl = 0,
     h_totalStored = int (length ms), h_tailOnly = True, h_file = Doc ms\<rparr>"
  have "NewWithTail now (Doc ms) 0 (int n) = Inr h"
    using assms(1,2) all [of ms now, OF Un_upper1]
    by (simp add: NewWithTail_def history_load_def pruneExpiredLocked_eq Let_def h_def takeLast_def
        nat_diff_distrib)
  moreover have "h_file (snd (HistoryAdd Written now' now'' m h)) = Doc (map json_message (takeLast n ms @ [m]))"
  proof -
    have "filter (\<lambda>m. \<not> expired now'' m) (takeLast n ms @ [m]) = takeLast n ms @ [m]"
      using set_takeLast [of n ms] by (intro all) auto
    then show ?thesis by (simp add: HistoryAdd_messages stamped_def Let_def h_def)
  qed
  ultimately show ?thesis by (auto simp: TotalStored_def h_def)
qed

subsection \<open>Witnesses\<close>

definition sample :: "string \<Rightarrow> ChatMessage" where
  "sample mid = \<lparr>cm_ID = mid, cm_From = ''ann'', cm_JID = ''j1'', cm_LID = ''l1'', cm_SenderDevice = '''',
     cm_Seq = 0, cm_GroupID = '''', cm_ReplyTo = '''', cm_Body = ''hi'', cm_Timestamp = 1,
     cm_Direction = ''sent'', cm_ExpiresAt = 0\<rparr>"

definition empty_history :: "int \<Rightarrow> duration \<Rightarrow> History" where
  "empty_history n ttl = \<lparr>h_maxSize = n, h_messages = [], h_ttl = ttl, h_totalStored = 0,
     h_tailOnly = False, h_file = Absent\<rparr>"

theorem history_keeps_newest_witness:
  "GetAll (fold add_call (map (\<lambda>s. (Written, 1, 2, sample s)) [''a'', ''b'', ''c'']) (empty_history 2 0)) =
     [sample ''b'', sample ''c'']"
  by (subst history_keeps_newest)
    (simp_all add: plain_history_def empty_history_def sample_def IsZero_def GetAll_def takeLast_def)

theorem disappearing_messages_witness:
  "let x = (sample ''a'')\<lparr>cm_ExpiresAt := 5 + h_ttl (empty_history 0 10)\<rparr>;
       h' = fold history_step [AddOp Written 7 7 (sample ''b''), PruneOp Written 15]
              (snd (HistoryAdd Written 5 6 (sample ''a'') (empty_history 0 10)))
   in x \<in> set (GetAll h') \<and> x \<notin> set (GetAll (snd (PruneExpired Written 16 h')))"
  by (rule disappearing_messages) (simp_all add: empty_history_def sample_def IsZero_def alive_op_def)

theorem invalid_body_changes_on_disk_witness:
  "let m = (sample ''a'')\<lparr>cm_Body := [CHR 0xFF]\<rparr>;
       h' = snd (HistoryAdd Written 5 6 m (empty_history 0 0))
   in \<exists>x xs. reopened 7 0 (h_file h') = Some (xs @ [x]) \<and> x = json_message m \<and> cm_Body x \<noteq> cm_Body m"
  unfolding Let_def [of "(sample ''a'')\<lparr>cm_Body := [CHR 0xFF]\<rparr>"]
  by (rule invalid_body_changes_on_disk)
    (simp_all add: ValidString_def runes.simps cont_def byte_of_def empty_history_def sample_def IsZero_def)

theorem pages_partition_history_witness:
  "let h = (empty_history 0 0)\<lparr>h_messages := map sample [''a'', ''b'', ''c'']\<rparr>
   in concat (map (\<lambda>p. GetPage (int p) (int 2) h) [0..<2]) = GetAll h \<and> GetPage (int 2) (int 2) h = []"
  unfolding Let_def by (rule pages_partition_history) (simp_all add: GetAll_def)

theorem short_id_unambiguous_witness:
  "let h = (empty_history 0 0)\<lparr>h_messages := map sample [''m10'', ''m27'', ''m31'']\<rparr>
   in FindByIDPrefix ''m2'' h = Some (sample ''m27'') \<and>
      filter (\<lambda>x. prefix ''m2'' (cm_ID x)) (GetAll h) = [sample ''m27'']"
  using short_id_unambiguous [of "''m2''" "(empty_history 0 0)\<lparr>h_messages := map sample [''m10'', ''m27'', ''m31'']\<rparr>"
      "sample ''m27''"]
  by (simp add: FindByIDPrefix_def sample_def)

theorem tail_window_overwrites_file_witness:
  "\<exists>h. NewWithTail 9 (Doc (map sample [''a'', ''b'', ''c''])) 0 (int 1) = Inr h \<and> TotalStored h = 3 \<and>
     h_file (snd (HistoryAdd Written 9 9 (sample ''d'') h)) = Doc (map json_message [sample ''c'', sample ''d''])"
  using tail_window_overwrites_file [of 1 "map sample [''a'', ''b'', ''c'']" "sample ''d''" 9 9 9]
  by (simp add: sample_def IsZero_def takeLast_def)

end
