(* ===== verification/Go_Base64.thy ===== *)
theory Go_Base64
  imports Go_Strings
begin

text \<open>
  \<^verbatim>\<open>base64.StdEncoding\<close> of Go's standard library, used for every encrypted body: the encoder, the
  decoder with its treatment of padding and of line breaks, and the round trip.
\<close>

definition b64_digit :: "nat \<Rightarrow> char" where
  "b64_digit n = char_of
     (if n < 26 then 65 + n else if n < 52 then 71 + n else if n < 62 then n - 4
      else if n = 62 then 43 else 47)"

definition b64_value :: "char \<Rightarrow> nat option" where
  "b64_value c =
     (let n = byte_of c in
      if 65 \<le> n \<and> n \<le> 90 then Some (n - 65)
      else if 97 \<le> n \<and> n \<le> 122 then Some (n - 71)
      else if 48 \<le> n \<and> n \<le> 57 then Some (n + 4)
      else if n = 43 then Some 62 else if n = 47 then Some 63 else None)"

fun b64_encode :: "string \<Rightarrow> string" where
  "b64_encode [] = []"
| "b64_encode [a] =
     (let n = byte_of a * 16 in [b64_digit (n div 64), b64_digit (n mod 64), CHR ''='', CHR ''=''])"
| "b64_encode [a, b] =
     (let n = (byte_of a * 256 + byte_of b) * 4
      in [b64_digit (n div 4096), b64_digit (n div 64 mod 64), b64_digit (n mod 64), CHR ''=''])"
| "b64_encode (a # b # c # s) =
     (let n = (byte_of a * 256 + byte_of b) * 256 + byte_of c
      in [b64_digit (n div 262144), b64_digit (n div 4096 mod 64), b64_digit (n div 64 mod 64),
          b64_digit (n mod 64)] @ b64_encode s)"

fun b64_quads :: "string \<Rightarrow> string option" where
  "b64_quads [] = Some []"
| "b64_quads (a # b # c # d # s) =
     (case (b64_value a, b64_value b) of
        (Some v, Some w) \<Rightarrow>
          (if c = CHR ''='' then
             (if d = CHR ''='' \<and> s = [] then Some [char_of ((v * 64 + w) div 16)] else None)
           else case b64_value c of
             None \<Rightarrow> None
           | Some x \<Rightarrow>
               (if d = CHR ''='' then
                  (if s = [] then Some [char_of (((v * 64 + w) * 64 + x) div 1024),
                                        char_of (((v * 64 + w) * 64 + x) div 4 mod 256)] else None)
                else case b64_value d of
                  None \<Rightarrow> None
                | Some y \<Rightarrow>
                    (let n = ((v * 64 + w) * 64 + x) * 64 + y
                     in map_option (\<lambda>r. [char_of (n div 65536), char_of (n div 256 mod 256), char_of (n mod 256)] @ r)
                          (b64_quads s))))
      | _ \<Rightarrow> None)"
| "b64_quads _ = None"

definition b64_decode :: "string \<Rightarrow> string option" where
  "b64_decode s = b64_quads (filter (\<lambda>c. c \<noteq> CHR 0x0A \<and> c \<noteq> CHR 0x0D) s)"

lemma b64_value_digit [simp]: "n < 64 \<Longrightarrow> b64_value (b64_digit n) = Some n"
  by (auto simp: b64_value_def b64_digit_def Let_def byte_of_char_of)

lemma b64_digit_byte: "n < 64 \<Longrightarrow> byte_of (b64_digit n) \<in> {43, 47} \<union> {48..57} \<union> {65..90} \<union> {97..122}"
  by (auto simp: b64_digit_def byte_of_char_of)

lemma b64_digit_neq [simp]:
  "n < 64 \<Longrightarrow> b64_digit n \<noteq> CHR ''=''"
  "n < 64 \<Longrightarrow> b64_digit n \<noteq> CHR 0x0A"
  "n < 64 \<Longrightarrow> b64_digit n \<noteq> CHR 0x0D"
  using b64_digit_byte [of n] by (auto simp: byte_of_def)

lemma low_byte: "c < 256 \<Longrightarrow> (x * 256 + c) div 256 = (x :: nat) \<and> (x * 256 + c) mod 256 = c"
  by simp

lemma bytes_bound:
  fixes a b c :: nat
  assumes "a < 256" and "b < 256" and "c < 256"
  shows "(a * 256 + b) * 256 + c < 64 * 262144" "(a * 256 + b) * 4 < 64 * 4096"
  using assms by simp_all

lemma b64_three:
  obtains v w x y where "v < 64" "w < 64" "x < 64" "y < 64"
    "b64_encode (a # b # c # s) = [b64_digit v, b64_digit w, b64_digit x, b64_digit y] @ b64_encode s"
    "char_of ((((v * 64 + w) * 64 + x) * 64 + y) div 65536) = a"
    "char_of ((((v * 64 + w) * 64 + x) * 64 + y) div 256 mod 256) = b"
    "char_of ((((v * 64 + w) * 64 + x) * 64 + y) mod 256) = c"
proof -
  define n where "n = (byte_of a * 256 + byte_of b) * 256 + byte_of c"
  have "n div 65536 = byte_of a" "n div 256 mod 256 = byte_of b" "n mod 256 = byte_of c"
    "n div 262144 < 64"
  proof -
    have n: "n div 256 = byte_of a * 256 + byte_of b" "n mod 256 = byte_of c"
      using low_byte [OF byte_of_less] by (simp_all only: n_def)
    then show "n mod 256 = byte_of c" "n div 256 mod 256 = byte_of b"
      using low_byte [OF byte_of_less [of b]] by (simp_all only:)
    have "n div 65536 = n div 256 div 256" by (simp add: div_mult2_eq [symmetric])
    then show "n div 65536 = byte_of a"
      using low_byte [OF byte_of_less [of b]] by (simp only: n)
    have "n < 64 * 262144" unfolding n_def by (intro bytes_bound byte_of_less)
    then show "n div 262144 < 64" by (rule less_mult_imp_div_less)
  qed
  moreover have "((n div 262144 * 64 + n div 4096 mod 64) * 64 + n div 64 mod 64) * 64 + n mod 64 = n"
    using div_mult2_eq [of n 64 64] div_mult2_eq [of n 4096 64] by simp
  ultimately show thesis
    by (intro that [of "n div 262144" "n div 4096 mod 64" "n div 64 mod 64" "n mod 64"])
      (simp_all only: b64_encode.simps Let_def flip: n_def, simp_all)
qed

lemma b64_two:
  obtains v w x where "v < 64" "w < 64" "x < 64"
    "b64_encode [a, b] = [b64_digit v, b64_digit w, b64_digit x, CHR ''='']"
    "char_of (((v * 64 + w) * 64 + x) div 1024) = a" "char_of (((v * 64 + w) * 64 + x) div 4 mod 256) = b"
proof -
  define n where "n = (byte_of a * 256 + byte_of b) * 4"
  have "n div 1024 = byte_of a" "n div 4 mod 256 = byte_of b" "n div 4096 < 64"
  proof -
    have n: "n div 4 = byte_of a * 256 + byte_of b" by (simp add: n_def)
    then show "n div 4 mod 256 = byte_of b" using low_byte [OF byte_of_less [of b]] by (simp only:)
    have "n div 1024 = n div 4 div 256" by (simp add: div_mult2_eq [symmetric])
    then show "n div 1024 = byte_of a" using low_byte [OF byte_of_less [of b]] by (simp only: n)
    have "n < 64 * 4096" unfolding n_def by (intro bytes_bound(2) [where c = 0] byte_of_less) simp
    then show "n div 4096 < 64" by (rule less_mult_imp_div_less)
  qed
  moreover have "(n div 4096 * 64 + n div 64 mod 64) * 64 + n mod 64 = n"
    using div_mult2_eq [of n 64 64] by simp
  ultimately show thesis
    by (intro that [of "n div 4096" "n div 64 mod 64" "n mod 64"])
      (simp_all only: b64_encode.simps Let_def flip: n_def, simp_all)
qed

lemma b64_one:
  obtains v w where "v < 64" "w < 64"
    "b64_encode [a] = [b64_digit v, b64_digit w, CHR ''='', CHR ''='']" "char_of ((v * 64 + w) div 16) = a"
proof -
  define n where "n = byte_of a * 16"
  have "n div 16 = byte_of a" "n div 64 < 64" "n div 64 * 64 + n mod 64 = n"
    using byte_of_less [of a] by (simp add: n_def, simp add: n_def less_mult_imp_div_less, simp only: div_mult_mod_eq)
  then show thesis
    by (intro that [of "n div 64" "n mod 64"])
      (simp_all only: b64_encode.simps Let_def flip: n_def, simp_all)
qed

lemma b64_quads_encode: "b64_quads (b64_encode s) = Some s"
proof (induction s rule: b64_encode.induct)
  case (2 a)
  obtain v w where "v < 64" "w < 64" and e: "b64_encode [a] = [b64_digit v, b64_digit w, CHR ''='', CHR ''='']"
    and "char_of ((v * 64 + w) div 16) = a" by (rule b64_one)
  then show ?case unfolding e by simp
next
  case (3 a b)
  obtain v w x where "v < 64" "w < 64" "x < 64"
    and e: "b64_encode [a, b] = [b64_digit v, b64_digit w, b64_digit x, CHR ''='']"
    and "char_of (((v * 64 + w) * 64 + x) div 1024) = a" "char_of (((v * 64 + w) * 64 + x) div 4 mod 256) = b"
    by (rule b64_two)
  then show ?case unfolding e by simp
next
  case (4 a b c s)
  obtain v w x y where "v < 64" "w < 64" "x < 64" "y < 64"
    and e: "b64_encode (a # b # c # s) = [b64_digit v, b64_digit w, b64_digit x, b64_digit y] @ b64_encode s"
    and "char_of ((((v * 64 + w) * 64 + x) * 64 + y) div 65536) = a"
    "char_of ((((v * 64 + w) * 64 + x) * 64 + y) div 256 mod 256) = b"
    "char_of ((((v * 64 + w) * 64 + x) * 64 + y) mod 256) = c"
    by (rule b64_three [of a b c s])
  moreover have "b64_quads (b64_encode s) = Some s" by (rule 4) (simp only: refl)
  ultimately show ?case unfolding e by (simp add: Let_def)
qed simp

lemma b64_encode_no_breaks: "list_all (\<lambda>c. c \<noteq> CHR 0x0A \<and> c \<noteq> CHR 0x0D) (b64_encode s)"
proof (induction s rule: b64_encode.induct)
  case (2 a)
  obtain v w where "v < 64" "w < 64" and e: "b64_encode [a] = [b64_digit v, b64_digit w, CHR ''='', CHR ''='']"
    by (rule b64_one)
  then show ?case unfolding e by simp
next
  case (3 a b)
  obtain v w x where "v < 64" "w < 64" "x < 64"
    and e: "b64_encode [a, b] = [b64_digit v, b64_digit w, b64_digit x, CHR ''='']"
    by (rule b64_two)
  then show ?case unfolding e by simp
next
  case (4 a b c s)
  obtain v w x y where "v < 64" "w < 64" "x < 64" "y < 64"
    and e: "b64_encode (a # b # c # s) = [b64_digit v, b64_digit w, b64_digit x, b64_digit y] @ b64_encode s"
    by (rule b64_three [of a b c s])
  moreover have "list_all (\<lambda>c. c \<noteq> CHR 0x0A \<and> c \<noteq> CHR 0x0D) (b64_encode s)" by (rule 4) (simp only: refl)
  ultimately show ?case unfolding e by simp
qed simp

lemma b64_decode_encode [simp]: "b64_decode (b64_encode s) = Some s"
proof -
  have "filter (\<lambda>c. c \<noteq> CHR 0x0A \<and> c \<noteq> CHR 0x0D) (b64_encode s) = b64_encode s"
    using b64_encode_no_breaks [of s] by (simp add: filter_id_conv list_all_iff)
  then show ?thesis by (simp add: b64_decode_def b64_quads_encode)
qed

end
