(* ===== verification/Crypto_Util.thy ===== *)
theory Crypto_Util
  imports Go_Base64
begin

text \<open>
  Key agreement, encryption and compression: \<^verbatim>\<open>src/internal/crypto/crypto.go\<close>,
  \<^verbatim>\<open>src/internal/cryptobox/cryptobox.go\<close> and \<^verbatim>\<open>src/internal/compress/compress.go\<close>. The primitives
  (X25519, SHA-256, AES-GCM, gzip) are the fields of a record the definitions take as an argument; what the code
  relies on is stated in the predicates \<open>ecdh_agrees\<close>, \<open>gcm_opens\<close>, \<open>sha_len\<close> and \<open>gzip_inverts\<close>.
  Keys, nonces and ciphertexts are byte strings. A draw of random bytes is an argument, \<open>None\<close> when the
  source of randomness fails.
\<close>

record primitives =
  x25519_pub :: "string \<Rightarrow> string"
  x25519 :: "string \<Rightarrow> string \<Rightarrow> string option"
  sha256 :: "string \<Rightarrow> string"
  gcm_seal :: "string \<Rightarrow> string \<Rightarrow> string \<Rightarrow> string"
  gcm_open :: "string \<Rightarrow> string \<Rightarrow> string \<Rightarrow> string option"
  gzip :: "string \<Rightarrow> string"
  gunzip :: "string \<Rightarrow> (string \<times> bool) option"

text \<open>\<open>gunzip\<close>: \<open>None\<close> is a bad header; otherwise the bytes the stream yields and whether it ends
  without an error.\<close>

definition ecdh_agrees :: "primitives \<Rightarrow> bool" where
  "ecdh_agrees P \<longleftrightarrow> (\<forall>a b. length a = 32 \<longrightarrow> length b = 32 \<longrightarrow>
     x25519 P a (x25519_pub P b) = x25519 P b (x25519_pub P a) \<and> x25519 P a (x25519_pub P b) \<noteq> None)"

abbreviation NonceSize :: nat where "NonceSize \<equiv> 12"

definition aes_key :: "string \<Rightarrow> bool" where
  "aes_key k \<longleftrightarrow> length k = 16 \<or> length k = 24 \<or> length k = 32"

definition gcm_opens :: "primitives \<Rightarrow> bool" where
  "gcm_opens P \<longleftrightarrow> (\<forall>k n p. aes_key k \<longrightarrow> length n = NonceSize \<longrightarrow> gcm_open P k n (gcm_seal P k n p) = Some p)"

definition sha_len :: "primitives \<Rightarrow> bool" where
  "sha_len P \<longleftrightarrow> (\<forall>s. length (sha256 P s) = 32)"

definition gzip_inverts :: "primitives \<Rightarrow> bool" where
  "gzip_inverts P \<longleftrightarrow> (\<forall>s. gunzip P (gzip P s) = Some (s, True))"

subsection \<open>crypto.go\<close>

definition DeriveSessionKey :: "primitives \<Rightarrow> string \<Rightarrow> string \<Rightarrow> string option" where
  "DeriveSessionKey P myPriv theirPub =
     (case x25519 P myPriv theirPub of
        None \<Rightarrow> None
      | Some shared \<Rightarrow> Some (sha256 P (shared @ ''korik-e2e-v1'')))"

definition Encrypt :: "primitives \<Rightarrow> string option \<Rightarrow> string \<Rightarrow> string \<Rightarrow> string option" where
  "Encrypt P rnd key plaintext =
     (if \<not> aes_key key then None
      else case rnd of None \<Rightarrow> None | Some nonce \<Rightarrow> Some (nonce @ gcm_seal P key nonce plaintext))"

definition Decrypt :: "primitives \<Rightarrow> string \<Rightarrow> string \<Rightarrow> string option" where
  "Decrypt P key data =
     (if \<not> aes_key key then None
      else if length data < NonceSize then None
      else gcm_open P key (take NonceSize data) (drop NonceSize data))"

definition MixKeys :: "primitives \<Rightarrow> string \<Rightarrow> string \<Rightarrow> string" where
  "MixKeys P oldKey freshKey = sha256 P (''korik-rekey-v1:'' @ oldKey @ ''|'' @ freshKey)"

subsection \<open>cryptobox.go\<close>

definition DeriveSharedKey :: "primitives \<Rightarrow> string \<Rightarrow> string \<Rightarrow> string option" where
  "DeriveSharedKey P priv peerPub =
     (case x25519 P priv peerPub of None \<Rightarrow> None | Some shared \<Rightarrow> Some (sha256 P shared))"

definition BoxEncrypt :: "primitives \<Rightarrow> string option \<Rightarrow> string \<Rightarrow> string \<Rightarrow> string option" where
  "BoxEncrypt P rnd key plaintext =
     (if \<not> aes_key key then None
      else case rnd of
             None \<Rightarrow> None
           | Some nonce \<Rightarrow> Some (b64_encode (nonce @ gcm_seal P key nonce plaintext)))"

definition BoxDecrypt :: "primitives \<Rightarrow> string \<Rightarrow> string \<Rightarrow> string option" where
  "BoxDecrypt P key encoded =
     (case b64_decode encoded of
        None \<Rightarrow> None
      | Some data \<Rightarrow>
          if \<not> aes_key key then None
          else if length data < NonceSize then None
          else gcm_open P key (take NonceSize data) (drop NonceSize data))"

subsection \<open>compress.go\<close>

abbreviation Threshold :: nat where "Threshold \<equiv> 1024"
abbreviation MaxDecompressed :: nat where "MaxDecompressed \<equiv> 1048576"

text \<open>Writing to a buffer does not fail, so the two error returns of \<open>Encode\<close> are not reached.\<close>

definition Encode :: "primitives \<Rightarrow> string \<Rightarrow> string \<times> bool" where
  "Encode P plain =
     (if length plain < Threshold then (plain, False)
      else let buf = gzip P plain
           in if length plain \<le> length buf then (plain, False) else (buf, True))"

datatype decode_error = PlainTooLong | BadHeader | BadStream | OutputTooLong

definition Decode :: "primitives \<Rightarrow> string \<Rightarrow> bool \<Rightarrow> decode_error + string" where
  "Decode P payload compressed =
     (if \<not> compressed then (if MaxDecompressed < length payload then Inl PlainTooLong else Inr payload)
      else case gunzip P payload of
             None \<Rightarrow> Inl BadHeader
           | Some (stream, clean) \<Rightarrow>
               (let out = take (MaxDecompressed + 1) stream
                in if \<not> clean \<and> length stream \<le> MaxDecompressed then Inl BadStream
                   else if MaxDecompressed < length out then Inl OutputTooLong else Inr out))"

subsection \<open>Lemmas\<close>

lemma Decrypt_Encrypt:
  "gcm_opens P \<Longrightarrow> length nonce = NonceSize \<Longrightarrow> aes_key key \<Longrightarrow>
    Encrypt P (Some nonce) key p = Some c \<Longrightarrow> Decrypt P key c = Some p"
  by (auto simp: Encrypt_def Decrypt_def gcm_opens_def)

lemma aes_key_32 [simp]: "length k = 32 \<Longrightarrow> aes_key k"
  by (simp add: aes_key_def)

lemma ecdh_agreesD:
  assumes "ecdh_agrees P" and "length a = 32" and "length b = 32"
  shows "\<exists>s. x25519 P a (x25519_pub P b) = Some s \<and> x25519 P b (x25519_pub P a) = Some s"
  using assms unfolding ecdh_agrees_def by (metis option.exhaust)

lemma DeriveSessionKey_agree:
  assumes "ecdh_agrees P" and "length a = 32" and "length b = 32"
  shows "\<exists>k. DeriveSessionKey P a (x25519_pub P b) = Some k \<and> DeriveSessionKey P b (x25519_pub P a) = Some k"
  using ecdh_agreesD [OF assms] by (auto simp: DeriveSessionKey_def)

lemma DeriveSessionKey_len: "sha_len P \<Longrightarrow> DeriveSessionKey P a b = Some k \<Longrightarrow> length k = 32"
  by (auto simp: DeriveSessionKey_def sha_len_def split: option.splits)

lemma MixKeys_len: "sha_len P \<Longrightarrow> length (MixKeys P a b) = 32"
  by (simp add: MixKeys_def sha_len_def)

lemma Decode_bounded: "Decode P payload z = Inr out \<Longrightarrow> length out \<le> MaxDecompressed"
  by (auto simp: Decode_def Let_def split: if_splits option.splits)

lemma Decode_Encode:
  assumes "gzip_inverts P" and "length plain \<le> MaxDecompressed"
  shows "(case Encode P plain of (payload, z) \<Rightarrow> Decode P payload z) = Inr plain"
  using assms by (auto simp: Encode_def Decode_def gzip_inverts_def Let_def)

lemma Encode_shorter: "length (fst (Encode P plain)) \<le> length plain"
  by (simp add: Encode_def Let_def)

subsection \<open>Properties\<close>

text \<open>
  Two peers that know each other's public keys derive the same 256-bit session key, whichever
  of them computes it, and what one encrypts under it the other decrypts to the same plaintext; no
  input shorter than a nonce is ever passed to the cipher.
\<close>

theorem session_keys_agree:
  assumes "ecdh_agrees P" and "sha_len P" and "gcm_opens P" and "length nonce = NonceSize"
    and "length a = 32" and "length b = 32"
  shows "\<exists>k. DeriveSessionKey P a (x25519_pub P b) = Some k \<and> DeriveSessionKey P b (x25519_pub P a) = Some k \<and>
     length k = 32 \<and>
     (\<exists>c. Encrypt P (Some nonce) k plain = Some c \<and> Decrypt P k c = Some plain)"
proof -
  obtain k where k: "DeriveSessionKey P a (x25519_pub P b) = Some k" "DeriveSessionKey P b (x25519_pub P a) = Some k"
    using DeriveSessionKey_agree [OF assms(1,5,6)] by auto
  have len: "length k = 32" by (rule DeriveSessionKey_len [OF assms(2) k(1)])
  then obtain c where "Encrypt P (Some nonce) k plain = Some c" by (simp add: Encrypt_def)
  with Decrypt_Encrypt [OF assms(3,4) aes_key_32 [OF len] this] show ?thesis
    using k len by auto
qed

text \<open>
  C35. Compression is transparent and bounded: whatever \<open>Encode\<close> returns for a text of at most 1
  MiB, \<open>Decode\<close> gives the text back, the payload is never longer than the text, and no payload at
  all, however it was crafted, decodes to more than 1 MiB.
\<close>

theorem compression_round_trip_and_bound:
  assumes "gzip_inverts P" and "length plain \<le> MaxDecompressed"
  shows "(case Encode P plain of (payload, z) \<Rightarrow> length payload \<le> length plain \<and> Decode P payload z = Inr plain) \<and>
     (case Decode P bomb z' of Inr out \<Rightarrow> length out \<le> MaxDecompressed | Inl e \<Rightarrow> True)"
  using Decode_Encode [OF assms] Encode_shorter [of P plain] Decode_bounded [of P bomb z']
  by (cases "Encode P plain"; cases "Decode P bomb z'") simp_all

text \<open>A concrete instance of the primitives on which every hypothesis holds.\<close>

definition toy :: primitives where
  "toy = \<lparr>x25519_pub = (\<lambda>a. a), x25519 = (\<lambda>a b. Some ''shared''),
     sha256 = (\<lambda>s. take 32 (s @ replicate 32 CHR ''0'')),
     gcm_seal = (\<lambda>k n p. n @ p), gcm_open = (\<lambda>k n c. if prefix n c then Some (drop (length n) c) else None),
     gzip = (\<lambda>s. CHR ''z'' # s), gunzip = (\<lambda>s. if s = [] then None else Some (tl s, True))\<rparr>"

lemma toy_ok: "ecdh_agrees toy" "sha_len toy" "gcm_opens toy" "gzip_inverts toy"
  by (auto simp: toy_def ecdh_agrees_def sha_len_def gcm_opens_def gzip_inverts_def min_def)

theorem session_keys_agree_witness:
  "let a = replicate 32 CHR ''a''; b = replicate 32 CHR ''b'' in
   \<exists>k. DeriveSessionKey toy a (x25519_pub toy b) = Some k \<and> DeriveSessionKey toy b (x25519_pub toy a) = Some k \<and>
     length k = 32 \<and>
     (\<exists>c. Encrypt toy (Some (replicate 12 CHR ''n'')) k ''hello'' = Some c \<and> Decrypt toy k c = Some ''hello'')"
  unfolding Let_def by (rule session_keys_agree [OF toy_ok(1,2,3)]) simp_all

theorem compression_round_trip_and_bound_witness:
  "(case Encode toy ''hello'' of (payload, z) \<Rightarrow> length payload \<le> length ''hello'' \<and> Decode toy payload z = Inr ''hello'') \<and>
   (case Decode toy ''zbomb'' True of Inr out \<Rightarrow> length out \<le> MaxDecompressed | Inl e \<Rightarrow> True)"
  by (rule compression_round_trip_and_bound [OF toy_ok(4)]) simp

end
