(* ===== verification/Identity_Keys.thy ===== *)
theory Identity_Keys
  imports Crypto_Util Persist
begin

text \<open>
  The identity of a node, \<^verbatim>\<open>src/internal/identity/identity.go\<close>: the X25519 key pair, the JID and LID
  derived from the public key, and the file that keeps the private key. A private key is its 32 bytes.
\<close>

record Identity =
  id_rawPriv :: string
  id_Public :: string
  id_JID :: string
  id_LID :: string

datatype identity_error = BadJSON | BadHex | BadKey | NoRandom | SaveFailed

definition fromRawPrivate :: "primitives \<Rightarrow> string \<Rightarrow> identity_error + Identity" where
  "fromRawPrivate P rawPriv =
     (if length rawPriv \<noteq> 32 then Inl BadKey
      else let pub = x25519_pub P rawPriv
           in Inr \<lparr>id_rawPriv = rawPriv, id_Public = pub, id_JID = ''korik:'' @ EncodeToString pub,
                   id_LID = take 8 (EncodeToString pub)\<rparr>)"

text \<open>The file holds the hexadecimal private key. \<open>gen\<close> is the key drawn by \<open>GenerateKey\<close>.\<close>

definition save_identity ::
    "string saving \<Rightarrow> Identity \<Rightarrow> string stored \<Rightarrow> (identity_error + Identity) \<times> string stored" where
  "save_identity w i f =
     (case save_doc w (EncodeToString (id_rawPriv i)) f of
        (ok, f') \<Rightarrow> (if ok then Inr i else Inl SaveFailed, f'))"

definition load_identity :: "primitives \<Rightarrow> string \<Rightarrow> identity_error + Identity" where
  "load_identity P hexkey =
     (case DecodeString hexkey of None \<Rightarrow> Inl BadHex | Some raw \<Rightarrow> fromRawPrivate P raw)"

definition LoadOrCreate ::
    "primitives \<Rightarrow> string option \<Rightarrow> string saving \<Rightarrow> string stored \<Rightarrow> (identity_error + Identity) \<times> string stored" where
  "LoadOrCreate P gen w f =
     (let create = (case gen of
          None \<Rightarrow> (Inl NoRandom, f)
        | Some raw \<Rightarrow> (case fromRawPrivate P raw of Inl e \<Rightarrow> (Inl e, f) | Inr i \<Rightarrow> save_identity w i f))
      in case f of
           Doc hexkey \<Rightarrow> (load_identity P hexkey, f)
         | Malformed \<Rightarrow> (Inl BadJSON, f)
         | Absent \<Rightarrow> create
         | Unreadable \<Rightarrow> create)"

definition PublicKeyHex :: "Identity \<Rightarrow> string" where
  "PublicKeyHex i = EncodeToString (id_Public i)"

definition RawPrivateHex :: "Identity \<Rightarrow> string" where
  "RawPrivateHex i = EncodeToString (id_rawPriv i)"

definition RestoreFromHex ::
    "primitives \<Rightarrow> string \<Rightarrow> string saving \<Rightarrow> string stored \<Rightarrow> (identity_error + Identity) \<times> string stored" where
  "RestoreFromHex P privateHex w f =
     (case load_identity P privateHex of Inl e \<Rightarrow> (Inl e, f) | Inr i \<Rightarrow> save_identity w i f)"

definition ParsePeerPublicKey :: "string \<Rightarrow> string option" where
  "ParsePeerPublicKey hexStr =
     (case DecodeString hexStr of None \<Rightarrow> None | Some raw \<Rightarrow> if length raw = 32 then Some raw else None)"

definition JIDFromPublicKeyHex :: "string \<Rightarrow> string" where
  "JIDFromPublicKeyHex hexStr = ''korik:'' @ hexStr"

definition LIDFromPublicKeyHex :: "string \<Rightarrow> string" where
  "LIDFromPublicKeyHex hexStr = (if length hexStr < 8 then hexStr else take 8 hexStr)"

definition IdentityString :: "Identity \<Rightarrow> string" where
  "IdentityString i = id_JID i @ '' (lid: '' @ id_LID i @ '')''"

text \<open>The public key of a private key has 32 bytes.\<close>

definition pub_len :: "primitives \<Rightarrow> bool" where
  "pub_len P \<longleftrightarrow> (\<forall>k. length k = 32 \<longrightarrow> length (x25519_pub P k) = 32)"

definition identity_ok :: "primitives \<Rightarrow> Identity \<Rightarrow> bool" where
  "identity_ok P i \<longleftrightarrow> fromRawPrivate P (id_rawPriv i) = Inr i"

lemma fromRawPrivate_ok: "fromRawPrivate P raw = Inr i \<Longrightarrow> identity_ok P i \<and> id_rawPriv i = raw"
  by (auto simp: fromRawPrivate_def identity_ok_def Let_def split: if_splits)

lemma load_identity_ok: "load_identity P h = Inr i \<Longrightarrow> identity_ok P i"
  by (auto simp: load_identity_def fromRawPrivate_ok split: option.splits)

lemma load_saved: "identity_ok P i \<Longrightarrow> load_identity P (EncodeToString (id_rawPriv i)) = Inr i"
  by (simp add: load_identity_def identity_ok_def)

lemma load_encoded: "load_identity P (EncodeToString raw) = fromRawPrivate P raw"
  by (simp add: load_identity_def)

lemma save_identity_file:
  "save_identity w i f = (Inr j, f') \<Longrightarrow> j = i \<and> f' = Doc (EncodeToString (id_rawPriv i))"
  by (cases w) (auto simp: save_identity_def)

lemma LoadOrCreate_ok:
  assumes "LoadOrCreate P gen w f = (Inr i, f')"
  shows "identity_ok P i" "LoadOrCreate P gen' w' f' = (Inr i, f')"
proof -
  have "identity_ok P i \<and> LoadOrCreate P gen' w' f' = (Inr i, f')"
  proof (cases f)
    case (Doc h)
    then have "load_identity P h = Inr i" "f' = f" using assms by (auto simp: LoadOrCreate_def)
    then show ?thesis using Doc load_identity_ok by (simp add: LoadOrCreate_def)
  next
    case Malformed
    then show ?thesis using assms by (simp add: LoadOrCreate_def)
  next
    case Absent
    then show ?thesis using assms fromRawPrivate_ok
      by (auto simp: LoadOrCreate_def load_encoded Let_def dest!: save_identity_file split: option.splits sum.splits)
  next
    case Unreadable
    then show ?thesis using assms fromRawPrivate_ok
      by (auto simp: LoadOrCreate_def load_encoded Let_def dest!: save_identity_file split: option.splits sum.splits)
  qed
  then show "identity_ok P i" "LoadOrCreate P gen' w' f' = (Inr i, f')" by auto
qed

lemma RestoreFromHex_same:
  "identity_ok P i \<Longrightarrow> RestoreFromHex P (RawPrivateHex i) Written f = (Inr i, Doc (RawPrivateHex i))"
  by (simp add: RestoreFromHex_def RawPrivateHex_def load_saved save_identity_def)

lemma identity_ok_fields:
  assumes "identity_ok P i"
  shows "id_Public i = x25519_pub P (id_rawPriv i)" "id_JID i = ''korik:'' @ EncodeToString (id_Public i)"
    "id_LID i = take 8 (EncodeToString (id_Public i))" "length (id_rawPriv i) = 32"
  using assms by (cases i; auto simp: identity_ok_def fromRawPrivate_def Let_def split: if_splits)+

lemma announced_parses:
  assumes "identity_ok P i" and "pub_len P"
  shows "ParsePeerPublicKey (PublicKeyHex i) = Some (x25519_pub P (id_rawPriv i))"
    "JIDFromPublicKeyHex (PublicKeyHex i) = id_JID i"
  using assms identity_ok_fields [OF assms(1)]
  by (simp_all add: ParsePeerPublicKey_def PublicKeyHex_def JIDFromPublicKeyHex_def pub_len_def)

subsection \<open>Properties\<close>

text \<open>
  C33. The identity is stable: once \<open>LoadOrCreate\<close> has succeeded, every later start (whatever
  random key it would draw) returns the same identity and leaves the file as it is, and restoring from the
  backed-up hexadecimal key gives that identity again.
\<close>

theorem identity_is_stable:
  assumes "LoadOrCreate P gen w f = (Inr i, f')"
  shows "LoadOrCreate P gen' w' f' = (Inr i, f') \<and>
     RestoreFromHex P (RawPrivateHex i) Written f'' = (Inr i, Doc (RawPrivateHex i)) \<and>
     LoadOrCreate P gen' w' (Doc (RawPrivateHex i)) = (Inr i, Doc (RawPrivateHex i))"
  using LoadOrCreate_ok [OF assms] RestoreFromHex_same
  by (simp add: LoadOrCreate_def RawPrivateHex_def load_saved)

text \<open>
  What a peer derives from the key a node announces is the node's own identity: the announced
  public key parses back to the key, and the JID and LID computed from it are the node's; two identities with
  different public keys have different JIDs.
\<close>

theorem announced_key_gives_identity:
  assumes "LoadOrCreate P gen w f = (Inr i, f')" and "pub_len P"
  shows "ParsePeerPublicKey (PublicKeyHex i) = Some (id_Public i) \<and>
     JIDFromPublicKeyHex (PublicKeyHex i) = id_JID i \<and> LIDFromPublicKeyHex (PublicKeyHex i) = id_LID i \<and>
     (\<forall>gen2 w2 f2 j f2'. LoadOrCreate P gen2 w2 f2 = (Inr j, f2') \<longrightarrow>
        (id_JID i = id_JID j \<longleftrightarrow> id_Public i = id_Public j))"
proof -
  note i = identity_ok_fields [OF LoadOrCreate_ok(1) [OF assms(1)]]
  have len: "length (id_Public i) = 32" using assms(2) i(1,4) by (simp add: pub_len_def)
  have inj: "id_JID i = id_JID j \<longleftrightarrow> id_Public i = id_Public j" if "identity_ok P j" for j
    using i(2) identity_ok_fields(2) [OF that] DecodeString_Encode
    by (metis append_same_eq append.assoc option.inject same_append_eq)
  show ?thesis
    using len inj LoadOrCreate_ok(1) i(2,3)
    by (auto simp: ParsePeerPublicKey_def PublicKeyHex_def JIDFromPublicKeyHex_def LIDFromPublicKeyHex_def)
qed

text \<open>
  The JID a peer is filed under is not a function of its key: hexadecimal digits are
  accepted in both cases and copied into the JID as they came, so every key whose encoding has a letter can be
  announced under two different JIDs.
\<close>

theorem one_key_two_jids:
  "\<exists>h h'. ParsePeerPublicKey h = ParsePeerPublicKey h' \<and> ParsePeerPublicKey h \<noteq> None \<and>
     JIDFromPublicKeyHex h \<noteq> JIDFromPublicKeyHex h'"
proof (intro exI conjI)
  let ?h = "replicate 64 CHR ''a''" and ?h' = "replicate 64 CHR ''A''"
  have dec: "DecodeString (replicate (2 * n) c) = Some (replicate n (char_of (17 * v :: nat)))"
    if "hex_value c = Some v" for c v n
    using that by (induction n) simp_all
  have v: "hex_value (CHR ''a'') = Some 10" "hex_value (CHR ''A'') = Some 10"
    by (simp_all add: hex_value_def byte_of_def Let_def)
  show "ParsePeerPublicKey ?h = ParsePeerPublicKey ?h'" "ParsePeerPublicKey ?h \<noteq> None"
    using dec [OF v(1), of 32] dec [OF v(2), of 32] by (simp_all add: ParsePeerPublicKey_def)
  show "JIDFromPublicKeyHex ?h \<noteq> JIDFromPublicKeyHex ?h'"
    by (simp add: JIDFromPublicKeyHex_def)
qed

definition sample_key :: string where "sample_key = replicate 32 CHR ''k''"

lemma sample_load: "LoadOrCreate toy (Some sample_key) Written Absent =
    (Inr \<lparr>id_rawPriv = sample_key, id_Public = sample_key, id_JID = ''korik:'' @ EncodeToString sample_key,
          id_LID = take 8 (EncodeToString sample_key)\<rparr>, Doc (EncodeToString sample_key))"
  by (simp add: LoadOrCreate_def fromRawPrivate_def save_identity_def toy_def sample_key_def Let_def)

theorem identity_is_stable_witness:
  "\<exists>i f. LoadOrCreate toy (Some sample_key) Written Absent = (Inr i, f) \<and>
     LoadOrCreate toy None MkdirFails f = (Inr i, f)"
  using identity_is_stable [OF sample_load] sample_load by blast

lemma toy_pub_len: "pub_len toy"
  by (simp add: pub_len_def toy_def)

theorem announced_key_gives_identity_witness:
  "\<exists>i f. LoadOrCreate toy (Some sample_key) Written Absent = (Inr i, f) \<and> JIDFromPublicKeyHex (PublicKeyHex i) = id_JID i"
  using sample_load announced_key_gives_identity [OF sample_load toy_pub_len] by blast

end
