(* ===== verification/Go_Path.thy ===== *)
theory Go_Path
  imports Go_Strings
begin

text \<open>
  \<^verbatim>\<open>filepath.Clean\<close> and \<^verbatim>\<open>filepath.Join\<close> on Unix, by the components of the path: empty and \<open>.\<close>
  components disappear and \<open>..\<close> takes the component before it away.
\<close>

definition IsAbs :: "string \<Rightarrow> bool" where "IsAbs p \<longleftrightarrow> HasPrefix p ''/''"

text \<open>The components kept so far are a stack, the last one first.\<close>

fun clean_stack :: "bool \<Rightarrow> string list \<Rightarrow> string list \<Rightarrow> string list" where
  "clean_stack rooted st [] = rev st"
| "clean_stack rooted st (c # cs) =
     (if c = '''' \<or> c = ''.'' then clean_stack rooted st cs
      else if c = ''..'' then
        (if st \<noteq> [] \<and> hd st \<noteq> ''..'' then clean_stack rooted (tl st) cs
         else if rooted then clean_stack rooted st cs
         else clean_stack rooted (''..'' # st) cs)
      else clean_stack rooted (c # st) cs)"

definition path_parts :: "string \<Rightarrow> string list" where
  "path_parts p = clean_stack (IsAbs p) [] (Split p CHR ''/'')"

definition Clean :: "string \<Rightarrow> string" where
  "Clean p =
     (let body = Join (path_parts p) ''/''
      in if IsAbs p then ''/'' @ body else if body = '''' then ''.'' else body)"

definition JoinPath :: "string list \<Rightarrow> string" where
  "JoinPath ps =
     (let qs = dropWhile (\<lambda>p. p = '''') ps in if qs = [] then '''' else Clean (Join qs ''/''))"

lemma Split_Cons_sep: "Split (sep # s) sep = '''' # Split s sep"
  by simp

lemma Split_append_sep: "Split (a @ sep # b) sep = Split a sep @ Split b sep"
  by (induction a) (auto split: list.splits)

text \<open>Components that are not \<open>..\<close> only ever extend the stack.\<close>

definition plain_parts :: "string list \<Rightarrow> string list" where
  "plain_parts cs = filter (\<lambda>c. c \<noteq> '''' \<and> c \<noteq> ''.'') cs"

lemma clean_stack_plain:
  "''..'' \<notin> set cs \<Longrightarrow> clean_stack rooted st cs = rev st @ plain_parts cs"
  by (induction cs arbitrary: st) (auto simp: plain_parts_def)

lemma clean_stack_append:
  "''..'' \<notin> set cs \<Longrightarrow> clean_stack rooted st (ds @ cs) = clean_stack rooted st ds @ plain_parts cs"
  by (cases rooted; induction ds arbitrary: st) (simp_all add: clean_stack_plain)

lemma parts_under:
  assumes "dir \<noteq> ''''" and "''..'' \<notin> set (Split name CHR ''/'')"
  shows "path_parts (dir @ ''/'' @ name) = path_parts dir @ plain_parts (Split name CHR ''/'')"
proof -
  have "IsAbs (dir @ ''/'' @ name) \<longleftrightarrow> IsAbs dir"
    using assms(1) by (cases dir) (auto simp: IsAbs_def HasPrefix_def)
  then show ?thesis
    using Split_append_sep [of dir "CHR ''/''" name] assms(2)
    by (simp add: path_parts_def clean_stack_append)
qed

lemma Clean_eq_parts:
  "IsAbs p = IsAbs q \<Longrightarrow> path_parts p = path_parts q \<Longrightarrow> Clean p = Clean q"
  by (simp add: Clean_def)

lemma prefix_Join: "prefix (Join as sep) (Join (as @ bs) sep)"
proof (induction as sep rule: Join.induct)
  case (2 w sep)
  then show ?case by (cases bs) auto
qed simp_all

subsection \<open>Names that differ only in their last component\<close>

lemma Split_append_last:
  "sep \<notin> set t \<Longrightarrow> Split (s @ t) sep = butlast (Split s sep) @ [last (Split s sep) @ t]"
proof (induction s)
  case (Cons c s)
  then show ?case by (cases "Split s sep") (auto split: list.splits)
qed (simp add: Split_no_sep)

lemma Join_snoc: "Join (ws @ [w]) sep = (if ws = [] then w else Join ws sep @ sep @ w)"
  by (induction ws sep rule: Join.induct) auto

lemma clean_stack_snoc:
  "w \<noteq> '''' \<Longrightarrow> w \<noteq> ''.'' \<Longrightarrow> w \<noteq> ''..'' \<Longrightarrow> clean_stack rooted st (cs @ [w]) = clean_stack rooted st cs @ [w]"
  using clean_stack_append [of "[w]" rooted st cs] by (simp add: plain_parts_def)

lemma Clean_append:
  "\<exists>pre. \<forall>t'. CHR ''/'' \<notin> set t' \<longrightarrow> hd t' = CHR ''_'' \<longrightarrow> t' \<noteq> [] \<longrightarrow> Clean (s @ t') = pre @ t'"
proof -
  define cs w where "cs = clean_stack (IsAbs s) [] (butlast (Split s CHR ''/''))" and "w = last (Split s CHR ''/'')"
  define pre where "pre = (if IsAbs s then ''/'' else '''') @ (if cs = [] then w else Join cs ''/'' @ ''/'' @ w)"
  have "Clean (s @ t') = pre @ t'" if t': "CHR ''/'' \<notin> set t'" "hd t' = CHR ''_''" "t' \<noteq> []" for t'
  proof -
    have mem: "CHR ''_'' \<in> set t'" using t' by (metis list.set_sel(1))
    have abs: "IsAbs (s @ t') \<longleftrightarrow> IsAbs s"
      using t' by (cases s; cases t') (auto simp: IsAbs_def HasPrefix_def)
    have "w @ t' \<noteq> ''''" "w @ t' \<noteq> ''.''" "w @ t' \<noteq> ''..''"
      using mem t'(3) by (auto simp: append_eq_Cons_conv)
    then have "path_parts (s @ t') = cs @ [w @ t']"
      by (simp add: path_parts_def abs Split_append_last [OF t'(1)] clean_stack_snoc cs_def w_def)
    then show ?thesis using t'(3) by (simp add: Clean_def abs Join_snoc pre_def)
  qed
  then show ?thesis by blast
qed

end
