(* ===== verification/Validate.thy ===== *)
theory Validate
  imports Identity_Keys Go_Path Go_Utf8
begin

text \<open>
  The input validation of \<^verbatim>\<open>src/internal/validate/validate.go\<close>. Every check returns \<open>None\<close> when the
  input is accepted and the reason otherwise. UTF-8 is decoded as in \<open>Go_Utf8\<close>.
\<close>

datatype validate_error =
    BadKeyLength nat | BadJID | EmptyMessage | MessageTooLong nat | NotObject
  | EmptyName | AbsolutePath | UnsafeSequence string
  | BadTotal int | IndexOutOfRange int int
  | InvalidUTF8 | TooShort | TooManyCharacters nat | ControlCharacter
  | NegativeSize | SizeTooLarge int | FieldTooLong string nat

abbreviation MaxMessageSize :: nat where "MaxMessageSize \<equiv> 1048576"
abbreviation MaxNicknameLen :: nat where "MaxNicknameLen \<equiv> 32"
abbreviation MaxFileTransferSize :: int where "MaxFileTransferSize \<equiv> 2 * 1024 * 1024 * 1024"

definition jid_matches :: "string \<Rightarrow> bool" where
  "jid_matches s \<longleftrightarrow> HasPrefix s ''korik:'' \<and> length (drop 6 s) = 64 \<and>
     list_all (\<lambda>c. hex_value c \<noteq> None) (drop 6 s)"

definition ValidPublicKey :: "string \<Rightarrow> validate_error option" where
  "ValidPublicKey key = (if length key \<noteq> 32 then Some (BadKeyLength (length key)) else None)"

definition ValidJID :: "string \<Rightarrow> validate_error option" where
  "ValidJID s = (if jid_matches s then None else Some BadJID)"

definition MessageJSON :: "string \<Rightarrow> validate_error option" where
  "MessageJSON data =
     (if data = [] then Some EmptyMessage
      else if MaxMessageSize < length data then Some (MessageTooLong (length data))
      else let trimmed = TrimSpace data
           in if trimmed = [] \<or> hd trimmed \<noteq> CHR ''{'' then Some NotObject else None)"

definition pathTraversalPatterns :: "string list" where
  "pathTraversalPatterns = [''..'', [CHR 0x00], ''//'']"

definition Filename :: "string \<Rightarrow> validate_error option" where
  "Filename name =
     (if name = '''' then Some EmptyName
      else if HasPrefix name ''/'' \<or> (1 < length name \<and> name ! 1 = CHR '':'') then Some AbsolutePath
      else map_option UnsafeSequence (find (Contains name) pathTraversalPatterns))"

definition ChunkIndex :: "int \<Rightarrow> int \<Rightarrow> validate_error option" where
  "ChunkIndex index tot =
     (if tot \<le> 0 then Some (BadTotal tot)
      else if index < 0 \<or> tot \<le> index then Some (IndexOutOfRange index tot) else None)"

definition IsControl :: "nat \<Rightarrow> bool" where
  "IsControl r \<longleftrightarrow> r < 0x20 \<or> (0x7F \<le> r \<and> r \<le> 0x9F)"

definition Nickname :: "string \<Rightarrow> validate_error option" where
  "Nickname name =
     (case runes (map byte_of name) of
        None \<Rightarrow> Some InvalidUTF8
      | Some rs \<Rightarrow>
          if length rs < 1 then Some TooShort
          else if MaxNicknameLen < length rs then Some (TooManyCharacters (length rs))
          else if list_ex IsControl rs then Some ControlCharacter else None)"

definition FileTransferSize :: "int \<Rightarrow> validate_error option" where
  "FileTransferSize n =
     (if n < 0 then Some NegativeSize
      else if MaxFileTransferSize < n then Some (SizeTooLarge n) else None)"

definition MessageField :: "string \<Rightarrow> string \<Rightarrow> validate_error option" where
  "MessageField field v = (if MaxMessageSize < length v then Some (FieldTooLong field (length v)) else None)"

subsection \<open>Lemmas\<close>

lemma Filename_parts:
  assumes "Filename name = None"
  shows "name \<noteq> ''''" "\<not> IsAbs name" "''..'' \<notin> set (Split name CHR ''/'')" "CHR 0x00 \<notin> set name"
proof -
  have c: "\<not> Contains name ''..''" "\<not> Contains name [CHR 0x00]" "\<not> HasPrefix name ''/''"
    using assms by (auto simp: Filename_def pathTraversalPatterns_def split: if_splits)
  show "name \<noteq> ''''" using assms by (auto simp: Filename_def)
  show "\<not> IsAbs name" using c by (simp add: IsAbs_def)
  show "CHR 0x00 \<notin> set name"
    using c(2) by (metis Contains_sublist sublist_def split_list append_Cons append_Nil)
  show "''..'' \<notin> set (Split name CHR ''/'')" using c(1) Split_sublist by (auto simp: Contains_sublist)
qed

lemma decode_rune_bytes:
  assumes "decode_rune bs = Some (r, rest)" and "\<not> IsControl r"
  shows "length bs \<le> 4 + length rest \<and>
    (\<forall>b\<in>set bs. b \<in> set rest \<or> 0x20 \<le> b \<and> b \<noteq> 0x7F)"
  using assms by (cases bs) (auto simp: cont_def IsControl_def split: if_splits list.splits)

lemma runes_bytes:
  assumes "runes bs = Some rs" and "\<not> list_ex IsControl rs"
  shows "length bs \<le> 4 * length rs \<and> (\<forall>b\<in>set bs. 0x20 \<le> b \<and> b \<noteq> 0x7F)"
  using assms
proof (induction bs arbitrary: rs rule: runes.induct)
  case (1 bs)
  show ?case
  proof (cases "bs = []")
    case False
    then obtain r rest rs' where d: "decode_rune bs = Some (r, rest)" "runes rest = Some rs'" "rs = r # rs'"
      using 1(2) by (subst (asm) runes.simps) (auto split: option.splits)
    have "length rest \<le> 4 * length rs' \<and> (\<forall>b\<in>set rest. 0x20 \<le> b \<and> b \<noteq> 0x7F)"
      using 1(1) [OF False d(1) refl d(2)] 1(3) d(3) by simp
    then show ?thesis using decode_rune_bytes [OF d(1)] 1(3) d(3) by auto
  qed simp
qed

subsection \<open>Properties\<close>

text \<open>
  C34. A file name that passes \<open>Filename\<close> stays inside the directory it is joined to: it is not empty
  and not absolute, and the cleaned path starts with the cleaned directory and goes on with the name's own components.
\<close>

theorem validated_name_stays_inside:
  assumes "Filename name = None" and "IsAbs dir"
  shows "JoinPath [dir, name] = Clean (dir @ ''/'' @ name) \<and> prefix (Clean dir) (JoinPath [dir, name]) \<and>
     path_parts (dir @ ''/'' @ name) = path_parts dir @ plain_parts (Split name CHR ''/'') \<and>
     \<not> IsAbs name \<and> CHR 0x00 \<notin> set name"
proof -
  have dir: "dir \<noteq> ''''" using assms(2) by (auto simp: IsAbs_def HasPrefix_def)
  have parts: "path_parts (dir @ ''/'' @ name) = path_parts dir @ plain_parts (Split name CHR ''/'')"
    by (rule parts_under [OF dir Filename_parts(3) [OF assms(1)]])
  have "IsAbs (dir @ ''/'' @ name)" using assms(2) by (cases dir) (auto simp: IsAbs_def HasPrefix_def)
  then have "prefix (Clean dir) (Clean (dir @ ''/'' @ name))"
    using assms(2) parts prefix_Join by (simp add: Clean_def Let_def)
  then show ?thesis
    using parts dir Filename_parts [OF assms(1)] by (simp add: JoinPath_def Let_def)
qed

text \<open>
  The canonical JIDs are exactly those of the keys: \<open>JID\<close> accepts a string if and only if it is
  \<open>JIDFromPublicKeyHex\<close> of hexadecimal text that \<open>ParsePeerPublicKey\<close> accepts.
\<close>

theorem jid_accepts_exactly_keys:
  "ValidJID s = None \<longleftrightarrow> (\<exists>h key. s = JIDFromPublicKeyHex h \<and> ParsePeerPublicKey h = Some key)"
proof
  assume "ValidJID s = None"
  then have m: "prefix ''korik:'' s" "length (drop 6 s) = 64" "list_all (\<lambda>c. hex_value c \<noteq> None) (drop 6 s)"
    by (auto simp: ValidJID_def jid_matches_def HasPrefix_prefix split: if_splits)
  then obtain key where k: "DecodeString (drop 6 s) = Some key" using DecodeString_Some_iff [of "drop 6 s"] by auto
  have "s = JIDFromPublicKeyHex (drop 6 s)" using m(1) by (auto simp: JIDFromPublicKeyHex_def prefix_def)
  moreover have "ParsePeerPublicKey (drop 6 s) = Some key"
    using k m(2) length_DecodeString [OF k] by (simp add: ParsePeerPublicKey_def)
  ultimately show "\<exists>h key. s = JIDFromPublicKeyHex h \<and> ParsePeerPublicKey h = Some key" by blast
next
  assume "\<exists>h key. s = JIDFromPublicKeyHex h \<and> ParsePeerPublicKey h = Some key"
  then obtain h key where s: "s = ''korik:'' @ h" and k: "DecodeString h = Some key" "length key = 32"
    by (auto simp: JIDFromPublicKeyHex_def ParsePeerPublicKey_def split: option.splits if_splits)
  then show "ValidJID s = None"
    using length_DecodeString [OF k(1)] DecodeString_Some_iff [of h]
    by (simp add: ValidJID_def jid_matches_def HasPrefix_def)
qed

text \<open>
  A nickname that passes \<open>Nickname\<close> is valid UTF-8 of 1 to 32 code points, takes at most 128
  bytes and has no ASCII control byte anywhere.
\<close>

theorem nickname_is_printable:
  assumes "Nickname name = None"
  shows "(\<exists>rs. runes (map byte_of name) = Some rs \<and> 1 \<le> length rs \<and> length rs \<le> 32) \<and>
     length name \<le> 128 \<and> (\<forall>c\<in>set name. 0x20 \<le> byte_of c \<and> byte_of c \<noteq> 0x7F)"
proof -
  obtain rs where r: "runes (map byte_of name) = Some rs" "1 \<le> length rs" "length rs \<le> 32"
      "\<not> list_ex IsControl rs"
    using assms by (auto simp: Nickname_def Suc_le_eq split: option.splits if_splits)
  with runes_bytes [OF r(1,4)] show ?thesis by auto
qed

theorem validated_name_stays_inside_witness:
  "Filename ''a/b.txt'' = None \<and> JoinPath [''/home/u'', ''a/b.txt''] = ''/home/u/a/b.txt''"
  using validated_name_stays_inside [of "''a/b.txt''" "''/home/u''", THEN conjunct1]
  by (simp add: Filename_def HasPrefix_def pathTraversalPatterns_def Contains_def JoinPath_def Clean_def
      path_parts_def IsAbs_def Let_def)

theorem nickname_is_printable_witness:
  "Nickname ''Ann'' = None \<and> length ''Ann'' \<le> 128"
  using nickname_is_printable [of "''Ann''"]
  by (simp add: Nickname_def byte_of_def runes.simps IsControl_def)

end
