(* ===== verification/Verify_Safety.thy ===== *)
theory Verify_Safety
  imports Crypto_Util
begin

unbundle bit_operations_syntax

text \<open>
  The safety numbers of \<^verbatim>\<open>src/internal/verify/verify.go\<close>: the fingerprint of a public key as
  twelve groups of five digits, its comparison and the parsing of what the user types.
\<close>

text \<open>\<open>hash[(i*3+j)%len(hash)]\<close>; the remainder by zero of an empty hash panics.\<close>

definition group_value :: "string \<Rightarrow> nat \<Rightarrow> nat" where
  "group_value hash i =
     unat (fold (\<lambda>j v. push_bit 8 v OR of_nat (byte_of (hash ! ((i * 3 + j) mod length hash)))) [0..<3] (0 :: 32 word))
     mod 100000"

definition FormatFingerprint :: "string \<Rightarrow> string outcome" where
  "FormatFingerprint hash =
     (if hash = [] then Panics
      else Returns (Join (map (\<lambda>i. pad0 5 (group_value hash i)) [0..<12]) '' ''))"

definition SafetyNumber :: "primitives \<Rightarrow> string \<Rightarrow> string outcome option" where
  "SafetyNumber P publicKeyHex =
     (case DecodeString publicKeyHex of
        None \<Rightarrow> None | Some raw \<Rightarrow> Some (FormatFingerprint (sha256 P raw)))"

definition norm :: "string \<Rightarrow> string" where
  "norm s = Join (Fields s) '' ''"

definition CompareSafety :: "string \<Rightarrow> string \<Rightarrow> bool" where
  "CompareSafety a b \<longleftrightarrow> norm a = norm b"

text \<open>The sum has at least three bytes; \<open>int\<close> has 64 bits, so the shifts do not lose anything.\<close>

definition ShortCode :: "primitives \<Rightarrow> string \<Rightarrow> string" where
  "ShortCode P publicKeyHex =
     (case DecodeString publicKeyHex of
        None \<Rightarrow> ''000000''
      | Some raw \<Rightarrow>
          if raw = [] then ''000000''
          else let s = sha256 P raw;
                   v = push_bit 16 (byte_of (s ! 0)) OR push_bit 8 (byte_of (s ! 1)) OR byte_of (s ! 2)
               in pad0 6 (v mod 1000000))"

datatype groups_error = EmptyInput | InvalidGroup string

fun parse_fields :: "string list \<Rightarrow> groups_error + int list" where
  "parse_fields [] = Inr []"
| "parse_fields (f # fs) =
     (case Atoi f of
        None \<Rightarrow> Inl (InvalidGroup f)
      | Some n \<Rightarrow>
          if n < 0 \<or> 99999 < n then Inl (InvalidGroup f)
          else case parse_fields fs of Inl e \<Rightarrow> Inl e | Inr ns \<Rightarrow> Inr (n # ns))"

definition ParseGroups :: "string \<Rightarrow> groups_error + int list" where
  "ParseGroups input = (if Fields input = [] then Inl EmptyInput else parse_fields (Fields input))"

subsection \<open>Groups of digits\<close>

lemma solid_pad0: "solid (pad0 w n)"
  by (rule digits_solid [OF pad0_digits]) (simp add: pad0_def)

lemma Atoi_pad0: "int n < 2 ^ 63 \<Longrightarrow> Atoi (pad0 w n) = Some (int n)"
proof -
  assume n: "int n < 2 ^ 63"
  have "is_digit (hd (pad0 w n))" "pad0 w n \<noteq> []"
    using solid_pad0 [of w n] pad0_digits [of w n] by (cases "pad0 w n"; simp add: solid_def)+
  then have "\<not> HasPrefix (pad0 w n) ''-''" "\<not> HasPrefix (pad0 w n) ''+''"
    by (auto simp: HasPrefix_single is_digit_def byte_of_def)
  moreover have "digits_value (pad0 w n) = n" by (simp add: pad0_def)
  ultimately show ?thesis using n pad0_digits [of w n] \<open>pad0 w n \<noteq> []\<close> by (simp add: Atoi_def Let_def)
qed

lemma length_nat_digits: "n < 10 ^ k \<Longrightarrow> 0 < k \<Longrightarrow> length (nat_digits n) \<le> k"
proof (induction n arbitrary: k rule: nat_digits.induct)
  case (1 n)
  show ?case
  proof (cases "n < 10")
    case False
    then obtain j where k: "k = Suc j" "0 < j" using 1(2,3) by (cases k; cases "k = 1") auto
    then have "length (nat_digits (n div 10)) \<le> j"
      using 1(1) [OF False, of j] 1(2) by (simp add: less_mult_imp_div_less mult.commute)
    then show ?thesis using False k by (subst nat_digits.simps) simp
  qed (use 1 in \<open>subst nat_digits.simps, simp\<close>)
qed

lemma length_pad0: "n < 10 ^ k \<Longrightarrow> 0 < k \<Longrightarrow> length (pad0 k n) = k"
  using length_nat_digits [of n k] by (simp add: pad0_def)

lemma parse_fields_pad0:
  "list_all (\<lambda>n. n < 100000) ns \<Longrightarrow> parse_fields (map (pad0 5) ns) = Inr (map int ns)"
  by (induction ns) (simp_all add: Atoi_pad0)

lemma group_value_less: "group_value hash i < 100000"
  by (simp add: group_value_def)

lemma length_Join: "ws \<noteq> [] \<Longrightarrow> length (Join ws sep) = sum_list (map length ws) + (length ws - 1) * length sep"
  by (induction ws sep rule: Join.induct) simp_all

subsection \<open>Properties\<close>

text \<open>
  A fingerprint is always twelve groups of five digits separated by single spaces (71
  characters); typed back it parses to exactly the twelve numbers it was made of; and two fingerprints
  compare equal exactly when all their groups are equal, however the white space was typed.
\<close>

theorem safety_number_round_trip:
  assumes "hash \<noteq> []" and "hash' \<noteq> []"
  shows "\<exists>s s'. FormatFingerprint hash = Returns s \<and> FormatFingerprint hash' = Returns s' \<and>
     length s = 71 \<and> ParseGroups s = Inr (map (\<lambda>i. int (group_value hash i)) [0..<12]) \<and>
     (CompareSafety s s' \<longleftrightarrow> (\<forall>i<12. group_value hash i = group_value hash' i)) \<and>
     (Fields typed = Fields s \<longrightarrow> CompareSafety typed s)"
proof -
  define ws where "ws h = map (pad0 5) (map (group_value h) [0..<12])" for h
  have ws: "list_all solid (ws h)" "ws h \<noteq> []" for h
    by (auto simp: ws_def list_all_iff solid_pad0)
  have F: "FormatFingerprint h = Returns (Join (ws h) '' '')" if "h \<noteq> []" for h
    using that by (simp add: FormatFingerprint_def ws_def comp_def)
  have fields: "Fields (Join (ws h) '' '') = ws h" for h by (rule Fields_Join [OF ws])
  have "length (pad0 5 (group_value h i)) = 5" for h i
    using length_pad0 [of "group_value h i" 5] group_value_less [of h i] by simp
  then have len: "length (Join (ws h) '' '') = 71" for h
    by (simp add: length_Join ws(2)) (simp add: ws_def comp_def upt_rec)
  have parse: "ParseGroups (Join (ws h) '' '') = Inr (map (\<lambda>i. int (group_value h i)) [0..<12])" for h
    using parse_fields_pad0 [of "map (group_value h) [0..<12]"] group_value_less
    by (simp add: ParseGroups_def fields ws(2)) (simp add: ws_def list_all_iff comp_def)
  have inj: "ws h = ws h' \<longleftrightarrow> (\<forall>i<12. group_value h i = group_value h' i)" for h h'
    by (auto simp: ws_def)
  have "Join (ws h) '' '' = Join (ws h') '' '' \<longleftrightarrow> ws h = ws h'" for h h'
    using fields by metis
  then show ?thesis
    using F [OF assms(1)] F [OF assms(2)] len parse inj fields
    by (auto simp: CompareSafety_def norm_def)
qed

theorem safety_number_round_trip_witness:
  "\<exists>s s'. FormatFingerprint ''abc'' = Returns s \<and> FormatFingerprint ''abd'' = Returns s' \<and>
     length s = 71 \<and> ParseGroups s = Inr (map (\<lambda>i. int (group_value ''abc'' i)) [0..<12]) \<and>
     (CompareSafety s s' \<longleftrightarrow> (\<forall>i<12. group_value ''abc'' i = group_value ''abd'' i)) \<and>
     (Fields '' 1'' = Fields s \<longrightarrow> CompareSafety '' 1'' s)"
  by (rule safety_number_round_trip) simp_all

end
