(* ===== verification/Protocol_Version.thy ===== *)
theory Protocol_Version
  imports Go_Strings
begin

text \<open>
  The protocol versions of \<^verbatim>\<open>src/internal/protocol/protocol.go\<close>. The type of versions is made an
  instance of \<open>linorder\<close> by the lexicographic order, and \<open>Compare\<close> and \<open>NegotiateVersion\<close> are
  characterised by that order.
\<close>

datatype Version = Version (Major: int) (Minor: int) (Patch: int)

abbreviation CurrentVersion :: string where "CurrentVersion \<equiv> ''1.0.0''"
abbreviation MinSupportedVersion :: string where "MinSupportedVersion \<equiv> ''1.0.0''"

datatype version_error = BadFormat string | BadMajor string | BadMinor string | BadPatch string

definition ParseVersion :: "string \<Rightarrow> version_error + Version" where
  "ParseVersion s =
     (case Split s CHR ''.'' of
        [a, b, c] \<Rightarrow>
          (case Atoi a of None \<Rightarrow> Inl (BadMajor a)
           | Some major \<Rightarrow> (case Atoi b of None \<Rightarrow> Inl (BadMinor b)
             | Some minor \<Rightarrow> (case Atoi c of None \<Rightarrow> Inl (BadPatch c)
               | Some patch \<Rightarrow> Inr (Version major minor patch))))
      | _ \<Rightarrow> Inl (BadFormat s))"

definition Compare :: "Version \<Rightarrow> Version \<Rightarrow> int" where
  "Compare a b =
     (if Major a \<noteq> Major b then (if Major b < Major a then 1 else -1)
      else if Minor a \<noteq> Minor b then (if Minor b < Minor a then 1 else -1)
      else if Patch a \<noteq> Patch b then (if Patch b < Patch a then 1 else -1)
      else 0)"

definition IsMajorMatch :: "Version \<Rightarrow> Version \<Rightarrow> bool" where
  "IsMajorMatch a b \<longleftrightarrow> Major a = Major b"

definition IsCompatible :: "Version \<Rightarrow> bool" where
  "IsCompatible peerVersion =
     (case ParseVersion CurrentVersion of Inl e \<Rightarrow> False
      | Inr current \<Rightarrow> (case ParseVersion MinSupportedVersion of Inl e \<Rightarrow> False
        | Inr least \<Rightarrow> Compare peerVersion least \<ge> 0 \<and> IsMajorMatch current peerVersion))"

text \<open>The constants parse, so the nil pointers that \<open>NegotiateVersion\<close> would dereference do not
  arise; they are the branch that panics.\<close>

definition NegotiateVersion :: "Version \<Rightarrow> (Version option \<times> string) outcome" where
  "NegotiateVersion peerVersion =
     (case (ParseVersion CurrentVersion, ParseVersion MinSupportedVersion) of
        (Inr current, Inr least) \<Rightarrow> Returns
          (if \<not> IsMajorMatch current peerVersion then (None, '''')
           else if Compare peerVersion least < 0 then (None, '''')
           else if Major peerVersion = Major current \<and> Minor peerVersion = Minor current \<and>
                   Patch peerVersion = Patch current then (Some current, ''normal'')
           else if Major peerVersion = Major current \<and> Minor peerVersion = Minor current then
             (if Patch peerVersion < Patch current then (Some peerVersion, ''normal'')
              else (Some current, ''normal''))
           else if Major peerVersion = Major current \<and> Minor peerVersion < Minor current
             then (Some peerVersion, ''compat'')
           else if Major peerVersion = Major current \<and> Minor current < Minor peerVersion
             then (Some current, ''compat'')
           else (Some current, ''normal''))
      | _ \<Rightarrow> Panics)"

definition HandshakeVersion :: string where
  "HandshakeVersion = CurrentVersion"

definition formatVersion :: "Version \<Rightarrow> string" where
  "formatVersion v = Itoa (Major v) @ ''.'' @ Itoa (Minor v) @ ''.'' @ Itoa (Patch v)"

definition VersionMismatchError :: "Version \<Rightarrow> string outcome" where
  "VersionMismatchError peerVersion =
     (case ParseVersion MinSupportedVersion of
        Inl e \<Rightarrow> Panics
      | Inr least \<Rightarrow> Returns (''version mismatch: peer version '' @ formatVersion peerVersion @
          '', minimum required version '' @ formatVersion least))"

subsection \<open>The order of versions\<close>

instantiation Version :: linorder
begin

definition less_eq_Version :: "Version \<Rightarrow> Version \<Rightarrow> bool" where
  "less_eq_Version a b \<longleftrightarrow> Major a < Major b \<or> Major a = Major b \<and>
     (Minor a < Minor b \<or> Minor a = Minor b \<and> Patch a \<le> Patch b)"

definition less_Version :: "Version \<Rightarrow> Version \<Rightarrow> bool" where
  "less_Version a b \<longleftrightarrow> a \<le> b \<and> \<not> b \<le> (a :: Version)"

instance
proof
  fix a b c :: Version
  show "a < b \<longleftrightarrow> a \<le> b \<and> \<not> b \<le> a" by (rule less_Version_def)
  show "a \<le> a" by (simp add: less_eq_Version_def)
  show "a \<le> b \<Longrightarrow> b \<le> c \<Longrightarrow> a \<le> c" by (auto simp: less_eq_Version_def)
  show "a \<le> b \<Longrightarrow> b \<le> a \<Longrightarrow> a = b" by (auto simp: less_eq_Version_def intro: Version.expand)
  show "a \<le> b \<or> b \<le> a" by (auto simp: less_eq_Version_def)
qed

end

lemma Compare_order: "Compare a b = (if a < b then -1 else if a = b then 0 else 1)"
  by (cases a; cases b) (auto simp: Compare_def less_Version_def less_eq_Version_def)

definition in_range :: "Version \<Rightarrow> bool" where
  "in_range v \<longleftrightarrow> (\<forall>n\<in>{Major v, Minor v, Patch v}. - (2 ^ 63) \<le> n \<and> n < 2 ^ 63)"

lemma Itoa_no_dot: "CHR ''.'' \<notin> set (Itoa i)"
proof -
  have "CHR ''.'' \<notin> set (nat_digits n)" for n
    using nat_digits_all [of n] by (auto simp: list_all_iff is_digit_def byte_of_def)
  then show ?thesis by (simp add: Itoa_def)
qed

lemma ParseVersion_format: "in_range v \<Longrightarrow> ParseVersion (formatVersion v) = Inr v"
proof -
  assume r: "in_range v"
  have "Split (formatVersion v) CHR ''.'' = [Itoa (Major v), Itoa (Minor v), Itoa (Patch v)]"
    by (simp add: formatVersion_def Split_append Split_no_sep Itoa_no_dot)
  then show ?thesis using r by (simp add: ParseVersion_def Atoi_Itoa in_range_def)
qed

lemma parse_constants: "ParseVersion ''1.0.0'' = Inr (Version 1 0 0)"
  by (simp add: ParseVersion_def Atoi_def HasPrefix_def is_digit_def byte_of_def digits_value_def Let_def)

subsection \<open>Properties\<close>

text \<open>
  \<open>Compare\<close> is the sign of the lexicographic order, and printing a version whose numbers fit 64
  bits and parsing it again gives the version back.
\<close>

theorem version_order_and_round_trip:
  assumes "in_range v"
  shows "(Compare v w = -1 \<longleftrightarrow> v < w) \<and> (Compare v w = 0 \<longleftrightarrow> v = w) \<and> (Compare v w = 1 \<longleftrightarrow> w < v) \<and>
     ParseVersion (formatVersion v) = Inr v"
  using ParseVersion_format [OF assms] by (auto simp: Compare_order)

text \<open>
  Negotiation succeeds exactly for the compatible versions and then agrees on the smaller of the
  two versions, in compatibility mode exactly when the minor numbers differ; it never dereferences a
  version that did not parse.
\<close>

theorem negotiation_picks_smaller:
  "NegotiateVersion v = Returns
     (if IsCompatible v then (Some (min v (Version 1 0 0)), if Minor v = 0 then ''normal'' else ''compat'')
      else (None, ''''))"
proof -
  have c: "IsCompatible v \<longleftrightarrow> Version 1 0 0 \<le> v \<and> Major v = 1"
    by (auto simp: IsCompatible_def parse_constants IsMajorMatch_def Compare_order)
  have "NegotiateVersion v = Returns
     (if IsCompatible v then (Some (Version 1 0 0), if Minor v = 0 then ''normal'' else ''compat'') else (None, ''''))"
    unfolding c by (cases v)
      (auto simp: NegotiateVersion_def parse_constants IsMajorMatch_def Compare_def less_eq_Version_def)
  then show ?thesis using c by (auto simp: min_def)
qed

theorem version_order_and_round_trip_witness:
  "Compare (Version 1 2 3) (Version 1 10 0) = -1 \<and> ParseVersion (formatVersion (Version 1 2 3)) = Inr (Version 1 2 3)"
  using version_order_and_round_trip [of "Version 1 2 3" "Version 1 10 0"]
  by (simp add: in_range_def less_Version_def less_eq_Version_def)

end
