(* ===== verification/Group_Store.thy ===== *)
theory Group_Store
  imports Persist Go_Strings "HOL-Library.Multiset"
begin

text \<open>
  The rooms of \<^verbatim>\<open>src/internal/group/group.go\<close>: membership, the shared keys, look-up by identifier,
  prefix or name, the listing in order of creation, and the file. The store owns its rooms; a room a caller
  obtained is read by value.
\<close>

record Room =
  rm_ID :: string
  rm_Name :: string
  rm_Creator :: string
  rm_Key :: string
  rm_Members :: "string list"
  rm_CreatedAt :: gotime

record Store =
  st_rooms :: "(string \<times> Room) list"
  st_file :: "Room option list stored"

datatype group_error =
  InvalidStore | StoreUnreadable | EmptyRoomName | NoRandomness | InvalidRoom | UnknownRoom string | NotSaved

text \<open>A \<open>null\<close> in the stored array is a nil pointer, here \<open>None\<close>.\<close>

fun load_rooms :: "Room option list \<Rightarrow> (string \<times> Room) list \<Rightarrow> (string \<times> Room) list" where
  "load_rooms [] m = m"
| "load_rooms (None # rs) m = load_rooms rs m"
| "load_rooms (Some r # rs) m =
     load_rooms rs (if rm_ID r \<noteq> '''' then AList.update (rm_ID r) r m else m)"

definition NewStore :: "Room option list stored \<Rightarrow> group_error + Store" where
  "NewStore f =
     (case f of
        Doc rs \<Rightarrow> Inr \<lparr>st_rooms = load_rooms rs [], st_file = f\<rparr>
      | Malformed \<Rightarrow> Inl InvalidStore
      | Unreadable \<Rightarrow> Inl StoreUnreadable
      | Absent \<Rightarrow> Inr \<lparr>st_rooms = [], st_file = f\<rparr>)"

definition store_save :: "Room option list saving \<Rightarrow> Store \<Rightarrow> bool \<times> Store" where
  "store_save w s =
     (let r = save_doc w (map (\<lambda>e. Some (snd e)) (st_rooms s)) (st_file s) in (fst r, s\<lparr>st_file := snd r\<rparr>))"

abbreviation saved :: "'a \<Rightarrow> bool \<times> Store \<Rightarrow> (group_error + 'a) \<times> Store" where
  "saved x r \<equiv> (if fst r then Inr x else Inl NotSaved, snd r)"

text \<open>\<open>key\<close> and \<open>idBytes\<close> are the two draws of random bytes.\<close>

definition CreateRoom ::
    "Room option list saving \<Rightarrow> gotime \<Rightarrow> string option \<Rightarrow> string option \<Rightarrow> string \<Rightarrow> string \<Rightarrow> Store \<Rightarrow>
     (group_error + Room) \<times> Store" where
  "CreateRoom w now key idBytes name creatorJID s =
     (if name = '''' then (Inl EmptyRoomName, s)
      else case key of None \<Rightarrow> (Inl NoRandomness, s)
      | Some k \<Rightarrow> (case idBytes of None \<Rightarrow> (Inl NoRandomness, s)
        | Some b \<Rightarrow>
            let room = \<lparr>rm_ID = ''grp-'' @ EncodeToString b, rm_Name = name, rm_Creator = creatorJID,
                        rm_Key = k, rm_Members = [creatorJID], rm_CreatedAt = now\<rparr>
            in saved room (store_save w (s\<lparr>st_rooms := AList.update (rm_ID room) room (st_rooms s)\<rparr>))))"

definition AddRoom ::
    "Room option list saving \<Rightarrow> Room option \<Rightarrow> Store \<Rightarrow> (group_error + unit) \<times> Store" where
  "AddRoom w room s =
     (case room of
        None \<Rightarrow> (Inl InvalidRoom, s)
      | Some r \<Rightarrow>
          if rm_ID r = '''' \<or> length (rm_Key r) \<noteq> 32 then (Inl InvalidRoom, s)
          else saved () (store_save w (s\<lparr>st_rooms := AList.update (rm_ID r) r (st_rooms s)\<rparr>)))"

fun prefix_scan :: "string \<Rightarrow> (string \<times> Room) list \<Rightarrow> Room option \<Rightarrow> Room option" where
  "prefix_scan p [] found = found"
| "prefix_scan p ((rid, r) # es) found =
     (if 4 \<le> length p \<and> length p \<le> length rid \<and> take (length p) rid = p
      then (if found \<noteq> None then None else prefix_scan p es (Some r))
      else prefix_scan p es found)"

definition GetRoom :: "string \<Rightarrow> Store \<Rightarrow> Room option" where
  "GetRoom idOrPrefix s =
     (case map_of (st_rooms s) idOrPrefix of
        Some r \<Rightarrow> Some r
      | None \<Rightarrow> prefix_scan idOrPrefix (st_rooms s) None)"

definition GetByName :: "string \<Rightarrow> Store \<Rightarrow> Room option" where
  "GetByName name s = map_option snd (find (\<lambda>e. rm_Name (snd e) = name) (st_rooms s))"

definition ResolveRoom :: "string \<Rightarrow> Store \<Rightarrow> Room option" where
  "ResolveRoom ref s = (case GetRoom ref s of Some r \<Rightarrow> Some r | None \<Rightarrow> GetByName ref s)"

text \<open>The insertion sort of \<open>List\<close>. The sorted part is kept in reverse, so that its head is the
  neighbour the new element is compared with.\<close>

fun sink :: "Room \<Rightarrow> Room list \<Rightarrow> Room list" where
  "sink x [] = [x]"
| "sink x (y # ys) = (if rm_CreatedAt x < rm_CreatedAt y then y # sink x ys else x # y # ys)"

definition ListRooms :: "Store \<Rightarrow> Room list" where
  "ListRooms s = rev (foldl (\<lambda>acc x. sink x acc) [] (map snd (st_rooms s)))"

definition AddMember ::
    "Room option list saving \<Rightarrow> string \<Rightarrow> string \<Rightarrow> Store \<Rightarrow> (group_error + unit) \<times> Store" where
  "AddMember w roomID jid s =
     (case map_of (st_rooms s) roomID of
        None \<Rightarrow> (Inl (UnknownRoom roomID), s)
      | Some r \<Rightarrow>
          if jid \<in> set (rm_Members r) then (Inr (), s)
          else saved () (store_save w (s\<lparr>st_rooms :=
                 AList.update roomID (r\<lparr>rm_Members := rm_Members r @ [jid]\<rparr>) (st_rooms s)\<rparr>)))"

definition RemoveMember ::
    "Room option list saving \<Rightarrow> string \<Rightarrow> string \<Rightarrow> Store \<Rightarrow> (group_error + unit) \<times> Store" where
  "RemoveMember w roomID jid s =
     (case map_of (st_rooms s) roomID of
        None \<Rightarrow> (Inl (UnknownRoom roomID), s)
      | Some r \<Rightarrow>
          saved () (store_save w (s\<lparr>st_rooms :=
            AList.update roomID (r\<lparr>rm_Members := filter (\<lambda>m. m \<noteq> jid) (rm_Members r)\<rparr>) (st_rooms s)\<rparr>)))"

definition IsMember :: "string \<Rightarrow> string \<Rightarrow> Store \<Rightarrow> bool" where
  "IsMember roomID jid s =
     (case map_of (st_rooms s) roomID of None \<Rightarrow> False | Some r \<Rightarrow> jid \<in> set (rm_Members r))"

definition RekeyRoom ::
    "Room option list saving \<Rightarrow> string option \<Rightarrow> string \<Rightarrow> Store \<Rightarrow> (group_error + Room) \<times> Store" where
  "RekeyRoom w key roomID s =
     (case map_of (st_rooms s) roomID of
        None \<Rightarrow> (Inl (UnknownRoom roomID), s)
      | Some r \<Rightarrow>
          (case key of
             None \<Rightarrow> (Inl NoRandomness, s)
           | Some k \<Rightarrow>
               let r' = r\<lparr>rm_Key := k\<rparr>
               in saved r' (store_save w (s\<lparr>st_rooms := AList.update roomID r' (st_rooms s)\<rparr>))))"

subsection \<open>Invariant\<close>

definition store_inv :: "Store \<Rightarrow> bool" where
  "store_inv s \<longleftrightarrow> goMap (st_rooms s) \<and>
     (\<forall>k r. map_of (st_rooms s) k = Some r \<longrightarrow> rm_ID r = k \<and> k \<noteq> '''')"

lemma store_save_rooms [simp]: "st_rooms (snd (store_save w s)) = st_rooms s"
  by (simp add: store_save_def Let_def)

lemma store_save_file [simp]:
  "st_file (snd (store_save Written s)) = Doc (map (\<lambda>e. Some (snd e)) (st_rooms s))"
  by (simp add: store_save_def Let_def)

lemma fst_store_save [simp]: "fst (store_save w s) \<longleftrightarrow> w = Written"
  by (simp add: store_save_def Let_def)

datatype store_op =
    CreateOp gotime "string option" "string option" string string
  | AddOp "Room option"
  | AddMemberOp string string
  | RemoveMemberOp string string
  | RekeyOp "string option" string

fun store_step :: "Room option list saving \<Rightarrow> store_op \<Rightarrow> Store \<Rightarrow> Store" where
  "store_step w (CreateOp now key b name creator) s = snd (CreateRoom w now key b name creator s)"
| "store_step w (AddOp room) s = snd (AddRoom w room s)"
| "store_step w (AddMemberOp rid jid) s = snd (AddMember w rid jid s)"
| "store_step w (RemoveMemberOp rid jid) s = snd (RemoveMember w rid jid s)"
| "store_step w (RekeyOp key rid) s = snd (RekeyRoom w key rid s)"

lemmas store_ops = CreateRoom_def AddRoom_def AddMember_def RemoveMember_def RekeyRoom_def Let_def

lemma store_inv_step [korik_inv]: "store_inv s \<Longrightarrow> store_inv (store_step w a s)"
  by (cases a) (auto simp: store_ops store_inv_def split: option.splits if_splits)

text \<open>An operation either leaves the store alone or has written it out.\<close>

lemma store_step_file:
  "store_step Written a s = s \<or>
   st_file (store_step Written a s) = Doc (map (\<lambda>e. Some (snd e)) (st_rooms (store_step Written a s)))"
  by (cases a) (auto simp: store_ops split: option.splits if_splits)

lemma map_of_load_rooms:
  "map_of (load_rooms (map (\<lambda>e. Some (snd e)) es) m) k =
     (case map_of (rev (map (\<lambda>e. (rm_ID (snd e), snd e)) (filter (\<lambda>e. rm_ID (snd e) \<noteq> '''') es))) k of
        None \<Rightarrow> map_of m k | Some r \<Rightarrow> Some r)"
  by (induction es arbitrary: m) (auto simp: map_add_def split: option.splits)

lemma reload_rooms:
  assumes "store_inv s"
  shows "map_of (load_rooms (map (\<lambda>e. Some (snd e)) (st_rooms s)) []) = map_of (st_rooms s)"
proof -
  have keys: "rm_ID r = k" "k \<noteq> ''''" if "(k, r) \<in> set (st_rooms s)" for k r
    using assms that by (auto simp: store_inv_def goMap_in_set)
  have "filter (\<lambda>e. rm_ID (snd e) \<noteq> '''') (st_rooms s) = st_rooms s"
    using keys by (fastforce simp: filter_id_conv)
  moreover have "map (\<lambda>e. (rm_ID (snd e), snd e)) (st_rooms s) = st_rooms s"
    using keys by (intro map_idI) fastforce
  moreover have "map_of (rev (st_rooms s)) = map_of (st_rooms s)"
    using assms by (intro map_of_inject_set [THEN iffD2]) (auto simp: store_inv_def goMap_def simp flip: rev_map)
  ultimately show ?thesis by (auto simp: map_of_load_rooms split: option.splits)
qed

definition reopened_rooms :: "Room option list stored \<Rightarrow> (string \<rightharpoonup> Room) option" where
  "reopened_rooms f = (case NewStore f of Inl e \<Rightarrow> None | Inr s \<Rightarrow> Some (map_of (st_rooms s)))"

lemma reopened_rooms_Doc [simp]: "reopened_rooms (Doc rs) = Some (map_of (load_rooms rs []))"
  by (simp add: reopened_rooms_def NewStore_def)

interpretation rooms_disk: persisted reopened_rooms st_file "\<lambda>s. map_of (st_rooms s)"
  "store_step Written" store_inv
proof unfold_locales
  fix s a assume inv: "store_inv s" and old: "reopened_rooms (st_file s) = Some (map_of (st_rooms s))"
  show "reopened_rooms (st_file (store_step Written a s)) = Some (map_of (st_rooms (store_step Written a s)))"
  proof (cases "store_step Written a s = s")
    case False
    then show ?thesis
      using store_step_file [of a s] reload_rooms [OF store_inv_step [OF inv, of Written a]] by simp
  qed (simp add: old)
qed (rule store_inv_step)

subsection \<open>Membership\<close>

datatype member_event = Joined string string | Left string string

locale member_sets =
  fixes join :: "string \<Rightarrow> string \<Rightarrow> 's \<Rightarrow> 's"
    and leave :: "string \<Rightarrow> string \<Rightarrow> 's \<Rightarrow> 's"
    and is_in :: "string \<Rightarrow> string \<Rightarrow> 's \<Rightarrow> bool"
    and known :: "string \<Rightarrow> 's \<Rightarrow> bool"
  assumes known_join [simp]: "known r (join r' j s) = known r s"
    and known_leave [simp]: "known r (leave r' j s) = known r s"
    and in_join: "known r s \<Longrightarrow> is_in r j (join r' j' s) \<longleftrightarrow> (r = r' \<and> j = j') \<or> is_in r j s"
    and in_leave: "known r s \<Longrightarrow> is_in r j (leave r' j' s) \<longleftrightarrow> \<not> (r = r' \<and> j = j') \<and> is_in r j s"
begin

fun event :: "member_event \<Rightarrow> 's \<Rightarrow> 's" where
  "event (Joined r j) s = join r j s"
| "event (Left r j) s = leave r j s"

lemma last_event_decides:
  assumes "known r s"
  shows "is_in r j (fold event es s) \<longleftrightarrow>
    (case filter (\<lambda>e. e = Joined r j \<or> e = Left r j) (rev es) of
       [] \<Rightarrow> is_in r j s | e # _ \<Rightarrow> e = Joined r j)"
  using assms
proof (induction es rule: rev_induct)
  case (snoc e es)
  have "known r (fold event es s)"
    using snoc.prems
  proof (induction es arbitrary: s)
    case (Cons e es)
    then show ?case by (cases e) simp_all
  qed simp
  then show ?case using snoc by (cases e) (auto simp: in_join in_leave)
qed simp

end

definition known_room :: "string \<Rightarrow> Store \<Rightarrow> bool" where
  "known_room rid s \<longleftrightarrow> haskey (st_rooms s) rid"

interpretation membership: member_sets
  "\<lambda>r j s. snd (AddMember Written r j s)" "\<lambda>r j s. snd (RemoveMember Written r j s)" IsMember known_room
  by unfold_locales
    (auto simp: AddMember_def RemoveMember_def IsMember_def known_room_def
      split: option.splits if_splits)

subsection \<open>Listing\<close>

lemma mset_sink [simp]: "mset (sink x ys) = add_mset x (mset ys)"
  by (induction ys) auto

lemma set_sink [simp]: "set (sink x ys) = insert x (set ys)"
  by (induction ys) auto

lemma sink_sorted:
  "sorted_wrt (\<lambda>a b. rm_CreatedAt b \<le> rm_CreatedAt a) ys \<Longrightarrow>
   sorted_wrt (\<lambda>a b. rm_CreatedAt b \<le> rm_CreatedAt a) (sink x ys)"
  by (induction ys) auto

lemma foldl_sink:
  "sorted_wrt (\<lambda>a b. rm_CreatedAt b \<le> rm_CreatedAt a) acc \<Longrightarrow>
   sorted_wrt (\<lambda>a b. rm_CreatedAt b \<le> rm_CreatedAt a) (foldl (\<lambda>acc x. sink x acc) acc xs) \<and>
   mset (foldl (\<lambda>acc x. sink x acc) acc xs) = mset acc + mset xs"
  by (induction xs arbitrary: acc) (auto simp: sink_sorted)

subsection \<open>Look-up\<close>

lemma prefix_scan_some:
  "prefix_scan p es (Some r0) = Some r \<Longrightarrow>
    r = r0 \<and> filter (\<lambda>e. 4 \<le> length p \<and> prefix p (fst e)) es = []"
  by (induction p es "Some r0" rule: prefix_scan.induct)
    (auto simp: HasPrefix_prefix [unfolded HasPrefix_def] dest: prefix_length_le split: if_splits)

lemma prefix_scan_none:
  "prefix_scan p es None = Some r \<Longrightarrow>
    4 \<le> length p \<and> (\<exists>k. filter (\<lambda>e. prefix p (fst e)) es = [(k, r)])"
proof (induction es)
  case (Cons e es)
  obtain k x where e: "e = (k, x)" by force
  show ?case
  proof (cases "4 \<le> length p \<and> prefix p k")
    case True
    then have "prefix_scan p es (Some x) = Some r"
      using Cons.prems by (auto simp: e HasPrefix_prefix [unfolded HasPrefix_def] prefix_length_le)
    then show ?thesis using prefix_scan_some True by (fastforce simp: e)
  next
    case False
    then have "prefix_scan p es None = Some r"
      using Cons.prems by (auto simp: e HasPrefix_prefix [unfolded HasPrefix_def] dest: prefix_length_le split: if_splits)
    then show ?thesis using Cons.IH False by (auto simp: e)
  qed
qed simp

subsection \<open>Properties\<close>

text \<open>
  C36. Group membership is a set: after any sequence of members added to and removed from rooms, whether
  a peer is in a known room is decided by the last event about that peer and that room, and by the store
  it started from when there was none.
\<close>

theorem membership_last_event:
  assumes "known_room rid s"
  shows "IsMember rid jid (fold membership.event es s) \<longleftrightarrow>
    (case filter (\<lambda>e. e = Joined rid jid \<or> e = Left rid jid) (rev es) of
       [] \<Rightarrow> IsMember rid jid s | e # _ \<Rightarrow> e = Joined rid jid)"
  by (rule membership.last_event_decides [OF assms])

text \<open>
  The rooms survive a restart: from a consistent store, after any sequence of operations whose
  saves succeed and that begins with a new room, reading the file gives the same map of rooms.
\<close>

theorem rooms_survive_restart:
  assumes "store_inv s" and "rm_ID room \<noteq> ''''" and "length (rm_Key room) = 32"
  shows "let s' = fold (store_step Written) (AddOp (Some room) # ops) s
         in reopened_rooms (st_file s') = Some (map_of (st_rooms s')) \<and> store_inv s'"
proof -
  let ?s = "store_step Written (AddOp (Some room)) s"
  have inv: "store_inv ?s" using store_inv_step [OF assms(1)] .
  have "reopened_rooms (st_file ?s) = Some (map_of (st_rooms ?s))"
    using reload_rooms [OF inv] assms(2,3) by (simp add: AddRoom_def)
  then have "rooms_disk.durable ?s" using inv by (simp add: rooms_disk.durable_def)
  then show ?thesis
    using rooms_disk.durable_run [of ?s ops] by (simp add: rooms_disk.durable_def Let_def del: store_step.simps)
qed

text \<open>
  \<open>List\<close> returns every room exactly once, in order of creation.
\<close>

theorem rooms_listed_in_order:
  "mset (ListRooms s) = mset (map snd (st_rooms s)) \<and> sorted (map rm_CreatedAt (ListRooms s))"
  using foldl_sink [of "[]" "map snd (st_rooms s)"]
  by (simp add: ListRooms_def sorted_wrt_rev sorted_map)

text \<open>
  A reference to a room is never ambiguous: \<open>Get\<close> returns the room stored under exactly that
  identifier, or else the only room whose identifier starts with the reference, which has at least 4 characters.
\<close>

theorem room_reference_unambiguous:
  assumes "GetRoom ref s = Some r"
  shows "map_of (st_rooms s) ref = Some r \<or>
    map_of (st_rooms s) ref = None \<and> 4 \<le> length ref \<and>
    (\<exists>k. filter (\<lambda>e. prefix ref (fst e)) (st_rooms s) = [(k, r)])"
  using assms prefix_scan_none by (auto simp: GetRoom_def split: option.splits)

definition sample_room :: "string \<Rightarrow> gotime \<Rightarrow> Room" where
  "sample_room rid t = \<lparr>rm_ID = rid, rm_Name = ''team'', rm_Creator = ''ann'', rm_Key = replicate 32 CHR ''k'',
     rm_Members = [''ann''], rm_CreatedAt = t\<rparr>"

theorem membership_last_event_witness:
  "let s = \<lparr>st_rooms = [(''grp-1'', sample_room ''grp-1'' 5)], st_file = Absent\<rparr> in
   IsMember ''grp-1'' ''bob'' (fold membership.event
     [Joined ''grp-1'' ''bob'', Left ''grp-1'' ''ann'', Left ''grp-1'' ''bob'', Joined ''grp-1'' ''bob''] s)"
  unfolding Let_def by (subst membership_last_event) (simp_all add: known_room_def)

theorem rooms_survive_restart_witness:
  "let s' = fold (store_step Written) (AddOp (Some (sample_room ''grp-1'' 5)) # [AddMemberOp ''grp-1'' ''bob''])
              \<lparr>st_rooms = [], st_file = Absent\<rparr>
   in reopened_rooms (st_file s') = Some (map_of (st_rooms s')) \<and> store_inv s'"
  by (rule rooms_survive_restart) (simp_all add: store_inv_def sample_room_def)

theorem room_reference_unambiguous_witness:
  "let s = \<lparr>st_rooms = [(''grp-12'', sample_room ''grp-12'' 5), (''grp-34'', sample_room ''grp-34'' 6)], st_file = Absent\<rparr>
   in GetRoom ''grp-3'' s = Some (sample_room ''grp-34'' 6) \<and> map_of (st_rooms s) ''grp-3'' = None"
  using room_reference_unambiguous [of "''grp-3''"
      "\<lparr>st_rooms = [(''grp-12'', sample_room ''grp-12'' 5), (''grp-34'', sample_room ''grp-34'' 6)], st_file = Absent\<rparr>"]
  by (simp add: GetRoom_def)

end
