(* ===== verification/Contact_Book.thy ===== *)
theory Contact_Book
  imports Persist Go_Strings "HOL-Library.Multiset"
begin

text \<open>
  The address book of \<^verbatim>\<open>src/internal/contacts/contacts.go\<close>: the contacts by JID, the flags and tags,
  the fuzzy search and the file. The order of the association list is the order in which \<open>range\<close> visits the
  map, so a stable sort over every such order covers the orders in which \<open>sort.Slice\<close> may leave ties.
\<close>

record Contact =
  ct_JID :: string
  ct_Name :: string
  ct_DisplayName :: string
  ct_LastAddress :: string
  ct_LastSeen :: gotime
  ct_FirstMet :: gotime
  ct_MessageCount :: int
  ct_Favorite :: bool
  ct_Blocked :: bool
  ct_Notes :: string
  ct_Tags :: "string list"

record ContactBook =
  cb_contacts :: "(string \<times> Contact) list"
  cb_file :: "Contact option list stored"

datatype contacts_error = ErrNotExist | ContactsUnreadable | ContactsNotJSON

text \<open>A \<open>null\<close> in the stored array is a nil pointer that \<open>load\<close> dereferences.\<close>

fun load_contacts :: "Contact option list \<Rightarrow> (string \<times> Contact) list \<Rightarrow> (string \<times> Contact) list outcome" where
  "load_contacts [] m = Returns m"
| "load_contacts (None # cs) m = Panics"
| "load_contacts (Some c # cs) m = load_contacts cs (AList.update (ct_JID c) c m)"

definition NewContactBook :: "Contact option list stored \<Rightarrow> (contacts_error + ContactBook) outcome" where
  "NewContactBook f =
     (case f of
        Absent \<Rightarrow> Returns (Inr \<lparr>cb_contacts = [], cb_file = f\<rparr>)
      | Unreadable \<Rightarrow> Returns (Inl ContactsUnreadable)
      | Malformed \<Rightarrow> Returns (Inl ContactsNotJSON)
      | Doc cs \<Rightarrow> bind_outcome (load_contacts cs [])
                   (\<lambda>m. Returns (Inr \<lparr>cb_contacts = m, cb_file = f\<rparr>)))"

definition contacts_save :: "Contact option list saving \<Rightarrow> ContactBook \<Rightarrow> ContactBook" where
  "contacts_save w cb =
     cb\<lparr>cb_file := snd (save_doc w (map (\<lambda>e. Some (snd e)) (cb_contacts cb)) (cb_file cb))\<rparr>"

text \<open>\<open>t1\<close> and \<open>t2\<close> are the clock readings of \<open>FirstMet\<close> and \<open>LastSeen\<close>.\<close>

definition AddContact ::
    "Contact option list saving \<Rightarrow> gotime \<Rightarrow> gotime \<Rightarrow> string \<Rightarrow> string \<Rightarrow> ContactBook \<Rightarrow> Contact \<times> ContactBook" where
  "AddContact w t1 t2 jid name cb =
     (let c = (case map_of (cb_contacts cb) jid of
                 Some c \<Rightarrow> c\<lparr>ct_Name := name, ct_LastSeen := t1\<rparr>
               | None \<Rightarrow> \<lparr>ct_JID = jid, ct_Name = name, ct_DisplayName = '''', ct_LastAddress = '''',
                          ct_LastSeen = t2, ct_FirstMet = t1, ct_MessageCount = 0, ct_Favorite = False,
                          ct_Blocked = False, ct_Notes = '''', ct_Tags = []\<rparr>)
      in (c, contacts_save w (cb\<lparr>cb_contacts := AList.update jid c (cb_contacts cb)\<rparr>)))"

definition GetContact :: "string \<Rightarrow> ContactBook \<Rightarrow> Contact option" where
  "GetContact jid cb = map_of (cb_contacts cb) jid"

text \<open>Change one contact in place and save.\<close>

definition with_contact ::
    "Contact option list saving \<Rightarrow> string \<Rightarrow> (Contact \<Rightarrow> Contact) \<Rightarrow> ContactBook \<Rightarrow> (contacts_error + unit) \<times> ContactBook" where
  "with_contact w jid f cb =
     (case map_of (cb_contacts cb) jid of
        None \<Rightarrow> (Inl ErrNotExist, cb)
      | Some c \<Rightarrow> (Inr (), contacts_save w (cb\<lparr>cb_contacts := AList.update jid (f c) (cb_contacts cb)\<rparr>)))"

definition UpdateLastSeen ::
    "Contact option list saving \<Rightarrow> gotime \<Rightarrow> string \<Rightarrow> string \<Rightarrow> ContactBook \<Rightarrow> ContactBook" where
  "UpdateLastSeen w now jid address cb =
     snd (with_contact w jid (\<lambda>c. let c1 = c\<lparr>ct_LastSeen := now\<rparr>
       in if address \<noteq> '''' then c1\<lparr>ct_LastAddress := address\<rparr> else c1) cb)"

definition IncrementMessageCount :: "Contact option list saving \<Rightarrow> string \<Rightarrow> ContactBook \<Rightarrow> ContactBook" where
  "IncrementMessageCount w jid cb =
     snd (with_contact w jid (\<lambda>c. c\<lparr>ct_MessageCount := ct_MessageCount c + 1\<rparr>) cb)"

definition SetDisplayName ::
    "Contact option list saving \<Rightarrow> string \<Rightarrow> string \<Rightarrow> ContactBook \<Rightarrow> (contacts_error + unit) \<times> ContactBook" where
  "SetDisplayName w jid displayName cb = with_contact w jid (\<lambda>c. c\<lparr>ct_DisplayName := displayName\<rparr>) cb"

definition SetFavorite ::
    "Contact option list saving \<Rightarrow> string \<Rightarrow> bool \<Rightarrow> ContactBook \<Rightarrow> (contacts_error + unit) \<times> ContactBook" where
  "SetFavorite w jid favorite cb = with_contact w jid (\<lambda>c. c\<lparr>ct_Favorite := favorite\<rparr>) cb"

definition SetBlocked ::
    "Contact option list saving \<Rightarrow> string \<Rightarrow> bool \<Rightarrow> ContactBook \<Rightarrow> (contacts_error + unit) \<times> ContactBook" where
  "SetBlocked w jid blocked cb = with_contact w jid (\<lambda>c. c\<lparr>ct_Blocked := blocked\<rparr>) cb"

definition IsBlocked :: "string \<Rightarrow> ContactBook \<Rightarrow> bool" where
  "IsBlocked jid cb = (case map_of (cb_contacts cb) jid of Some c \<Rightarrow> ct_Blocked c | None \<Rightarrow> False)"

definition AddTag ::
    "Contact option list saving \<Rightarrow> string \<Rightarrow> string \<Rightarrow> ContactBook \<Rightarrow> (contacts_error + unit) \<times> ContactBook" where
  "AddTag w jid tag cb =
     (case map_of (cb_contacts cb) jid of
        None \<Rightarrow> (Inl ErrNotExist, cb)
      | Some c \<Rightarrow>
          if tag \<in> set (ct_Tags c) then (Inr (), cb)
          else (Inr (), contacts_save w (cb\<lparr>cb_contacts :=
                 AList.update jid (c\<lparr>ct_Tags := ct_Tags c @ [tag]\<rparr>) (cb_contacts cb)\<rparr>)))"

definition RemoveTag ::
    "Contact option list saving \<Rightarrow> string \<Rightarrow> string \<Rightarrow> ContactBook \<Rightarrow> (contacts_error + unit) \<times> ContactBook" where
  "RemoveTag w jid tag cb = with_contact w jid (\<lambda>c. c\<lparr>ct_Tags := remove1 tag (ct_Tags c)\<rparr>) cb"

definition DeleteContact ::
    "Contact option list saving \<Rightarrow> string \<Rightarrow> ContactBook \<Rightarrow> (contacts_error + unit) \<times> ContactBook" where
  "DeleteContact w jid cb =
     (if haskey (cb_contacts cb) jid
      then (Inr (), contacts_save w (cb\<lparr>cb_contacts := AList.delete jid (cb_contacts cb)\<rparr>))
      else (Inl ErrNotExist, cb))"

text \<open>
  The loop of \<open>fuzzyScore\<close>: \<open>ti\<close> is the index in the target, \<open>lst\<close> the index of the last match.
\<close>

fun fuzzy_loop :: "string \<Rightarrow> string \<Rightarrow> int \<Rightarrow> int \<Rightarrow> int \<Rightarrow> int option" where
  "fuzzy_loop [] target ti score lst = Some score"
| "fuzzy_loop (q # qs) [] ti score lst = None"
| "fuzzy_loop (q # qs) (t # ts) ti score lst =
     (if t = q
      then fuzzy_loop qs ts (ti + 1) (if lst \<ge> 0 then score + (ti - lst - 1) else score + ti) ti
      else fuzzy_loop (q # qs) ts (ti + 1) score lst)"

definition fuzzyScore :: "string \<Rightarrow> string \<Rightarrow> int option" where
  "fuzzyScore query target = fuzzy_loop query target 0 0 (-1)"

text \<open>One field of a contact against the best score so far (-1 is none).\<close>

definition field_score :: "(string \<Rightarrow> string) \<Rightarrow> string \<Rightarrow> string \<Rightarrow> int \<Rightarrow> int" where
  "field_score uni trimmed field best =
     (let lowered = ToLower uni field in
      if lowered = '''' then best
      else case Index lowered trimmed of
             Some i \<Rightarrow> (let score = int i * 2 in if score < best \<or> best < 0 then score else best)
           | None \<Rightarrow>
               (case fuzzyScore trimmed lowered of
                  Some sc \<Rightarrow> (let score = sc + 100 in if score < best \<or> best < 0 then score else best)
                | None \<Rightarrow> best))"

definition contact_fields :: "Contact \<Rightarrow> string list" where
  "contact_fields c = [ct_Name c, ct_DisplayName c, ct_JID c, ct_Notes c] @ ct_Tags c"

definition best_score :: "(string \<Rightarrow> string) \<Rightarrow> string \<Rightarrow> Contact \<Rightarrow> int" where
  "best_score uni trimmed c = fold (field_score uni trimmed) (contact_fields c) (-1)"

definition FuzzySearch :: "(string \<Rightarrow> string) \<Rightarrow> string \<Rightarrow> ContactBook \<Rightarrow> Contact list" where
  "FuzzySearch uni query cb =
     (let trimmed = ToLower uni (TrimSpace query) in
      if trimmed = '''' then []
      else map fst (sort_key snd (filter (\<lambda>r. snd r \<ge> 0)
             (map (\<lambda>e. (snd e, best_score uni trimmed (snd e))) (cb_contacts cb)))))"

definition SearchContacts :: "(string \<Rightarrow> string) \<Rightarrow> string \<Rightarrow> ContactBook \<Rightarrow> Contact list" where
  "SearchContacts uni query cb = FuzzySearch uni query cb"

definition ListContacts :: "gotime \<Rightarrow> string \<Rightarrow> ContactBook \<Rightarrow> Contact list" where
  "ListContacts now flt cb =
     (let keep = (\<lambda>c. if flt = ''favorites'' then ct_Favorite c
                      else if flt = ''blocked'' then ct_Blocked c
                      else if flt = ''recent'' then Sub now (ct_LastSeen c) < 7 * 24 * Hour
                      else \<not> ct_Blocked c)
      in sort_key (\<lambda>c. - ct_LastSeen c) (filter keep (map snd (cb_contacts cb))))"

definition GetDisplayName :: "Contact \<Rightarrow> string" where
  "GetDisplayName c = (if ct_DisplayName c \<noteq> '''' then ct_DisplayName c else ct_Name c)"

definition ShortJID :: "Contact \<Rightarrow> string" where
  "ShortJID c =
     (let parts = Split (ct_JID c) CHR '':''
      in if length parts = 2 \<and> 8 \<le> length (parts ! 1) then take 8 (parts ! 1) else ct_JID c)"

subsection \<open>Operations as steps\<close>

datatype book_op =
    AddC gotime gotime string string | SeenC gotime string string | CountC string | NameC string string
  | FavoriteC string bool | BlockC string bool | TagC string string | UntagC string string | DeleteC string

fun book_step :: "Contact option list saving \<Rightarrow> book_op \<Rightarrow> ContactBook \<Rightarrow> ContactBook" where
  "book_step w (AddC t1 t2 j n) cb = snd (AddContact w t1 t2 j n cb)"
| "book_step w (SeenC t j a) cb = UpdateLastSeen w t j a cb"
| "book_step w (CountC j) cb = IncrementMessageCount w j cb"
| "book_step w (NameC j n) cb = snd (SetDisplayName w j n cb)"
| "book_step w (FavoriteC j b) cb = snd (SetFavorite w j b cb)"
| "book_step w (BlockC j b) cb = snd (SetBlocked w j b cb)"
| "book_step w (TagC j t) cb = snd (AddTag w j t cb)"
| "book_step w (UntagC j t) cb = snd (RemoveTag w j t cb)"
| "book_step w (DeleteC j) cb = snd (DeleteContact w j cb)"

lemmas book_ops = AddContact_def UpdateLastSeen_def IncrementMessageCount_def SetDisplayName_def
  SetFavorite_def SetBlocked_def AddTag_def RemoveTag_def DeleteContact_def with_contact_def Let_def

definition book_inv :: "ContactBook \<Rightarrow> bool" where
  "book_inv cb \<longleftrightarrow> goMap (cb_contacts cb) \<and> (\<forall>k c. map_of (cb_contacts cb) k = Some c \<longrightarrow> ct_JID c = k)"

lemma contacts_save_simps [simp]:
  "cb_contacts (contacts_save w cb) = cb_contacts cb"
  "cb_file (contacts_save Written cb) = Doc (map (\<lambda>e. Some (snd e)) (cb_contacts cb))"
  by (simp_all add: contacts_save_def)

lemma book_inv_step [korik_inv]: "book_inv cb \<Longrightarrow> book_inv (book_step w a cb)"
  by (cases a) (auto simp: book_ops book_inv_def split: option.splits if_splits)

lemma book_step_file:
  "book_step Written a cb = cb \<or>
   cb_file (book_step Written a cb) = Doc (map (\<lambda>e. Some (snd e)) (cb_contacts (book_step Written a cb)))"
  by (cases a) (auto simp: book_ops split: option.splits if_splits)

subsection \<open>The file\<close>

lemma load_saved_contacts:
  "\<exists>m'. load_contacts (map (\<lambda>e. Some (snd e)) es) m = Returns m' \<and>
     map_of m' = map_of m ++ map_of (rev (map (\<lambda>e. (ct_JID (snd e), snd e)) es))"
proof (induction es arbitrary: m)
  case (Cons e es)
  from Cons [of "AList.update (ct_JID (snd e)) (snd e) m"]
  obtain m' where m': "load_contacts (map (\<lambda>e. Some (snd e)) (e # es)) m = Returns m'"
    "map_of m' = (map_of m)(ct_JID (snd e) \<mapsto> snd e) ++ map_of (rev (map (\<lambda>e. (ct_JID (snd e), snd e)) es))"
    by (auto simp only: map_of_AList_update load_contacts.simps list.map)
  have "map_of m' = map_of m ++ map_of (rev (map (\<lambda>e. (ct_JID (snd e), snd e)) (e # es)))"
    unfolding m'(2) by (simp add: map_add_assoc)
  with m'(1) show ?case by blast
qed simp

lemma reload_contacts:
  assumes "book_inv cb"
  shows "\<exists>m. load_contacts (map (\<lambda>e. Some (snd e)) (cb_contacts cb)) [] = Returns m \<and>
    map_of m = map_of (cb_contacts cb)"
proof -
  have "map (\<lambda>e. (ct_JID (snd e), snd e)) (cb_contacts cb) = cb_contacts cb"
    using assms by (intro map_idI) (auto simp: book_inv_def goMap_in_set)
  moreover have "map_of (rev (cb_contacts cb)) = map_of (cb_contacts cb)"
    using assms by (intro map_of_inject_set [THEN iffD2]) (auto simp: book_inv_def goMap_def simp flip: rev_map)
  ultimately show ?thesis using load_saved_contacts [of "cb_contacts cb" "[]"] by simp
qed

definition reopened_book :: "Contact option list stored \<Rightarrow> (string \<rightharpoonup> Contact) option" where
  "reopened_book f =
     (case NewContactBook f of Returns (Inr cb) \<Rightarrow> Some (map_of (cb_contacts cb)) | _ \<Rightarrow> None)"

interpretation book_disk: persisted reopened_book cb_file "\<lambda>cb. map_of (cb_contacts cb)"
  "book_step Written" book_inv
proof unfold_locales
  fix cb a assume inv: "book_inv cb" and old: "reopened_book (cb_file cb) = Some (map_of (cb_contacts cb))"
  show "reopened_book (cb_file (book_step Written a cb)) = Some (map_of (cb_contacts (book_step Written a cb)))"
  proof (cases "book_step Written a cb = cb")
    case False
    then show ?thesis
      using book_step_file [of a cb] reload_contacts [OF book_inv_step [OF inv, of Written a]]
      by (auto simp: reopened_book_def NewContactBook_def)
  qed (simp add: old)
qed (rule book_inv_step)

subsection \<open>The contacts that are not blocked\<close>

lemma ListContacts_unblocked:
  "mset (ListContacts now '''' cb) = filter_mset (\<lambda>c. \<not> ct_Blocked c) (mset (map snd (cb_contacts cb)))"
  by (simp add: ListContacts_def)

text \<open>In a consistent book the list has each JID that is not blocked once.\<close>

lemma ListContacts_jids:
  assumes "book_inv cb"
  shows "distinct (map ct_JID (ListContacts now '''' cb))"
    "set (map ct_JID (ListContacts now '''' cb)) = {jid. \<exists>c. GetContact jid cb = Some c \<and> \<not> ct_Blocked c}"
proof -
  have keys: "map (\<lambda>e. ct_JID (snd e)) (cb_contacts cb) = map fst (cb_contacts cb)"
    using assms by (auto simp: book_inv_def goMap_in_set)
  have "distinct (map ct_JID (filter (\<lambda>c. \<not> ct_Blocked c) (map snd (cb_contacts cb))))"
    using keys assms by (intro distinct_map_filter) (simp add: book_inv_def goMap_def o_def del: map_eq_conv)
  moreover have "mset (map ct_JID (ListContacts now '''' cb)) =
      mset (map ct_JID (filter (\<lambda>c. \<not> ct_Blocked c) (map snd (cb_contacts cb))))"
    by (simp add: ListContacts_unblocked)
  ultimately show "distinct (map ct_JID (ListContacts now '''' cb))" by (metis mset_eq_imp_distinct_iff)
  have "set (ListContacts now '''' cb) = {c. (ct_JID c, c) \<in> set (cb_contacts cb) \<and> \<not> ct_Blocked c}"
    using keys by (force simp: ListContacts_def)
  then show "set (map ct_JID (ListContacts now '''' cb)) = {jid. \<exists>c. GetContact jid cb = Some c \<and> \<not> ct_Blocked c}"
    using assms by (auto simp: book_inv_def GetContact_def goMap_in_set)
qed

subsection \<open>Fuzzy matching\<close>

lemma fuzzy_loop_subseq: "fuzzy_loop q t ti score lst \<noteq> None \<longleftrightarrow> subseq q t"
  by (induction q t ti score lst rule: fuzzy_loop.induct) (auto simp: subseq_Cons2_iff)

lemma fuzzy_loop_nonneg:
  "fuzzy_loop q t ti score lst = Some s \<Longrightarrow> 0 \<le> score \<Longrightarrow> 0 \<le> ti \<Longrightarrow> lst < ti \<Longrightarrow> 0 \<le> s"
  by (induction q t ti score lst rule: fuzzy_loop.induct) (auto split: if_splits)

lemma field_score_nonneg:
  assumes "trimmed \<noteq> ''''"
  shows "0 \<le> field_score uni trimmed field best \<longleftrightarrow>
     0 \<le> best \<or> subseq trimmed (ToLower uni field)"
proof -
  let ?low = "ToLower uni field"
  have sub: "Index ?low trimmed \<noteq> None \<Longrightarrow> subseq trimmed ?low"
    using Contains_sublist [of ?low trimmed] sublist_imp_subseq by (simp add: Contains_def)
  have fz: "fuzzyScore trimmed ?low \<noteq> None \<longleftrightarrow> subseq trimmed ?low"
    unfolding fuzzyScore_def by (rule fuzzy_loop_subseq)
  have pos: "fuzzyScore trimmed ?low = Some s \<Longrightarrow> 0 \<le> s" for s
    unfolding fuzzyScore_def by (erule fuzzy_loop_nonneg) simp_all
  show ?thesis
  proof (cases "Index ?low trimmed")
    case (Some i)
    then show ?thesis using sub assms by (auto simp: field_score_def Let_def)
  next
    case None
    then show ?thesis
    proof (cases "fuzzyScore trimmed ?low")
      case none: None
      then show ?thesis using None fz by (simp add: field_score_def Let_def)
    next
      case (Some s)
      then have "subseq trimmed ?low" "0 \<le> s" using fz pos by auto
      then show ?thesis using None Some assms by (auto simp: field_score_def Let_def)
    qed
  qed
qed

lemma fold_score_nonneg:
  "trimmed \<noteq> '''' \<Longrightarrow> 0 \<le> fold (field_score uni trimmed) fs best \<longleftrightarrow>
     0 \<le> best \<or> (\<exists>f\<in>set fs. subseq trimmed (ToLower uni f))"
  by (induction fs arbitrary: best) (auto simp: field_score_nonneg)

subsection \<open>Properties\<close>

text \<open>
  The contact search is complete and ranked: a query finds exactly the contacts that have a field in
  which the trimmed, lower-cased query occurs as a subsequence (a blank query finds none), and the results
  come in order of their scores.
\<close>

theorem fuzzy_search_complete:
  "(c \<in> set (FuzzySearch uni query cb) \<longleftrightarrow>
      ToLower uni (TrimSpace query) \<noteq> '''' \<and> c \<in> snd ` set (cb_contacts cb) \<and>
      (\<exists>f\<in>set (contact_fields c). subseq (ToLower uni (TrimSpace query)) (ToLower uni f))) \<and>
   sorted (map (best_score uni (ToLower uni (TrimSpace query))) (FuzzySearch uni query cb))"
proof -
  define q where "q = ToLower uni (TrimSpace query)"
  define rs where "rs = sort_key snd (filter (\<lambda>r. snd r \<ge> 0)
    (map (\<lambda>e. (snd e, best_score uni q (snd e))) (cb_contacts cb)))"
  have F: "FuzzySearch uni query cb = (if q = '''' then [] else map fst rs)"
    by (simp add: FuzzySearch_def q_def rs_def Let_def)
  have "\<forall>r\<in>set rs. best_score uni q (fst r) = snd r" by (auto simp: rs_def)
  then have "map (best_score uni q) (map fst rs) = map snd rs" by simp
  moreover have "sorted (map snd rs)" by (simp add: rs_def)
  moreover have "c \<in> fst ` set rs \<longleftrightarrow> c \<in> snd ` set (cb_contacts cb) \<and> 0 \<le> best_score uni q c"
  proof -
    have "set rs = {(snd e, best_score uni q (snd e)) |e. e \<in> set (cb_contacts cb) \<and> 0 \<le> best_score uni q (snd e)}"
      by (force simp: rs_def)
    then show ?thesis by (force simp: image_iff)
  qed
  ultimately show ?thesis
    unfolding q_def [symmetric] F by (auto simp: best_score_def fold_score_nonneg simp del: map_map)
qed

definition keeps_block :: "string \<Rightarrow> book_op \<Rightarrow> bool" where
  "keeps_block jid a \<longleftrightarrow> a \<noteq> BlockC jid False \<and> a \<noteq> DeleteC jid"

lemma IsBlocked_step:
  "IsBlocked jid cb \<Longrightarrow> keeps_block jid a \<Longrightarrow> IsBlocked jid (book_step w a cb)"
  by (cases a) (auto simp: book_ops IsBlocked_def keeps_block_def split: option.splits if_splits)

lemma IsBlocked_run:
  "IsBlocked jid cb \<Longrightarrow> list_all (keeps_block jid) ops \<Longrightarrow> IsBlocked jid (fold (book_step w) ops cb)"
  by (induction ops arbitrary: cb) (auto simp: IsBlocked_step)

lemma book_inv_run: "book_inv cb \<Longrightarrow> book_inv (fold (book_step w) ops cb)"
  by (induction ops arbitrary: cb) (auto simp: book_inv_step)

text \<open>
  A block holds: once a contact is blocked, it stays blocked through every sequence of
  operations that neither unblocks nor deletes that contact, and it is in no default listing meanwhile.
\<close>

theorem block_holds:
  assumes "book_inv cb" and "haskey (cb_contacts cb) jid" and "list_all (keeps_block jid) ops"
  shows "let cb' = fold (book_step w) ops (snd (SetBlocked w jid True cb))
         in IsBlocked jid cb' \<and> (\<forall>c\<in>set (ListContacts now '''' cb'). ct_JID c \<noteq> jid)"
proof -
  let ?cb = "book_step w (BlockC jid True) cb"
  define cb' where "cb' = fold (book_step w) ops ?cb"
  have "IsBlocked jid ?cb" using assms(2) by (auto simp: book_ops IsBlocked_def)
  then have blocked: "IsBlocked jid cb'" using IsBlocked_run assms(3) by (simp add: cb'_def)
  have inv: "book_inv cb'" using book_inv_run [OF book_inv_step [OF assms(1)]] by (simp only: cb'_def)
  have "ct_JID c \<noteq> jid" if "c \<in> set (ListContacts now '''' cb')" for c
    using that blocked inv by (auto simp: ListContacts_def IsBlocked_def book_inv_def goMap_in_set)
  then show ?thesis using blocked by (simp add: cb'_def Let_def)
qed

text \<open>
  The address book survives a restart: from a consistent book, after a contact was added and any
  sequence of operations whose saves succeed, reading the file gives the same contacts.
\<close>

theorem contacts_survive_restart:
  assumes "book_inv cb"
  shows "let cb' = fold (book_step Written) (AddC t1 t2 jid name # ops) cb
         in reopened_book (cb_file cb') = Some (map_of (cb_contacts cb'))"
proof -
  let ?cb = "book_step Written (AddC t1 t2 jid name) cb"
  have inv: "book_inv ?cb" by (rule book_inv_step [OF assms])
  have "reopened_book (cb_file ?cb) = Some (map_of (cb_contacts ?cb))"
    using reload_contacts [OF inv] by (auto simp: AddContact_def Let_def reopened_book_def NewContactBook_def)
  then show ?thesis using book_disk.reopen_run [OF inv] by (simp add: Let_def)
qed

theorem block_holds_witness:
  "let cb = snd (AddContact Written 1 1 ''j'' ''Eve'' \<lparr>cb_contacts = [], cb_file = Absent\<rparr>);
       cb' = fold (book_step Written) [AddC 5 5 ''j'' ''Eve2'', SeenC 6 ''j'' ''a''] (snd (SetBlocked Written ''j'' True cb))
   in IsBlocked ''j'' cb' \<and> (\<forall>c\<in>set (ListContacts 9 '''' cb'). ct_JID c \<noteq> ''j'')"
  unfolding Let_def
  by (rule block_holds [unfolded Let_def]) (simp_all add: AddContact_def Let_def book_inv_def goMap_def keeps_block_def)

theorem contacts_survive_restart_witness:
  "let cb' = fold (book_step Written) (AddC 1 2 ''j'' ''Ann'' # [FavoriteC ''j'' True]) \<lparr>cb_contacts = [], cb_file = Absent\<rparr>
   in reopened_book (cb_file cb') = Some (map_of (cb_contacts cb'))"
  by (rule contacts_survive_restart) (simp add: book_inv_def)

end
