(* ===== verification/File_Transfer.thy ===== *)
theory File_Transfer
  imports Go_Float Go_Base64 Go_Path Crypto_Util Persist
begin

text \<open>
  File transfers, \<^verbatim>\<open>src/internal/filetransfer/filetransfer.go\<close>: cutting a file into chunks, collecting
  them, assembling and saving the received file, and the checkpoints from which an interrupted transfer is
  resumed. A transfer is a value that its operations return updated. An open file is its bytes with a
  cursor (a regular file: a read returns all bytes asked for up to its end). The lock of a transfer is explicit
  where it matters, in \<open>SaveFile\<close>.
\<close>

abbreviation ChunkSize :: nat where "ChunkSize \<equiv> 65536"
abbreviation TransferMaxAge :: duration where "TransferMaxAge \<equiv> 7 * 24 * Hour"

record handle =
  fh_data :: string
  fh_pos :: nat
  fh_closed :: bool

record Transfer =
  tr_ID :: string
  tr_FileName :: string
  tr_FileSize :: int
  tr_ChunkTotal :: int
  tr_Direction :: string
  tr_PeerJID :: string
  tr_StartedAt :: gotime
  tr_LastUpdate :: gotime
  tr_BytesTotal :: int
  tr_BytesSent :: int
  tr_Status :: string
  tr_chunks :: "(int \<times> string) list"
  tr_chunksRecv :: int
  tr_file :: "handle option"
  tr_chunksSent :: int
  tr_sourcePath :: string

record meta =
  mt_ID :: string
  mt_FileName :: string
  mt_FileSize :: int
  mt_ChunkTotal :: int
  mt_PeerJID :: string

record Manager =
  mg_transfers :: "(string \<times> Transfer) list"
  mg_saveDir :: string
  mg_partialDir :: string
  mg_metas :: "(string \<times> meta stored) list"
  mg_chunkfiles :: "(string \<times> (string \<times> string) list stored) list"

datatype transfer_error =
    OpenFailed | StatFailed | NoRecipients | NotSend | NotReceive | EndOfFile | ReadError
  | OutOfRange int int | NotComplete | NoSaveDir | CreateFailed | MissingChunk int | ChunkWriteFailed

subsection \<open>Paths and names\<close>

text \<open>\<open>filepath.Ext\<close>, reading the name from its end.\<close>

fun ext_scan :: "string \<Rightarrow> string \<Rightarrow> string" where
  "ext_scan [] acc = ''''"
| "ext_scan (c # cs) acc =
     (if c = CHR ''/'' then '''' else if c = CHR ''.'' then c # acc else ext_scan cs (c # acc))"

definition Ext :: "string \<Rightarrow> string" where "Ext p = ext_scan (rev p) ''''"

definition Base :: "string \<Rightarrow> string" where
  "Base p =
     (if p = '''' then ''.''
      else let q = rev (dropWhile (\<lambda>c. c = CHR ''/'') (rev p))
           in if q = '''' then ''/'' else last (Split q CHR ''/''))"

definition UnixNano :: "gotime \<Rightarrow> int" where
  "UnixNano t = t - 62135596800 * Second"

subsection \<open>Manager and sending\<close>

text \<open>\<open>home\<close> is the answer of \<open>os.UserHomeDir\<close>.\<close>

definition NewManager :: "string option \<Rightarrow> Manager" where
  "NewManager home =
     (let h = (case home of None \<Rightarrow> ''.'' | Some h \<Rightarrow> h)
      in \<lparr>mg_transfers = [], mg_saveDir = JoinPath [h, ''Downloads/korik''],
          mg_partialDir = JoinPath [h, ''.korik'', ''partial''], mg_metas = [], mg_chunkfiles = []\<rparr>)"

definition SetSaveDir :: "string \<Rightarrow> Manager \<Rightarrow> Manager" where
  "SetSaveDir dir m = m\<lparr>mg_saveDir := dir\<rparr>"

datatype opened = OpenFails | StatFails | Opened string

text \<open>\<open>t0\<close> is the time hashed into the identifier, \<open>t1\<close> and \<open>t2\<close> the two time stamps.\<close>

definition CreateSendTransfer ::
    "primitives \<Rightarrow> opened \<Rightarrow> gotime \<Rightarrow> gotime \<Rightarrow> gotime \<Rightarrow> string \<Rightarrow> string \<Rightarrow> Manager \<Rightarrow>
     (transfer_error + Transfer) \<times> Manager" where
  "CreateSendTransfer P file t0 t1 t2 filePath peerJID m =
     (case file of
        OpenFails \<Rightarrow> (Inl OpenFailed, m)
      | StatFails \<Rightarrow> (Inl StatFailed, m)
      | Opened content \<Rightarrow>
          let fileSize = int (length content);
              chunkTotal = (fileSize + int ChunkSize - 1) div int ChunkSize;
              tid = take 16 (EncodeToString (sha256 P (filePath @ '':'' @ peerJID @ '':'' @ Itoa (UnixNano t0))));
              t = \<lparr>tr_ID = tid, tr_FileName = Base filePath, tr_FileSize = fileSize,
                   tr_ChunkTotal = chunkTotal, tr_Direction = ''send'', tr_PeerJID = peerJID,
                   tr_StartedAt = t1, tr_LastUpdate = t2, tr_BytesTotal = fileSize, tr_BytesSent = 0,
                   tr_Status = ''pending'', tr_chunks = [], tr_chunksRecv = 0,
                   tr_file = Some \<lparr>fh_data = content, fh_pos = 0, fh_closed = False\<rparr>,
                   tr_chunksSent = 0, tr_sourcePath = filePath\<rparr>
          in (Inr t, m\<lparr>mg_transfers := AList.update tid t (mg_transfers m)\<rparr>))"

definition CancelTransfer :: "Transfer \<Rightarrow> Transfer" where
  "CancelTransfer t =
     t\<lparr>tr_Status := ''canceled'', tr_file := map_option (\<lambda>h. h\<lparr>fh_closed := True\<rparr>) (tr_file t)\<rparr>"

text \<open>One entry per recipient: the answer of the file system and the clock for it.\<close>

type_synonym send_call = "string \<times> opened \<times> gotime"

fun multicast_loop ::
    "primitives \<Rightarrow> string \<Rightarrow> send_call list \<Rightarrow> string list \<Rightarrow> Manager \<Rightarrow> (transfer_error + string list) \<times> Manager" where
  "multicast_loop P path [] made m = (Inr made, m)"
| "multicast_loop P path ((jid, file, now) # cs) made m =
     (case CreateSendTransfer P file now now now path jid m of
        (Inl e, m') \<Rightarrow>
          (Inl e, m'\<lparr>mg_transfers := map (\<lambda>(k, t). (k, if k \<in> set made then CancelTransfer t else t)) (mg_transfers m')\<rparr>)
      | (Inr t, m') \<Rightarrow> multicast_loop P path cs (made @ [tr_ID t]) m')"

definition CreateMulticastSendTransfers ::
    "primitives \<Rightarrow> string \<Rightarrow> send_call list \<Rightarrow> Manager \<Rightarrow> (transfer_error + string list) \<times> Manager" where
  "CreateMulticastSendTransfers P path cs m =
     (if cs = [] then (Inl NoRecipients, m) else multicast_loop P path cs [] m)"

definition GetTransfersByPeer :: "string \<Rightarrow> Manager \<Rightarrow> Transfer list" where
  "GetTransfersByPeer peerJID m = filter (\<lambda>t. tr_PeerJID t = peerJID) (map snd (mg_transfers m))"

definition new_receive :: "gotime \<Rightarrow> gotime \<Rightarrow> string \<Rightarrow> string \<Rightarrow> string \<Rightarrow> int \<Rightarrow> int \<Rightarrow> Transfer" where
  "new_receive t1 t2 tid fileName peerJID fileSize chunkTotal =
     \<lparr>tr_ID = tid, tr_FileName = fileName, tr_FileSize = fileSize, tr_ChunkTotal = chunkTotal,
      tr_Direction = ''receive'', tr_PeerJID = peerJID, tr_StartedAt = t1, tr_LastUpdate = t2,
      tr_BytesTotal = fileSize, tr_BytesSent = 0, tr_Status = ''active'', tr_chunks = [],
      tr_chunksRecv = 0, tr_file = None, tr_chunksSent = 0, tr_sourcePath = ''''\<rparr>"

definition CreateReceiveTransfer ::
    "gotime \<Rightarrow> gotime \<Rightarrow> string \<Rightarrow> string \<Rightarrow> string \<Rightarrow> int \<Rightarrow> int \<Rightarrow> Manager \<Rightarrow> Transfer \<times> Manager" where
  "CreateReceiveTransfer t1 t2 tid fileName peerJID fileSize chunkTotal m =
     (let t = new_receive t1 t2 tid fileName peerJID fileSize chunkTotal
      in (t, m\<lparr>mg_transfers := AList.update tid t (mg_transfers m)\<rparr>))"

definition GetTransfer :: "string \<Rightarrow> Manager \<Rightarrow> Transfer option" where
  "GetTransfer tid m = map_of (mg_transfers m) tid"

text \<open>A nil file, which only a transfer that is not a send has, would panic.\<close>

definition ReadChunk :: "gotime \<Rightarrow> Transfer \<Rightarrow> (((transfer_error + string) \<times> int) \<times> Transfer) outcome" where
  "ReadChunk now t =
     (if tr_Direction t \<noteq> ''send'' then Returns ((Inl NotSend, 0), t)
      else if tr_ChunkTotal t \<le> tr_chunksSent t then Returns ((Inl EndOfFile, tr_chunksSent t), t)
      else case tr_file t of
        None \<Rightarrow> Panics
      | Some h \<Rightarrow>
          if fh_closed h then Returns ((Inl ReadError, tr_chunksSent t), t)
          else let chunk = take ChunkSize (drop (fh_pos h) (fh_data h));
                   sent = tr_chunksSent t + 1;
                   fin = (tr_ChunkTotal t \<le> sent);
                   h' = h\<lparr>fh_pos := fh_pos h + length chunk, fh_closed := fin\<rparr>
               in Returns ((Inr chunk, tr_chunksSent t),
                    t\<lparr>tr_chunksSent := sent, tr_BytesSent := tr_BytesSent t + int (length chunk),
                      tr_LastUpdate := now, tr_Status := (if fin then ''completed'' else ''active''),
                      tr_file := Some h'\<rparr>))"

text \<open>\<open>source\<close>: what opening the source path again gives.\<close>

definition ReadChunkAt :: "string option \<Rightarrow> int \<Rightarrow> Transfer \<Rightarrow> transfer_error + string" where
  "ReadChunkAt source index t =
     (if tr_Direction t \<noteq> ''send'' then Inl NotSend
      else if index < 0 \<or> tr_ChunkTotal t \<le> index then Inl (OutOfRange index (tr_ChunkTotal t))
      else case source of
        None \<Rightarrow> Inl OpenFailed
      | Some content \<Rightarrow> Inr (take ChunkSize (drop (nat index * ChunkSize) content)))"

subsection \<open>Receiving\<close>

definition WriteChunk :: "gotime \<Rightarrow> int \<Rightarrow> string \<Rightarrow> Transfer \<Rightarrow> (transfer_error + unit) \<times> Transfer" where
  "WriteChunk now index data t =
     (if tr_Direction t \<noteq> ''receive'' then (Inl NotReceive, t)
      else if haskey (tr_chunks t) index then (Inr (), t)
      else (Inr (), t\<lparr>tr_chunks := AList.update index data (tr_chunks t),
                      tr_chunksRecv := tr_chunksRecv t + 1,
                      tr_BytesSent := tr_BytesSent t + int (length data), tr_LastUpdate := now\<rparr>))"

text \<open>A \<open>sync.RWMutex\<close> as one goroutine sees it: asking for the read lock while holding the write
  lock waits forever.\<close>

datatype lock = Unlocked | WriteLocked

definition RLock :: "lock \<Rightarrow> unit outcome" where
  "RLock l = (case l of Unlocked \<Rightarrow> Returns () | WriteLocked \<Rightarrow> Blocks)"

definition IsComplete :: "lock \<Rightarrow> Transfer \<Rightarrow> bool outcome" where
  "IsComplete l t = bind_outcome (RLock l) (\<lambda>_. Returns (tr_ChunkTotal t \<le> tr_chunksRecv t))"

text \<open>The existing paths are those of \<open>os.Stat\<close>. The loop tries \<open>base_1\<close>, \<open>base_2\<close>, \<open>\<dots>\<close>; the fuel
  is how many names it tries.\<close>

definition numbered :: "string \<Rightarrow> string \<Rightarrow> string \<Rightarrow> nat \<Rightarrow> string" where
  "numbered dir base ext i = JoinPath [dir, base @ ''_'' @ Itoa (int i) @ ext]"

fun unique_loop :: "nat \<Rightarrow> string list \<Rightarrow> string \<Rightarrow> string \<Rightarrow> string \<Rightarrow> nat \<Rightarrow> string option" where
  "unique_loop 0 existing dir base ext i = None"
| "unique_loop (Suc fuel) existing dir base ext i =
     (if numbered dir base ext i \<notin> set existing then Some (numbered dir base ext i)
      else unique_loop fuel existing dir base ext (Suc i))"

definition save_path :: "string list \<Rightarrow> string \<Rightarrow> string \<Rightarrow> string option" where
  "save_path existing dir name =
     (let p = JoinPath [dir, name]
      in if p \<in> set existing
         then let ext = Ext name; base = take (length name - length ext) name
              in unique_loop (Suc (length existing)) existing dir base ext 1
         else Some p)"

fun write_chunks :: "bool \<Rightarrow> (int \<times> string) list \<Rightarrow> nat \<Rightarrow> nat \<Rightarrow> transfer_error + string" where
  "write_chunks ok chunks i 0 = Inr ''''"
| "write_chunks ok chunks i (Suc n) =
     (case map_of chunks (int i) of
        None \<Rightarrow> Inl (MissingChunk (int i))
      | Some c \<Rightarrow>
          if \<not> ok then Inl ChunkWriteFailed
          else (case write_chunks ok chunks (Suc i) n of Inl e \<Rightarrow> Inl e | Inr r \<Rightarrow> Inr (c @ r)))"

text \<open>The answers of the file system to the calls of \<open>SaveFile\<close>.\<close>

record save_io =
  io_mkdir :: bool
  io_existing :: "string list"
  io_create :: bool
  io_write :: bool

text \<open>What \<open>SaveFile\<close> does once \<open>IsComplete\<close> has answered: the path and the bytes written to it. It is translated because the code has it; the call before it
  never returns for a received transfer (\<open>save_file_deadlocks\<close>), so the program does not get here.\<close>

definition save_rest :: "save_io \<Rightarrow> Manager \<Rightarrow> Transfer \<Rightarrow> ((transfer_error + string \<times> string) \<times> Transfer) outcome" where
  "save_rest s m t =
     (if \<not> io_mkdir s then Returns (Inl NoSaveDir, t)
      else case save_path (io_existing s) (mg_saveDir m) (tr_FileName t) of
        None \<Rightarrow> Blocks
      | Some p \<Rightarrow>
          if \<not> io_create s then Returns (Inl CreateFailed, t)
          else case write_chunks (io_write s) (tr_chunks t) 0 (nat (tr_ChunkTotal t)) of
            Inl e \<Rightarrow> Returns (Inl e, t)
          | Inr bytes \<Rightarrow> Returns (Inr (p, bytes), t\<lparr>tr_Status := ''completed''\<rparr>))"

definition SaveFile ::
    "save_io \<Rightarrow> Manager \<Rightarrow> Transfer \<Rightarrow> ((transfer_error + string \<times> string) \<times> Transfer) outcome" where
  "SaveFile s m t =
     (if tr_Direction t \<noteq> ''receive'' then Returns (Inl NotReceive, t)
      else bind_outcome (IsComplete WriteLocked t)
             (\<lambda>complete. if \<not> complete then Returns (Inl NotComplete, t) else save_rest s m t))"

definition Progress :: "Transfer \<Rightarrow> rat" where
  "Progress t =
     (if tr_BytesTotal t = 0 then 0
      else f64 (f64 (of_int (tr_BytesSent t)) / f64 (of_int (tr_BytesTotal t))))"

definition ProgressPercent :: "Transfer \<Rightarrow> int" where
  "ProgressPercent t = (let x = f64 (Progress t * 100) in if x < 0 then \<lceil>x\<rceil> else \<lfloor>x\<rfloor>)"

definition EncodeChunk :: "string \<Rightarrow> string" where "EncodeChunk data = b64_encode data"

definition DecodeChunk :: "string \<Rightarrow> string option" where "DecodeChunk encoded = b64_decode encoded"

definition MissingChunks :: "Transfer \<Rightarrow> int list" where
  "MissingChunks t =
     (if tr_Direction t \<noteq> ''receive'' then []
      else filter (\<lambda>i. \<not> haskey (tr_chunks t) i) (map int [0..<nat (tr_ChunkTotal t)]))"

definition ReceivedCount :: "Transfer \<Rightarrow> int" where
  "ReceivedCount t = tr_chunksRecv t"

subsection \<open>Checkpoints\<close>

definition meta_path :: "string \<Rightarrow> Manager \<Rightarrow> string" where
  "meta_path tid m = JoinPath [mg_partialDir m, tid @ ''.meta'']"

definition chunk_path :: "string \<Rightarrow> Manager \<Rightarrow> string" where
  "chunk_path tid m = JoinPath [mg_partialDir m, tid @ ''.chunks'']"

text \<open>The encoding of the chunk map as a JSON object: decimal keys, base64 values.\<close>

definition encode_chunks :: "(int \<times> string) list \<Rightarrow> (string \<times> string) list" where
  "encode_chunks cs = map (\<lambda>(k, v). (Itoa k, EncodeChunk v)) cs"

definition put_file :: "'d saving \<Rightarrow> 'd \<Rightarrow> string \<Rightarrow> (string \<times> 'd stored) list \<Rightarrow> bool \<times> (string \<times> 'd stored) list" where
  "put_file w d p fs =
     (case save_doc w d (case map_of fs p of None \<Rightarrow> Absent | Some f \<Rightarrow> f) of
        (ok, f) \<Rightarrow> (ok, AList.update p f fs))"

definition Checkpoint ::
    "meta saving \<Rightarrow> (string \<times> string) list saving \<Rightarrow> Transfer \<Rightarrow> Manager \<Rightarrow> bool \<times> Manager" where
  "Checkpoint w w' t m =
     (if tr_Direction t \<noteq> ''receive'' then (True, m)
      else let d = \<lparr>mt_ID = tr_ID t, mt_FileName = tr_FileName t, mt_FileSize = tr_FileSize t,
                    mt_ChunkTotal = tr_ChunkTotal t, mt_PeerJID = tr_PeerJID t\<rparr>
           in case put_file w d (meta_path (tr_ID t) m) (mg_metas m) of
                (False, fs) \<Rightarrow> (False, m\<lparr>mg_metas := fs\<rparr>)
              | (True, fs) \<Rightarrow>
                  (case put_file w' (encode_chunks (tr_chunks t)) (chunk_path (tr_ID t) m) (mg_chunkfiles m) of
                     (ok, cfs) \<Rightarrow> (ok, m\<lparr>mg_metas := fs, mg_chunkfiles := cfs\<rparr>)))"

text \<open>The loop over the stored chunks; keys and values that do not decode are skipped.\<close>

fun restore_chunks :: "(string \<times> string) list \<Rightarrow> Transfer \<Rightarrow> Transfer" where
  "restore_chunks [] t = t"
| "restore_chunks ((k, v) # cs) t =
     (case Atoi k of
        None \<Rightarrow> restore_chunks cs t
      | Some idx \<Rightarrow>
          (case DecodeChunk v of
             None \<Rightarrow> restore_chunks cs t
           | Some raw \<Rightarrow>
               restore_chunks cs (t\<lparr>tr_chunks := AList.update idx raw (tr_chunks t),
                 tr_chunksRecv := tr_chunksRecv t + 1, tr_BytesSent := tr_BytesSent t + int (length raw)\<rparr>)))"

definition RestorePartial :: "gotime \<Rightarrow> gotime \<Rightarrow> string \<Rightarrow> Manager \<Rightarrow> Transfer option \<times> Manager" where
  "RestorePartial t1 t2 tid m =
     (case map_of (mg_metas m) (meta_path tid m) of
        Some (Doc d) \<Rightarrow>
          (case map_of (mg_chunkfiles m) (chunk_path tid m) of
             Some (Doc combined) \<Rightarrow>
               (let t = restore_chunks combined (new_receive t1 t2 (mt_ID d) (mt_FileName d) (mt_PeerJID d)
                          (mt_FileSize d) (mt_ChunkTotal d))
                in (Some t, m\<lparr>mg_transfers := AList.update tid t (mg_transfers m)\<rparr>))
           | _ \<Rightarrow> (None, m))
      | _ \<Rightarrow> (None, m))"

definition ClearPartial :: "string \<Rightarrow> Manager \<Rightarrow> Manager" where
  "ClearPartial tid m =
     m\<lparr>mg_metas := AList.delete (meta_path tid m) (mg_metas m),
       mg_chunkfiles := AList.delete (chunk_path tid m) (mg_chunkfiles m)\<rparr>"

text \<open>An entry of \<open>os.ReadDir\<close>: its name, whether it is a directory, and its modification time if
  \<open>Info\<close> succeeds. \<open>None\<close> for the listing is an error of \<open>ReadDir\<close>.\<close>

type_synonym dir_entry = "string \<times> bool \<times> gotime option"

definition PruneExpiredPartials :: "gotime \<Rightarrow> dir_entry list option \<Rightarrow> Manager \<Rightarrow> Manager" where
  "PruneExpiredPartials now listing m =
     (case listing of
        None \<Rightarrow> m
      | Some entries \<Rightarrow>
          let cutoff = now - TransferMaxAge
          in fold (\<lambda>(name, isDir, info) m.
               if isDir \<or> Ext name \<noteq> ''.meta'' then m
               else case info of
                      None \<Rightarrow> m
                    | Some modTime \<Rightarrow>
                        if modTime < cutoff then ClearPartial (take (length name - 5) name) m else m)
             entries m)"

subsection \<open>Finding a free name\<close>

lemma ext_scan_no_slash: "CHR ''/'' \<notin> set acc \<Longrightarrow> CHR ''/'' \<notin> set (ext_scan cs acc)"
  by (induction cs acc rule: ext_scan.induct) auto

lemma Ext_no_slash: "CHR ''/'' \<notin> set (Ext p)"
  by (simp add: Ext_def ext_scan_no_slash)

lemma Itoa_no_slash: "CHR ''/'' \<notin> set (Itoa (int i))"
  using nat_digits_all [of i] by (auto simp: Itoa_def list_all_iff is_digit_def byte_of_def)

lemma numbered_inj:
  assumes "CHR ''/'' \<notin> set ext"
  shows "numbered dir base ext i = numbered dir base ext j \<longleftrightarrow> i = j"
proof -
  define s where "s = (if dir = '''' then base else dir @ ''/'' @ base)"
  obtain pre where pre: "\<And>t'. CHR ''/'' \<notin> set t' \<Longrightarrow> hd t' = CHR ''_'' \<Longrightarrow> t' \<noteq> [] \<Longrightarrow> Clean (s @ t') = pre @ t'"
    using Clean_append [of s] by blast
  have "numbered dir base ext i = pre @ ''_'' @ Itoa (int i) @ ext" for i
    using pre [of "''_'' @ Itoa (int i) @ ext"] Itoa_no_slash [of i] assms
    by (cases "dir = ''''") (simp_all add: numbered_def JoinPath_def Let_def s_def)
  then show ?thesis using Itoa_inj [of "int i" "int j"] by auto
qed

lemma unique_loop_None:
  "unique_loop fuel existing dir base ext i = None \<Longrightarrow> k < fuel \<Longrightarrow> numbered dir base ext (i + k) \<in> set existing"
proof (induction fuel arbitrary: i k)
  case (Suc fuel)
  then show ?case using Suc.IH [of "Suc i" "k - 1"] by (cases k) (auto split: if_splits)
qed simp

lemma unique_loop_Some: "unique_loop fuel existing dir base ext i = Some p \<Longrightarrow> p \<notin> set existing"
  by (induction fuel arbitrary: i) (auto split: if_splits)

lemma unique_loop_ends:
  assumes "CHR ''/'' \<notin> set ext"
  shows "\<exists>p. unique_loop (Suc (length existing)) existing dir base ext i = Some p"
proof (rule ccontr)
  let ?f = "\<lambda>k. numbered dir base ext (i + k)"
  assume "\<nexists>p. unique_loop (Suc (length existing)) existing dir base ext i = Some p"
  then have sub: "?f ` {..<Suc (length existing)} \<subseteq> set existing"
    using unique_loop_None by (fastforce simp del: unique_loop.simps)
  have "inj_on ?f {..<Suc (length existing)}" using numbered_inj [OF assms] by (auto simp: inj_on_def)
  then have "card (?f ` {..<Suc (length existing)}) = Suc (length existing)" by (simp add: card_image)
  moreover have "card (?f ` {..<Suc (length existing)}) \<le> length existing"
    using card_mono [OF _ sub] card_length [of existing] by fastforce
  ultimately show False by simp
qed

lemma save_path_fresh: "\<exists>p. save_path existing dir name = Some p \<and> p \<notin> set existing"
proof (cases "JoinPath [dir, name] \<in> set existing")
  case True
  then have "save_path existing dir name =
    unique_loop (Suc (length existing)) existing dir (take (length name - length (Ext name)) name) (Ext name) 1"
    by (simp only: save_path_def Let_def if_True)
  then show ?thesis using unique_loop_ends [OF Ext_no_slash] unique_loop_Some by metis
qed (simp add: save_path_def Let_def)

subsection \<open>Chunks\<close>

definition slice :: "string \<Rightarrow> nat \<Rightarrow> string" where
  "slice content i = take ChunkSize (drop (i * ChunkSize) content)"

definition chunk_total :: "string \<Rightarrow> int" where
  "chunk_total content = (int (length content) + int ChunkSize - 1) div int ChunkSize"

lemma chunk_total_covers:
  "0 \<le> chunk_total content" "length content \<le> nat (chunk_total content) * ChunkSize"
proof -
  show c: "0 \<le> chunk_total content" by (simp add: chunk_total_def)
  have "int (length content) \<le> chunk_total content * 65536"
    unfolding chunk_total_def of_nat_numeral by linarith
  then show "length content \<le> nat (chunk_total content) * ChunkSize" using c by linarith
qed

lemma concat_chunks: "concat (map (slice content) [0..<nat (chunk_total content)]) = content"
  using concat_slices [of ChunkSize content "nat (chunk_total content)"] chunk_total_covers(2) [of content]
  by (simp add: slice_def [abs_def])

text \<open>A received transfer whose chunks are those of \<open>content\<close>.\<close>

definition holds_slices :: "string \<Rightarrow> Transfer \<Rightarrow> bool" where
  "holds_slices content r \<longleftrightarrow> tr_Direction r = ''receive'' \<and> goMap (tr_chunks r) \<and>
     tr_ChunkTotal r = chunk_total content \<and> tr_chunksRecv r = int (length (tr_chunks r)) \<and>
     (\<forall>i c. map_of (tr_chunks r) i = Some c \<longrightarrow> 0 \<le> i \<and> i < chunk_total content \<and> c = slice content (nat i))"

definition receive_slice :: "string \<Rightarrow> int \<Rightarrow> Transfer \<Rightarrow> Transfer" where
  "receive_slice content i r = snd (WriteChunk 0 i (slice content (nat i)) r)"

lemma WriteChunk_slice:
  assumes "holds_slices content r" and "0 \<le> i" and "i < chunk_total content"
  shows "holds_slices content (snd (WriteChunk now i (slice content (nat i)) r))"
    "haskey (tr_chunks (snd (WriteChunk now i c r))) j \<longleftrightarrow> j = i \<or> haskey (tr_chunks r) j"
  using assms by (auto simp: WriteChunk_def holds_slices_def length_update split: if_splits)

lemma write_chunks_all:
  "(\<And>j. i \<le> j \<Longrightarrow> j < i + n \<Longrightarrow> map_of cs (int j) = Some (f j)) \<Longrightarrow>
    write_chunks True cs i n = Inr (concat (map f [i..<i + n]))"
proof (induction n arbitrary: i)
  case (Suc n)
  have "write_chunks True cs (Suc i) n = Inr (concat (map f [Suc i..<Suc i + n]))"
    using Suc.prems by (intro Suc.IH) auto
  then show ?case using Suc.prems [of i] upt_conv_Cons [of i "i + Suc n"] by (simp del: upt_Suc)
qed simp

lemma complete_count:
  assumes "holds_slices content r" and "\<And>i. 0 \<le> i \<Longrightarrow> i < chunk_total content \<Longrightarrow> haskey (tr_chunks r) i"
  shows "tr_chunksRecv r = chunk_total content"
proof -
  have "fst ` set (tr_chunks r) = {0..<chunk_total content}"
    using assms by (force simp: holds_slices_def dom_map_of_conv_image_fst [symmetric] dom_def)
  moreover have "length (tr_chunks r) = card (fst ` set (tr_chunks r))"
    using assms(1) by (metis distinct_card goMap_def holds_slices_def length_map list.set_map)
  ultimately show ?thesis
    using assms(1) chunk_total_covers(1) [of content] by (simp add: holds_slices_def)
qed

subsection \<open>The two ends of a transfer\<close>

text \<open>One chunk on its way: read by index, encoded for the wire, decoded and stored.\<close>

definition arrive :: "gotime \<Rightarrow> string option \<Rightarrow> Transfer \<Rightarrow> int \<Rightarrow> Transfer \<Rightarrow> Transfer" where
  "arrive now source t i r =
     (case ReadChunkAt source i t of
        Inl e \<Rightarrow> r
      | Inr c \<Rightarrow> (case DecodeChunk (EncodeChunk c) of None \<Rightarrow> r | Some d \<Rightarrow> snd (WriteChunk now i d r)))"

lemma CreateSend_fields:
  assumes "CreateSendTransfer P (Opened content) t0 t1 t2 path peer m = (Inr t, m')"
  shows "tr_Direction t = ''send''" "tr_ChunkTotal t = chunk_total content"
    "tr_FileSize t = int (length content)" "tr_chunksSent t = 0"
    "tr_file t = Some \<lparr>fh_data = content, fh_pos = 0, fh_closed = False\<rparr>"
  using assms by (auto simp: CreateSendTransfer_def chunk_total_def Let_def)

lemma arrive_slice:
  assumes "tr_Direction t = ''send''" and "tr_ChunkTotal t = chunk_total content"
    and "0 \<le> i" and "i < chunk_total content"
  shows "arrive now (Some content) t i r = snd (WriteChunk now i (slice content (nat i)) r)"
  using assms by (simp add: arrive_def ReadChunkAt_def slice_def EncodeChunk_def DecodeChunk_def)

lemma arrive_run:
  assumes "tr_Direction t = ''send''" and "tr_ChunkTotal t = chunk_total content"
    and "set idxs \<subseteq> {0..<chunk_total content}" and "holds_slices content r"
  shows "holds_slices content (fold (arrive now (Some content) t) idxs r)"
    "haskey (tr_chunks (fold (arrive now (Some content) t) idxs r)) j \<longleftrightarrow> j \<in> set idxs \<or> haskey (tr_chunks r) j"
proof -
  have "holds_slices content (fold (arrive now (Some content) t) idxs r) \<and>
    (haskey (tr_chunks (fold (arrive now (Some content) t) idxs r)) j \<longleftrightarrow> j \<in> set idxs \<or> haskey (tr_chunks r) j)"
    using assms(3,4)
  proof (induction idxs arbitrary: r)
    case (Cons i idxs)
    then have i: "0 \<le> i" "i < chunk_total content" by auto
    note w = WriteChunk_slice [OF Cons.prems(2) i]
    show ?case
      using Cons.IH [OF _ w(1) [of now]] Cons.prems(1) w(2) [of now "slice content (nat i)" j]
      by (auto simp: arrive_slice [OF assms(1,2) i])
  qed simp
  then show "holds_slices content (fold (arrive now (Some content) t) idxs r)"
    "haskey (tr_chunks (fold (arrive now (Some content) t) idxs r)) j \<longleftrightarrow> j \<in> set idxs \<or> haskey (tr_chunks r) j"
    by auto
qed

lemma held_slice:
  assumes "holds_slices content r" and "\<And>i. 0 \<le> i \<Longrightarrow> i < chunk_total content \<Longrightarrow> haskey (tr_chunks r) i"
    and "j < nat (chunk_total content)"
  shows "map_of (tr_chunks r) (int j) = Some (slice content j)"
proof -
  have "int j < chunk_total content" using assms(3) by linarith
  then obtain c where c: "map_of (tr_chunks r) (int j) = Some c" using assms(2) [of "int j"] by auto
  moreover have "c = slice content (nat (int j))" using assms(1) c unfolding holds_slices_def by blast
  ultimately show ?thesis by simp
qed

lemma those_Some: "those (map (\<lambda>x. Some (f x)) xs) = Some (map f xs)"
  by (induction xs) simp_all

lemma joined_slices:
  assumes "holds_slices content r" and "\<And>i. 0 \<le> i \<Longrightarrow> i < chunk_total content \<Longrightarrow> haskey (tr_chunks r) i"
  shows "map_option concat (those (map (\<lambda>i. map_of (tr_chunks r) (int i)) [0..<nat (tr_ChunkTotal r)])) = Some content"
proof -
  have "map (\<lambda>i. map_of (tr_chunks r) (int i)) [0..<nat (tr_ChunkTotal r)] =
      map (\<lambda>i. Some (slice content i)) [0..<nat (chunk_total content)]"
    using held_slice [OF assms] assms(1) by (auto simp: holds_slices_def)
  then show ?thesis by (simp add: those_Some concat_chunks)
qed

lemma save_rest_slices:
  assumes "holds_slices content r" and "\<And>i. 0 \<le> i \<Longrightarrow> i < chunk_total content \<Longrightarrow> haskey (tr_chunks r) i"
    and "io_mkdir s" "io_create s" "io_write s"
  shows "\<exists>p. p \<notin> set (io_existing s) \<and>
    save_rest s mgr r = Returns (Inr (p, content), r\<lparr>tr_Status := ''completed''\<rparr>)"
proof -
  have "write_chunks True (tr_chunks r) 0 (nat (chunk_total content)) = Inr content"
    using write_chunks_all [where i = 0 and n = "nat (chunk_total content)" and cs = "tr_chunks r" and f = "slice content"]
      held_slice [OF assms(1,2)] concat_chunks by simp
  moreover obtain p where "save_path (io_existing s) (mg_saveDir mgr) (tr_FileName r) = Some p" "p \<notin> set (io_existing s)"
    using save_path_fresh by blast
  ultimately show ?thesis using assms by (auto simp: save_rest_def holds_slices_def)
qed

text \<open>The transfer after \<open>k\<close> sequential reads.\<close>

definition after_reads :: "gotime \<Rightarrow> nat \<Rightarrow> Transfer \<Rightarrow> Transfer" where
  "after_reads now k = (\<lambda>t. case ReadChunk now t of Returns (r, t') \<Rightarrow> t' | _ \<Rightarrow> t) ^^ k"

definition reading :: "string \<Rightarrow> nat \<Rightarrow> Transfer \<Rightarrow> bool" where
  "reading content k t \<longleftrightarrow> tr_Direction t = ''send'' \<and> tr_ChunkTotal t = chunk_total content \<and>
     tr_chunksSent t = int k \<and>
     (\<exists>h. tr_file t = Some h \<and> fh_data h = content \<and> fh_pos h = min (k * ChunkSize) (length content) \<and>
        (int k < chunk_total content \<longrightarrow> \<not> fh_closed h))"

lemma drop_min: "drop (min n (length xs)) xs = drop n xs"
  by (cases "n \<le> length xs") (simp_all add: min_def)

lemma reading_step:
  assumes "reading content k t" and "int k < chunk_total content"
  shows "\<exists>t'. ReadChunk now t = Returns ((Inr (slice content k), int k), t') \<and> reading content (Suc k) t'"
proof -
  obtain h where h: "tr_file t = Some h" "fh_data h = content" "fh_pos h = min (k * ChunkSize) (length content)"
    "\<not> fh_closed h"
    using assms by (auto simp: reading_def)
  have "min (k * ChunkSize) (length content) + length (slice content k) = min (Suc k * ChunkSize) (length content)"
    by (auto simp: slice_def min_def)
  then show ?thesis
    using assms h by (auto simp: ReadChunk_def reading_def slice_def [symmetric] drop_min Let_def)
qed

subsection \<open>Properties\<close>

lemma transfer_arrives:
  fixes now u1 u2 :: gotime and tid name from_jid :: string
  assumes "CreateSendTransfer P (Opened content) t0 t1 t2 path peer m = (Inr t, m')"
    and "set idxs = {0..<tr_ChunkTotal t}"
  defines "r \<equiv> fold (arrive now (Some content) t) idxs
                   (new_receive u1 u2 tid name from_jid (tr_FileSize t) (tr_ChunkTotal t))"
  shows "holds_slices content r" "\<And>i. 0 \<le> i \<Longrightarrow> i < chunk_total content \<Longrightarrow> haskey (tr_chunks r) i"
    "MissingChunks r = []" "IsComplete Unlocked r = Returns True"
proof -
  note t = CreateSend_fields [OF assms(1)]
  define r0 where "r0 = new_receive u1 u2 tid name from_jid (tr_FileSize t) (tr_ChunkTotal t)"
  have r_eq: "r = fold (arrive now (Some content) t) idxs r0" by (simp add: r_def r0_def)
  have r0: "holds_slices content r0" by (simp add: r0_def holds_slices_def new_receive_def t)
  have sub: "set idxs \<subseteq> {0..<chunk_total content}" using assms(2) t by simp
  show hs: "holds_slices content r" unfolding r_eq by (rule arrive_run(1) [OF t(1,2) sub r0])
  show keys: "\<And>i. 0 \<le> i \<Longrightarrow> i < chunk_total content \<Longrightarrow> haskey (tr_chunks r) i"
    using arrive_run(2) [OF t(1,2) sub r0] assms(2) t(2) by (auto simp: r_eq)
  show "MissingChunks r = []"
    using hs keys by (auto simp: MissingChunks_def holds_slices_def filter_empty_conv)
  show "IsComplete Unlocked r = Returns True"
    using complete_count [OF hs keys] hs by (simp add: IsComplete_def RLock_def holds_slices_def)
qed

text \<open>
  C27. A file arrives as it was sent, and is never saved. Whatever the order in which the chunks of a send transfer arrive
  and however often each is repeated, once every index has arrived nothing is missing, the transfer
  counts as complete, and the chunks it holds, joined by index, are exactly the bytes of the file. \<open>SaveFile\<close>, which
  should write them, takes the lock of the transfer and asks for it again in \<open>IsComplete\<close>: the call never returns, for this transfer too.
\<close>

theorem transfer_reassembles:
  assumes "CreateSendTransfer P (Opened content) t0 t1 t2 path peer m = (Inr t, m')"
    and "set idxs = {0..<tr_ChunkTotal t}"
  shows "let r = fold (arrive now (Some content) t) idxs
                   (new_receive u1 u2 tid name from_jid (tr_FileSize t) (tr_ChunkTotal t))
         in MissingChunks r = [] \<and> IsComplete Unlocked r = Returns True \<and>
            map_option concat (those (map (\<lambda>i. map_of (tr_chunks r) (int i)) [0..<nat (tr_ChunkTotal r)])) = Some content \<and>
            SaveFile s mgr r = Blocks"
proof -
  define r where "r = fold (arrive now (Some content) t) idxs
                   (new_receive u1 u2 tid name from_jid (tr_FileSize t) (tr_ChunkTotal t))"
  note arr = transfer_arrives [OF assms, where now = now and ?u1.0 = u1 and ?u2.0 = u2 and tid = tid and name = name and from_jid = from_jid, folded r_def]
  have "SaveFile s mgr r = Blocks"
    using arr(1) by (simp add: SaveFile_def IsComplete_def RLock_def holds_slices_def)
  then show ?thesis using arr(3,4) joined_slices [OF arr(1,2)] by (simp add: r_def [symmetric] Let_def)
qed

text \<open>
  The part of \<open>SaveFile\<close> behind the locked test, which the program never reaches: it would write exactly the bytes of
  the file, to a path that did not exist before; the search for a free name ends.
\<close>

theorem unreached_save_writes_file:
  assumes "CreateSendTransfer P (Opened content) t0 t1 t2 path peer m = (Inr t, m')"
    and "set idxs = {0..<tr_ChunkTotal t}"
    and "io_mkdir s" and "io_create s" and "io_write s"
  shows "let r = fold (arrive now (Some content) t) idxs
                   (new_receive u1 u2 tid name from_jid (tr_FileSize t) (tr_ChunkTotal t))
         in \<exists>p. p \<notin> set (io_existing s) \<and>
              save_rest s mgr r = Returns (Inr (p, content), r\<lparr>tr_Status := ''completed''\<rparr>)"
  unfolding Let_def by (rule save_rest_slices [OF transfer_arrives(1,2) [OF assms(1,2)] assms(3-5)])

text \<open>
  The sequential reader and the random access used for resending agree: the \<open>k\<close>-th \<open>ReadChunk\<close>
  returns index \<open>k\<close> with the very chunk \<open>ReadChunkAt\<close> gives, and after the last one the end of the file.
\<close>

theorem sequential_reads_agree:
  assumes "CreateSendTransfer P (Opened content) t0 t1 t2 path peer m = (Inr t, m')"
  shows "(\<forall>k<nat (tr_ChunkTotal t). \<exists>c t'. ReadChunk now (after_reads now k t) = Returns ((Inr c, int k), t') \<and>
            ReadChunkAt (Some content) (int k) t = Inr c) \<and>
     fst (case ReadChunk now (after_reads now (nat (tr_ChunkTotal t)) t) of Returns r \<Rightarrow> fst r) = Inl EndOfFile"
proof -
  note t = CreateSend_fields [OF assms]
  have r: "reading content k (after_reads now k t)" if "k \<le> nat (chunk_total content)" for k
    using that
  proof (induction k)
    case 0
    then show ?case by (simp add: after_reads_def reading_def t)
  next
    case (Suc k)
    then have "reading content k (after_reads now k t)" "int k < chunk_total content" by auto
    from reading_step [OF this, of now] show ?case by (auto simp: after_reads_def)
  qed
  have "fst (case ReadChunk now (after_reads now (nat (chunk_total content)) t) of Returns r \<Rightarrow> fst r) = Inl EndOfFile"
    using r [of "nat (chunk_total content)"] chunk_total_covers(1) [of content]
    by (auto simp: reading_def ReadChunk_def)
  moreover have "\<exists>c t'. ReadChunk now (after_reads now k t) = Returns ((Inr c, int k), t') \<and>
      ReadChunkAt (Some content) (int k) t = Inr c" if "k < nat (chunk_total content)" for k
    using reading_step [OF r, of k now] that by (auto simp: ReadChunkAt_def t slice_def)
  ultimately show ?thesis by (simp add: t(2))
qed

text \<open>
  No received file is ever saved: \<open>SaveFile\<close> takes the transfer's lock and then asks for it again
  in \<open>IsComplete\<close>, so for every received transfer, complete or not, the call never returns.
\<close>

theorem save_file_deadlocks:
  assumes "tr_Direction t = ''receive''"
  shows "SaveFile s m t = Blocks"
  using assms by (simp add: SaveFile_def IsComplete_def RLock_def)

text \<open>
  Chunk indices are not checked on arrival: one chunk with an index outside the file makes a
  one-chunk transfer count as complete while its only chunk is still missing, and saving it fails.
\<close>

theorem out_of_range_chunk_completes:
  assumes "i \<noteq> 0" and "io_mkdir s" and "io_create s"
  shows "let r = snd (WriteChunk now i data (new_receive u1 u2 tid name from_jid fsize 1))
         in IsComplete Unlocked r = Returns True \<and> MissingChunks r = [0] \<and>
            save_rest s mgr r = Returns (Inl (MissingChunk 0), r)"
proof -
  obtain p where "save_path (io_existing s) (mg_saveDir mgr) name = Some p" using save_path_fresh by blast
  then show ?thesis
    using assms by (simp add: WriteChunk_def new_receive_def IsComplete_def RLock_def MissingChunks_def save_rest_def)
qed

subsection \<open>Resuming from a checkpoint\<close>

lemma restore_encoded:
  assumes "list_all (\<lambda>(k, v). - (2 ^ 63) \<le> k \<and> k < 2 ^ 63) cs"
  shows "map_of (tr_chunks (restore_chunks (encode_chunks cs) t)) = map_of (tr_chunks t) ++ map_of (rev cs) \<and>
     tr_chunksRecv (restore_chunks (encode_chunks cs) t) = tr_chunksRecv t + int (length cs) \<and>
     tr_Direction (restore_chunks (encode_chunks cs) t) = tr_Direction t \<and>
     tr_ChunkTotal (restore_chunks (encode_chunks cs) t) = tr_ChunkTotal t \<and>
     tr_FileName (restore_chunks (encode_chunks cs) t) = tr_FileName t"
  using assms
proof (induction cs arbitrary: t)
  case (Cons kv cs)
  obtain k v where kv: "kv = (k, v)" by force
  then have "restore_chunks (encode_chunks (kv # cs)) t =
    restore_chunks (encode_chunks cs) (t\<lparr>tr_chunks := AList.update k v (tr_chunks t),
       tr_chunksRecv := tr_chunksRecv t + 1, tr_BytesSent := tr_BytesSent t + int (length v)\<rparr>)"
    using Cons.prems by (simp add: encode_chunks_def Atoi_Itoa EncodeChunk_def DecodeChunk_def)
  then show ?case using Cons.IH Cons.prems kv by (simp add: map_add_assoc)
qed (simp add: encode_chunks_def)

definition checkpointable :: "Transfer \<Rightarrow> bool" where
  "checkpointable t \<longleftrightarrow> tr_Direction t = ''receive'' \<and> goMap (tr_chunks t) \<and>
     tr_chunksRecv t = int (length (tr_chunks t)) \<and>
     list_all (\<lambda>(k, v). - (2 ^ 63) \<le> k \<and> k < 2 ^ 63) (tr_chunks t)"

text \<open>
  A checkpoint loses nothing: when both files are written, restoring the transfer (in any later
  session with the same files) gives the chunks received so far, so that exactly the chunks missing
  before are missing after, and the count that decides completeness is the same.
\<close>

theorem checkpoint_round_trip:
  assumes "checkpointable t" and "Checkpoint Written Written t m = (ok, m')"
  shows "ok \<and> (\<exists>t' m''. RestorePartial u1 u2 (tr_ID t) (m'\<lparr>mg_transfers := other\<rparr>) = (Some t', m'') \<and>
     GetTransfer (tr_ID t) m'' = Some t' \<and>
     map_of (tr_chunks t') = map_of (tr_chunks t) \<and> MissingChunks t' = MissingChunks t \<and>
     IsComplete Unlocked t' = IsComplete Unlocked t \<and> tr_FileName t' = tr_FileName t)"
proof -
  have "map_of (rev (tr_chunks t)) = map_of (tr_chunks t)"
    using assms(1) by (intro map_of_inject_set [THEN iffD2]) (auto simp: checkpointable_def goMap_def simp flip: rev_map)
  then have rest: "map_of (tr_chunks t') = map_of (tr_chunks t) \<and> tr_chunksRecv t' = tr_chunksRecv t \<and>
      tr_Direction t' = tr_Direction t \<and> tr_ChunkTotal t' = tr_ChunkTotal t \<and> tr_FileName t' = tr_FileName t"
    if "t' = restore_chunks (encode_chunks (tr_chunks t))
          (new_receive u1 u2 (tr_ID t) (tr_FileName t) (tr_PeerJID t) (tr_FileSize t) (tr_ChunkTotal t))" for t'
    using restore_encoded [of "tr_chunks t"] assms(1) by (simp add: that checkpointable_def new_receive_def)
  obtain t' m'' where "RestorePartial u1 u2 (tr_ID t) (m'\<lparr>mg_transfers := other\<rparr>) = (Some t', m'')"
    "GetTransfer (tr_ID t) m'' = Some t'" "t' = restore_chunks (encode_chunks (tr_chunks t))
          (new_receive u1 u2 (tr_ID t) (tr_FileName t) (tr_PeerJID t) (tr_FileSize t) (tr_ChunkTotal t))" "ok"
    using assms by (auto simp: Checkpoint_def checkpointable_def put_file_def RestorePartial_def GetTransfer_def
        Let_def meta_path_def chunk_path_def)
  then show ?thesis using rest [of t'] by (auto simp: MissingChunks_def IsComplete_def)
qed

subsection \<open>Witnesses\<close>

definition good_io :: save_io where
  "good_io = \<lparr>io_mkdir = True, io_existing = [''/d/a.txt''], io_create = True, io_write = True\<rparr>"

definition small_send :: Transfer where
  "small_send = (case fst (CreateSendTransfer toy (Opened ''hello'') 1 2 3 ''/tmp/a.txt'' ''bob'' (NewManager None)) of Inr t \<Rightarrow> t)"

lemma small_send_created:
  "\<exists>m'. CreateSendTransfer toy (Opened ''hello'') 1 2 3 ''/tmp/a.txt'' ''bob'' (NewManager None) = (Inr small_send, m')"
  by (simp add: small_send_def CreateSendTransfer_def Let_def)

lemma small_send_total: "tr_ChunkTotal small_send = 1"
  by (simp add: small_send_def CreateSendTransfer_def Let_def)

theorem transfer_reassembles_witness:
  "let r = fold (arrive 9 (Some ''hello'') small_send) [0, 0]
             (new_receive 4 5 ''id'' ''a.txt'' ''ann'' (tr_FileSize small_send) (tr_ChunkTotal small_send))
   in MissingChunks r = [] \<and> IsComplete Unlocked r = Returns True \<and>
      map_option concat (those (map (\<lambda>i. map_of (tr_chunks r) (int i)) [0..<nat (tr_ChunkTotal r)])) = Some ''hello'' \<and>
      SaveFile good_io (NewManager None) r = Blocks"
proof -
  obtain m' where "CreateSendTransfer toy (Opened ''hello'') 1 2 3 ''/tmp/a.txt'' ''bob'' (NewManager None) = (Inr small_send, m')"
    using small_send_created by blast
  then show ?thesis
    by (rule transfer_reassembles) (auto simp: small_send_total)
qed

theorem unreached_save_writes_file_witness:
  "let r = fold (arrive 9 (Some ''hello'') small_send) [0]
             (new_receive 4 5 ''id'' ''a.txt'' ''ann'' (tr_FileSize small_send) (tr_ChunkTotal small_send))
   in \<exists>p. p \<notin> set (io_existing good_io) \<and>
        save_rest good_io (NewManager None) r = Returns (Inr (p, ''hello''), r\<lparr>tr_Status := ''completed''\<rparr>)"
proof -
  obtain m' where "CreateSendTransfer toy (Opened ''hello'') 1 2 3 ''/tmp/a.txt'' ''bob'' (NewManager None) = (Inr small_send, m')"
    using small_send_created by blast
  then show ?thesis
    by (rule unreached_save_writes_file) (auto simp: small_send_total good_io_def)
qed

theorem sequential_reads_agree_witness:
  "\<exists>c t'. ReadChunk 9 (after_reads 9 0 small_send) = Returns ((Inr c, 0), t') \<and>
     ReadChunkAt (Some ''hello'') 0 small_send = Inr c"
proof -
  obtain m' where "CreateSendTransfer toy (Opened ''hello'') 1 2 3 ''/tmp/a.txt'' ''bob'' (NewManager None) = (Inr small_send, m')"
    using small_send_created by blast
  from sequential_reads_agree [OF this, of 9, THEN conjunct1] show ?thesis by (simp add: small_send_total)
qed

theorem save_file_deadlocks_witness:
  "SaveFile good_io (NewManager None) (new_receive 4 5 ''id'' ''a.txt'' ''ann'' 0 0) = Blocks"
  by (rule save_file_deadlocks) (simp add: new_receive_def)

theorem out_of_range_chunk_completes_witness:
  "let r = snd (WriteChunk 9 7 ''x'' (new_receive 4 5 ''id'' ''a.txt'' ''ann'' 10 1))
   in IsComplete Unlocked r = Returns True \<and> MissingChunks r = [0] \<and>
      save_rest good_io (NewManager None) r = Returns (Inl (MissingChunk 0), r)"
  by (rule out_of_range_chunk_completes) (simp_all add: good_io_def)

theorem checkpoint_round_trip_witness:
  "let t = snd (WriteChunk 9 1 ''x'' (new_receive 4 5 ''id'' ''a.txt'' ''ann'' 10 2));
       m' = snd (Checkpoint Written Written t (NewManager None))
   in \<exists>t' m''. RestorePartial 10 11 (tr_ID t) (m'\<lparr>mg_transfers := []\<rparr>) = (Some t', m'') \<and> MissingChunks t' = [0]"
proof -
  define t where "t = snd (WriteChunk 9 1 ''x'' (new_receive 4 5 ''id'' ''a.txt'' ''ann'' 10 2))"
  have "checkpointable t" "MissingChunks t = [0]"
    by (auto simp: t_def WriteChunk_def new_receive_def checkpointable_def goMap_def MissingChunks_def upt_rec numeral_2_eq_2)
  then show ?thesis
    using checkpoint_round_trip [of t "NewManager None" _ _ 10 11 "[]"] unfolding t_def [symmetric] Let_def
    by (metis prod.collapse)
qed

end
