(* ===== verification/Status_Tracker.thy ===== *)
theory Status_Tracker
  imports Go_Strings Go_Float
begin

text \<open>
  Connection status and retry plan, \<^verbatim>\<open>src/internal/status/status.go\<close>. The callback \<open>OnChange\<close> is
  modelled by whether one is installed and by the list of its calls.
\<close>

type_synonym Phase = string

abbreviation PhaseIdle :: Phase where "PhaseIdle \<equiv> ''idle''"
abbreviation PhaseDiscovering :: Phase where "PhaseDiscovering \<equiv> ''discovering''"
abbreviation PhaseTraversing :: Phase where "PhaseTraversing \<equiv> ''nat-traversal''"
abbreviation PhaseConnecting :: Phase where "PhaseConnecting \<equiv> ''connecting''"
abbreviation PhaseHandshaking :: Phase where "PhaseHandshaking \<equiv> ''handshaking''"
abbreviation PhaseConnected :: Phase where "PhaseConnected \<equiv> ''connected''"
abbreviation PhaseRetrying :: Phase where "PhaseRetrying \<equiv> ''retrying''"
abbreviation PhaseFailed :: Phase where "PhaseFailed \<equiv> ''failed''"

record Tracker =
  tk_phase :: Phase
  tk_detail :: string
  tk_updated :: gotime
  tk_OnChange :: bool
  tk_calls :: "(Phase \<times> string) list"

definition NewTracker :: "gotime \<Rightarrow> Tracker" where
  "NewTracker now = \<lparr>tk_phase = PhaseIdle, tk_detail = '''', tk_updated = now, tk_OnChange = False, tk_calls = []\<rparr>"

definition SetPhase :: "gotime \<Rightarrow> Phase \<Rightarrow> string \<Rightarrow> Tracker \<Rightarrow> Tracker" where
  "SetPhase now phase detail t =
     t\<lparr>tk_phase := phase, tk_detail := detail, tk_updated := now,
       tk_calls := (if tk_OnChange t then tk_calls t @ [(phase, detail)] else tk_calls t)\<rparr>"

definition Snapshot :: "gotime \<Rightarrow> Tracker \<Rightarrow> Phase \<times> string \<times> duration" where
  "Snapshot now t = (tk_phase t, tk_detail t, Sub now (tk_updated t))"

text \<open>\<open>int(age.Seconds())\<close>: the seconds as a float, truncated.\<close>

definition int_seconds :: "duration \<Rightarrow> int" where
  "int_seconds d =
     (let x = f64 (f64 (of_int (go_div d Second)) + f64 (f64 (of_int (go_mod d Second)) / 1000000000))
      in if x < 0 then \<lceil>x\<rceil> else \<lfloor>x\<rfloor>)"

definition TrackerString :: "gotime \<Rightarrow> Tracker \<Rightarrow> string" where
  "TrackerString now t =
     (case Snapshot now t of (phase, detail, age) \<Rightarrow>
        if detail = '''' then ''['' @ phase @ '']''
        else ''['' @ phase @ ''] '' @ detail @ '' ('' @ Itoa (int_seconds age) @ ''s)'')"

text \<open>The cases of \<open>HumanizeError\<close> in order: the fragments looked for and the hint.\<close>

definition hints :: "(string list \<times> string) list" where
  "hints =
    [([''connection refused''], ''Connection refused. Is the peer online and is the port correct? Try /peers to check.''),
     ([''no such host'', ''name resolution'', ''dns''], ''Cannot resolve address. Check the IP/hostname and try again.''),
     ([''timeout'', ''deadline exceeded''], ''Connection timed out. Peer may be offline, behind strict NAT, or firewall-blocked.''),
     ([''network is unreachable''], ''Network unreachable. Check WiFi connection or switch LAN/Internet mode.''),
     ([''stun'', ''no stun response''], ''STUN failed (strict firewall or symmetric NAT). Try LAN mode or a different network.''),
     ([''eof'', ''broken pipe'', ''reset by peer''], ''Peer disconnected unexpectedly. Will retry automatically if auto-reconnect is on.''),
     ([''file not found'', ''no such file''], ''File not found. Check the path and try /send again.''),
     ([''permission''], ''Permission denied. Check file permissions for ~/.korik and the target file.''),
     ([''e2e'', ''handshake''], ''Encryption handshake not ready yet. Wait a moment and retry.'')]"

definition default_hint :: string where
  "default_hint = ''Operation failed. Check connection with /peers, then retry. Use /status for details.''"

definition HumanizeError :: "(string \<Rightarrow> string) \<Rightarrow> string option \<Rightarrow> string" where
  "HumanizeError uni err =
     (case err of
        None \<Rightarrow> ''''
      | Some e \<Rightarrow>
          (case find (\<lambda>h. list_ex (Contains (ToLower uni e)) (fst h)) hints of
             Some h \<Rightarrow> snd h | None \<Rightarrow> default_hint))"

definition RetryPlan :: "int \<Rightarrow> duration" where
  "RetryPlan attempt0 =
     (let attempt = (if attempt0 < 1 then 1 else attempt0)
      in if 6 \<le> attempt then 30 * Second else push_bit (nat (attempt - 1)) Second)"

definition ProgressLine :: "int \<Rightarrow> int \<Rightarrow> string \<Rightarrow> string" where
  "ProgressLine attempt maxAttempts target =
     (let delay = RetryPlan attempt
      in if maxAttempts \<le> 0
         then ''Retrying '' @ target @ '' (attempt '' @ Itoa attempt @ '', next in '' @ Itoa (int_seconds delay) @ ''s)...''
         else ''Retrying '' @ target @ '' (attempt '' @ Itoa attempt @ ''/'' @ Itoa maxAttempts @ '', next in '' @
              Itoa (int_seconds delay) @ ''s)...'')"

subsection \<open>Lemmas\<close>

lemma RetryPlan_cases:
  "RetryPlan a = (if a \<le> 1 then Second else if a = 2 then 2 * Second else if a = 3 then 4 * Second
     else if a = 4 then 8 * Second else if a = 5 then 16 * Second else 30 * Second)"
proof -
  consider "a \<le> 1" | "a = 2" | "a = 3" | "a = 4" | "a = 5" | "6 \<le> a" by linarith
  then show ?thesis by cases (simp_all add: RetryPlan_def Let_def push_bit_eq_mult)
qed

lemma RetryPlan_mono: "a \<le> b \<Longrightarrow> RetryPlan a \<le> RetryPlan b"
  by (simp add: RetryPlan_cases)

lemma RetryPlan_bounds: "Second \<le> RetryPlan a" "RetryPlan a \<le> 30 * Second"
  by (simp_all add: RetryPlan_cases)

text \<open>Whatever the error says, only one of ten fixed texts is shown.\<close>

lemma HumanizeError_fixed:
  "HumanizeError uni (Some e) \<in> insert default_hint (snd ` set hints)"
  by (auto simp: HumanizeError_def find_Some_iff split: option.splits) (metis image_eqI nth_mem snd_conv)

subsection \<open>Properties\<close>

text \<open>
  The waiting time before a retry grows with the attempt number, doubling from one second and never
  exceeding thirty; and whatever a low-level error says, the user is shown one of ten fixed texts, so that no
  address or path of the error is exposed.
\<close>

theorem retry_and_hints_bounded:
  assumes "a \<le> b"
  shows "RetryPlan a \<le> RetryPlan b \<and> Second \<le> RetryPlan a \<and> RetryPlan b \<le> 30 * Second \<and>
     (1 \<le> a \<and> b = a + 1 \<and> b \<le> 5 \<longrightarrow> RetryPlan b = 2 * RetryPlan a) \<and>
     HumanizeError uni (Some e) \<in> insert default_hint (snd ` set hints)"
  using RetryPlan_mono [OF assms] RetryPlan_bounds HumanizeError_fixed by (auto simp: RetryPlan_cases)

theorem retry_and_hints_bounded_witness:
  "RetryPlan 2 \<le> RetryPlan 3 \<and> RetryPlan 3 = 2 * RetryPlan 2 \<and>
   HumanizeError (\<lambda>s. s) (Some ''dial tcp: Connection Refused'') \<in> insert default_hint (snd ` set hints)"
  using retry_and_hints_bounded [of 2 3 "\<lambda>s. s" "''dial tcp: Connection Refused''"] by simp

end
