(* ===== verification/Node_State.thy ===== *)
theory Node_State
  imports Circuit Dedup Ratelimit Msg_Queue Chat_History Identity_Keys Group_Store Contact_Book
    File_Transfer Status_Tracker
begin

text \<open>
  The state of a node, the messages on the wire and the sending primitives:
  \<^verbatim>\<open>src/internal/peer/message.go\<close> and the first half of \<^verbatim>\<open>src/internal/peer/node.go\<close>.

  \<^item> A \<open>*peerConn\<close> is a number, and \<open>nd_pc\<close> is the store of the objects behind the pointers:
    a connection that was removed from \<open>conns\<close>, or replaced there, is still seen by the goroutine
    that reads from it.
  \<^item> What is written to a connection is appended to \<open>nd_out\<close>; what the callbacks and the console
    are told is appended to \<open>nd_events\<close>; a goroutine that is started is appended to \<open>nd_tasks\<close>
    and run by its own definition. Each method runs without interleaving.
  \<^item> The environment \<open>env\<close> of one call has the primitives, the clock (one reading for the
    call), the random draws, the codecs of the JSON payloads and the answers of the file system.
\<close>

subsection \<open>Messages\<close>

datatype MsgType =
    MsgHello | MsgChat | MsgPing | MsgHeartbeat | MsgTyping | MsgReadReceipt | MsgRekey
  | MsgFileOffer | MsgFileAccept | MsgFileReject | MsgFileChunk | MsgFileComplete | MsgChunkRequest
  | MsgGroupInvite | MsgGroupChat | MsgGroupLeave | MsgSyncRequest | MsgSyncData | MsgUnknown string

record Message =
  m_Type :: MsgType
  m_ID :: string
  m_Seq :: "64 word"
  m_From :: string
  m_JID :: string
  m_LID :: string
  m_DeviceID :: string
  m_PubKey :: string
  m_Body :: string
  m_Timestamp :: gotime
  m_FileName :: string
  m_FileSize :: int
  m_FileID :: string
  m_ChunkIndex :: int
  m_ChunkTotal :: int
  m_ChunkData :: string
  m_MessageID :: string
  m_RekeyPubKey :: string
  m_Missing :: "int list"
  m_GroupID :: string
  m_ReplyTo :: string
  m_Compressed :: bool
  m_SyncSince :: int

text \<open>The zero value of \<open>Message\<close> with a type.\<close>

definition blank :: "MsgType \<Rightarrow> Message" where
  "blank t = \<lparr>m_Type = t, m_ID = '''', m_Seq = 0, m_From = '''', m_JID = '''', m_LID = '''', m_DeviceID = '''',
     m_PubKey = '''', m_Body = '''', m_Timestamp = 0, m_FileName = '''', m_FileSize = 0, m_FileID = '''',
     m_ChunkIndex = 0, m_ChunkTotal = 0, m_ChunkData = '''', m_MessageID = '''', m_RekeyPubKey = '''',
     m_Missing = [], m_GroupID = '''', m_ReplyTo = '''', m_Compressed = False, m_SyncSince = 0\<rparr>"

record groupInvitePayload =
  gi_GroupID :: string
  gi_GroupName :: string
  gi_GroupKey :: string
  gi_Members :: "string list"

subsection \<open>The node\<close>

record peerConn =
  pc_name :: string
  pc_jid :: string
  pc_lid :: string
  pc_deviceID :: string
  pc_addr :: string
  pc_sessionKey :: "string option"
  pc_reconnectAddr :: string
  pc_closed :: bool

datatype event =
    ChatEv string string string string
  | GroupChatEv string string string string string string
  | JoinEv string string string string
  | LeaveEv string string string string
  | TypingEv string string string
  | ReadEv string
  | OfferEv string string string string string int
  | ProgressEv string int
  | SavedEv string string

datatype task =
    SyncTask nat gotime
  | SendFileTask nat string
  | ResendTask nat string "int list"
  | ReadTask nat

record Node =
  nd_Name :: string
  nd_Identity :: Identity
  nd_DeviceID :: string
  nd_conns :: "(string \<times> nat) list"
  nd_pc :: "nat \<Rightarrow> peerConn"
  nd_next :: nat
  nd_History :: "History option"
  nd_Files :: Manager
  nd_Contacts :: "ContactBook option"
  nd_ReadReceipts :: bool
  nd_TypingIndicator :: bool
  nd_AutoReconnect :: bool
  nd_Status :: Tracker
  nd_Queue :: "Queue option"
  nd_Groups :: "Store option"
  nd_Limiter :: "Limiter option"
  nd_Breaker :: "Breaker option"
  nd_stopped :: bool
  nd_lastBeat :: "(string \<times> gotime) list"
  nd_lastRekey :: "(string \<times> gotime) list"
  nd_rekeySlots :: "(string \<times> string) list"
  nd_typing :: "(string \<times> gotime) list"
  nd_seen :: "Seen option"
  nd_seq :: "64 word"
  nd_draws :: nat
  nd_out :: "(nat \<times> Message) list"
  nd_events :: "event list"
  nd_tasks :: "task list"

record env =
  en_P :: primitives
  en_now :: gotime
  en_rand :: "nat \<Rightarrow> nat \<Rightarrow> string option"
  en_uni :: "string \<Rightarrow> string"
  en_fmt :: "gotime \<Rightarrow> string"
  en_invite :: "groupInvitePayload \<Rightarrow> string"
  en_uninvite :: "string \<Rightarrow> groupInvitePayload option"
  en_qw :: "OutgoingMessage list saving"
  en_hw :: "ChatMessage list saving"
  en_cw :: "Contact option list saving"
  en_gw :: "Room option list saving"
  en_mw :: "meta saving"
  en_chw :: "(string \<times> string) list saving"
  en_io :: save_io
  en_open :: "string \<Rightarrow> opened"

definition NewNode :: "gotime \<Rightarrow> string option \<Rightarrow> string \<Rightarrow> Identity \<Rightarrow> Node" where
  "NewNode now home name i =
     \<lparr>nd_Name = name, nd_Identity = i, nd_DeviceID = '''', nd_conns = [],
      nd_pc = (\<lambda>_. \<lparr>pc_name = '''', pc_jid = '''', pc_lid = '''', pc_deviceID = '''', pc_addr = '''',
                     pc_sessionKey = None, pc_reconnectAddr = '''', pc_closed = False\<rparr>),
      nd_next = 0, nd_History = None, nd_Files = NewManager home, nd_Contacts = None,
      nd_ReadReceipts = False, nd_TypingIndicator = True, nd_AutoReconnect = True,
      nd_Status = NewTracker now, nd_Queue = None, nd_Groups = None,
      nd_Limiter = Some (NewLimiter 20 40), nd_Breaker = Some (NewBreaker 5 Minute),
      nd_stopped = False, nd_lastBeat = [], nd_lastRekey = [], nd_rekeySlots = [], nd_typing = [],
      nd_seen = Some (NewSeen 10000 Hour), nd_seq = 0, nd_draws = 0, nd_out = [], nd_events = [],
      nd_tasks = []\<rparr>"

subsection \<open>Small updates\<close>

definition draw :: "env \<Rightarrow> nat \<Rightarrow> Node \<Rightarrow> string option \<times> Node" where
  "draw E k n = (en_rand E (nd_draws n) k, n\<lparr>nd_draws := nd_draws n + 1\<rparr>)"

definition emit :: "event \<Rightarrow> Node \<Rightarrow> Node" where
  "emit ev n = n\<lparr>nd_events := nd_events n @ [ev]\<rparr>"

definition spawn :: "task \<Rightarrow> Node \<Rightarrow> Node" where
  "spawn t n = n\<lparr>nd_tasks := nd_tasks n @ [t]\<rparr>"

definition set_pc :: "nat \<Rightarrow> peerConn \<Rightarrow> Node \<Rightarrow> Node" where
  "set_pc c pc n = n\<lparr>nd_pc := (nd_pc n)(c := pc)\<rparr>"

definition status_set :: "env \<Rightarrow> Phase \<Rightarrow> string \<Rightarrow> Node \<Rightarrow> Node" where
  "status_set E ph d n = n\<lparr>nd_Status := SetPhase (en_now E) ph d (nd_Status n)\<rparr>"

definition history_add :: "env \<Rightarrow> ChatMessage \<Rightarrow> Node \<Rightarrow> Node" where
  "history_add E m n =
     n\<lparr>nd_History := map_option (\<lambda>h. snd (HistoryAdd (en_hw E) (en_now E) (en_now E) m h)) (nd_History n)\<rparr>"

definition blocked :: "string \<Rightarrow> Node \<Rightarrow> bool" where
  "blocked jid n = (case nd_Contacts n of None \<Rightarrow> False | Some cb \<Rightarrow> IsBlocked jid cb)"

abbreviation JID_of :: "Node \<Rightarrow> string" where "JID_of n \<equiv> id_JID (nd_Identity n)"
abbreviation LID_of :: "Node \<Rightarrow> string" where "LID_of n \<equiv> id_LID (nd_Identity n)"

text \<open>A message of the given type from this node.\<close>

definition from_me :: "MsgType \<Rightarrow> Node \<Rightarrow> Message" where
  "from_me t n = (blank t)\<lparr>m_From := nd_Name n, m_JID := JID_of n, m_LID := LID_of n\<rparr>"

subsection \<open>Envelopes\<close>

definition envelope_id :: "string \<Rightarrow> string \<Rightarrow> 64 word \<Rightarrow> gotime \<Rightarrow> string \<Rightarrow> string" where
  "envelope_id jid device sq now sfx =
     jid @ ''|'' @ device @ ''|'' @ nat_digits (unat sq) @ ''|'' @ Itoa (UnixNano now) @ ''|'' @ EncodeToString sfx"

definition nextEnvelopeID :: "env \<Rightarrow> Node \<Rightarrow> (string \<times> 64 word) \<times> Node" where
  "nextEnvelopeID E n0 =
     (let sq = nd_seq n0 + 1;
          (r, n) = draw E 4 (n0\<lparr>nd_seq := sq\<rparr>);
          sfx = (case r of None \<Rightarrow> replicate 4 (CHR 0x00) | Some s \<Rightarrow> s);
          device = (if nd_DeviceID n = '''' then ''cli'' else nd_DeviceID n)
      in ((envelope_id (JID_of n) device sq (en_now E) sfx, sq), n))"

definition msgIDOnly :: "string \<Rightarrow> string" where "msgIDOnly mid = mid"

definition sendRaw :: "env \<Rightarrow> nat \<Rightarrow> Message \<Rightarrow> Node \<Rightarrow> Node" where
  "sendRaw E c msg0 n =
     (let msg1 = msg0\<lparr>m_Timestamp := en_now E,
                      m_DeviceID := (if m_DeviceID msg0 = '''' then nd_DeviceID n else m_DeviceID msg0)\<rparr>;
          (msg2, n') =
            (if m_ID msg1 = '''' then
               (case nextEnvelopeID E n of ((mid, sq), n') \<Rightarrow> (msg1\<lparr>m_ID := mid, m_Seq := sq\<rparr>, n'))
             else if m_Seq msg1 = 0 then
               (case nextEnvelopeID E n of ((mid, sq), n') \<Rightarrow>
                  (msg1\<lparr>m_Seq := sq, m_ID := msgIDOnly (m_ID msg1)\<rparr>, n'))
             else (msg1, n))
      in n'\<lparr>nd_out := nd_out n' @ [(c, msg2)]\<rparr>)"

subsection \<open>Encrypted sending\<close>

datatype send_error = NotConnected string | NotReady | EncryptFailed

definition encryptForSend :: "env \<Rightarrow> string \<Rightarrow> string \<Rightarrow> Node \<Rightarrow> (string \<times> bool) option \<times> Node" where
  "encryptForSend E key plaintext n0 =
     (case Encode (en_P E) plaintext of (payload, compressed) \<Rightarrow>
        (let (nonce, n) = draw E NonceSize n0
         in case Encrypt (en_P E) nonce key payload of
              None \<Rightarrow> (None, n) | Some ct \<Rightarrow> (Some (ct, compressed), n)))"

definition conn_of_jid :: "string \<Rightarrow> Node \<Rightarrow> nat option" where
  "conn_of_jid jid n = map_option snd (find (\<lambda>e. pc_jid (nd_pc n (snd e)) = jid) (nd_conns n))"

definition SendToWithID :: "env \<Rightarrow> string \<Rightarrow> string \<Rightarrow> string \<Rightarrow> Node \<Rightarrow> send_error option \<times> Node" where
  "SendToWithID E jid text envelopeID n =
     (case conn_of_jid jid n of
        None \<Rightarrow> (Some (NotConnected jid), n)
      | Some c \<Rightarrow>
          (case pc_sessionKey (nd_pc n c) of
             None \<Rightarrow> (Some NotReady, n)
           | Some key \<Rightarrow>
               (case encryptForSend E key text n of
                  (None, n1) \<Rightarrow> (Some EncryptFailed, n1)
                | (Some (ct, compressed), n1) \<Rightarrow>
                    (None, sendRaw E c ((from_me MsgChat n1)\<lparr>m_ID := envelopeID, m_DeviceID := nd_DeviceID n1,
                       m_Body := b64_encode ct, m_Compressed := compressed\<rparr>) n1))))"

definition SendTo :: "env \<Rightarrow> string \<Rightarrow> string \<Rightarrow> Node \<Rightarrow> send_error option \<times> Node" where
  "SendTo E jid text n =
     (case nextEnvelopeID E n of ((mid, sq), n1) \<Rightarrow> SendToWithID E jid text mid n1)"

subsection \<open>The offline queue\<close>

text \<open>The loop over a snapshot of the queue; \<open>mark\<close> is whether the attempt is counted, and \<open>deliver\<close> the
  custom delivery function, which answers whether it succeeded.\<close>

type_synonym delivery = "(string \<Rightarrow> string \<Rightarrow> bool) option"

fun flush_loop :: "env \<Rightarrow> bool \<Rightarrow> delivery \<Rightarrow> string \<Rightarrow> OutgoingMessage list \<Rightarrow> Node \<Rightarrow> int \<Rightarrow> int \<times> Node" where
  "flush_loop E mark deliver jid [] n sent = (sent, n)"
| "flush_loop E mark deliver jid (m # ms) n sent =
     (if om_ToJID m \<noteq> jid then flush_loop E mark deliver jid ms n sent
      else let n1 = (if mark then n\<lparr>nd_Queue := map_option (MarkAttempt (en_qw E) (om_ID m)) (nd_Queue n)\<rparr> else n);
               (err, n2) = SendToWithID E (om_ToJID m) (om_Body m) (om_ID m) n1;
               removed = n2\<lparr>nd_Queue := map_option (\<lambda>q. snd (Remove (en_qw E) (om_ID m) q)) (nd_Queue n2)\<rparr>
           in if err = None then flush_loop E mark deliver jid ms removed (sent + 1)
              else case deliver of
                     None \<Rightarrow> flush_loop E mark deliver jid ms n2 sent
                   | Some dlv \<Rightarrow>
                       if dlv (om_ToJID m) (om_Body m) then flush_loop E mark deliver jid ms removed (sent + 1)
                       else flush_loop E mark deliver jid ms n2 sent)"

definition FlushQueue :: "env \<Rightarrow> delivery \<Rightarrow> string \<Rightarrow> Node \<Rightarrow> int \<times> Node" where
  "FlushQueue E deliver jid n =
     (case nd_Queue n of None \<Rightarrow> (0, n) | Some q \<Rightarrow> flush_loop E True deliver jid (Pending q) n 0)"

text \<open>
  The error of \<open>QueueOrSend\<close>: the one of sending, when there is no queue, or \<^verbatim>\<open>peer offline, message queued for\<close> with
  the JID, whatever the reason was and also when the queue could not be written. \<open>None\<close> is \<^verbatim>\<open>nil\<close>.
\<close>

datatype queue_error = NotSent send_error | OfflineQueued string

definition QueueOrSend :: "env \<Rightarrow> string \<Rightarrow> string \<Rightarrow> Node \<Rightarrow> queue_error option \<times> Node" where
  "QueueOrSend E jid body n0 =
     (case nextEnvelopeID E n0 of ((mid, sq), n1) \<Rightarrow>
        (case SendToWithID E jid body mid n1 of
           (None, n2) \<Rightarrow> (None, n2)
         | (Some e, n2) \<Rightarrow>
             (case nd_Queue n2 of
                None \<Rightarrow> (Some (NotSent e), n2)
              | Some q \<Rightarrow>
                  (Some (OfflineQueued jid), n2\<lparr>nd_Queue := Some (snd (Enqueue (en_fmt E) (en_qw E)
                     \<lparr>om_ID = mid, om_ToJID = jid, om_Body = body, om_CreatedAt = en_now E, om_Attempts = 0\<rparr> q))\<rparr>))))"

end
