(* ===== verification/Node_Handlers.thy ===== *)
theory Node_Handlers
  imports Node_State
begin

text \<open>
  What a node does with a message: \<open>handleMessage\<close> of \<^verbatim>\<open>src/internal/peer/node.go\<close> with one definition per
  message type, the rekeying, and the goroutines the handlers start.
\<close>

definition rateKey :: "peerConn \<Rightarrow> string" where
  "rateKey pc = (if pc_jid pc \<noteq> '''' then ''jid:'' @ pc_jid pc else ''addr:'' @ pc_addr pc)"

definition allowInbound :: "env \<Rightarrow> nat \<Rightarrow> Node \<Rightarrow> bool \<times> Node" where
  "allowInbound E c n =
     (case nd_Limiter n of
        None \<Rightarrow> (True, n)
      | Some l \<Rightarrow>
          (case LimiterAllow (en_now E) (rateKey (nd_pc n c)) l of
             (ok, l') \<Rightarrow> (ok, n\<lparr>nd_Limiter := Some l'\<rparr>)))"

subsection \<open>Deduplication\<close>

fun deduplicated :: "MsgType \<Rightarrow> bool" where
  "deduplicated MsgHello = False"
| "deduplicated MsgPing = False"
| "deduplicated MsgHeartbeat = False"
| "deduplicated MsgTyping = False"
| "deduplicated (MsgUnknown s) = False"
| "deduplicated _ = True"

definition dedup_gate :: "env \<Rightarrow> Message \<Rightarrow> Node \<Rightarrow> bool \<times> Node" where
  "dedup_gate E msg n =
     (if deduplicated (m_Type msg) \<and> m_ID msg \<noteq> '''' then
        (case nd_seen n of
           None \<Rightarrow> (True, n)
         | Some s \<Rightarrow> (case SeenAdd (en_now E) (m_ID msg) s of (fresh, s') \<Rightarrow> (fresh, n\<lparr>nd_seen := Some s'\<rparr>)))
      else (True, n))"

subsection \<open>Hello\<close>

definition hello_contacts :: "env \<Rightarrow> nat \<Rightarrow> Message \<Rightarrow> Node \<Rightarrow> Node" where
  "hello_contacts E c msg n =
     n\<lparr>nd_Contacts := map_option (\<lambda>cb.
         UpdateLastSeen (en_cw E) (en_now E) (m_JID msg) (pc_addr (nd_pc n c))
           (snd (AddContact (en_cw E) (en_now E) (en_now E) (m_JID msg) (m_From msg) cb))) (nd_Contacts n)\<rparr>"

definition isLinkedDevice :: "Message \<Rightarrow> Node \<Rightarrow> bool" where
  "isLinkedDevice msg n \<longleftrightarrow> m_JID msg = JID_of n \<and> m_DeviceID msg \<noteq> '''' \<and> m_DeviceID msg \<noteq> nd_DeviceID n"

definition prevSeen :: "Message \<Rightarrow> Node \<Rightarrow> gotime" where
  "prevSeen msg n =
     (case nd_Contacts n of
        None \<Rightarrow> 0
      | Some cb \<Rightarrow> (case GetContact (m_JID msg) cb of None \<Rightarrow> 0 | Some ct \<Rightarrow> ct_LastSeen ct))"

text \<open>What follows the first hello of a connection, after the session key was stored.\<close>

definition joined :: "env \<Rightarrow> nat \<Rightarrow> Message \<Rightarrow> Node \<Rightarrow> Node" where
  "joined E c msg n0 =
     (let pc = nd_pc n0 c;
          n1 = n0\<lparr>nd_Breaker := map_option (RecordSuccess (pc_addr pc)) (nd_Breaker n0),
                  nd_Limiter := map_option (LimiterReset (rateKey pc)) (nd_Limiter n0)\<rparr>;
          prev = prevSeen msg n1;
          n2 = (if isLinkedDevice msg n1 then n1 else hello_contacts E c msg n1);
          n3 = emit (JoinEv (m_LID msg) (m_JID msg) (m_From msg) (pc_addr pc))
                 (status_set E PhaseConnected (''e2e ready '' @ pc_addr pc) n2);
          n4 = (case nd_Queue n3 of
                  None \<Rightarrow> n3 | Some q \<Rightarrow> snd (flush_loop E False None (m_JID msg) (Pending q) n3 0))
      in if \<not> IsZero prev then spawn (SyncTask c prev) n4 else n4)"

definition handle_hello :: "env \<Rightarrow> nat \<Rightarrow> Message \<Rightarrow> Node \<Rightarrow> Node" where
  "handle_hello E c msg n =
     (case ParsePeerPublicKey (m_PubKey msg) of
        None \<Rightarrow> n
      | Some theirPub \<Rightarrow>
          if JIDFromPublicKeyHex (m_PubKey msg) \<noteq> m_JID msg
          then set_pc c ((nd_pc n c)\<lparr>pc_closed := True\<rparr>) n
          else case DeriveSessionKey (en_P E) (id_rawPriv (nd_Identity n)) theirPub of
            None \<Rightarrow> n
          | Some key \<Rightarrow>
              (let pc = nd_pc n c;
                   alreadyJoined = (pc_sessionKey pc \<noteq> None);
                   n1 = set_pc c (pc\<lparr>pc_name := m_From msg, pc_jid := m_JID msg, pc_lid := m_LID msg,
                                     pc_deviceID := m_DeviceID msg, pc_sessionKey := Some key\<rparr>) n
               in if alreadyJoined then n1 else joined E c msg n1))"

subsection \<open>Chat\<close>

definition open_body :: "env \<Rightarrow> string \<Rightarrow> Message \<Rightarrow> string option" where
  "open_body E key msg =
     (case b64_decode (m_Body msg) of
        None \<Rightarrow> None
      | Some raw \<Rightarrow>
          (case Decrypt (en_P E) key raw of
             None \<Rightarrow> None
           | Some plain \<Rightarrow> (case Decode (en_P E) plain (m_Compressed msg) of Inl e \<Rightarrow> None | Inr text \<Rightarrow> Some text)))"

definition received :: "env \<Rightarrow> nat \<Rightarrow> Message \<Rightarrow> string \<Rightarrow> string \<Rightarrow> Node \<Rightarrow> ChatMessage" where
  "received E c msg gid text n =
     (let pc = nd_pc n c in
      \<lparr>cm_ID = m_ID msg, cm_From = pc_name pc, cm_JID = pc_jid pc, cm_LID = pc_lid pc,
       cm_SenderDevice = m_DeviceID msg, cm_Seq = m_Seq msg, cm_GroupID = gid, cm_ReplyTo = m_ReplyTo msg,
       cm_Body = text, cm_Timestamp = en_now E, cm_Direction = ''received'', cm_ExpiresAt = 0\<rparr>)"

definition count_message :: "env \<Rightarrow> string \<Rightarrow> Node \<Rightarrow> Node" where
  "count_message E jid n =
     n\<lparr>nd_Contacts := map_option (IncrementMessageCount (en_cw E) jid) (nd_Contacts n)\<rparr>"

definition show_chat :: "nat \<Rightarrow> string \<Rightarrow> Node \<Rightarrow> Node" where
  "show_chat c text n = emit (ChatEv (pc_lid (nd_pc n c)) (pc_jid (nd_pc n c)) (pc_name (nd_pc n c)) text) n"

definition handle_chat :: "env \<Rightarrow> nat \<Rightarrow> Message \<Rightarrow> Node \<Rightarrow> Node" where
  "handle_chat E c msg n0 =
     (let (ok, n) = allowInbound E c n0 in
      if \<not> ok then n
      else case pc_sessionKey (nd_pc n c) of
        None \<Rightarrow> n
      | Some key \<Rightarrow>
          if blocked (pc_jid (nd_pc n c)) n then n
          else case open_body E key msg of
            None \<Rightarrow> n
          | Some text \<Rightarrow>
              history_add E (received E c msg '''' text n)
                (show_chat c text (count_message E (pc_jid (nd_pc n c)) n)))"

subsection \<open>Groups\<close>

definition decryptSessionBody :: "env \<Rightarrow> nat \<Rightarrow> Message \<Rightarrow> Node \<Rightarrow> string option" where
  "decryptSessionBody E c msg n =
     (case pc_sessionKey (nd_pc n c) of None \<Rightarrow> None | Some key \<Rightarrow> open_body E key msg)"

definition handleGroupInvite :: "env \<Rightarrow> nat \<Rightarrow> Message \<Rightarrow> Node \<Rightarrow> Node" where
  "handleGroupInvite E c msg n0 =
     (let (ok, n) = allowInbound E c n0 in
      if \<not> ok then n
      else case nd_Groups n of
        None \<Rightarrow> n
      | Some s \<Rightarrow>
          (case decryptSessionBody E c msg n of
             None \<Rightarrow> n
           | Some plaintext \<Rightarrow>
               (case en_uninvite E plaintext of
                  None \<Rightarrow> n
                | Some inner \<Rightarrow>
                    (case b64_decode (gi_GroupKey inner) of
                       None \<Rightarrow> n
                     | Some key \<Rightarrow>
                         if length key \<noteq> 32 \<or> gi_GroupID inner = '''' then n
                         else let members = (if JID_of n \<in> set (gi_Members inner) then gi_Members inner
                                             else gi_Members inner @ [JID_of n]);
                                  room = \<lparr>rm_ID = gi_GroupID inner, rm_Name = gi_GroupName inner,
                                          rm_Creator = m_JID msg, rm_Key = key, rm_Members = members,
                                          rm_CreatedAt = en_now E\<rparr>
                              in n\<lparr>nd_Groups := Some (snd (AddRoom (en_gw E) (Some room) s))\<rparr>))))"

definition handleGroupChat :: "env \<Rightarrow> nat \<Rightarrow> Message \<Rightarrow> Node \<Rightarrow> Node" where
  "handleGroupChat E c msg n0 =
     (let (ok, n) = allowInbound E c n0; pc = nd_pc n c in
      if \<not> ok then n
      else case nd_Groups n of
        None \<Rightarrow> n
      | Some s \<Rightarrow>
          if m_GroupID msg = '''' then n
          else case GetRoom (m_GroupID msg) s of
            None \<Rightarrow> n
          | Some room \<Rightarrow>
              if \<not> IsMember (m_GroupID msg) (pc_jid pc) s \<or> \<not> IsMember (m_GroupID msg) (JID_of n) s then n
              else case open_body E (rm_Key room) msg of
                None \<Rightarrow> n
              | Some text \<Rightarrow>
                  history_add E (received E c msg (m_GroupID msg) text n)
                    (emit (GroupChatEv (m_GroupID msg) (pc_lid pc) (pc_jid pc) (pc_name pc) text (m_ReplyTo msg))
                      (count_message E (pc_jid pc) n)))"

definition handle_group_leave :: "env \<Rightarrow> nat \<Rightarrow> Message \<Rightarrow> Node \<Rightarrow> Node" where
  "handle_group_leave E c msg n =
     (if m_GroupID msg \<noteq> ''''
      then n\<lparr>nd_Groups := map_option (\<lambda>s. snd (RemoveMember (en_gw E) (m_GroupID msg) (m_JID msg) s)) (nd_Groups n)\<rparr>
      else n)"

subsection \<open>Delta sync\<close>

definition unixTime :: "int \<Rightarrow> gotime" where
  "unixTime s = (s + 62135596800) * Second"

definition UnixSeconds :: "gotime \<Rightarrow> int" where
  "UnixSeconds t = t div Second - 62135596800"

definition sendSyncData :: "env \<Rightarrow> nat \<Rightarrow> string \<Rightarrow> string \<Rightarrow> Node \<Rightarrow> send_error option \<times> Node" where
  "sendSyncData E c body replyTo n =
     (case pc_sessionKey (nd_pc n c) of
        None \<Rightarrow> (Some NotReady, n)
      | Some key \<Rightarrow>
          (case encryptForSend E key body n of
             (None, n1) \<Rightarrow> (Some EncryptFailed, n1)
           | (Some (ct, compressed), n1) \<Rightarrow>
               (None, sendRaw E c ((from_me MsgSyncData n1)\<lparr>m_Body := b64_encode ct, m_ReplyTo := replyTo,
                  m_Compressed := compressed\<rparr>) n1)))"

abbreviation syncable :: "ChatMessage \<Rightarrow> bool" where
  "syncable m \<equiv> cm_Direction m = ''sent'' \<and> cm_GroupID m = ''''"

fun sync_loop :: "env \<Rightarrow> nat \<Rightarrow> ChatMessage list \<Rightarrow> nat \<Rightarrow> Node \<Rightarrow> Node" where
  "sync_loop E c [] sent n = n"
| "sync_loop E c (m # ms) sent n =
     (if \<not> syncable m \<or> 50 \<le> sent then sync_loop E c ms sent n
      else sync_loop E c ms (sent + 1) (snd (sendSyncData E c (cm_Body m) (cm_ReplyTo m) n)))"

definition handleSyncRequest :: "env \<Rightarrow> nat \<Rightarrow> Message \<Rightarrow> Node \<Rightarrow> Node" where
  "handleSyncRequest E c msg n =
     (case nd_History n of
        None \<Rightarrow> n
      | Some h \<Rightarrow> if m_SyncSince msg \<le> 0 then n
                  else sync_loop E c (GetSince (unixTime (m_SyncSince msg)) h) 0 n)"

definition handleSyncData :: "env \<Rightarrow> nat \<Rightarrow> Message \<Rightarrow> Node \<Rightarrow> Node" where
  "handleSyncData E c msg n =
     (case decryptSessionBody E c msg n of
        None \<Rightarrow> n
      | Some text \<Rightarrow> history_add E (received E c msg '''' text n) (show_chat c text n))"

fun missed_loop :: "env \<Rightarrow> nat \<Rightarrow> ChatMessage list \<Rightarrow> nat \<Rightarrow> Node \<Rightarrow> Node" where
  "missed_loop E c [] sent n = n"
| "missed_loop E c (m # ms) sent n =
     (if \<not> syncable m \<or> 50 \<le> sent then missed_loop E c ms sent n
      else case SendTo E (pc_jid (nd_pc n c)) (cm_Body m) n of
             (Some e, n') \<Rightarrow> n'
           | (None, n') \<Rightarrow> missed_loop E c ms (sent + 1) n')"

definition syncMissedTo :: "env \<Rightarrow> nat \<Rightarrow> gotime \<Rightarrow> Node \<Rightarrow> Node" where
  "syncMissedTo E c since n =
     (case nd_History n of
        None \<Rightarrow> n | Some h \<Rightarrow> if IsZero since then n else missed_loop E c (GetSince since h) 0 n)"

text \<open>The goroutine started by the first hello of a peer seen before.\<close>

definition run_sync :: "env \<Rightarrow> nat \<Rightarrow> gotime \<Rightarrow> Node \<Rightarrow> Node" where
  "run_sync E c prev n =
     (let n1 = syncMissedTo E c prev n
      in sendRaw E c ((from_me MsgSyncRequest n1)\<lparr>m_SyncSince := UnixSeconds prev\<rparr>) n1)"

subsection \<open>Heartbeat, typing, receipts\<close>

definition handle_heartbeat :: "env \<Rightarrow> nat \<Rightarrow> Node \<Rightarrow> Node" where
  "handle_heartbeat E c n =
     (let jid = pc_jid (nd_pc n c)
      in if jid \<noteq> '''' then n\<lparr>nd_lastBeat := AList.update jid (en_now E) (nd_lastBeat n)\<rparr> else n)"

definition handle_typing :: "env \<Rightarrow> nat \<Rightarrow> Node \<Rightarrow> Node" where
  "handle_typing E c n =
     (let pc = nd_pc n c
      in if nd_TypingIndicator n
         then emit (TypingEv (pc_lid pc) (pc_jid pc) (pc_name pc))
                (n\<lparr>nd_typing := AList.update (pc_jid pc) (en_now E) (nd_typing n)\<rparr>)
         else n)"

definition handle_read_receipt :: "nat \<Rightarrow> Node \<Rightarrow> Node" where
  "handle_read_receipt c n = (if nd_ReadReceipts n then emit (ReadEv (pc_name (nd_pc n c))) n else n)"

subsection \<open>Rekeying\<close>

definition rekey_message :: "env \<Rightarrow> string \<Rightarrow> Node \<Rightarrow> Message" where
  "rekey_message E eph n =
     (from_me MsgRekey n)\<lparr>m_DeviceID := nd_DeviceID n, m_RekeyPubKey := EncodeToString (x25519_pub (en_P E) eph)\<rparr>"

datatype rekey_error = RekeyNoRandom | NoSession

definition initiateRekey :: "env \<Rightarrow> nat \<Rightarrow> Node \<Rightarrow> rekey_error option \<times> Node" where
  "initiateRekey E c n0 =
     (case draw E 32 n0 of
        (None, n) \<Rightarrow> (Some RekeyNoRandom, n)
      | (Some eph, n) \<Rightarrow>
          (case pc_sessionKey (nd_pc n c) of
             None \<Rightarrow> (Some NoSession, n)
           | Some oldKey \<Rightarrow>
               (let n1 = n\<lparr>nd_rekeySlots := AList.update (pc_addr (nd_pc n c)) eph (nd_rekeySlots n)\<rparr>
                in (None, sendRaw E c (rekey_message E eph n1) n1))))"

text \<open>Both ways of the handler end by mixing the shared secret into the session key.\<close>

definition finish_rekey :: "env \<Rightarrow> nat \<Rightarrow> string \<Rightarrow> string \<Rightarrow> Node \<Rightarrow> Node" where
  "finish_rekey E c oldKey shared n =
     (let pc = nd_pc n c
      in (set_pc c (pc\<lparr>pc_sessionKey := Some (MixKeys (en_P E) oldKey shared)\<rparr>) n)
           \<lparr>nd_lastRekey := AList.update (pc_addr pc) (en_now E) (nd_lastRekey n)\<rparr>)"

definition handle_rekey :: "env \<Rightarrow> nat \<Rightarrow> Message \<Rightarrow> Node \<Rightarrow> Node" where
  "handle_rekey E c msg n0 =
     (case ParsePeerPublicKey (m_RekeyPubKey msg) of
        None \<Rightarrow> n0
      | Some theirPub \<Rightarrow>
          (case pc_sessionKey (nd_pc n0 c) of
             None \<Rightarrow> n0
           | Some oldKey \<Rightarrow>
               (let addr = pc_addr (nd_pc n0 c);
                    slot = map_of (nd_rekeySlots n0) addr;
                    n = n0\<lparr>nd_rekeySlots := AList.delete addr (nd_rekeySlots n0)\<rparr>
                in case slot of
                     Some eph \<Rightarrow>
                       (case x25519 (en_P E) eph theirPub of
                          None \<Rightarrow> n | Some shared \<Rightarrow> finish_rekey E c oldKey shared n)
                   | None \<Rightarrow>
                       (case draw E 32 n of
                          (None, n1) \<Rightarrow> n1
                        | (Some resp, n1) \<Rightarrow>
                            (case x25519 (en_P E) resp theirPub of
                               None \<Rightarrow> n1
                             | Some shared \<Rightarrow>
                                 finish_rekey E c oldKey shared (sendRaw E c (rekey_message E resp n1) n1))))))"

subsection \<open>Files\<close>

definition handle_chunk_request :: "nat \<Rightarrow> Message \<Rightarrow> Node \<Rightarrow> Node" where
  "handle_chunk_request c msg n =
     (if GetTransfer (m_FileID msg) (nd_Files n) = None \<or> m_Missing msg = [] then n
      else spawn (ResendTask c (m_FileID msg) (m_Missing msg)) n)"

definition handle_file_offer :: "env \<Rightarrow> nat \<Rightarrow> Message \<Rightarrow> Node \<Rightarrow> Node" where
  "handle_file_offer E c msg n =
     (let pc = nd_pc n c; fid = m_FileID msg; now = en_now E in
      if fid = '''' then n
      else if GetTransfer fid (nd_Files n) \<noteq> None then n
      else case RestorePartial now now fid (nd_Files n) of
        (Some t, m) \<Rightarrow> n\<lparr>nd_Files := m\<rparr>
      | (None, m) \<Rightarrow>
          emit (OfferEv (pc_lid pc) (pc_jid pc) (pc_name pc) fid (m_FileName msg) (m_FileSize msg))
            (n\<lparr>nd_Files := snd (CreateReceiveTransfer now now fid (m_FileName msg) (pc_jid pc)
                 (m_FileSize msg) (m_ChunkTotal msg) m)\<rparr>))"

definition put_transfer :: "string \<Rightarrow> Transfer \<Rightarrow> Node \<Rightarrow> Node" where
  "put_transfer fid t n =
     n\<lparr>nd_Files := (nd_Files n)\<lparr>mg_transfers := AList.update fid t (mg_transfers (nd_Files n))\<rparr>\<rparr>"

definition handle_file_reject :: "Message \<Rightarrow> Node \<Rightarrow> Node" where
  "handle_file_reject msg n =
     (case GetTransfer (m_FileID msg) (nd_Files n) of
        None \<Rightarrow> n | Some t \<Rightarrow> put_transfer (m_FileID msg) (CancelTransfer t) n)"

definition handle_file_complete :: "Message \<Rightarrow> Node \<Rightarrow> Node" where
  "handle_file_complete msg n =
     (case GetTransfer (m_FileID msg) (nd_Files n) of
        None \<Rightarrow> n | Some t \<Rightarrow> put_transfer (m_FileID msg) (t\<lparr>tr_Status := ''completed''\<rparr>) n)"

text \<open>A chunk for a transfer that is known or can be restored.\<close>

definition chunk_arrived :: "env \<Rightarrow> nat \<Rightarrow> Message \<Rightarrow> string \<Rightarrow> Transfer \<Rightarrow> Node \<Rightarrow> Node outcome" where
  "chunk_arrived E c msg data t0 n0 =
     (case WriteChunk (en_now E) (m_ChunkIndex msg) data t0 of
        (Inl e, _) \<Rightarrow> Returns n0
      | (Inr u, t) \<Rightarrow>
          (let n1 = put_transfer (m_FileID msg) t n0;
               n = n1\<lparr>nd_Files := snd (Checkpoint (en_mw E) (en_chw E) t (nd_Files n1))\<rparr>
           in bind_outcome (IsComplete Unlocked t) (\<lambda>complete.
                if complete
                then bind_outcome (SaveFile (en_io E) (nd_Files n) t) (\<lambda>r.
                  (case r of
                     (Inl e, t') \<Rightarrow> Returns n
                   | (Inr (path, bytes), t') \<Rightarrow>
                       (let n2 = put_transfer (m_FileID msg) t' n;
                            n3 = emit (SavedEv path bytes) (n2\<lparr>nd_Files := ClearPartial (m_FileID msg) (nd_Files n2)\<rparr>)
                        in Returns (sendRaw E c ((from_me MsgFileComplete n3)\<lparr>m_FileID := m_FileID msg\<rparr>) n3))))
                else Returns (if go_mod (ProgressPercent t) 10 = 0
                              then emit (ProgressEv (m_FileID msg) (ProgressPercent t)) n else n))))"

definition handle_file_chunk :: "env \<Rightarrow> nat \<Rightarrow> Message \<Rightarrow> Node \<Rightarrow> Node outcome" where
  "handle_file_chunk E c msg n =
     (let fid = m_FileID msg;
          (found, n1) =
            (case GetTransfer fid (nd_Files n) of
               Some t \<Rightarrow> (Some t, n)
             | None \<Rightarrow> (case RestorePartial (en_now E) (en_now E) fid (nd_Files n) of
                          (r, m) \<Rightarrow> (r, n\<lparr>nd_Files := m\<rparr>)))
      in case found of
           None \<Rightarrow> Returns n1
         | Some t \<Rightarrow>
             (case DecodeChunk (m_ChunkData msg) of
                None \<Rightarrow> Returns n1 | Some data \<Rightarrow> chunk_arrived E c msg data t n1))"

lemma ReadChunk_progress:
  "ReadChunk now t = Returns ((Inr chunk, i), t') \<Longrightarrow>
    nat (tr_ChunkTotal t' - tr_chunksSent t') < nat (tr_ChunkTotal t - tr_chunksSent t)"
  by (auto simp: ReadChunk_def Let_def split: if_splits option.splits)

definition chunk_message :: "string \<Rightarrow> int \<Rightarrow> string \<Rightarrow> Transfer \<Rightarrow> Node \<Rightarrow> Message" where
  "chunk_message fid i chunk t n =
     (from_me MsgFileChunk n)\<lparr>m_FileID := fid, m_ChunkIndex := i, m_ChunkTotal := tr_ChunkTotal t,
        m_ChunkData := EncodeChunk chunk\<rparr>"

function send_file_loop :: "env \<Rightarrow> nat \<Rightarrow> string \<Rightarrow> Transfer \<Rightarrow> Node \<Rightarrow> Transfer \<times> Node" where
  "send_file_loop E c fid t n =
     (case ReadChunk (en_now E) t of
        Returns ((Inr chunk, i), t') \<Rightarrow> send_file_loop E c fid t' (sendRaw E c (chunk_message fid i chunk t' n) n)
      | Returns ((Inl e, i), t') \<Rightarrow> (t', n)
      | Blocks \<Rightarrow> (t, n)
      | Panics \<Rightarrow> (t, n))"
  by pat_completeness auto
termination
  by (relation "measure (\<lambda>(E, c, fid, t, n). nat (tr_ChunkTotal t - tr_chunksSent t))")
    (auto dest!: ReadChunk_progress)

declare send_file_loop.simps [simp del]

definition startFileSend :: "env \<Rightarrow> nat \<Rightarrow> string \<Rightarrow> Node \<Rightarrow> Node" where
  "startFileSend E c fid n =
     (case GetTransfer fid (nd_Files n) of
        None \<Rightarrow> n
      | Some t \<Rightarrow> (case send_file_loop E c fid t n of (t', n') \<Rightarrow> put_transfer fid t' n'))"

text \<open>\<open>seen\<close> are the indices handled so far.\<close>

fun resend_loop :: "env \<Rightarrow> nat \<Rightarrow> string \<Rightarrow> Transfer \<Rightarrow> int list \<Rightarrow> int list \<Rightarrow> Node \<Rightarrow> Node" where
  "resend_loop E c fid t [] seen n = n"
| "resend_loop E c fid t (i # is) seen n =
     (if i \<in> set seen then resend_loop E c fid t is seen n
      else case ReadChunkAt (case en_open E (tr_sourcePath t) of Opened s \<Rightarrow> Some s | _ \<Rightarrow> None) i t of
             Inl e \<Rightarrow> resend_loop E c fid t is (i # seen) n
           | Inr chunk \<Rightarrow>
               resend_loop E c fid t is (i # seen)
                 (sendRaw E c ((chunk_message fid i chunk t n)\<lparr>m_DeviceID := nd_DeviceID n\<rparr>) n))"

definition resendChunks :: "env \<Rightarrow> nat \<Rightarrow> string \<Rightarrow> int list \<Rightarrow> Node \<Rightarrow> Node" where
  "resendChunks E c fid missing n =
     (case GetTransfer fid (nd_Files n) of None \<Rightarrow> n | Some t \<Rightarrow> resend_loop E c fid t missing [] n)"

subsection \<open>The dispatcher\<close>

definition dispatch :: "env \<Rightarrow> nat \<Rightarrow> Message \<Rightarrow> Node \<Rightarrow> Node outcome" where
  "dispatch E c msg n =
     (case m_Type msg of
        MsgHello \<Rightarrow> Returns (handle_hello E c msg n)
      | MsgChat \<Rightarrow> Returns (handle_chat E c msg n)
      | MsgGroupInvite \<Rightarrow> Returns (handleGroupInvite E c msg n)
      | MsgGroupChat \<Rightarrow> Returns (handleGroupChat E c msg n)
      | MsgGroupLeave \<Rightarrow> Returns (handle_group_leave E c msg n)
      | MsgSyncRequest \<Rightarrow> Returns (handleSyncRequest E c msg n)
      | MsgSyncData \<Rightarrow> Returns (handleSyncData E c msg n)
      | MsgPing \<Rightarrow> Returns (handle_heartbeat E c n)
      | MsgHeartbeat \<Rightarrow> Returns (handle_heartbeat E c n)
      | MsgRekey \<Rightarrow> Returns (handle_rekey E c msg n)
      | MsgChunkRequest \<Rightarrow> Returns (handle_chunk_request c msg n)
      | MsgTyping \<Rightarrow> Returns (handle_typing E c n)
      | MsgReadReceipt \<Rightarrow> Returns (handle_read_receipt c n)
      | MsgFileOffer \<Rightarrow> Returns (handle_file_offer E c msg n)
      | MsgFileAccept \<Rightarrow> Returns (spawn (SendFileTask c (m_FileID msg)) n)
      | MsgFileReject \<Rightarrow> Returns (handle_file_reject msg n)
      | MsgFileChunk \<Rightarrow> handle_file_chunk E c msg n
      | MsgFileComplete \<Rightarrow> Returns (handle_file_complete msg n)
      | MsgUnknown s \<Rightarrow> Returns n)"

definition handleMessage :: "env \<Rightarrow> nat \<Rightarrow> Message \<Rightarrow> Node \<Rightarrow> Node outcome" where
  "handleMessage E c msg n0 =
     (case dedup_gate E msg n0 of (fresh, n) \<Rightarrow> if fresh then dispatch E c msg n else Returns n)"

text \<open>One goroutine started by a handler. Reading from a connection is driven from outside.\<close>

fun run_task :: "env \<Rightarrow> task \<Rightarrow> Node \<Rightarrow> Node" where
  "run_task E (SyncTask c prev) n = run_sync E c prev n"
| "run_task E (SendFileTask c fid) n = startFileSend E c fid n"
| "run_task E (ResendTask c fid missing) n = resendChunks E c fid missing n"
| "run_task E (ReadTask c) n = n"

end
