(* ===== verification/Node_Actions.thy ===== *)
theory Node_Actions
  imports Node_Handlers
begin

text \<open>
  What a node does on its own account: connections, the periodic work, broadcasts, rooms and file
  offers, from \<^verbatim>\<open>src/internal/peer/node.go\<close>.
\<close>

subsection \<open>Connections\<close>

text \<open>The part of \<open>setupConn\<close> before its read loop; \<open>c\<close> is the new \<open>peerConn\<close>.\<close>

definition open_conn :: "env \<Rightarrow> string \<Rightarrow> Node \<Rightarrow> nat \<times> Node" where
  "open_conn E addr n0 =
     (let c = nd_next n0;
          n = (set_pc c \<lparr>pc_name = '''', pc_jid = '''', pc_lid = '''', pc_deviceID = '''', pc_addr = addr,
                  pc_sessionKey = None, pc_reconnectAddr = addr, pc_closed = False\<rparr> n0)
                \<lparr>nd_next := c + 1, nd_conns := AList.update addr c (nd_conns n0)\<rparr>
      in (c, sendRaw E c ((from_me MsgHello n)\<lparr>m_DeviceID := nd_DeviceID n,
               m_PubKey := PublicKeyHex (nd_Identity n)\<rparr>) n))"

definition removePeer :: "string \<Rightarrow> Node \<Rightarrow> Node" where
  "removePeer addr n =
     (case map_of (nd_conns n) addr of
        None \<Rightarrow> n
      | Some c \<Rightarrow>
          emit (LeaveEv (pc_lid (nd_pc n c)) (pc_jid (nd_pc n c)) (pc_name (nd_pc n c)) addr)
            (n\<lparr>nd_conns := AList.delete addr (nd_conns n)\<rparr>))"

text \<open>The read loop over the lines that arrive, each with the environment of its handling; a line that
  does not decode is \<open>None\<close>. When the stream ends, or a handler panics, the peer is removed.\<close>

fun read_loop :: "nat \<Rightarrow> string \<Rightarrow> (env \<times> Message option) list \<Rightarrow> Node \<Rightarrow> Node outcome" where
  "read_loop c addr [] n = Returns (removePeer addr n)"
| "read_loop c addr ((E, None) # ls) n = read_loop c addr ls n"
| "read_loop c addr ((E, Some msg) # ls) n =
     (case handleMessage E c msg n of
        Returns n' \<Rightarrow> read_loop c addr ls n'
      | Blocks \<Rightarrow> Blocks
      | Panics \<Rightarrow> Returns (removePeer addr n))"

definition setupConn :: "env \<Rightarrow> string \<Rightarrow> (env \<times> Message option) list \<Rightarrow> Node \<Rightarrow> Node outcome" where
  "setupConn E addr ls n =
     (case open_conn E addr n of (c, n1) \<Rightarrow>
        bind_outcome (read_loop c addr ls n1) (\<lambda>n2. Returns (removePeer addr n2)))"

definition handleIncoming :: "env \<Rightarrow> string \<Rightarrow> (env \<times> Message option) list \<Rightarrow> Node \<Rightarrow> Node outcome" where
  "handleIncoming E remote ls n = setupConn E remote ls n"

datatype connect_result = AlreadyConnected | Skipped | DialFailed string | Dialed

text \<open>\<open>dial\<close> is the error of \<open>net.DialTimeout\<close>, \<open>None\<close> for a connection. The goroutine that
  sets the connection up is \<open>open_conn\<close> followed by the read loop.\<close>

definition ConnectTo :: "env \<Rightarrow> string option \<Rightarrow> string \<Rightarrow> Node \<Rightarrow> connect_result \<times> Node" where
  "ConnectTo E dial addr n0 =
     (if haskey (nd_conns n0) addr then (AlreadyConnected, n0)
      else let (skip, n1) = (case nd_Breaker n0 of
                               None \<Rightarrow> (False, n0)
                             | Some b \<Rightarrow> (case Skip (en_now E) addr b of (s, b') \<Rightarrow> (s, n0\<lparr>nd_Breaker := Some b'\<rparr>)))
           in if skip then (Skipped, n1)
              else let n2 = status_set E PhaseConnecting (''dialing '' @ addr) n1
                   in case dial of
                        Some err \<Rightarrow>
                          (DialFailed err,
                           status_set E PhaseFailed (HumanizeError (en_uni E) (Some err))
                             (n2\<lparr>nd_Breaker := map_option (\<lambda>b. snd (RecordFailure (en_now E) addr b)) (nd_Breaker n2)\<rparr>))
                      | None \<Rightarrow>
                          (Dialed, spawn (ReadTask (nd_next n2)) (status_set E PhaseHandshaking (''handshaking '' @ addr) n2)))"

text \<open>
  \<open>ConnectWithRetry\<close>: \<open>dial i\<close> is the answer to the dialling of attempt \<open>i\<close>, and \<open>wait i\<close> what the other
  goroutines have made of the node when its twenty polls are over (or the session was found ready). The
  fuel is the number of attempts; \<open>None\<close> is a call that has not returned by then.
\<close>

definition session_ready :: "string \<Rightarrow> Node \<Rightarrow> bool" where
  "session_ready addr n =
     (case map_of (nd_conns n) addr of None \<Rightarrow> False | Some c \<Rightarrow> pc_sessionKey (nd_pc n c) \<noteq> None)"

datatype retry_result = Connected | GaveUp int | ReconnectDisabled

fun retry_loop ::
    "nat \<Rightarrow> env \<Rightarrow> (int \<Rightarrow> string option) \<Rightarrow> (int \<Rightarrow> Node \<Rightarrow> Node) \<Rightarrow> string \<Rightarrow> int \<Rightarrow> int \<Rightarrow> Node \<Rightarrow>
     (retry_result \<times> Node) option" where
  "retry_loop 0 E dial wait addr maxAttempts attempt0 n = None"
| "retry_loop (Suc fuel) E dial wait addr maxAttempts attempt0 n =
     (let attempt = attempt0 + 1;
          n1 = status_set E PhaseRetrying (''attempt '' @ Itoa attempt @ '' to '' @ addr) n;
          (r, n2) = ConnectTo E (dial attempt) addr n1;
          n3 = (if r = AlreadyConnected \<or> r = Dialed then wait attempt n2 else n2)
      in if (r = AlreadyConnected \<or> r = Dialed) \<and> session_ready addr n3
         then Some (Connected, status_set E PhaseConnected (''connected '' @ addr) n3)
         else if 0 < maxAttempts \<and> maxAttempts \<le> attempt
         then Some (GaveUp attempt, status_set E PhaseFailed (''gave up dialing '' @ addr) n3)
         else if \<not> nd_AutoReconnect n3 \<and> maxAttempts \<le> 0 then Some (ReconnectDisabled, n3)
         else retry_loop fuel E dial wait addr maxAttempts attempt n3)"

definition Stop :: "Node \<Rightarrow> Node" where
  "Stop n = n\<lparr>nd_stopped := True\<rparr>"

definition Stopped :: "Node \<Rightarrow> bool" where
  "Stopped n = nd_stopped n"

subsection \<open>Periodic work\<close>

definition rekey_if_due :: "env \<Rightarrow> nat \<Rightarrow> Node \<Rightarrow> Node" where
  "rekey_if_due E c n =
     (let addr = pc_addr (nd_pc n c);
          prev = (case map_of (nd_lastRekey n) addr of None \<Rightarrow> 0 | Some t \<Rightarrow> t)
      in if IsZero prev \<or> 10 * Minute < Sub (en_now E) prev
         then (case initiateRekey E c n of
                 (None, n') \<Rightarrow> n'\<lparr>nd_lastRekey := AList.update addr (en_now E) (nd_lastRekey n')\<rparr>
               | (Some e, n') \<Rightarrow> n')
         else n)"

definition maybeRekey :: "env \<Rightarrow> Node \<Rightarrow> Node" where
  "maybeRekey E n = fold (rekey_if_due E) (map snd (nd_conns n)) n"

text \<open>One tick of the heartbeat goroutine of a node that was not stopped.\<close>

definition heartbeat_tick :: "env \<Rightarrow> Node \<Rightarrow> Node" where
  "heartbeat_tick E n =
     (let n1 = fold (\<lambda>c n. sendRaw E c ((from_me MsgHeartbeat n)\<lparr>m_DeviceID := nd_DeviceID n\<rparr>) n)
                 (map snd (nd_conns n)) n;
          n2 = n1\<lparr>nd_lastBeat := filter (\<lambda>(jid, t). \<not> 60 * Second < Sub (en_now E) t) (nd_lastBeat n1)\<rparr>
      in maybeRekey E n2)"

definition LastHeartbeat :: "string \<Rightarrow> Node \<Rightarrow> gotime option" where
  "LastHeartbeat jid n = map_of (nd_lastBeat n) jid"

definition typing_tick :: "env \<Rightarrow> Node \<Rightarrow> Node" where
  "typing_tick E n =
     n\<lparr>nd_typing := filter (\<lambda>(jid, t). \<not> 3 * Second < Sub (en_now E) t) (nd_typing n)\<rparr>"

subsection \<open>Broadcast, typing, receipts\<close>

fun broadcast_loop :: "env \<Rightarrow> string \<Rightarrow> string \<Rightarrow> string \<Rightarrow> nat list \<Rightarrow> Node \<Rightarrow> Node" where
  "broadcast_loop E text replyTo mid [] n = n"
| "broadcast_loop E text replyTo mid (c # cs) n =
     (case pc_sessionKey (nd_pc n c) of
        None \<Rightarrow> broadcast_loop E text replyTo mid cs n
      | Some key \<Rightarrow>
          if blocked (pc_jid (nd_pc n c)) n then broadcast_loop E text replyTo mid cs n
          else case encryptForSend E key text n of
            (None, n1) \<Rightarrow> broadcast_loop E text replyTo mid cs n1
          | (Some (ct, compressed), n1) \<Rightarrow>
              broadcast_loop E text replyTo mid cs
                (sendRaw E c ((from_me MsgChat n1)\<lparr>m_ID := mid, m_DeviceID := nd_DeviceID n1,
                   m_Body := b64_encode ct, m_ReplyTo := replyTo, m_Compressed := compressed\<rparr>) n1))"

definition broadcastWithReply :: "env \<Rightarrow> string \<Rightarrow> string \<Rightarrow> Node \<Rightarrow> string \<times> Node" where
  "broadcastWithReply E text replyTo n =
     (let peers = map snd (nd_conns n)
      in case nextEnvelopeID E n of ((mid, sq), n1) \<Rightarrow> (mid, broadcast_loop E text replyTo mid peers n1))"

definition Broadcast :: "env \<Rightarrow> string \<Rightarrow> Node \<Rightarrow> string \<times> Node" where
  "Broadcast E text n = broadcastWithReply E text '''' n"

definition BroadcastReply :: "env \<Rightarrow> string \<Rightarrow> string \<Rightarrow> Node \<Rightarrow> string \<times> Node" where
  "BroadcastReply E text replyTo n = broadcastWithReply E text replyTo n"

definition SendTyping :: "env \<Rightarrow> Node \<Rightarrow> Node" where
  "SendTyping E n =
     (if \<not> nd_TypingIndicator n then n
      else fold (\<lambda>c n'. sendRaw E c ((from_me MsgTyping n)\<lparr>m_DeviceID := nd_DeviceID n\<rparr>) n')
             (filter (\<lambda>c. pc_sessionKey (nd_pc n c) \<noteq> None) (map snd (nd_conns n))) n)"

definition ready_conn :: "(peerConn \<Rightarrow> bool) \<Rightarrow> Node \<Rightarrow> nat option" where
  "ready_conn ok n = find (\<lambda>c. ok (nd_pc n c) \<and> pc_sessionKey (nd_pc n c) \<noteq> None) (map snd (nd_conns n))"

definition SendReadReceipt :: "env \<Rightarrow> string \<Rightarrow> string \<Rightarrow> Node \<Rightarrow> Node" where
  "SendReadReceipt E jid messageID n =
     (if \<not> nd_ReadReceipts n then n
      else case ready_conn (\<lambda>pc. pc_jid pc = jid) n of
        None \<Rightarrow> n
      | Some c \<Rightarrow> sendRaw E c ((from_me MsgReadReceipt n)\<lparr>m_MessageID := messageID\<rparr>) n)"

subsection \<open>Rooms\<close>

datatype room_error =
    NoStore | NoRoom string | MemberNotReady string | InviteEncrypt | NotMember | NoneOnline
  | StoreError group_error

definition NodeCreateRoom :: "env \<Rightarrow> string \<Rightarrow> Node \<Rightarrow> (room_error + Room) \<times> Node" where
  "NodeCreateRoom E name n =
     (case nd_Groups n of
        None \<Rightarrow> (Inl NoStore, n)
      | Some s \<Rightarrow>
          if name = '''' then (Inl (StoreError EmptyRoomName), n)
          else let (key, n1) = draw E 32 n; (b, n2) = draw E 8 n1
               in case CreateRoom (en_gw E) (en_now E) key b name (JID_of n) s of
                    (Inl e, s') \<Rightarrow> (Inl (StoreError e), n2\<lparr>nd_Groups := Some s'\<rparr>)
                  | (Inr room, s') \<Rightarrow> (Inr room, n2\<lparr>nd_Groups := Some s'\<rparr>))"

definition InviteToRoom :: "env \<Rightarrow> string \<Rightarrow> string \<Rightarrow> Node \<Rightarrow> room_error option \<times> Node" where
  "InviteToRoom E roomID memberJID n =
     (case nd_Groups n of
        None \<Rightarrow> (Some NoStore, n)
      | Some s \<Rightarrow>
          (case GetRoom roomID s of
             None \<Rightarrow> (Some (NoRoom roomID), n)
           | Some room \<Rightarrow>
               (case ready_conn (\<lambda>pc. pc_jid pc = memberJID) n of
                  None \<Rightarrow> (Some (MemberNotReady memberJID), n)
                | Some c \<Rightarrow>
                    (case pc_sessionKey (nd_pc n c) of
                       None \<Rightarrow> (Some (MemberNotReady memberJID), n)
                     | Some key \<Rightarrow>
                         (let inner = en_invite E \<lparr>gi_GroupID = rm_ID room, gi_GroupName = rm_Name room,
                                        gi_GroupKey = b64_encode (rm_Key room), gi_Members = rm_Members room\<rparr>;
                              (nonce, n1) = draw E NonceSize n
                          in case Encrypt (en_P E) nonce key inner of
                               None \<Rightarrow> (Some InviteEncrypt, n1)
                             | Some ct \<Rightarrow>
                                 (let n2 = sendRaw E c ((from_me MsgGroupInvite n1)\<lparr>m_Body := b64_encode ct\<rparr>) n1
                                  in (None, n2\<lparr>nd_Groups := Some (snd (AddMember (en_gw E) (rm_ID room) memberJID s))\<rparr>)))))))"

text \<open>The deliveries of \<open>SendGroup\<close>; the count of them is returned.\<close>

fun group_loop :: "env \<Rightarrow> Room \<Rightarrow> Message \<Rightarrow> nat list \<Rightarrow> nat \<Rightarrow> Node \<Rightarrow> nat \<times> Node" where
  "group_loop E room msg [] delivered n = (delivered, n)"
| "group_loop E room msg (c # cs) delivered n =
     (let jid = pc_jid (nd_pc n c) in
      if jid \<notin> set (rm_Members room) \<or> jid = JID_of n then group_loop E room msg cs delivered n
      else if pc_sessionKey (nd_pc n c) = None then group_loop E room msg cs delivered n
      else group_loop E room msg cs (delivered + 1) (sendRaw E c msg n))"

definition SendGroup :: "env \<Rightarrow> string \<Rightarrow> string \<Rightarrow> string \<Rightarrow> Node \<Rightarrow> (string \<times> room_error option) \<times> Node" where
  "SendGroup E roomID text replyTo n =
     (case nd_Groups n of
        None \<Rightarrow> (('''', Some NoStore), n)
      | Some s \<Rightarrow>
          (case GetRoom roomID s of
             None \<Rightarrow> (('''', Some (NoRoom roomID)), n)
           | Some room \<Rightarrow>
               if \<not> IsMember roomID (JID_of n) s then (('''', Some NotMember), n)
               else case encryptForSend E (rm_Key room) text n of
                 (None, n1) \<Rightarrow> (('''', Some InviteEncrypt), n1)
               | (Some (ct, compressed), n1) \<Rightarrow>
                   (case nextEnvelopeID E n1 of ((mid, sq), n2) \<Rightarrow>
                      (case group_loop E room ((from_me MsgGroupChat n2)\<lparr>m_ID := mid, m_GroupID := rm_ID room,
                              m_ReplyTo := replyTo, m_Body := b64_encode ct, m_Compressed := compressed\<rparr>)
                              (map snd (nd_conns n2)) 0 n2 of
                         (delivered, n3) \<Rightarrow> ((mid, if delivered = 0 then Some NoneOnline else None), n3)))))"

definition LeaveRoom :: "env \<Rightarrow> string \<Rightarrow> Node \<Rightarrow> room_error option \<times> Node" where
  "LeaveRoom E roomID n =
     (case nd_Groups n of
        None \<Rightarrow> (Some NoStore, n)
      | Some s \<Rightarrow>
          (case GetRoom roomID s of
             None \<Rightarrow> (Some (NoRoom roomID), n)
           | Some room \<Rightarrow>
               (let n1 = fold (\<lambda>c n'. sendRaw E c ((from_me MsgGroupLeave n)\<lparr>m_GroupID := rm_ID room\<rparr>) n')
                           (map snd (nd_conns n)) n
                in (None, n1\<lparr>nd_Groups := Some (snd (RemoveMember (en_gw E) (rm_ID room) (JID_of n) s))\<rparr>))))"

definition NodeRekeyRoom :: "env \<Rightarrow> string \<Rightarrow> Node \<Rightarrow> room_error option \<times> Node" where
  "NodeRekeyRoom E roomID n0 =
     (case nd_Groups n0 of
        None \<Rightarrow> (Some NoStore, n0)
      | Some s \<Rightarrow>
          (let (key, n) = draw E 32 n0
           in case RekeyRoom (en_gw E) key roomID s of
                (Inl e, s') \<Rightarrow> (Some (StoreError e), n\<lparr>nd_Groups := Some s'\<rparr>)
              | (Inr room, s') \<Rightarrow>
                  (None, fold (\<lambda>m n. if m = JID_of n then n else snd (InviteToRoom E (rm_ID room) m n))
                           (rm_Members room) (n\<lparr>nd_Groups := Some s'\<rparr>))))"

subsection \<open>Peers\<close>

record PeerInfo =
  pi_Name :: string
  pi_JID :: string
  pi_LID :: string
  pi_DeviceID :: string
  pi_Addr :: string
  pi_Ready :: bool

definition Peers :: "Node \<Rightarrow> PeerInfo list" where
  "Peers n = map (\<lambda>(addr, c). let pc = nd_pc n c in
     \<lparr>pi_Name = pc_name pc, pi_JID = pc_jid pc, pi_LID = pc_lid pc, pi_DeviceID = pc_deviceID pc,
      pi_Addr = addr, pi_Ready = (pc_sessionKey pc \<noteq> None)\<rparr>) (nd_conns n)"

definition LinkedDevices :: "Node \<Rightarrow> PeerInfo list" where
  "LinkedDevices n =
     filter (\<lambda>p. pi_JID p = JID_of n \<and> pi_DeviceID p \<noteq> '''' \<and> pi_DeviceID p \<noteq> nd_DeviceID n) (Peers n)"

subsection \<open>File offers\<close>

definition offer_message :: "string \<Rightarrow> Transfer \<Rightarrow> Node \<Rightarrow> Message" where
  "offer_message gid t n =
     (from_me MsgFileOffer n)\<lparr>m_GroupID := gid, m_FileID := tr_ID t, m_FileName := tr_FileName t,
        m_FileSize := tr_FileSize t, m_ChunkTotal := tr_ChunkTotal t\<rparr>"

datatype file_error =
  PeerNotReady string | TransferError transfer_error | NoReadyPeers | RoomError room_error | NoPeer
  | UnknownTransfer string | NothingMissing

definition SendFile :: "env \<Rightarrow> string \<Rightarrow> string \<Rightarrow> Node \<Rightarrow> file_error option \<times> Node" where
  "SendFile E jid filePath n =
     (case ready_conn (\<lambda>pc. pc_jid pc = jid \<or> pc_lid pc = jid \<or> pc_name pc = jid) n of
        None \<Rightarrow> (Some (PeerNotReady jid), n)
      | Some c \<Rightarrow>
          (case CreateSendTransfer (en_P E) (en_open E filePath) (en_now E) (en_now E) (en_now E) filePath
                  (pc_jid (nd_pc n c)) (nd_Files n) of
             (Inl e, m) \<Rightarrow> (Some (TransferError e), n\<lparr>nd_Files := m\<rparr>)
           | (Inr t, m) \<Rightarrow> (let n1 = n\<lparr>nd_Files := m\<rparr> in (None, sendRaw E c (offer_message '''' t n1) n1))))"

text \<open>Offers of one file to several connections, which share the batch of transfers.\<close>

definition offer_all :: "env \<Rightarrow> string \<Rightarrow> string \<Rightarrow> nat list \<Rightarrow> Node \<Rightarrow> file_error option \<times> Node" where
  "offer_all E gid filePath cs n =
     (case CreateMulticastSendTransfers (en_P E) filePath
             (map (\<lambda>c. (pc_jid (nd_pc n c), en_open E filePath, en_now E)) cs) (nd_Files n) of
        (Inl e, m) \<Rightarrow> (Some (TransferError e), n\<lparr>nd_Files := m\<rparr>)
      | (Inr tids, m) \<Rightarrow>
          (None, fold (\<lambda>(c, tid) n'.
             (case GetTransfer tid m of None \<Rightarrow> n' | Some t \<Rightarrow> sendRaw E c (offer_message gid t n') n'))
             (zip cs tids) (n\<lparr>nd_Files := m\<rparr>)))"

definition SendFileMulticast :: "env \<Rightarrow> string \<Rightarrow> Node \<Rightarrow> file_error option \<times> Node" where
  "SendFileMulticast E filePath n =
     (let cs = filter (\<lambda>c. pc_sessionKey (nd_pc n c) \<noteq> None \<and> \<not> blocked (pc_jid (nd_pc n c)) n) (map snd (nd_conns n))
      in if cs = [] then (Some NoReadyPeers, n) else offer_all E '''' filePath cs n)"

definition SendFileGroup :: "env \<Rightarrow> string \<Rightarrow> string \<Rightarrow> Node \<Rightarrow> file_error option \<times> Node" where
  "SendFileGroup E roomID filePath n =
     (case nd_Groups n of
        None \<Rightarrow> (Some (RoomError NoStore), n)
      | Some s \<Rightarrow>
          (case GetRoom roomID s of
             None \<Rightarrow> (Some (RoomError (NoRoom roomID)), n)
           | Some room \<Rightarrow>
               if \<not> IsMember roomID (JID_of n) s then (Some (RoomError NotMember), n)
               else let cs = filter (\<lambda>c. pc_sessionKey (nd_pc n c) \<noteq> None \<and> pc_jid (nd_pc n c) \<noteq> JID_of n \<and>
                                \<not> blocked (pc_jid (nd_pc n c)) n \<and> pc_jid (nd_pc n c) \<in> set (rm_Members room))
                              (map snd (nd_conns n))
                    in if cs = [] then (Some (RoomError NoneOnline), n) else offer_all E (rm_ID room) filePath cs n))"

definition answer_file :: "env \<Rightarrow> MsgType \<Rightarrow> string \<Rightarrow> Node \<Rightarrow> file_error option \<times> Node" where
  "answer_file E ty fileID n =
     (case ready_conn (\<lambda>pc. True) n of
        None \<Rightarrow> (Some NoPeer, n)
      | Some c \<Rightarrow> (None, sendRaw E c ((from_me ty n)\<lparr>m_FileID := fileID\<rparr>) n))"

definition AcceptFile :: "env \<Rightarrow> string \<Rightarrow> Node \<Rightarrow> file_error option \<times> Node" where
  "AcceptFile E fileID n = answer_file E MsgFileAccept fileID n"

definition RejectFile :: "env \<Rightarrow> string \<Rightarrow> Node \<Rightarrow> file_error option \<times> Node" where
  "RejectFile E fileID n = answer_file E MsgFileReject fileID n"

definition RequestResume :: "env \<Rightarrow> string \<Rightarrow> Node \<Rightarrow> file_error option \<times> Node" where
  "RequestResume E fileID n0 =
     (let (found, n) =
        (case GetTransfer fileID (nd_Files n0) of
           Some t \<Rightarrow> (Some t, n0)
         | None \<Rightarrow> (case RestorePartial (en_now E) (en_now E) fileID (nd_Files n0) of
                      (r, m) \<Rightarrow> (r, n0\<lparr>nd_Files := m\<rparr>)))
      in case found of
           None \<Rightarrow> (Some (UnknownTransfer fileID), n)
         | Some t \<Rightarrow>
             if MissingChunks t = [] then (Some NothingMissing, n)
             else case ready_conn (\<lambda>pc. True) n of
               None \<Rightarrow> (Some NoPeer, n)
             | Some c \<Rightarrow>
                 (None, sendRaw E c ((from_me MsgChunkRequest n)\<lparr>m_FileID := fileID, m_Missing := MissingChunks t\<rparr>) n))"

end
