(* ===== verification/Node_Frame.thy ===== *)
theory Node_Frame
  imports Node_Actions
begin

text \<open>
  What the operations of a node leave alone. Most of them only append to what was written, told or started;
  \<open>same_links\<close> says that the connections, the sessions, the identity and the replay filter are as before.
\<close>

subsection \<open>What is sent\<close>

text \<open>The message \<open>sendRaw\<close> writes: the given one, stamped.\<close>

definition wire :: "env \<Rightarrow> Message \<Rightarrow> Node \<Rightarrow> Message" where
  "wire E msg n = snd (last (nd_out (sendRaw E 0 msg n)))"

lemma nextEnvelopeID_state:
  "snd (nextEnvelopeID E n) = n\<lparr>nd_seq := nd_seq n + 1, nd_draws := nd_draws n + 1\<rparr>"
  by (simp add: nextEnvelopeID_def draw_def Let_def)

lemma sendRaw_shape:
  "\<exists>d s. sendRaw E c msg n = n\<lparr>nd_draws := d, nd_seq := s, nd_out := nd_out n @ [(c, wire E msg n)]\<rparr>"
  by (cases n) (auto simp: sendRaw_def wire_def Let_def nextEnvelopeID_def draw_def split: prod.splits)

lemma wire_fields [simp]:
  "m_Type (wire E msg n) = m_Type msg" "m_From (wire E msg n) = m_From msg" "m_JID (wire E msg n) = m_JID msg"
  "m_LID (wire E msg n) = m_LID msg" "m_PubKey (wire E msg n) = m_PubKey msg" "m_Body (wire E msg n) = m_Body msg"
  "m_FileID (wire E msg n) = m_FileID msg" "m_RekeyPubKey (wire E msg n) = m_RekeyPubKey msg"
  "m_GroupID (wire E msg n) = m_GroupID msg" "m_ReplyTo (wire E msg n) = m_ReplyTo msg"
  "m_Compressed (wire E msg n) = m_Compressed msg" "m_Timestamp (wire E msg n) = en_now E"
  by (auto simp: wire_def sendRaw_def Let_def split: prod.splits)

lemma wire_ID:
  "m_ID msg \<noteq> '''' \<Longrightarrow> m_ID (wire E msg n) = m_ID msg"
  by (auto simp: wire_def sendRaw_def msgIDOnly_def Let_def split: prod.splits)

lemma wire_ID_nonempty: "m_ID (wire E msg n) \<noteq> ''''"
  by (auto simp: wire_def sendRaw_def msgIDOnly_def Let_def nextEnvelopeID_def envelope_id_def draw_def
      split: prod.splits)

lemma sendRaw_fields [simp]:
  "nd_out (sendRaw E c msg n) = nd_out n @ [(c, wire E msg n)]"
  "nd_pc (sendRaw E c msg n) = nd_pc n" "nd_conns (sendRaw E c msg n) = nd_conns n"
  "nd_next (sendRaw E c msg n) = nd_next n" "nd_seen (sendRaw E c msg n) = nd_seen n"
  "nd_Identity (sendRaw E c msg n) = nd_Identity n" "nd_Name (sendRaw E c msg n) = nd_Name n"
  "nd_DeviceID (sendRaw E c msg n) = nd_DeviceID n" "nd_Contacts (sendRaw E c msg n) = nd_Contacts n"
  "nd_Queue (sendRaw E c msg n) = nd_Queue n" "nd_events (sendRaw E c msg n) = nd_events n"
  "nd_History (sendRaw E c msg n) = nd_History n" "nd_Groups (sendRaw E c msg n) = nd_Groups n"
  "nd_rekeySlots (sendRaw E c msg n) = nd_rekeySlots n" "nd_lastRekey (sendRaw E c msg n) = nd_lastRekey n"
  "nd_Files (sendRaw E c msg n) = nd_Files n" "nd_Limiter (sendRaw E c msg n) = nd_Limiter n"
  "nd_tasks (sendRaw E c msg n) = nd_tasks n" "nd_ReadReceipts (sendRaw E c msg n) = nd_ReadReceipts n"
  using sendRaw_shape [of E c msg n] by auto

lemma from_me_fields [simp]:
  "m_Type (from_me t n) = t" "m_From (from_me t n) = nd_Name n" "m_JID (from_me t n) = JID_of n"
  "m_LID (from_me t n) = LID_of n" "m_ID (from_me t n) = ''''" "m_Body (from_me t n) = ''''"
  "m_GroupID (from_me t n) = ''''" "m_ReplyTo (from_me t n) = ''''" "m_Compressed (from_me t n) = False"
  "m_Seq (from_me t n) = 0" "m_FileID (from_me t n) = ''''"
  by (simp_all add: from_me_def blank_def)

lemma small_fields [simp]:
  "nd_pc (emit ev n) = nd_pc n" "nd_conns (emit ev n) = nd_conns n" "nd_next (emit ev n) = nd_next n"
  "nd_seen (emit ev n) = nd_seen n" "nd_Identity (emit ev n) = nd_Identity n" "nd_History (emit ev n) = nd_History n"
  "nd_events (emit ev n) = nd_events n @ [ev]" "nd_out (emit ev n) = nd_out n" "nd_Groups (emit ev n) = nd_Groups n"
  "nd_Contacts (emit ev n) = nd_Contacts n" "nd_Queue (emit ev n) = nd_Queue n" "nd_Files (emit ev n) = nd_Files n"
  by (simp_all add: emit_def)

lemma history_add_fields [simp]:
  "nd_pc (history_add E m n) = nd_pc n" "nd_conns (history_add E m n) = nd_conns n"
  "nd_next (history_add E m n) = nd_next n" "nd_seen (history_add E m n) = nd_seen n"
  "nd_Identity (history_add E m n) = nd_Identity n" "nd_events (history_add E m n) = nd_events n"
  "nd_out (history_add E m n) = nd_out n" "nd_Groups (history_add E m n) = nd_Groups n"
  "nd_Contacts (history_add E m n) = nd_Contacts n"
  "nd_History (history_add E m n) =
     map_option (\<lambda>h. snd (HistoryAdd (en_hw E) (en_now E) (en_now E) m h)) (nd_History n)"
  by (simp_all add: history_add_def)

subsection \<open>Same links\<close>

definition same_links :: "Node \<Rightarrow> Node \<Rightarrow> bool" where
  "same_links n n' \<longleftrightarrow> nd_pc n' = nd_pc n \<and> nd_next n' = nd_next n \<and> nd_conns n' = nd_conns n \<and>
     nd_seen n' = nd_seen n \<and> nd_Identity n' = nd_Identity n"

lemma same_links_refl [simp]: "same_links n n"
  by (simp add: same_links_def)

lemma same_links_trans: "same_links n n' \<Longrightarrow> same_links n' n'' \<Longrightarrow> same_links n n''"
  by (simp add: same_links_def)

lemma same_linksD:
  assumes "same_links n n'"
  shows "nd_pc n' = nd_pc n" "nd_next n' = nd_next n" "nd_conns n' = nd_conns n" "nd_seen n' = nd_seen n"
    "nd_Identity n' = nd_Identity n"
  using assms by (simp_all add: same_links_def)

text \<open>An operation that keeps the links keeps them when it is repeated.\<close>

locale quiet_op =
  fixes act :: "'a \<Rightarrow> Node \<Rightarrow> Node"
  assumes quiet: "same_links n (act a n)"
begin

lemma quiet_fold: "same_links n (fold act xs n)"
  by (induction xs arbitrary: n) (auto intro: same_links_trans quiet)

end

named_theorems links

lemma links_small [links]:
  "same_links n (emit ev n)" "same_links n (spawn tk n)" "same_links n (status_set E ph d n)"
  "same_links n (history_add E cm n)" "same_links n (count_message E jid n)" "same_links n (show_chat c text n)"
  "same_links n (put_transfer fid t n)" "same_links n (snd (draw E k n))" "same_links n (snd (nextEnvelopeID E n))"
  "same_links n (sendRaw E c msg n)" "same_links n (hello_contacts E c msg n)"
  by (simp_all add: same_links_def emit_def spawn_def status_set_def history_add_def count_message_def show_chat_def
      put_transfer_def draw_def nextEnvelopeID_state hello_contacts_def)

lemma links_pair: "same_links n (snd p) \<Longrightarrow> p = (r, n') \<Longrightarrow> same_links n n'"
  by simp

lemma links_encrypt [links]: "same_links n (snd (encryptForSend E k p n))"
  by (auto simp: encryptForSend_def draw_def same_links_def Let_def split: prod.splits option.splits)

lemmas encrypt_links = links_pair [OF links_encrypt]

lemma links_send:
  "encryptForSend E k p n = (r, n') \<Longrightarrow> same_links n (sendRaw E c msg n')"
  by (rule same_links_trans [OF encrypt_links links_small(10)])

lemma links_SendToWithID [links]: "same_links n (snd (SendToWithID E jid text mid n))"
  by (auto simp: SendToWithID_def split: option.splits prod.splits intro: links_send encrypt_links)

lemmas SendToWithID_links = links_pair [OF links_SendToWithID]

lemma links_SendTo [links]: "same_links n (snd (SendTo E jid text n))"
  by (auto simp: SendTo_def split: prod.splits
      intro: same_links_trans [OF links_pair [OF links_small(9)] links_SendToWithID])

text \<open>One round of the flushing loop.\<close>

definition flush_one :: "env \<Rightarrow> bool \<Rightarrow> delivery \<Rightarrow> OutgoingMessage \<Rightarrow> Node \<Rightarrow> bool \<times> Node" where
  "flush_one E mark deliver m n =
     (let n1 = (if mark then n\<lparr>nd_Queue := map_option (MarkAttempt (en_qw E) (om_ID m)) (nd_Queue n)\<rparr> else n);
          (err, n2) = SendToWithID E (om_ToJID m) (om_Body m) (om_ID m) n1;
          ok = (err = None \<or> (case deliver of None \<Rightarrow> False | Some dlv \<Rightarrow> dlv (om_ToJID m) (om_Body m)))
      in (ok, if ok then n2\<lparr>nd_Queue := map_option (\<lambda>q. snd (Remove (en_qw E) (om_ID m) q)) (nd_Queue n2)\<rparr> else n2))"

lemma flush_loop_Cons:
  "flush_loop E mark deliver jid (m # ms) n k =
     (if om_ToJID m \<noteq> jid then flush_loop E mark deliver jid ms n k
      else case flush_one E mark deliver m n of
             (ok, n') \<Rightarrow> flush_loop E mark deliver jid ms n' (if ok then k + 1 else k))"
proof -
  define n1 where "n1 = (if mark then n\<lparr>nd_Queue := map_option (MarkAttempt (en_qw E) (om_ID m)) (nd_Queue n)\<rparr> else n)"
  obtain err n2 where "SendToWithID E (om_ToJID m) (om_Body m) (om_ID m) n1 = (err, n2)" by force
  then show ?thesis
    unfolding flush_one_def flush_loop.simps n1_def [symmetric] by (cases err; cases deliver; cases "om_ToJID m = jid") (auto simp: Let_def)
qed

lemma links_flush_one: "same_links n (snd (flush_one E mark deliver m n))"
proof -
  have q: "same_links (n\<lparr>nd_Queue := q\<rparr>) n' = same_links n n'" "same_links n (n'\<lparr>nd_Queue := q\<rparr>) = same_links n n'"
    for n n' q by (simp_all add: same_links_def)
  show ?thesis
    by (cases mark) (auto simp: flush_one_def q Let_def split: prod.splits option.splits dest!: SendToWithID_links)
qed

lemma links_flush [links]: "same_links n (snd (flush_loop E mark deliver jid ms n k))"
proof (induction ms arbitrary: n k)
  case (Cons m ms)
  show ?case
    unfolding flush_loop_Cons using Cons.IH links_flush_one [of n E mark deliver m]
    by (auto split: prod.splits intro: same_links_trans)
qed simp

lemma links_FlushQueue [links]: "same_links n (snd (FlushQueue E deliver jid n))"
  by (simp add: FlushQueue_def links_flush split: option.splits)

lemma links_joined [links]: "same_links n (joined E c msg n)"
proof -
  have b: "same_links n (n\<lparr>nd_Breaker := b, nd_Limiter := l\<rparr>)" for n b l by (simp add: same_links_def)
  show ?thesis
    unfolding joined_def Let_def
    by (auto split: option.splits intro!: links same_links_trans [OF _ links_flush] same_links_trans [OF _ links_small(1)]
         same_links_trans [OF _ links_small(2)] same_links_trans [OF _ links_small(3)] same_links_trans [OF _ links_small(11)] b)
qed

subsection \<open>Handlers\<close>

lemma links_update:
  "same_links n (n'\<lparr>nd_Groups := g\<rparr>) = same_links n n'" "same_links n (n'\<lparr>nd_Files := f\<rparr>) = same_links n n'"
  "same_links n (n'\<lparr>nd_Limiter := l\<rparr>) = same_links n n'" "same_links n (n'\<lparr>nd_lastBeat := b\<rparr>) = same_links n n'"
  "same_links n (n'\<lparr>nd_typing := ty\<rparr>) = same_links n n'" "same_links n (n'\<lparr>nd_rekeySlots := sl\<rparr>) = same_links n n'"
  "same_links n (n'\<lparr>nd_lastRekey := lr\<rparr>) = same_links n n'" "same_links n (n'\<lparr>nd_Queue := q\<rparr>) = same_links n n'"
  "same_links n (n'\<lparr>nd_Breaker := br\<rparr>) = same_links n n'" "same_links n (n'\<lparr>nd_tasks := ts\<rparr>) = same_links n n'"
  "same_links n (n'\<lparr>nd_stopped := st\<rparr>) = same_links n n'" "same_links n (n'\<lparr>nd_Contacts := cb\<rparr>) = same_links n n'"
  by (simp_all add: same_links_def)

lemma links_over:
  "same_links n (emit ev n') = same_links n n'" "same_links n (spawn tk n') = same_links n n'"
  "same_links n (status_set E ph d n') = same_links n n'"
  "same_links n (history_add E cm n') = same_links n n'" "same_links n (count_message E jid n') = same_links n n'"
  "same_links n (show_chat c text n') = same_links n n'" "same_links n (put_transfer fid t n') = same_links n n'"
  "same_links n (sendRaw E c msg n') = same_links n n'"
  by (simp_all add: same_links_def emit_def spawn_def status_set_def history_add_def count_message_def show_chat_def
      put_transfer_def)

lemma links_sent: "same_links (sendRaw E c msg n) n' = same_links n n'"
  by (simp add: same_links_def)

lemmas links_simps = links_update links_over links_sent

lemma allowInbound_links: "allowInbound E c n = (ok, n') \<Longrightarrow> same_links n n'"
  by (auto simp: allowInbound_def links_simps split: option.splits prod.splits)

lemma draw_links: "draw E k n = (r, n') \<Longrightarrow> same_links n n'"
  by (auto simp: draw_def same_links_def)

lemma links_handlers [links]:
  "same_links n (handle_chat E c msg n)" "same_links n (handleGroupInvite E c msg n)"
  "same_links n (handleGroupChat E c msg n)" "same_links n (handle_group_leave E c msg n)"
  "same_links n (handleSyncData E c msg n)" "same_links n (handle_heartbeat E c n)" "same_links n (handle_typing E c n)"
  "same_links n (handle_read_receipt c n)" "same_links n (handle_chunk_request c msg n)"
  "same_links n (handle_file_offer E c msg n)" "same_links n (handle_file_reject msg n)"
  "same_links n (handle_file_complete msg n)"
  by (auto simp: handle_chat_def handleGroupInvite_def handleGroupChat_def handle_group_leave_def handleSyncData_def
      handle_heartbeat_def handle_typing_def handle_read_receipt_def handle_chunk_request_def handle_file_offer_def
      handle_file_reject_def handle_file_complete_def links_simps Let_def
      split: prod.splits option.splits dest!: allowInbound_links)

lemma links_sendSyncData [links]: "same_links n (snd (sendSyncData E c body re n))"
  by (auto simp: sendSyncData_def links_simps split: option.splits prod.splits dest!: encrypt_links)

lemma links_sync_loop [links]: "same_links n (sync_loop E c ms k n)"
  by (induction E c ms k n rule: sync_loop.induct) (auto intro: same_links_trans [OF links_sendSyncData])

lemma links_missed_loop [links]: "same_links n (missed_loop E c ms k n)"
  by (induction ms arbitrary: k n)
    (auto split: prod.splits option.splits dest!: links_pair [OF links_SendTo] intro: same_links_trans)

lemma links_syncs [links]: "same_links n (handleSyncRequest E c msg n)" "same_links n (run_sync E c prev n)"
  by (auto simp: handleSyncRequest_def run_sync_def syncMissedTo_def links_simps Let_def
      split: option.splits intro: links)

lemma initiateRekey_links: "initiateRekey E c n = (r, n') \<Longrightarrow> same_links n n'"
  by (auto simp: initiateRekey_def links_simps Let_def split: prod.splits option.splits dest!: draw_links)

lemma links_send_file [links]: "same_links n (snd (send_file_loop E c fid t n))"
proof (induction E c fid t n rule: send_file_loop.induct)
  case (1 E c fid t n)
  show ?case
    using 1 by (subst send_file_loop.simps)
      (auto simp: links_sent split: outcome.splits sum.splits prod.splits)
qed

lemma links_resend_loop [links]: "same_links n (resend_loop E c fid t is seen n)"
  by (induction E c fid t "is" seen n rule: resend_loop.induct)
    (auto split: sum.splits intro: same_links_trans [OF links_small(10)])

lemma links_tasks [links]: "same_links n (run_task E t n)"
  by (cases t) (auto simp: startFileSend_def resendChunks_def links_simps intro: links
      split: option.splits prod.splits dest!: links_pair [OF links_send_file])

lemma chunk_arrived_links: "chunk_arrived E c msg data t n = Returns n' \<Longrightarrow> same_links n n'"
  by (auto simp: chunk_arrived_def Let_def links_simps elim!: bind_outcome_Returns
      split: prod.splits sum.splits if_splits)

lemma handle_file_chunk_links: "handle_file_chunk E c msg n = Returns n' \<Longrightarrow> same_links n n'"
  by (auto simp: handle_file_chunk_def Let_def links_simps
      split: option.splits prod.splits dest!: chunk_arrived_links)
    (simp_all add: same_links_def)

text \<open>A handler changes the connection it reads from at most, and no other link.\<close>

definition one_link :: "nat \<Rightarrow> Node \<Rightarrow> Node \<Rightarrow> bool" where
  "one_link c n n' \<longleftrightarrow> (\<exists>pc. same_links (set_pc c pc n) n')"

lemma same_one_link: "same_links n n' \<Longrightarrow> one_link c n n'"
  unfolding one_link_def by (rule exI [of _ "nd_pc n c"]) (simp add: same_links_def set_pc_def)

lemma set_one_link: "one_link c n (set_pc c pc n)"
  unfolding one_link_def by (rule exI [of _ pc]) simp

lemma handle_hello_one_link: "one_link c n (handle_hello E c msg n)"
  unfolding handle_hello_def Let_def
  by (auto split: option.splits intro: set_one_link same_one_link)
    (metis links_joined one_link_def)

lemma finish_rekey_links:
  "same_links n n' \<Longrightarrow>
    same_links (set_pc c ((nd_pc n c)\<lparr>pc_sessionKey := Some (MixKeys (en_P E) k sh)\<rparr>) n) (finish_rekey E c k sh n')"
  by (simp add: finish_rekey_def same_links_def set_pc_def Let_def)

lemma handle_rekey_cases:
  obtains (none) "same_links n (handle_rekey E c msg n)"
  | (mixed) k sh where "pc_sessionKey (nd_pc n c) = Some k"
      "same_links (set_pc c ((nd_pc n c)\<lparr>pc_sessionKey := Some (MixKeys (en_P E) k sh)\<rparr>) n) (handle_rekey E c msg n)"
proof (cases "ParsePeerPublicKey (m_RekeyPubKey msg)"; cases "pc_sessionKey (nd_pc n c)")
  fix pub k assume pub: "ParsePeerPublicKey (m_RekeyPubKey msg) = Some pub" and k: "pc_sessionKey (nd_pc n c) = Some k"
  let ?n = "n\<lparr>nd_rekeySlots := AList.delete (pc_addr (nd_pc n c)) (nd_rekeySlots n)\<rparr>"
  have q: "same_links n ?n" by (simp add: links_simps)
  have m: thesis if "same_links n n'" "handle_rekey E c msg n = finish_rekey E c k sh n'" for n' sh
    using mixed [OF k] finish_rekey_links [OF that(1)] that(2) by metis
  show thesis
  proof (cases "map_of (nd_rekeySlots n) (pc_addr (nd_pc n c))")
    case None
    obtain r n1 where d: "draw E 32 ?n = (r, n1)" by force
    then have n1: "same_links n n1" by (rule same_links_trans [OF q draw_links])
    show thesis
      using None pub k d n1 none m [of "sendRaw E c (rekey_message E (the r) n1) n1"]
      by (cases r; cases "x25519 (en_P E) (the r) pub") (auto simp: handle_rekey_def links_simps)
  next
    case (Some eph)
    show thesis
      using Some pub k none q m [of ?n]
      by (cases "x25519 (en_P E) eph pub") (auto simp: handle_rekey_def)
  qed
qed (use none in \<open>auto simp: handle_rekey_def\<close>)

lemma handle_rekey_one_link: "one_link c n (handle_rekey E c msg n)"
  by (rule handle_rekey_cases [of n E c msg]) (erule same_one_link, auto simp: one_link_def)

lemma dispatch_one_link: "dispatch E c msg n = Returns n' \<Longrightarrow> one_link c n n'"
  by (auto simp: dispatch_def links_simps split: MsgType.splits
      intro: handle_hello_one_link handle_rekey_one_link same_one_link links dest: handle_file_chunk_links)

lemma dispatch_links:
  assumes "dispatch E c msg n = Returns n'" and "m_Type msg \<notin> {MsgHello, MsgRekey}"
  shows "same_links n n'"
  using assms by (auto simp: dispatch_def links_simps split: MsgType.splits
      intro: links dest: handle_file_chunk_links)

lemma one_link_frame:
  "one_link c n n' \<Longrightarrow> nd_seen n' = nd_seen n \<and> nd_conns n' = nd_conns n \<and> nd_next n' = nd_next n \<and>
    nd_Identity n' = nd_Identity n \<and> (\<forall>d. d \<noteq> c \<longrightarrow> nd_pc n' d = nd_pc n d)"
  by (auto simp: one_link_def same_links_def set_pc_def)

text \<open>The gate in front of the handlers only touches the set of seen IDs.\<close>

definition gate_seen :: "env \<Rightarrow> Message \<Rightarrow> Seen option \<Rightarrow> Seen option" where
  "gate_seen E msg so =
     (if deduplicated (m_Type msg) \<and> m_ID msg \<noteq> ''''
      then map_option (\<lambda>s. snd (SeenAdd (en_now E) (m_ID msg) s)) so else so)"

lemma dedup_gate_state: "snd (dedup_gate E msg n) = n\<lparr>nd_seen := gate_seen E msg (nd_seen n)\<rparr>"
  by (cases n) (auto simp: dedup_gate_def gate_seen_def split: option.splits prod.splits)

lemma handleMessage_cases:
  "handleMessage E c msg n =
     (if fst (dedup_gate E msg n) then dispatch E c msg (n\<lparr>nd_seen := gate_seen E msg (nd_seen n)\<rparr>)
      else Returns (n\<lparr>nd_seen := gate_seen E msg (nd_seen n)\<rparr>))"
  using dedup_gate_state [of E msg n] by (cases "dedup_gate E msg n") (simp add: handleMessage_def)

subsection \<open>Actions\<close>

lemma links_ConnectTo [links]: "same_links n (snd (ConnectTo E d addr n))"
  by (auto simp: ConnectTo_def links_simps Let_def split: option.splits prod.splits)

interpretation rekeys: quiet_op "rekey_if_due E" for E
  by unfold_locales (auto simp: rekey_if_due_def links_simps Let_def split: option.splits prod.splits
      dest!: initiateRekey_links)

interpretation sends: quiet_op "\<lambda>c n. sendRaw E c (msg n) n" for E msg
  by unfold_locales (simp add: links_simps)

lemma InviteToRoom_quiet: "same_links n (snd (InviteToRoom E rid m n))"
  by (auto simp: InviteToRoom_def draw_def links_simps Let_def split: option.splits) (simp_all add: same_links_def)

interpretation invites: quiet_op "\<lambda>m n. if m = JID_of n then n else snd (InviteToRoom E rid m n)" for E rid
  by unfold_locales (simp add: InviteToRoom_quiet)

interpretation offers: quiet_op "\<lambda>(c, tid) n. case GetTransfer tid m of None \<Rightarrow> n
    | Some t \<Rightarrow> sendRaw E c (offer_message gid t n) n" for E gid m
  by unfold_locales (auto simp: links_simps split: option.splits)

lemma links_broadcast [links]: "same_links n (snd (broadcastWithReply E text re n))"
proof -
  have "same_links n (broadcast_loop E text re mid cs n)" for mid cs n
    by (induction cs arbitrary: n)
      (auto split: option.splits prod.splits dest!: encrypt_links intro: same_links_trans same_links_trans [OF links_small(10)])
  then show ?thesis
    using links_small(9) [of n E]
    by (auto simp: broadcastWithReply_def Let_def split: prod.splits intro: same_links_trans)
qed

lemma links_periodic [links]:
  "same_links n (maybeRekey E n)" "same_links n (heartbeat_tick E n)" "same_links n (typing_tick E n)"
  "same_links n (SendTyping E n)" "same_links n (SendReadReceipt E jid mid n)" "same_links n (Stop n)"
  using rekeys.quiet_fold sends.quiet_fold
  by (auto simp: maybeRekey_def heartbeat_tick_def typing_tick_def SendTyping_def SendReadReceipt_def Stop_def
      links_simps Let_def split: option.splits intro: same_links_trans [OF _ rekeys.quiet_fold])

lemma links_QueueOrSend [links]: "same_links n (snd (QueueOrSend E jid body n))"
  using links_small(9) [of n E]
  by (auto simp: QueueOrSend_def links_simps split: prod.splits option.splits
      dest!: SendToWithID_links intro: same_links_trans)

lemma links_group_loop: "same_links n (snd (group_loop E room msg cs k n))"
  by (induction cs arbitrary: k n) (auto simp: Let_def intro: same_links_trans [OF links_small(10)])

lemma links_rooms [links]:
  "same_links n (snd (NodeCreateRoom E name n))" "same_links n (snd (InviteToRoom E rid m n))"
  "same_links n (snd (LeaveRoom E rid n))" "same_links n (snd (NodeRekeyRoom E rid n))"
  using InviteToRoom_quiet sends.quiet_fold
  by (auto simp: NodeCreateRoom_def LeaveRoom_def NodeRekeyRoom_def links_simps Let_def
      split: option.splits prod.splits sum.splits dest!: draw_links intro: same_links_trans
      intro!: same_links_trans [OF _ invites.quiet_fold])

lemma links_SendGroup [links]: "same_links n (snd (SendGroup E rid text re n))"
  by (auto simp: SendGroup_def split: option.splits prod.splits
      dest!: encrypt_links links_pair [OF links_group_loop] links_pair [OF links_small(9)] intro: same_links_trans)

lemma links_offer_all: "same_links n (snd (offer_all E gid path cs n))"
  by (auto simp: offer_all_def links_simps split: prod.splits sum.splits
      intro!: same_links_trans [OF _ offers.quiet_fold])

lemma links_files [links]:
  "same_links n (snd (SendFile E jid path n))" "same_links n (snd (SendFileMulticast E path n))"
  "same_links n (snd (SendFileGroup E rid path n))" "same_links n (snd (answer_file E ty fid n))"
  "same_links n (snd (RequestResume E fid n))"
  by (auto simp: SendFile_def SendFileMulticast_def SendFileGroup_def answer_file_def RequestResume_def links_simps
      Let_def links_offer_all split: option.splits prod.splits sum.splits)

end
