(* ===== verification/Node_Sample.thy ===== *)
theory Node_Sample
  imports Node_Frame
begin

text \<open>
  Concrete nodes and a concrete environment, on which the hypotheses of the properties hold.
\<close>

definition sample_env :: env where
  "sample_env = \<lparr>en_P = toy, en_now = 1000000000, en_rand = (\<lambda>i k. Some (replicate k CHR ''r'')), en_uni = (\<lambda>s. s),
     en_fmt = (\<lambda>_. ''now''), en_invite = (\<lambda>i. gi_GroupID i), en_uninvite = (\<lambda>s. None),
     en_qw = Written, en_hw = Written, en_cw = Written, en_gw = Written, en_mw = Written, en_chw = Written,
     en_io = good_io, en_open = (\<lambda>_. Opened ''contents'')\<rparr>"

definition sample_id :: "char \<Rightarrow> Identity" where
  "sample_id ch = (let k = replicate 32 ch in
     \<lparr>id_rawPriv = k, id_Public = k, id_JID = ''korik:'' @ EncodeToString k, id_LID = take 8 (EncodeToString k)\<rparr>)"

lemma sample_id_ok: "identity_ok toy (sample_id ch)"
  by (simp add: identity_ok_def fromRawPrivate_def sample_id_def toy_def Let_def)

definition ann :: Node where "ann = NewNode 0 None ''ann'' (sample_id CHR ''a'')"
definition bob :: Node where "bob = NewNode 0 None ''bob'' (sample_id CHR ''b'')"

lemma sample_env_fields [simp]:
  "en_P sample_env = toy" "en_now sample_env = 1000000000" "en_rand sample_env i k = Some (replicate k CHR ''r'')"
  "en_qw sample_env = Written" "en_hw sample_env = Written"
  by (simp_all add: sample_env_def)

lemma sample_nodes [simp]:
  "nd_Identity ann = sample_id CHR ''a''" "nd_Identity bob = sample_id CHR ''b''"
  "nd_seen ann = Some (NewSeen 10000 Hour)" "nd_seen bob = Some (NewSeen 10000 Hour)"
  "nd_next ann = 0" "nd_next bob = 0" "nd_conns ann = []" "nd_conns bob = []"
  "nd_rekeySlots ann = []" "nd_rekeySlots bob = []" "nd_Contacts bob = None" "nd_History bob = None"
  "nd_out ann = []" "nd_out bob = []" "nd_events bob = []" "nd_Limiter bob = Some (NewLimiter 20 40)"
  "nd_Name ann = ''ann''" "nd_Name bob = ''bob''"
  by (simp_all add: ann_def bob_def NewNode_def)

text \<open>A node with one connection, the number 0, whose session key is \<open>k\<close>.\<close>

definition linked :: "string \<Rightarrow> string \<Rightarrow> string \<Rightarrow> string \<Rightarrow> Node \<Rightarrow> Node" where
  "linked name jid addr k n =
     n\<lparr>nd_pc := (nd_pc n)(0 := \<lparr>pc_name = name, pc_jid = jid, pc_lid = ''lid'', pc_deviceID = '''', pc_addr = addr,
          pc_sessionKey = Some k, pc_reconnectAddr = addr, pc_closed = False\<rparr>),
       nd_conns := [(addr, 0)], nd_next := 1\<rparr>"

definition sample_session :: string where "sample_session = replicate 32 CHR ''k''"

lemma linked_fields [simp]:
  "pc_sessionKey (nd_pc (linked name jid addr k n) 0) = Some k" "pc_jid (nd_pc (linked name jid addr k n) 0) = jid"
  "pc_addr (nd_pc (linked name jid addr k n) 0) = addr" "pc_name (nd_pc (linked name jid addr k n) 0) = name"
  "pc_lid (nd_pc (linked name jid addr k n) 0) = ''lid''"
  "nd_conns (linked name jid addr k n) = [(addr, 0)]" "nd_seen (linked name jid addr k n) = nd_seen n"
  "nd_rekeySlots (linked name jid addr k n) = nd_rekeySlots n" "nd_Contacts (linked name jid addr k n) = nd_Contacts n"
  "nd_History (linked name jid addr k n) = nd_History n" "nd_out (linked name jid addr k n) = nd_out n"
  "nd_events (linked name jid addr k n) = nd_events n" "nd_Limiter (linked name jid addr k n) = nd_Limiter n"
  "nd_Identity (linked name jid addr k n) = nd_Identity n" "nd_Groups (linked name jid addr k n) = nd_Groups n"
  "nd_Queue (linked name jid addr k n) = nd_Queue n"
  by (simp_all add: linked_def)

lemma conn_linked [simp]: "conn_of_jid jid (linked name jid addr k n) = Some 0"
  by (simp add: conn_of_jid_def)

lemma sample_fresh [simp]:
  "nd_seen n = Some (NewSeen 10000 Hour) \<Longrightarrow> fst (dedup_gate E msg n)"
  by (auto simp: dedup_gate_def SeenAdd_def NewSeen_def split: prod.splits)

lemma sample_allowed [simp]:
  "nd_Limiter n = Some (NewLimiter 20 40) \<Longrightarrow> fst (allowInbound E c n)"
proof -
  have "f64 40 = 40" by code_simp
  then show "nd_Limiter n = Some (NewLimiter 20 40) \<Longrightarrow> fst (allowInbound E c n)"
    by (auto simp: allowInbound_def LimiterAllow_def NewLimiter_def Let_def Sub_def minDuration_def maxDuration_def)
qed

lemma Encode_inj: "EncodeToString x = EncodeToString y \<longleftrightarrow> x = y"
  by (metis DecodeString_Encode option.inject)

end
