(* ===== verification/Node_Session.thy ===== *)
theory Node_Session
  imports Node_Sample
begin

text \<open>
  Sessions: the handshake, the rotation of the key, and what every session of a running node satisfies.
\<close>

subsection \<open>The handshake\<close>

lemma handle_hello_cases:
  obtains (none) "handle_hello E c msg n = n"
  | (spoofed) "JIDFromPublicKeyHex (m_PubKey msg) \<noteq> m_JID msg"
      "handle_hello E c msg n = set_pc c ((nd_pc n c)\<lparr>pc_closed := True\<rparr>) n"
  | (session) pub key where "ParsePeerPublicKey (m_PubKey msg) = Some pub"
      "JIDFromPublicKeyHex (m_PubKey msg) = m_JID msg"
      "DeriveSessionKey (en_P E) (id_rawPriv (nd_Identity n)) pub = Some key"
      "same_links (set_pc c ((nd_pc n c)\<lparr>pc_name := m_From msg, pc_jid := m_JID msg, pc_lid := m_LID msg,
           pc_deviceID := m_DeviceID msg, pc_sessionKey := Some key\<rparr>) n) (handle_hello E c msg n)"
proof (cases "ParsePeerPublicKey (m_PubKey msg)")
  case (Some pub)
  show ?thesis
  proof (cases "DeriveSessionKey (en_P E) (id_rawPriv (nd_Identity n)) pub")
    case key: (Some key)
    then show ?thesis
      using Some spoofed session [OF Some _ key] links_joined
      by (cases "JIDFromPublicKeyHex (m_PubKey msg) = m_JID msg"; cases "pc_sessionKey (nd_pc n c)")
        (auto simp: handle_hello_def Let_def)
  next
    case None
    then show ?thesis
      using Some none spoofed by (cases "JIDFromPublicKeyHex (m_PubKey msg) = m_JID msg") (auto simp: handle_hello_def)
  qed
qed (use none in \<open>simp add: handle_hello_def\<close>)

text \<open>The hello that \<open>open_conn\<close> sends.\<close>

definition hello_of :: "Node \<Rightarrow> Message" where
  "hello_of n = (from_me MsgHello n)\<lparr>m_DeviceID := nd_DeviceID n, m_PubKey := PublicKeyHex (nd_Identity n)\<rparr>"

lemma open_conn_shape:
  assumes "open_conn E addr n = (c, n')"
  shows "c = nd_next n" "nd_next n' = nd_next n + 1" "nd_seen n' = nd_seen n" "nd_Identity n' = nd_Identity n"
    "nd_conns n' = AList.update addr c (nd_conns n)"
    "nd_pc n' = (nd_pc n)(c := \<lparr>pc_name = '''', pc_jid = '''', pc_lid = '''', pc_deviceID = '''', pc_addr = addr,
                  pc_sessionKey = None, pc_reconnectAddr = addr, pc_closed = False\<rparr>)"
    "\<exists>h. nd_out n' = nd_out n @ [(c, h)] \<and> m_Type h = MsgHello \<and> m_JID h = JID_of n \<and> m_From h = nd_Name n \<and>
        m_PubKey h = PublicKeyHex (nd_Identity n)"
  using assms by (auto simp: open_conn_def set_pc_def Let_def)

lemma hello_session:
  assumes "m_Type h = MsgHello" and "m_PubKey h = PublicKeyHex i" and "m_JID h = id_JID i" and "identity_ok P i" and "pub_len P"
    and "DeriveSessionKey P (id_rawPriv (nd_Identity n)) (x25519_pub P (id_rawPriv i)) = Some key" and "en_P E = P"
  shows "\<exists>n'. handleMessage E c h n = Returns n' \<and> pc_sessionKey (nd_pc n' c) = Some key \<and>
     pc_jid (nd_pc n' c) = id_JID i \<and> pc_name (nd_pc n' c) = m_From h \<and> pc_addr (nd_pc n' c) = pc_addr (nd_pc n c) \<and>
     nd_conns n' = nd_conns n"
proof -
  have "handleMessage E c h n = Returns (handle_hello E c h n)"
    using assms(1) by (simp add: handleMessage_def dedup_gate_def dispatch_def)
  moreover have "same_links (set_pc c ((nd_pc n c)\<lparr>pc_name := m_From h, pc_jid := m_JID h, pc_lid := m_LID h,
           pc_deviceID := m_DeviceID h, pc_sessionKey := Some key\<rparr>) n) (handle_hello E c h n)"
    using assms announced_parses [OF assms(4,5)] links_joined by (auto simp: handle_hello_def Let_def)
  ultimately show ?thesis
    using assms(3) by (auto simp: same_links_def set_pc_def)
qed

text \<open>
  C1. The handshake establishes a session: when two nodes with identities of their own open the two ends
  of a connection and each handles the hello the other sent, both end with the same 256-bit session key, each has filed
  the other under its JID, and both see the session as ready.
\<close>

theorem handshake_agrees:
  assumes "ecdh_agrees P" and "sha_len P" and "pub_len P"
    and "identity_ok P (nd_Identity A)" and "identity_ok P (nd_Identity B)"
    and "open_conn E1 addrB A = (ca, A1)" and "open_conn E2 addrA B = (cb, B1)"
    and "en_P E3 = P" and "en_P E4 = P"
  shows "\<exists>hA hB A2 B2 k. nd_out A1 = nd_out A @ [(ca, hA)] \<and> nd_out B1 = nd_out B @ [(cb, hB)] \<and>
     handleMessage E3 ca hB A1 = Returns A2 \<and> handleMessage E4 cb hA B1 = Returns B2 \<and>
     pc_sessionKey (nd_pc A2 ca) = Some k \<and> pc_sessionKey (nd_pc B2 cb) = Some k \<and> length k = 32 \<and>
     pc_jid (nd_pc A2 ca) = JID_of B \<and> pc_jid (nd_pc B2 cb) = JID_of A \<and>
     session_ready addrB A2 \<and> session_ready addrA B2"
proof -
  let ?a = "id_rawPriv (nd_Identity A)" and ?b = "id_rawPriv (nd_Identity B)"
  note a = open_conn_shape [OF assms(6)] and b = open_conn_shape [OF assms(7)]
  obtain hA hB where
    hA: "nd_out A1 = nd_out A @ [(ca, hA)]" "m_Type hA = MsgHello" "m_JID hA = JID_of A" "m_PubKey hA = PublicKeyHex (nd_Identity A)" and
    hB: "nd_out B1 = nd_out B @ [(cb, hB)]" "m_Type hB = MsgHello" "m_JID hB = JID_of B" "m_PubKey hB = PublicKeyHex (nd_Identity B)"
    using a(7) b(7) by blast
  obtain k where k: "DeriveSessionKey P ?a (x25519_pub P ?b) = Some k" "DeriveSessionKey P ?b (x25519_pub P ?a) = Some k"
    using DeriveSessionKey_agree [OF assms(1)] identity_ok_fields(4) assms(4,5) by blast
  obtain A2 where A2: "handleMessage E3 ca hB A1 = Returns A2" "pc_sessionKey (nd_pc A2 ca) = Some k"
      "pc_jid (nd_pc A2 ca) = JID_of B" "nd_conns A2 = nd_conns A1"
    using hello_session [OF hB(2,4,3) assms(5,3), of A1 k E3 ca] k(1) a(4) assms(8) by auto
  obtain B2 where B2: "handleMessage E4 cb hA B1 = Returns B2" "pc_sessionKey (nd_pc B2 cb) = Some k"
      "pc_jid (nd_pc B2 cb) = JID_of A" "nd_conns B2 = nd_conns B1"
    using hello_session [OF hA(2,4,3) assms(4,3), of B1 k E4 cb] k(2) b(4) assms(9) by auto
  have "session_ready addrB A2" "session_ready addrA B2"
    using A2 B2 a(5) b(5) by (simp_all add: session_ready_def AList.update_conv)
  then show ?thesis
    using hA(1) hB(1) A2 B2 DeriveSessionKey_len [OF assms(2) k(1)] by blast
qed

subsection \<open>Rekeying\<close>

lemma rekey_message_fields [simp]:
  "m_Type (rekey_message E e n) = MsgRekey" "m_RekeyPubKey (rekey_message E e n) = EncodeToString (x25519_pub (en_P E) e)"
  by (simp_all add: rekey_message_def)

lemma parse_ephemeral:
  "pub_len P \<Longrightarrow> length e = 32 \<Longrightarrow> ParsePeerPublicKey (EncodeToString (x25519_pub P e)) = Some (x25519_pub P e)"
  by (simp add: ParsePeerPublicKey_def pub_len_def)

lemma handleMessage_fresh:
  assumes "fst (dedup_gate E msg n)"
  shows "\<exists>s. handleMessage E c msg n = dispatch E c msg (n\<lparr>nd_seen := s\<rparr>)"
  using assms handleMessage_cases [of E c msg n] by metis

lemma initiator_finishes:
  assumes "m_RekeyPubKey msg = EncodeToString (x25519_pub P e2)" and "pub_len P" and "length e2 = 32"
    and "pc_sessionKey (nd_pc n c) = Some k" and "map_of (nd_rekeySlots n) (pc_addr (nd_pc n c)) = Some e1"
    and "x25519 P e1 (x25519_pub P e2) = Some sh" and "en_P E = P"
  shows "pc_sessionKey (nd_pc (handle_rekey E c msg n) c) = Some (MixKeys P k sh)"
  using assms parse_ephemeral [OF assms(2,3)] by (simp add: handle_rekey_def finish_rekey_def set_pc_def Let_def)

lemma responder_finishes:
  assumes "m_RekeyPubKey msg = EncodeToString (x25519_pub P e1)" and "pub_len P" and "length e1 = 32"
    and "pc_sessionKey (nd_pc n c) = Some k" and "map_of (nd_rekeySlots n) (pc_addr (nd_pc n c)) = None"
    and "en_rand E (nd_draws n) 32 = Some e2" and "x25519 P e2 (x25519_pub P e1) = Some sh" and "en_P E = P"
  shows "pc_sessionKey (nd_pc (handle_rekey E c msg n) c) = Some (MixKeys P k sh)"
    "\<exists>r. nd_out (handle_rekey E c msg n) = nd_out n @ [(c, r)] \<and> m_Type r = MsgRekey \<and>
       m_RekeyPubKey r = EncodeToString (x25519_pub P e2)"
  using assms parse_ephemeral [OF assms(2,3)]
  by (auto simp: handle_rekey_def finish_rekey_def set_pc_def draw_def Let_def)

lemma initiateRekey_shape:
  assumes "initiateRekey E c n = (None, n')" and "pc_sessionKey (nd_pc n c) = Some k" and "en_rand E (nd_draws n) 32 = Some e"
  shows "\<exists>m. nd_out n' = nd_out n @ [(c, m)] \<and> m_Type m = MsgRekey \<and> m_RekeyPubKey m = EncodeToString (x25519_pub (en_P E) e)"
    "map_of (nd_rekeySlots n') (pc_addr (nd_pc n c)) = Some e" "nd_pc n' = nd_pc n"
  using assms by (auto simp: initiateRekey_def draw_def Let_def AList.update_conv)

text \<open>
  C9. The session key rotates in step: when one node initiates a rekey and the other answers, both hold the
  same new key, the mixture of the old key and the fresh shared secret, after one message in each direction.
\<close>

theorem rekey_agrees:
  assumes P: "ecdh_agrees P" "pub_len P" "en_P E1 = P" "en_P E2 = P" "en_P E3 = P"
    and k: "pc_sessionKey (nd_pc A ca) = Some k" "pc_sessionKey (nd_pc B cb) = Some k"
    and rnd: "en_rand E1 (nd_draws A) 32 = Some e1" "length e1 = 32" "en_rand E2 (nd_draws B) 32 = Some e2" "length e2 = 32"
    and idle: "map_of (nd_rekeySlots B) (pc_addr (nd_pc B cb)) = None"
    and start: "initiateRekey E1 ca A = (r, A1)" "nd_out A1 = nd_out A @ [(ca, mA)]" "fst (dedup_gate E2 mA B)"
  shows "\<exists>B1 mB sh. handleMessage E2 cb mA B = Returns B1 \<and> nd_out B1 = nd_out B @ [(cb, mB)] \<and>
     x25519 P e1 (x25519_pub P e2) = Some sh \<and> pc_sessionKey (nd_pc B1 cb) = Some (MixKeys P k sh) \<and>
     (fst (dedup_gate E3 mB A1) \<longrightarrow>
       (\<exists>A2. handleMessage E3 ca mB A1 = Returns A2 \<and> pc_sessionKey (nd_pc A2 ca) = Some (MixKeys P k sh)))"
proof -
  obtain sh where sh: "x25519 P e1 (x25519_pub P e2) = Some sh" "x25519 P e2 (x25519_pub P e1) = Some sh"
    using ecdh_agreesD [OF P(1) rnd(2,4)] by auto
  have r: "r = None" using start(1) k(1) rnd(1) by (auto simp: initiateRekey_def draw_def Let_def)
  note a = initiateRekey_shape [OF start(1) [unfolded r] k(1) rnd(1)]
  have mA: "m_Type mA = MsgRekey" "m_RekeyPubKey mA = EncodeToString (x25519_pub P e1)"
    using a(1) start(2) P(3) by auto
  obtain s where b: "handleMessage E2 cb mA B = Returns (handle_rekey E2 cb mA (B\<lparr>nd_seen := s\<rparr>))"
    using handleMessage_fresh [OF start(3)] mA(1) by (auto simp: dispatch_def)
  have resp: "pc_sessionKey (nd_pc (handle_rekey E2 cb mA (B\<lparr>nd_seen := s\<rparr>)) cb) = Some (MixKeys P k sh)"
    "\<exists>r. nd_out (handle_rekey E2 cb mA (B\<lparr>nd_seen := s\<rparr>)) = nd_out B @ [(cb, r)] \<and> m_Type r = MsgRekey \<and>
       m_RekeyPubKey r = EncodeToString (x25519_pub P e2)"
    using responder_finishes [OF mA(2) P(2) rnd(2), of "B\<lparr>nd_seen := s\<rparr>" cb k E2 e2 sh] k(2) idle rnd(3) sh(2) P(4) by auto
  then obtain mB where mB: "nd_out (handle_rekey E2 cb mA (B\<lparr>nd_seen := s\<rparr>)) = nd_out B @ [(cb, mB)]"
    "m_Type mB = MsgRekey" "m_RekeyPubKey mB = EncodeToString (x25519_pub P e2)" by blast
  have "\<exists>A2. handleMessage E3 ca mB A1 = Returns A2 \<and> pc_sessionKey (nd_pc A2 ca) = Some (MixKeys P k sh)"
    if fresh: "fst (dedup_gate E3 mB A1)"
  proof -
    obtain s' where "handleMessage E3 ca mB A1 = Returns (handle_rekey E3 ca mB (A1\<lparr>nd_seen := s'\<rparr>))"
      using handleMessage_fresh [OF fresh] mB(2) by (auto simp: dispatch_def)
    then show ?thesis
      using initiator_finishes [OF mB(3) P(2) rnd(4), of "A1\<lparr>nd_seen := s'\<rparr>" ca k e1 sh E3] a k(1) sh(1) P(5) by auto
  qed
  then show ?thesis using b resp(1) mB(1) sh(1) by blast
qed

text \<open>
  Two rekeys that cross do no harm: when both ends initiate and each handles the other's message as the
  answer to its own, they still end with one and the same new key.
\<close>

theorem crossing_rekeys_agree:
  assumes P: "ecdh_agrees P" "pub_len P" "en_P E1 = P" "en_P E2 = P" "en_P E3 = P" "en_P E4 = P"
    and k: "pc_sessionKey (nd_pc A ca) = Some k" "pc_sessionKey (nd_pc B cb) = Some k"
    and rnd: "en_rand E1 (nd_draws A) 32 = Some e1" "length e1 = 32" "en_rand E2 (nd_draws B) 32 = Some e2" "length e2 = 32"
    and start: "initiateRekey E1 ca A = (None, A1)" "nd_out A1 = nd_out A @ [(ca, mA)]"
      "initiateRekey E2 cb B = (None, B1)" "nd_out B1 = nd_out B @ [(cb, mB)]"
    and fresh: "fst (dedup_gate E3 mB A1)" "fst (dedup_gate E4 mA B1)"
  shows "\<exists>A2 B2 sh. handleMessage E3 ca mB A1 = Returns A2 \<and> handleMessage E4 cb mA B1 = Returns B2 \<and>
     x25519 P e1 (x25519_pub P e2) = Some sh \<and>
     pc_sessionKey (nd_pc A2 ca) = Some (MixKeys P k sh) \<and> pc_sessionKey (nd_pc B2 cb) = Some (MixKeys P k sh)"
proof -
  obtain sh where sh: "x25519 P e1 (x25519_pub P e2) = Some sh" "x25519 P e2 (x25519_pub P e1) = Some sh"
    using ecdh_agreesD [OF P(1) rnd(2,4)] by auto
  note a = initiateRekey_shape [OF start(1) k(1) rnd(1)] and b = initiateRekey_shape [OF start(3) k(2) rnd(3)]
  have m: "m_Type mA = MsgRekey" "m_RekeyPubKey mA = EncodeToString (x25519_pub P e1)"
    "m_Type mB = MsgRekey" "m_RekeyPubKey mB = EncodeToString (x25519_pub P e2)"
    using a(1) b(1) start(2,4) P(3,4) by auto
  obtain s where "handleMessage E3 ca mB A1 = Returns (handle_rekey E3 ca mB (A1\<lparr>nd_seen := s\<rparr>))"
    using handleMessage_fresh [OF fresh(1)] m(3) by (auto simp: dispatch_def)
  moreover obtain s' where "handleMessage E4 cb mA B1 = Returns (handle_rekey E4 cb mA (B1\<lparr>nd_seen := s'\<rparr>))"
    using handleMessage_fresh [OF fresh(2)] m(1) by (auto simp: dispatch_def)
  ultimately show ?thesis
    using sh initiator_finishes [OF m(4) P(2) rnd(4), of "A1\<lparr>nd_seen := s\<rparr>" ca k e1 sh E3]
      initiator_finishes [OF m(2) P(2) rnd(2), of "B1\<lparr>nd_seen := s'\<rparr>" cb k e2 sh E4] a b k P
    by auto
qed

subsection \<open>The steps of a node\<close>

inductive node_step :: "primitives \<Rightarrow> Node \<Rightarrow> Node \<Rightarrow> bool" for P :: primitives where
  handled: "en_P E = P \<Longrightarrow> c < nd_next n \<Longrightarrow> handleMessage E c msg n = Returns n' \<Longrightarrow> node_step P n n'"
| opened: "node_step P n (snd (open_conn E addr n))"
| removed: "node_step P n (removePeer addr n)"
| dialled: "node_step P n (snd (ConnectTo E dial addr n))"
| task_run: "t \<in> set (nd_tasks n) \<Longrightarrow> node_step P n (run_task E t (n\<lparr>nd_tasks := remove1 t (nd_tasks n)\<rparr>))"
| heartbeat: "node_step P n (heartbeat_tick E n)"
| typing: "node_step P n (typing_tick E n)"
| sent: "node_step P n (snd (SendTo E jid text n))"
| queued: "node_step P n (snd (QueueOrSend E jid text n))"
| flushed: "node_step P n (snd (FlushQueue E deliver jid n))"
| broadcast: "node_step P n (snd (broadcastWithReply E text re n))"
| typed: "node_step P n (SendTyping E n)"
| receipt: "node_step P n (SendReadReceipt E jid mid n)"
| room_created: "node_step P n (snd (NodeCreateRoom E name n))"
| invited: "node_step P n (snd (InviteToRoom E rid m n))"
| group_sent: "node_step P n (snd (SendGroup E rid text re n))"
| left: "node_step P n (snd (LeaveRoom E rid n))"
| room_rekeyed: "node_step P n (snd (NodeRekeyRoom E rid n))"
| file_sent: "node_step P n (snd (SendFile E jid path n))"
| file_multicast: "node_step P n (snd (SendFileMulticast E path n))"
| file_group: "node_step P n (snd (SendFileGroup E rid path n))"
| file_answered: "node_step P n (snd (answer_file E ty fid n))"
| resumed: "node_step P n (snd (RequestResume E fid n))"
| stop: "node_step P n (Stop n)"

inductive_cases node_stepE: "node_step P n n'"

text \<open>Every step but three kinds leaves the links alone.\<close>

lemma links_task_run: "same_links n (run_task E t (n\<lparr>nd_tasks := ts\<rparr>))"
  using links_tasks [of "n\<lparr>nd_tasks := ts\<rparr>" E t] by (simp add: same_links_def)

lemma node_step_links:
  assumes "node_step P n n'"
  obtains (quiet) "same_links n n'"
  | (handled) E c msg where "en_P E = P" "c < nd_next n" "handleMessage E c msg n = Returns n'"
  | (opened) E addr where "n' = snd (open_conn E addr n)"
  | (removed) addr where "n' = removePeer addr n"
  using assms by (rule node_stepE) (auto intro: links links_task_run)

text \<open>A key descends from the key agreement with one peer when it was derived from it and then rotated.\<close>

inductive key_lineage :: "primitives \<Rightarrow> string \<Rightarrow> string \<Rightarrow> string \<Rightarrow> bool" for P priv pub where
  derived: "DeriveSessionKey P priv pub = Some k \<Longrightarrow> key_lineage P priv pub k"
| rotated: "key_lineage P priv pub k \<Longrightarrow> key_lineage P priv pub (MixKeys P k sh)"

lemma key_lineage_len: "key_lineage P priv pub k \<Longrightarrow> sha_len P \<Longrightarrow> length k = 32"
  by (induction rule: key_lineage.induct) (auto simp: DeriveSessionKey_len MixKeys_len)

definition session_ok :: "primitives \<Rightarrow> string \<Rightarrow> peerConn \<Rightarrow> bool" where
  "session_ok P priv pc \<longleftrightarrow>
     (case pc_sessionKey pc of
        None \<Rightarrow> pc_jid pc = ''''
      | Some k \<Rightarrow> \<exists>h pub. pc_jid pc = JIDFromPublicKeyHex h \<and> ParsePeerPublicKey h = Some pub \<and> key_lineage P priv pub k)"

definition node_inv :: "primitives \<Rightarrow> Node \<Rightarrow> bool" where
  "node_inv P n \<longleftrightarrow> (\<forall>c. session_ok P (id_rawPriv (nd_Identity n)) (nd_pc n c)) \<and>
     goMap (nd_conns n) \<and> (\<forall>addr c. map_of (nd_conns n) addr = Some c \<longrightarrow> c < nd_next n \<and> pc_addr (nd_pc n c) = addr) \<and>
     (case nd_seen n of None \<Rightarrow> True | Some s \<Rightarrow> seen_inv s)"

lemma node_inv_links: "same_links n n' \<Longrightarrow> node_inv P n' = node_inv P n"
  by (simp add: same_links_def node_inv_def)

lemma node_inv_set_pc:
  assumes "node_inv P n" and "session_ok P (id_rawPriv (nd_Identity n)) pc" and "pc_addr pc = pc_addr (nd_pc n c)"
  shows "node_inv P (set_pc c pc n)"
  using assms by (auto simp: node_inv_def set_pc_def)

lemma node_inv_hello:
  assumes "node_inv P n" and "en_P E = P"
  shows "node_inv P (handle_hello E c msg n)"
proof (cases rule: handle_hello_cases [of E c msg n])
  case none
  then show ?thesis using assms by simp
next
  case spoofed
  have "session_ok P (id_rawPriv (nd_Identity n)) (nd_pc n c)" using assms by (simp add: node_inv_def)
  then show ?thesis using spoofed assms by (auto intro!: node_inv_set_pc simp: session_ok_def split: option.splits) blast
next
  case (session pub key)
  then have "key_lineage P (id_rawPriv (nd_Identity n)) pub key" using assms(2) by (auto intro: key_lineage.derived)
  then show ?thesis
    using session(1,2) assms unfolding node_inv_links [OF session(4)]
    by (auto intro!: node_inv_set_pc simp: session_ok_def) metis
qed

lemma node_inv_rekey:
  assumes "node_inv P n" and "en_P E = P"
  shows "node_inv P (handle_rekey E c msg n)"
proof (cases rule: handle_rekey_cases [of n E c msg])
  case none
  then show ?thesis using assms by (simp add: node_inv_links)
next
  case (mixed k sh)
  have "session_ok P (id_rawPriv (nd_Identity n)) (nd_pc n c)" using assms by (simp add: node_inv_def)
  then show ?thesis
    using mixed(1) assms unfolding node_inv_links [OF mixed(2)]
    by (auto intro!: node_inv_set_pc simp: session_ok_def) (blast intro: key_lineage.rotated)
qed

lemma node_inv_dispatch:
  assumes "node_inv P n" and "en_P E = P" and "dispatch E c msg n = Returns n'"
  shows "node_inv P n'"
proof (cases "m_Type msg \<in> {MsgHello, MsgRekey}")
  case True
  then show ?thesis using assms node_inv_hello node_inv_rekey by (auto simp: dispatch_def)
next
  case False
  then show ?thesis using dispatch_links [OF assms(3)] assms(1) node_inv_links by auto
qed

lemma node_inv_step:
  assumes "node_step P n n'" and "node_inv P n"
  shows "node_inv P n'"
  using assms(1)
proof (cases rule: node_step_links)
  case quiet
  then show ?thesis using assms(2) node_inv_links by blast
next
  case (handled E c msg)
  have "node_inv P (n\<lparr>nd_seen := gate_seen E msg (nd_seen n)\<rparr>)"
    using assms(2) seen_inv_Add by (auto simp: node_inv_def gate_seen_def split: option.splits)
  then show ?thesis
    using handled node_inv_dispatch by (auto simp: handleMessage_cases split: if_splits)
next
  case (opened E addr)
  obtain c n1 where o: "open_conn E addr n = (c, n1)" by force
  show ?thesis
    using assms(2) opened open_conn_shape [OF o] o
    by (auto simp: node_inv_def session_ok_def AList.update_conv intro: less_SucI)
next
  case (removed addr)
  then show ?thesis using assms(2)
    by (auto simp: node_inv_def removePeer_def emit_def AList.delete_conv split: option.splits)
qed

text \<open>A node as the program sets it up: \<open>NewNode\<close>, then the optional stores and settings.\<close>

definition configured ::
    "string \<Rightarrow> History option \<Rightarrow> ContactBook option \<Rightarrow> Queue option \<Rightarrow> Store option \<Rightarrow> bool \<Rightarrow> bool \<Rightarrow> bool \<Rightarrow> Node \<Rightarrow> Node" where
  "configured device h cb q g receipts typing reconnect n =
     n\<lparr>nd_DeviceID := device, nd_History := h, nd_Contacts := cb, nd_Queue := q, nd_Groups := g,
       nd_ReadReceipts := receipts, nd_TypingIndicator := typing, nd_AutoReconnect := reconnect\<rparr>"

inductive running :: "primitives \<Rightarrow> Identity \<Rightarrow> Node \<Rightarrow> bool" for P i where
  start: "running P i (configured device h cb q g receipts typing reconnect (NewNode now home name i))"
| step: "running P i n \<Longrightarrow> node_step P n n' \<Longrightarrow> running P i n'"

lemma node_step_identity: "node_step P n n' \<Longrightarrow> nd_Identity n' = nd_Identity n"
proof (erule node_step_links)
  fix E c msg assume "handleMessage E c msg n = Returns n'"
  then show ?thesis by (auto simp: handleMessage_cases dest!: dispatch_one_link one_link_frame split: if_splits)
qed (auto simp: same_links_def open_conn_def removePeer_def set_pc_def Let_def split: option.splits)

lemma running_inv: "running P i n \<Longrightarrow> node_inv P n \<and> nd_Identity n = i"
proof (induction rule: running.induct)
  case (start device h cb q g receipts typing reconnect now home name)
  then show ?case
    by (simp add: node_inv_def session_ok_def configured_def NewNode_def seen_inv_New)
next
  case (step n n')
  then show ?case using node_inv_step node_step_identity by auto
qed

subsection \<open>Properties of every run\<close>

text \<open>
  C3. Sessions are authenticated: in every state a node can reach, whatever its peers send, a connection that
  has a session key is filed under the JID of a well-formed public key, and the key is 256 bits long and descends from
  the key agreement between this node's private key and exactly that public key. A connection without a session has no
  JID, and the connection found under an address is one that was opened with that address.
\<close>

theorem sessions_authenticated:
  assumes "running P i n" and "sha_len P"
  shows "(case pc_sessionKey (nd_pc n c) of
            None \<Rightarrow> pc_jid (nd_pc n c) = ''''
          | Some k \<Rightarrow> length k = 32 \<and> (\<exists>h pub. pc_jid (nd_pc n c) = JIDFromPublicKeyHex h \<and>
                        ParsePeerPublicKey h = Some pub \<and> key_lineage P (id_rawPriv i) pub k)) \<and>
     (map_of (nd_conns n) addr = Some d \<longrightarrow> d < nd_next n \<and> pc_addr (nd_pc n d) = addr)"
proof -
  have "session_ok P (id_rawPriv i) (nd_pc n c)" and inv: "node_inv P n"
    using running_inv [OF assms(1)] by (auto simp: node_inv_def)
  then show ?thesis
    using key_lineage_len [OF _ assms(2)] by (fastforce simp: session_ok_def node_inv_def split: option.splits)
qed

text \<open>
  C13. A hello that claims somebody else's JID gets nothing: if the announced JID is not the one of the announced
  key, no session key, name, contact, history entry or event results, on whatever connection it comes; the only effect is
  that this connection is closed.
\<close>

theorem spoofed_hello_rejected:
  assumes "m_Type msg = MsgHello" and "m_JID msg \<noteq> JIDFromPublicKeyHex (m_PubKey msg)"
  shows "handleMessage E c msg n =
     Returns (if ParsePeerPublicKey (m_PubKey msg) = None then n
              else n\<lparr>nd_pc := (nd_pc n)(c := (nd_pc n c)\<lparr>pc_closed := True\<rparr>)\<rparr>)"
  using assms
  by (auto simp: handleMessage_def dedup_gate_def dispatch_def handle_hello_def set_pc_def split: option.splits)

subsection \<open>Witnesses\<close>

theorem handshake_agrees_witness:
  "\<exists>hA hB A2 B2 k. nd_out (snd (open_conn sample_env ''b:1'' ann)) = [(0, hA)] \<and>
     nd_out (snd (open_conn sample_env ''a:1'' bob)) = [(0, hB)] \<and>
     handleMessage sample_env 0 hB (snd (open_conn sample_env ''b:1'' ann)) = Returns A2 \<and>
     handleMessage sample_env 0 hA (snd (open_conn sample_env ''a:1'' bob)) = Returns B2 \<and>
     pc_sessionKey (nd_pc A2 0) = Some k \<and> pc_sessionKey (nd_pc B2 0) = Some k"
proof -
  have "open_conn sample_env ''b:1'' ann = (0, snd (open_conn sample_env ''b:1'' ann))"
    "open_conn sample_env ''a:1'' bob = (0, snd (open_conn sample_env ''a:1'' bob))"
    by (simp_all add: open_conn_def Let_def)
  from handshake_agrees [OF toy_ok(1,2) toy_pub_len _ _ this, of sample_env sample_env] show ?thesis
    by (simp add: sample_id_ok) blast
qed

abbreviation sample_ann :: Node where "sample_ann \<equiv> linked ''bob'' (JID_of bob) ''b:1'' sample_session ann"
abbreviation sample_bob :: Node where "sample_bob \<equiv> linked ''ann'' (JID_of ann) ''a:1'' sample_session bob"

lemma sample_initiates:
  assumes "pc_sessionKey (nd_pc n 0) = Some k" and "nd_out n = []"
  shows "\<exists>n' m. initiateRekey sample_env 0 n = (None, n') \<and> nd_out n' = [(0, m)] \<and> nd_seen n' = nd_seen n"
  using assms by (auto simp: initiateRekey_def draw_def Let_def)

theorem rekey_agrees_witness:
  "\<exists>A1 mA B1 A2 mB sh. initiateRekey sample_env 0 sample_ann = (None, A1) \<and> nd_out A1 = [(0, mA)] \<and>
     handleMessage sample_env 0 mA sample_bob = Returns B1 \<and> nd_out B1 = [(0, mB)] \<and>
     handleMessage sample_env 0 mB A1 = Returns A2 \<and>
     pc_sessionKey (nd_pc A2 0) = Some (MixKeys toy sample_session sh) \<and> pc_sessionKey (nd_pc B1 0) = pc_sessionKey (nd_pc A2 0)"
proof -
  obtain A1 mA where a: "initiateRekey sample_env 0 sample_ann = (None, A1)" "nd_out A1 = [(0, mA)]"
      "nd_seen A1 = Some (NewSeen 10000 Hour)"
    using sample_initiates [of sample_ann] by auto
  show ?thesis
    using rekey_agrees [OF toy_ok(1) toy_pub_len, of sample_env sample_env sample_env sample_ann 0 sample_session sample_bob 0
        "replicate 32 CHR ''r''" "replicate 32 CHR ''r''" None A1 mA] a
    by simp metis
qed

theorem crossing_rekeys_agree_witness:
  "\<exists>A1 mA B1 mB A2 B2 sh. initiateRekey sample_env 0 sample_ann = (None, A1) \<and> nd_out A1 = [(0, mA)] \<and>
     initiateRekey sample_env 0 sample_bob = (None, B1) \<and> nd_out B1 = [(0, mB)] \<and>
     handleMessage sample_env 0 mB A1 = Returns A2 \<and> handleMessage sample_env 0 mA B1 = Returns B2 \<and>
     pc_sessionKey (nd_pc A2 0) = Some (MixKeys toy sample_session sh) \<and>
     pc_sessionKey (nd_pc B2 0) = Some (MixKeys toy sample_session sh)"
proof -
  obtain A1 mA where a: "initiateRekey sample_env 0 sample_ann = (None, A1)" "nd_out A1 = [(0, mA)]"
      "nd_seen A1 = Some (NewSeen 10000 Hour)"
    using sample_initiates [of sample_ann] by auto
  obtain B1 mB where b: "initiateRekey sample_env 0 sample_bob = (None, B1)" "nd_out B1 = [(0, mB)]"
      "nd_seen B1 = Some (NewSeen 10000 Hour)"
    using sample_initiates [of sample_bob] by auto
  show ?thesis
    using crossing_rekeys_agree [OF toy_ok(1) toy_pub_len, of sample_env sample_env sample_env sample_env sample_ann 0
        sample_session sample_bob 0 "replicate 32 CHR ''r''" "replicate 32 CHR ''r''" A1 mA B1 mB] a b
    by simp metis
qed

theorem sessions_authenticated_witness:
  "\<exists>n c k. running toy (sample_id CHR ''a'') n \<and> pc_sessionKey (nd_pc n c) = Some k \<and> length k = 32"
proof -
  define n0 where "n0 = configured '''' None None None None False True True (NewNode 0 None ''ann'' (sample_id CHR ''a''))"
  define n1 where "n1 = snd (open_conn sample_env ''b:1'' n0)"
  define h where "h = (blank MsgHello)\<lparr>m_From := ''bob'', m_PubKey := PublicKeyHex (sample_id CHR ''b''), m_JID := JID_of bob\<rparr>"
  have next1: "nd_next n1 = 1" "nd_Identity n1 = sample_id CHR ''a''"
    by (simp_all add: n1_def n0_def open_conn_def configured_def NewNode_def set_pc_def Let_def)
  obtain k where k: "DeriveSessionKey toy (id_rawPriv (sample_id CHR ''a'')) (x25519_pub toy (id_rawPriv (sample_id CHR ''b''))) = Some k"
    using DeriveSessionKey_agree [OF toy_ok(1)] identity_ok_fields(4) [OF sample_id_ok] by metis
  obtain n2 where n2: "handleMessage sample_env 0 h n1 = Returns n2" "pc_sessionKey (nd_pc n2 0) = Some k"
    using hello_session [OF _ _ _ sample_id_ok toy_pub_len, of h "CHR ''b''" n1 k sample_env 0] k next1
    by (auto simp: h_def blank_def)
  have "running toy (sample_id CHR ''a'') n2"
    using running.step [OF running.step [OF running.start node_step.opened] node_step.handled] n2 next1
    unfolding n1_def n0_def by (metis sample_env_fields(1) zero_less_one)
  then show ?thesis
    using sessions_authenticated [of toy "sample_id CHR ''a''" n2 0 "''b:1''" 0] toy_ok(2) n2(2) by auto
qed

theorem spoofed_hello_rejected_witness:
  "\<exists>n. handleMessage sample_env 0 ((blank MsgHello)\<lparr>m_PubKey := PublicKeyHex (sample_id CHR ''b''), m_JID := JID_of ann\<rparr>) sample_ann
     = Returns n \<and> pc_closed (nd_pc n 0) \<and> pc_sessionKey (nd_pc n 0) = Some sample_session"
proof -
  have "JID_of ann \<noteq> JIDFromPublicKeyHex (PublicKeyHex (sample_id CHR ''b''))"
    by (simp add: JIDFromPublicKeyHex_def PublicKeyHex_def sample_id_def Encode_inj Let_def)
  then show ?thesis
    using spoofed_hello_rejected [of "(blank MsgHello)\<lparr>m_PubKey := PublicKeyHex (sample_id CHR ''b''), m_JID := JID_of ann\<rparr>"
        sample_env 0 sample_ann]
    by (simp add: blank_def announced_parses(1) [OF sample_id_ok toy_pub_len])
qed

end
