(* ===== verification/Node_Delivery.thy ===== *)
theory Node_Delivery
  imports Node_Sample
begin

text \<open>
  Delivery: what one node encrypts and sends, another shows. Chat, broadcast, the offline queue and rooms.
\<close>

subsection \<open>Sealing and opening\<close>

text \<open>Randomness that does not fail.\<close>

definition good_rand :: "env \<Rightarrow> bool" where
  "good_rand E \<longleftrightarrow> (\<forall>i k. \<exists>s. en_rand E i k = Some s \<and> length s = k)"

definition good_cipher :: "primitives \<Rightarrow> bool" where
  "good_cipher P \<longleftrightarrow> gcm_opens P \<and> gzip_inverts P"

text \<open>A message carries a text under a key: whoever has the key and the same primitives reads the text.\<close>

definition carries :: "primitives \<Rightarrow> string \<Rightarrow> string \<Rightarrow> Message \<Rightarrow> bool" where
  "carries P k text w \<longleftrightarrow> (\<forall>E. en_P E = P \<longrightarrow> open_body E k w = Some text)"

lemma encryptForSend_ok:
  assumes "good_rand E" and "aes_key k"
  obtains ct z where "encryptForSend E k text n = (Some (ct, z), n\<lparr>nd_draws := nd_draws n + 1\<rparr>)"
proof -
  obtain nonce where "en_rand E (nd_draws n) NonceSize = Some nonce" using assms(1) by (auto simp: good_rand_def)
  then show ?thesis
    using assms(2) that by (cases "Encode (en_P E) text") (simp add: encryptForSend_def draw_def Encrypt_def Let_def)
qed

lemma sealed_carries:
  assumes "encryptForSend E k text n = (Some (ct, z), n')" and "good_rand E" and "good_cipher (en_P E)"
    and "length text \<le> MaxDecompressed" and "m_Body w = b64_encode ct" and "m_Compressed w = z"
  shows "carries (en_P E) k text w"
proof -
  obtain payload where enc: "Encode (en_P E) text = (payload, z)"
    and ct: "Encrypt (en_P E) (en_rand E (nd_draws n) NonceSize) k payload = Some ct"
    using assms(1) by (cases "Encode (en_P E) text")
      (auto simp: encryptForSend_def draw_def Let_def split: option.splits)
  obtain nonce where nonce: "en_rand E (nd_draws n) NonceSize = Some nonce" "length nonce = NonceSize"
    using assms(2) by (auto simp: good_rand_def)
  have "aes_key k" using ct by (auto simp: Encrypt_def split: if_splits)
  then have "Decrypt (en_P E) k ct = Some payload"
    using Decrypt_Encrypt ct nonce assms(3) by (metis good_cipher_def)
  moreover have "Decode (en_P E) payload z = Inr text"
    using Decode_Encode [of "en_P E" "text"] assms(3,4) enc by (simp add: good_cipher_def)
  ultimately show ?thesis
    using assms(5,6) by (simp add: carries_def open_body_def)
qed

subsection \<open>Sending to one peer\<close>

lemma SendToWithID_ready:
  assumes "conn_of_jid jid n = Some c" and "pc_sessionKey (nd_pc n c) = Some k" and "aes_key k" and "good_rand E"
  obtains n' w where "SendToWithID E jid text mid n = (None, n')" "nd_out n' = nd_out n @ [(c, w)]" "m_Type w = MsgChat"
    "mid \<noteq> '''' \<longrightarrow> m_ID w = mid"
    "good_cipher (en_P E) \<longrightarrow> length text \<le> MaxDecompressed \<longrightarrow> carries (en_P E) k text w"
    "nd_Queue n' = nd_Queue n" "same_links n n'" "nd_Contacts n' = nd_Contacts n"
proof -
  obtain ct z where e: "encryptForSend E k text n = (Some (ct, z), n\<lparr>nd_draws := nd_draws n + 1\<rparr>)"
    using encryptForSend_ok [OF assms(4,3)] .
  let ?m = "(from_me MsgChat (n\<lparr>nd_draws := nd_draws n + 1\<rparr>))\<lparr>m_ID := mid,
      m_DeviceID := nd_DeviceID n, m_Body := b64_encode ct, m_Compressed := z\<rparr>"
  have s: "SendToWithID E jid text mid n = (None, sendRaw E c ?m (n\<lparr>nd_draws := nd_draws n + 1\<rparr>))"
    using assms(1,2) e by (simp add: SendToWithID_def)
  show ?thesis
    using that [OF s, of "wire E ?m (n\<lparr>nd_draws := nd_draws n + 1\<rparr>)"] sealed_carries [OF e assms(4)] wire_ID [of ?m]
      links_SendToWithID [of n E jid "text" mid] s
    by simp
qed

lemma SendToWithID_failed:
  "SendToWithID E jid text mid n = (Some e, n') \<Longrightarrow> n' = n\<lparr>nd_draws := nd_draws n'\<rparr>"
  by (auto simp: SendToWithID_def encryptForSend_def draw_def Let_def split: option.splits prod.splits)

subsection \<open>Chat from end to end\<close>

lemma allowInbound_state: "\<exists>l. snd (allowInbound E c n) = n\<lparr>nd_Limiter := l\<rparr>"
proof (cases "nd_Limiter n")
  case None
  then have "snd (allowInbound E c n) = n\<lparr>nd_Limiter := nd_Limiter n\<rparr>" by (simp add: allowInbound_def)
  then show ?thesis by blast
qed (auto simp: allowInbound_def split: prod.splits)

lemma handle_chat_shows:
  assumes "fst (allowInbound E c n)" and "pc_sessionKey (nd_pc n c) = Some k" and "\<not> blocked (pc_jid (nd_pc n c)) n"
    and "open_body E k msg = Some text"
  shows "nd_events (handle_chat E c msg n) =
       nd_events n @ [ChatEv (pc_lid (nd_pc n c)) (pc_jid (nd_pc n c)) (pc_name (nd_pc n c)) text]"
    "nd_History (handle_chat E c msg n) =
       map_option (\<lambda>h. snd (HistoryAdd (en_hw E) (en_now E) (en_now E) (received E c msg '''' text n) h)) (nd_History n)"
proof -
  obtain l where "allowInbound E c n = (True, n\<lparr>nd_Limiter := l\<rparr>)"
    using allowInbound_state [of E c n] assms(1) by (metis prod.collapse)
  then have "handle_chat E c msg n =
      history_add E (received E c msg '''' text n) (show_chat c text (count_message E (pc_jid (nd_pc n c)) (n\<lparr>nd_Limiter := l\<rparr>)))"
    using assms(2,3,4) by (simp add: handle_chat_def blocked_def received_def)
  then show "nd_events (handle_chat E c msg n) =
       nd_events n @ [ChatEv (pc_lid (nd_pc n c)) (pc_jid (nd_pc n c)) (pc_name (nd_pc n c)) text]"
    "nd_History (handle_chat E c msg n) =
       map_option (\<lambda>h. snd (HistoryAdd (en_hw E) (en_now E) (en_now E) (received E c msg '''' text n) h)) (nd_History n)"
    by (simp_all add: show_chat_def count_message_def)
qed

lemma handleMessage_chat:
  assumes "m_Type msg = MsgChat" and "fst (dedup_gate E msg n)"
  shows "handleMessage E c msg n = Returns (handle_chat E c msg (n\<lparr>nd_seen := gate_seen E msg (nd_seen n)\<rparr>))"
  using assms by (simp add: handleMessage_cases dispatch_def)

lemma allowInbound_seen: "fst (allowInbound E c (n\<lparr>nd_seen := s\<rparr>)) = fst (allowInbound E c n)"
  by (simp add: allowInbound_def split: option.splits prod.splits)

text \<open>
  C2. A chat message arrives as it was written: if two nodes share a session key, what one passes to
  \<open>SendToWithID\<close> (up to 1 MiB) is written to that connection under the given ID, and when the other handles it (a new ID,
  within the rate limit, from a contact that is not blocked) it shows exactly that text as coming from that peer and adds
  exactly that text to its history.
\<close>

theorem chat_end_to_end:
  assumes "good_cipher P" and "en_P E = P" and "en_P E' = P" and "good_rand E"
    and "conn_of_jid jid A = Some ca" and "pc_sessionKey (nd_pc A ca) = Some k" and "length k = 32"
    and "pc_sessionKey (nd_pc B cb) = Some k" and "mid \<noteq> ''''" and "length body \<le> MaxDecompressed"
    and "\<forall>w. m_ID w = mid \<longrightarrow> fst (dedup_gate E' w B)"
    and "fst (allowInbound E' cb B)" and "\<not> blocked (pc_jid (nd_pc B cb)) B"
  shows "\<exists>A' w B'. SendToWithID E jid body mid A = (None, A') \<and> nd_out A' = nd_out A @ [(ca, w)] \<and> m_ID w = mid \<and>
     handleMessage E' cb w B = Returns B' \<and>
     nd_events B' = nd_events B @ [ChatEv (pc_lid (nd_pc B cb)) (pc_jid (nd_pc B cb)) (pc_name (nd_pc B cb)) body] \<and>
     nd_History B' = map_option (\<lambda>h. snd (HistoryAdd (en_hw E') (en_now E') (en_now E') (received E' cb w '''' body B) h)) (nd_History B)"
proof -
  have "aes_key k" using assms(7) by simp
  then obtain A' w where w: "SendToWithID E jid body mid A = (None, A')" "nd_out A' = nd_out A @ [(ca, w)]"
      "m_Type w = MsgChat" "m_ID w = mid" "carries P k body w"
    using SendToWithID_ready [OF assms(5,6) _ assms(4), of body mid] assms(1,2,9,10) by metis
  let ?B = "B\<lparr>nd_seen := gate_seen E' w (nd_seen B)\<rparr>"
  have "handleMessage E' cb w B = Returns (handle_chat E' cb w ?B)"
    using handleMessage_chat [OF w(3)] assms(11) w(4) by blast
  moreover have "open_body E' k w = Some body" using w(5) assms(3) by (simp add: carries_def)
  moreover have "received E' cb w '''' body ?B = received E' cb w '''' body B" by (simp add: received_def)
  ultimately show ?thesis
    using w handle_chat_shows [of E' cb ?B k w body] assms(8,12,13) by (auto simp: allowInbound_seen blocked_def)
qed

subsection \<open>Broadcast\<close>

definition reachable_conns :: "Node \<Rightarrow> nat list \<Rightarrow> nat list" where
  "reachable_conns n cs = filter (\<lambda>c. pc_sessionKey (nd_pc n c) \<noteq> None \<and> \<not> blocked (pc_jid (nd_pc n c)) n) cs"

definition broadcast_copy :: "primitives \<Rightarrow> Node \<Rightarrow> string \<Rightarrow> string \<Rightarrow> nat \<times> Message \<Rightarrow> bool" where
  "broadcast_copy P n mid body cw =
     (case cw of (c, w) \<Rightarrow> m_Type w = MsgChat \<and> m_ID w = mid \<and> carries P (the (pc_sessionKey (nd_pc n c))) body w)"

lemma broadcast_loop_out:
  assumes "good_rand E" and "good_cipher (en_P E)" and "length body \<le> MaxDecompressed" and "mid \<noteq> ''''"
    and "\<forall>c \<in> set cs. \<forall>k. pc_sessionKey (nd_pc n c) = Some k \<longrightarrow> aes_key k"
  shows "\<exists>ws. nd_out (broadcast_loop E body re mid cs n) = nd_out n @ ws \<and> map fst ws = reachable_conns n cs \<and>
     list_all (broadcast_copy (en_P E) n mid body) ws"
  using assms(5)
proof (induction cs arbitrary: n)
  case (Cons c cs)
  show ?case
  proof (cases "pc_sessionKey (nd_pc n c)")
    case (Some k)
    show ?thesis
    proof (cases "blocked (pc_jid (nd_pc n c)) n")
      case False
      have "aes_key k" using Cons.prems Some by simp
      from encryptForSend_ok [OF assms(1) this, of body n]
      obtain ct z where e: "encryptForSend E k body n = (Some (ct, z), n\<lparr>nd_draws := nd_draws n + 1\<rparr>)" by blast
      let ?n = "n\<lparr>nd_draws := nd_draws n + 1\<rparr>"
      let ?m = "(from_me MsgChat ?n)\<lparr>m_ID := mid, m_DeviceID := nd_DeviceID n, m_Body := b64_encode ct,
          m_ReplyTo := re, m_Compressed := z\<rparr>"
      let ?n' = "sendRaw E c ?m ?n"
      have same: "reachable_conns ?n' cs = reachable_conns n cs" "broadcast_copy P ?n' mid body = broadcast_copy P n mid body" for P
        by (simp_all add: reachable_conns_def broadcast_copy_def blocked_def fun_eq_iff)
      have copy: "broadcast_copy (en_P E) n mid body (c, wire E ?m ?n)"
        using sealed_carries [OF e assms(1,2,3)] Some wire_ID [of ?m E ?n] assms(4) by (simp add: broadcast_copy_def)
      have "broadcast_loop E body re mid (c # cs) n = broadcast_loop E body re mid cs ?n'"
        using Some False e by simp
      moreover obtain ws where "nd_out (broadcast_loop E body re mid cs ?n') = nd_out ?n' @ ws"
          "map fst ws = reachable_conns n cs" "list_all (broadcast_copy (en_P E) n mid body) ws"
        using Cons.IH [of ?n'] Cons.prems same by auto
      ultimately show ?thesis
        using copy Some False by (intro exI [of _ "(c, wire E ?m ?n) # ws"]) (simp add: reachable_conns_def)
    qed (use Cons Some in \<open>auto simp: reachable_conns_def\<close>)
  qed (use Cons in \<open>auto simp: reachable_conns_def\<close>)
qed (simp add: reachable_conns_def)

lemma broadcast_out:
  assumes "good_rand E" and "good_cipher (en_P E)" and "length body \<le> MaxDecompressed"
    and "\<forall>c k. pc_sessionKey (nd_pc n c) = Some k \<longrightarrow> length k = 32"
  shows "case Broadcast E body n of (mid, n') \<Rightarrow> \<exists>ws. nd_out n' = nd_out n @ ws \<and>
     map fst ws = filter (\<lambda>c. pc_sessionKey (nd_pc n c) \<noteq> None \<and> \<not> blocked (pc_jid (nd_pc n c)) n) (map snd (nd_conns n)) \<and>
     (\<forall>(c, w) \<in> set ws. m_Type w = MsgChat \<and> m_ID w = mid \<and> carries (en_P E) (the (pc_sessionKey (nd_pc n c))) body w)"
proof -
  obtain mid sq n1 where e: "nextEnvelopeID E n = ((mid, sq), n1)" by (metis prod.collapse)
  have n1: "n1 = n\<lparr>nd_seq := nd_seq n + 1, nd_draws := nd_draws n + 1\<rparr>"
    using nextEnvelopeID_state [of E n] e by simp
  have mid: "mid \<noteq> ''''" using e by (auto simp: nextEnvelopeID_def envelope_id_def draw_def Let_def)
  have keys: "\<forall>c \<in> set (map snd (nd_conns n)). \<forall>k. pc_sessionKey (nd_pc n1 c) = Some k \<longrightarrow> aes_key k"
    using assms(4) n1 by auto
  obtain ws where "nd_out (broadcast_loop E body '''' mid (map snd (nd_conns n)) n1) = nd_out n1 @ ws"
      "map fst ws = reachable_conns n1 (map snd (nd_conns n))" "list_all (broadcast_copy (en_P E) n1 mid body) ws"
    using broadcast_loop_out [OF assms(1,2,3) mid keys] by metis
  then show ?thesis
    using e n1
    by (auto simp: Broadcast_def broadcastWithReply_def reachable_conns_def broadcast_copy_def blocked_def list_all_iff)
qed

text \<open>
  A broadcast reaches everybody it should and nobody else: one copy is written to each connection that has
  a session and whose contact is not blocked, in the order of the connections, all under the one new ID that is returned,
  and each copy opens to the text under the session key of its connection.
\<close>

theorem broadcast_reaches_every_ready_peer:
  assumes "good_rand E" and "good_cipher (en_P E)" and "length body \<le> MaxDecompressed"
    and "\<forall>c k. pc_sessionKey (nd_pc n c) = Some k \<longrightarrow> length k = 32"
  shows "case Broadcast E body n of (mid, n') \<Rightarrow> \<exists>ws. nd_out n' = nd_out n @ ws \<and>
     map fst ws = filter (\<lambda>c. pc_sessionKey (nd_pc n c) \<noteq> None \<and> \<not> blocked (pc_jid (nd_pc n c)) n) (map snd (nd_conns n)) \<and>
     (\<forall>(c, w) \<in> set ws. m_Type w = MsgChat \<and> m_ID w = mid \<and> carries (en_P E) (the (pc_sessionKey (nd_pc n c))) body w)"
  using assms by (rule broadcast_out)

subsection \<open>The offline queue\<close>

text \<open>The wire message that delivers a queued one.\<close>

definition delivers :: "primitives \<Rightarrow> string \<Rightarrow> OutgoingMessage \<Rightarrow> Message \<Rightarrow> bool" where
  "delivers P k m w \<longleftrightarrow> m_Type w = MsgChat \<and> m_ID w = om_ID m \<and>
     (length (om_Body m) \<le> MaxDecompressed \<longrightarrow> carries P k (om_Body m) w)"

lemma Remove_items [simp]: "Pending (snd (Remove w mid q)) = filter (\<lambda>m. om_ID m \<noteq> mid) (Pending q)"
  by (simp add: Remove_def Pending_def)

lemma filter_marked:
  "filter (\<lambda>m. om_ID m \<noteq> mid) (Pending (MarkAttempt w mid q)) = filter (\<lambda>m. om_ID m \<noteq> mid) (Pending q)"
proof -
  have "filter (\<lambda>m. om_ID m \<noteq> mid) (map (\<lambda>m. if om_ID m = mid then m\<lparr>om_Attempts := om_Attempts m + 1\<rparr> else m) ms) =
      filter (\<lambda>m. om_ID m \<noteq> mid) ms" for ms :: "OutgoingMessage list"
    by (induction ms) auto
  then show ?thesis by (simp add: MarkAttempt_def Pending_def)
qed

lemma flush_one_ready:
  assumes "conn_of_jid (om_ToJID m) n = Some c" and "pc_sessionKey (nd_pc n c) = Some k" and "aes_key k" and "good_rand E"
    and "good_cipher (en_P E)" and "nd_Queue n = Some q" and "om_ID m \<noteq> ''''"
  obtains n' w q' where "flush_one E mark deliver m n = (True, n')" "nd_out n' = nd_out n @ [(c, w)]" "delivers (en_P E) k m w"
    "nd_Queue n' = Some q'" "Pending q' = filter (\<lambda>x. om_ID x \<noteq> om_ID m) (Pending q)" "same_links n n'"
proof -
  let ?q1 = "if mark then MarkAttempt (en_qw E) (om_ID m) q else q"
  let ?n1 = "n\<lparr>nd_Queue := Some ?q1\<rparr>"
  have n1: "(if mark then n\<lparr>nd_Queue := map_option (MarkAttempt (en_qw E) (om_ID m)) (nd_Queue n)\<rparr> else n) = ?n1"
    using assms(6) by (cases n) simp
  have "conn_of_jid (om_ToJID m) ?n1 = Some c" "pc_sessionKey (nd_pc ?n1 c) = Some k"
    using assms(1,2) by (simp_all add: conn_of_jid_def)
  then obtain n2 w where s: "SendToWithID E (om_ToJID m) (om_Body m) (om_ID m) ?n1 = (None, n2)" "nd_out n2 = nd_out n @ [(c, w)]"
      "m_Type w = MsgChat" "m_ID w = om_ID m" "length (om_Body m) \<le> MaxDecompressed \<longrightarrow> carries (en_P E) k (om_Body m) w"
      "nd_Queue n2 = Some ?q1" "same_links ?n1 n2"
    by (rule SendToWithID_ready [OF _ _ assms(3,4), of "om_ToJID m" ?n1 c "om_Body m" "om_ID m"]) (use assms(5,7) in auto)
  let ?q' = "snd (Remove (en_qw E) (om_ID m) ?q1)"
  show ?thesis
  proof (rule that [of "n2\<lparr>nd_Queue := Some ?q'\<rparr>" w ?q'])
    show "flush_one E mark deliver m n = (True, n2\<lparr>nd_Queue := Some ?q'\<rparr>)"
      unfolding flush_one_def n1 using s(1,6) by simp
    show "Pending ?q' = filter (\<lambda>x. om_ID x \<noteq> om_ID m) (Pending q)"
      using filter_marked [of "om_ID m" "en_qw E" q] by simp
  qed (use s in \<open>simp_all add: delivers_def same_links_def\<close>)
qed

lemma flush_loop_drains:
  assumes "conn_of_jid jid n = Some c" and "pc_sessionKey (nd_pc n c) = Some k" and "aes_key k" and "good_rand E"
    and "good_cipher (en_P E)" and "nd_Queue n = Some q" and "\<forall>m \<in> set ms. om_ID m \<noteq> ''''"
  shows "\<exists>ws q' n'. flush_loop E mark deliver jid ms n s = (s + int (length ws), n') \<and> nd_out n' = nd_out n @ map (Pair c) ws \<and>
     list_all2 (delivers (en_P E) k) (filter (\<lambda>m. om_ToJID m = jid) ms) ws \<and> nd_Queue n' = Some q' \<and>
     Pending q' = filter (\<lambda>x. om_ID x \<notin> om_ID ` {m \<in> set ms. om_ToJID m = jid}) (Pending q)"
  using assms(1,2,6,7)
proof (induction ms arbitrary: n q s)
  case (Cons m ms)
  show ?case
  proof (cases "om_ToJID m = jid")
    case True
    from flush_one_ready [OF _ Cons.prems(2) assms(3,4,5) Cons.prems(3), of m mark deliver]
    obtain n' w q' where o: "flush_one E mark deliver m n = (True, n')" "nd_out n' = nd_out n @ [(c, w)]" "delivers (en_P E) k m w"
        "nd_Queue n' = Some q'" "Pending q' = filter (\<lambda>x. om_ID x \<noteq> om_ID m) (Pending q)" "same_links n n'"
      using True Cons.prems by (metis list.set_intros(1))
    have "conn_of_jid jid n' = Some c" "pc_sessionKey (nd_pc n' c) = Some k"
      using Cons.prems(1,2) o(6) by (simp_all add: conn_of_jid_def same_links_def)
    from Cons.IH [OF this o(4), of "s + 1"] Cons.prems(4)
    obtain ws q'' n'' where i: "flush_loop E mark deliver jid ms n' (s + 1) = (s + 1 + int (length ws), n'')"
        "nd_out n'' = nd_out n' @ map (Pair c) ws" "list_all2 (delivers (en_P E) k) (filter (\<lambda>m. om_ToJID m = jid) ms) ws"
        "nd_Queue n'' = Some q''" "Pending q'' = filter (\<lambda>x. om_ID x \<notin> om_ID ` {m \<in> set ms. om_ToJID m = jid}) (Pending q')"
      by auto
    show ?thesis
      unfolding flush_loop_Cons
      by (rule exI [of _ "w # ws"], rule exI [of _ q''], rule exI [of _ n''])
        (use True o i in \<open>auto intro!: filter_cong\<close>)
  next
    case False
    then have "{x \<in> set (m # ms). om_ToJID x = jid} = {x \<in> set ms. om_ToJID x = jid}" by auto
    then show ?thesis unfolding flush_loop_Cons using Cons False by simp
  qed
qed auto

lemma filter_sent:
  assumes "distinct (map om_ID ms)"
  shows "filter (\<lambda>x. om_ID x \<notin> om_ID ` {m \<in> set ms. om_ToJID m = jid}) ms = filter (\<lambda>x. om_ToJID x \<noteq> jid) ms"
  using assms by (intro filter_cong) (auto simp: distinct_map inj_on_def)

text \<open>
  C8. Flushing delivers the backlog in order and exactly once: with a session to the peer, \<open>FlushQueue\<close> writes one
  message per pending entry for that peer, in queue order, each under the ID it was queued with and opening to the queued
  body; the queue keeps exactly the entries for other peers, and the number returned is the number of messages sent.
\<close>

theorem flush_delivers_backlog:
  assumes "conn_of_jid jid n = Some c" and "pc_sessionKey (nd_pc n c) = Some k" and "length k = 32" and "good_rand E"
    and "good_cipher (en_P E)" and "nd_Queue n = Some q" and "distinct (map om_ID (Pending q))"
    and "\<forall>m \<in> set (Pending q). om_ID m \<noteq> '''' \<and> length (om_Body m) \<le> MaxDecompressed"
  shows "\<exists>ws q' n'. FlushQueue E deliver jid n = (int (length ws), n') \<and> nd_out n' = nd_out n @ map (Pair c) ws \<and>
     list_all2 (\<lambda>m w. m_Type w = MsgChat \<and> m_ID w = om_ID m \<and> carries (en_P E) k (om_Body m) w)
       (filter (\<lambda>m. om_ToJID m = jid) (Pending q)) ws \<and>
     nd_Queue n' = Some q' \<and> Pending q' = filter (\<lambda>m. om_ToJID m \<noteq> jid) (Pending q)"
proof -
  obtain ws q' n' where f: "flush_loop E True deliver jid (Pending q) n 0 = (int (length ws), n')"
      "nd_out n' = nd_out n @ map (Pair c) ws" "nd_Queue n' = Some q'"
      "list_all2 (delivers (en_P E) k) (filter (\<lambda>m. om_ToJID m = jid) (Pending q)) ws"
      "Pending q' = filter (\<lambda>m. om_ToJID m \<noteq> jid) (Pending q)"
    using flush_loop_drains [OF assms(1,2) _ assms(4,5,6), of "Pending q" True deliver 0] assms(3,8) filter_sent [OF assms(7)] by auto
  have "list_all2 (\<lambda>m w. m_Type w = MsgChat \<and> m_ID w = om_ID m \<and> carries (en_P E) k (om_Body m) w)
       (filter (\<lambda>m. om_ToJID m = jid) (Pending q)) ws"
    using f(4) by (rule list.rel_mono_strong) (use assms(8) in \<open>auto simp: delivers_def\<close>)
  then show ?thesis using f assms(6) by (auto simp: FlushQueue_def intro!: exI [of _ ws])
qed

text \<open>
  C12. No message handed to \<open>QueueOrSend\<close> to a node with a queue is lost. The call returns no error exactly when the message was
  written to a connection with a session, under a new ID, and then the queue is as it was. Every error means that nothing was written: the error that
  names the peer as offline says that the message was queued, and the body is in the queue in memory, for the recipient and
  under the new ID, behind what waits (the oldest entry makes room beyond a thousand); any other error is that of a node without a queue,
  which drops the message.
\<close>

theorem queue_or_send_loses_nothing:
  "case QueueOrSend E jid body n of
     (None, n') \<Rightarrow> \<exists>c w. conn_of_jid jid n = Some c \<and> pc_sessionKey (nd_pc n c) \<noteq> None \<and> nd_out n' = nd_out n @ [(c, w)] \<and>
        m_Type w = MsgChat \<and> m_ID w = fst (fst (nextEnvelopeID E n)) \<and> nd_Queue n' = nd_Queue n
   | (Some (OfflineQueued to), n') \<Rightarrow> to = jid \<and> nd_out n' = nd_out n \<and> (\<exists>q q' m. nd_Queue n = Some q \<and> nd_Queue n' = Some q' \<and>
        om_ID m = fst (fst (nextEnvelopeID E n)) \<and> om_ToJID m = jid \<and> om_Body m = body \<and>
        Pending q' = takeLast MaxMessages (Pending q @ [m]))
   | (Some (NotSent e), n') \<Rightarrow> nd_Queue n = None \<and> nd_out n' = nd_out n"
proof -
  obtain mid sq n1 where e: "nextEnvelopeID E n = ((mid, sq), n1)" by (metis prod.collapse)
  have n1: "n1 = n\<lparr>nd_seq := nd_seq n + 1, nd_draws := nd_draws n + 1\<rparr>" using nextEnvelopeID_state [of E n] e by simp
  have mid: "mid \<noteq> ''''" using e by (auto simp: nextEnvelopeID_def envelope_id_def draw_def Let_def)
  obtain r n2 where s: "SendToWithID E jid body mid n1 = (r, n2)" by force
  show ?thesis
  proof (cases r)
    case None
    then show ?thesis
      using s e n1 mid
      by (auto simp: QueueOrSend_def SendToWithID_def conn_of_jid_def encryptForSend_def draw_def wire_ID Let_def
          split: option.splits prod.splits)
  next
    case (Some err)
    then obtain d where "n2 = n1\<lparr>nd_draws := d\<rparr>" using SendToWithID_failed s by metis
    then have f: "nd_Queue n2 = nd_Queue n" "nd_out n2 = nd_out n" using n1 by simp_all
    show ?thesis
    proof (cases "nd_Queue n")
      case (Some q)
      then show ?thesis
        using s e \<open>r = Some err\<close> f mid Enqueue_items [of "en_fmt E" "en_qw E" _ q]
        by (auto simp: QueueOrSend_def Pending_def with_id_def intro!: exI [of _ "\<lparr>om_ID = mid, om_ToJID = jid, om_Body = body,
              om_CreatedAt = en_now E, om_Attempts = 0\<rparr>"])
    qed (use s e f \<open>r = Some err\<close> in \<open>simp add: QueueOrSend_def\<close>)
  qed
qed

subsection \<open>The backlog goes out with the handshake\<close>

lemma joined_sends:
  assumes "nd_Queue n = Some q" and "conn_of_jid (m_JID msg) n = Some c" and "pc_sessionKey (nd_pc n c) = Some k" and "aes_key k"
    and "good_rand E" and "good_cipher (en_P E)" and "\<forall>m \<in> set (Pending q). om_ID m \<noteq> ''''" and "distinct (map om_ID (Pending q))"
  shows "\<exists>ws q'. nd_out (joined E c msg n) = nd_out n @ map (Pair c) ws \<and> nd_Queue (joined E c msg n) = Some q' \<and>
     list_all2 (delivers (en_P E) k) (filter (\<lambda>m. om_ToJID m = m_JID msg) (Pending q)) ws \<and>
     Pending q' = filter (\<lambda>m. om_ToJID m \<noteq> m_JID msg) (Pending q)"
proof -
  define n1 where "n1 = n\<lparr>nd_Breaker := map_option (RecordSuccess (pc_addr (nd_pc n c))) (nd_Breaker n),
                  nd_Limiter := map_option (LimiterReset (rateKey (nd_pc n c))) (nd_Limiter n)\<rparr>"
  define n3 where "n3 = emit (JoinEv (m_LID msg) (m_JID msg) (m_From msg) (pc_addr (nd_pc n c)))
      (status_set E PhaseConnected (''e2e ready '' @ pc_addr (nd_pc n c))
        (if isLinkedDevice msg n1 then n1 else hello_contacts E c msg n1))"
  have n3: "nd_Queue n3 = Some q" "nd_out n3 = nd_out n" "conn_of_jid (m_JID msg) n3 = Some c" "pc_sessionKey (nd_pc n3 c) = Some k"
    using assms(1-3) by (simp_all add: n3_def n1_def emit_def status_set_def hello_contacts_def conn_of_jid_def)
  obtain ws q' n4 where f: "flush_loop E False None (m_JID msg) (Pending q) n3 0 = (0 + int (length ws), n4)"
      "nd_out n4 = nd_out n3 @ map (Pair c) ws" "nd_Queue n4 = Some q'"
      "list_all2 (delivers (en_P E) k) (filter (\<lambda>m. om_ToJID m = m_JID msg) (Pending q)) ws"
      "Pending q' = filter (\<lambda>m. om_ToJID m \<noteq> m_JID msg) (Pending q)"
    using flush_loop_drains [OF n3(3,4) assms(4,5,6) n3(1) assms(7), of False None 0] filter_sent [OF assms(8)] by auto
  have "joined E c msg n = (if IsZero (prevSeen msg n1) then n4 else spawn (SyncTask c (prevSeen msg n1)) n4)"
    unfolding joined_def Let_def n1_def [symmetric] n3_def [symmetric] using f(1) n3(1) by simp
  then have "nd_out (joined E c msg n) = nd_out n4" "nd_Queue (joined E c msg n) = nd_Queue n4"
    by (simp_all add: spawn_def)
  then show ?thesis using f n3(2) by (intro exI [of _ ws] exI [of _ q']) simp
qed

lemma find_in: "x \<in> set xs \<Longrightarrow> Q x \<Longrightarrow> \<exists>y. find Q xs = Some y \<and> Q y \<and> y \<in> set xs"
  by (induction xs) auto

lemma hello_flushes:
  assumes "m_Type h = MsgHello" and "ParsePeerPublicKey (m_PubKey h) = Some pub" and "m_JID h = JIDFromPublicKeyHex (m_PubKey h)"
    and "DeriveSessionKey (en_P E) (id_rawPriv (nd_Identity n)) pub = Some k" and "pc_sessionKey (nd_pc n c) = None"
    and "sha_len (en_P E)" and "good_rand E" and "good_cipher (en_P E)"
    and "c \<in> snd ` set (nd_conns n)" and "\<forall>d \<in> snd ` set (nd_conns n). pc_jid (nd_pc n d) = m_JID h \<longrightarrow> d = c"
    and "nd_Queue n = Some q" and "distinct (map om_ID (Pending q))" and "\<forall>m \<in> set (Pending q). om_ID m \<noteq> ''''"
  shows "\<exists>n' ws q'. handleMessage E c h n = Returns n' \<and> pc_sessionKey (nd_pc n' c) = Some k \<and>
     nd_out n' = nd_out n @ map (Pair c) ws \<and>
     list_all2 (delivers (en_P E) k) (filter (\<lambda>m. om_ToJID m = m_JID h) (Pending q)) ws \<and>
     nd_Queue n' = Some q' \<and> Pending q' = filter (\<lambda>m. om_ToJID m \<noteq> m_JID h) (Pending q)"
proof -
  define n1 where "n1 = set_pc c ((nd_pc n c)\<lparr>pc_name := m_From h, pc_jid := m_JID h, pc_lid := m_LID h,
      pc_deviceID := m_DeviceID h, pc_sessionKey := Some k\<rparr>) n"
  have run: "handleMessage E c h n = Returns (joined E c h n1)"
    using assms(1-5) by (simp add: handleMessage_def dedup_gate_def dispatch_def handle_hello_def n1_def Let_def)
  have n1: "nd_Queue n1 = Some q" "nd_out n1 = nd_out n" "pc_sessionKey (nd_pc n1 c) = Some k"
    using assms(11) by (simp_all add: n1_def set_pc_def)
  obtain x where "x \<in> set (nd_conns n)" "snd x = c" using assms(9) by auto
  then obtain e where e: "find (\<lambda>e. pc_jid (nd_pc n1 (snd e)) = m_JID h) (nd_conns n) = Some e"
      "pc_jid (nd_pc n1 (snd e)) = m_JID h" "e \<in> set (nd_conns n)"
    using find_in [of x "nd_conns n" "\<lambda>e. pc_jid (nd_pc n1 (snd e)) = m_JID h"] by (auto simp: n1_def set_pc_def)
  then have "snd e = c" using assms(10) by (auto simp: n1_def set_pc_def split: if_splits)
  then have conn: "conn_of_jid (m_JID h) n1 = Some c" using e(1) by (simp add: conn_of_jid_def n1_def set_pc_def)
  have "aes_key k" using DeriveSessionKey_len [OF assms(6,4)] by simp
  from joined_sends [OF n1(1) conn n1(3) this assms(7,8,13,12)] show ?thesis
    using run n1(2,3) links_joined [of n1 E c h] by (auto simp: same_links_def)
qed

text \<open>
  C11. A peer that comes online gets what was queued for it: when a valid first hello arrives on the only connection
  of a peer, every message queued for its JID is written to that connection in queue order, under its own ID and readable
  with the session key just agreed on, and only the messages for other peers stay in the queue.
\<close>

theorem hello_sends_backlog:
  assumes "m_Type h = MsgHello" and "ParsePeerPublicKey (m_PubKey h) = Some pub" and "m_JID h = JIDFromPublicKeyHex (m_PubKey h)"
    and "DeriveSessionKey (en_P E) (id_rawPriv (nd_Identity n)) pub = Some k" and "pc_sessionKey (nd_pc n c) = None"
    and "sha_len (en_P E)" and "good_rand E" and "good_cipher (en_P E)"
    and "c \<in> snd ` set (nd_conns n)" and "\<forall>d \<in> snd ` set (nd_conns n). pc_jid (nd_pc n d) = m_JID h \<longrightarrow> d = c"
    and "nd_Queue n = Some q" and "distinct (map om_ID (Pending q))" and "\<forall>m \<in> set (Pending q). om_ID m \<noteq> ''''"
  shows "\<exists>n' ws q'. handleMessage E c h n = Returns n' \<and> pc_sessionKey (nd_pc n' c) = Some k \<and>
     nd_out n' = nd_out n @ map (Pair c) ws \<and>
     list_all2 (delivers (en_P E) k) (filter (\<lambda>m. om_ToJID m = m_JID h) (Pending q)) ws \<and>
     nd_Queue n' = Some q' \<and> Pending q' = filter (\<lambda>m. om_ToJID m \<noteq> m_JID h) (Pending q)"
  using assms by (rule hello_flushes)

subsection \<open>Witnesses\<close>

lemma sample_good: "good_rand sample_env" "good_cipher toy"
  using toy_ok by (simp_all add: good_rand_def good_cipher_def)

lemma sample_session_len [simp]: "length sample_session = 32"
  by (simp add: sample_session_def)

theorem chat_end_to_end_witness:
  "\<exists>A' w B'. SendToWithID sample_env ''j'' ''hello'' ''m1'' (linked ''bob'' ''j'' ''b:1'' sample_session ann) = (None, A') \<and>
     nd_out A' = [(0, w)] \<and> handleMessage sample_env 0 w (linked ''ann'' ''i'' ''a:1'' sample_session bob) = Returns B' \<and>
     nd_events B' = [ChatEv ''lid'' ''i'' ''ann'' ''hello'']"
  using chat_end_to_end [OF sample_good(2), of sample_env sample_env "''j''" "linked ''bob'' ''j'' ''b:1'' sample_session ann" 0
      sample_session "linked ''ann'' ''i'' ''a:1'' sample_session bob" 0 "''m1''" "''hello''"]
  by (simp add: sample_good blocked_def) metis

theorem broadcast_reaches_every_ready_peer_witness:
  "case Broadcast sample_env ''hi'' (linked ''bob'' ''j'' ''b:1'' sample_session ann) of (mid, n') \<Rightarrow>
     \<exists>w. nd_out n' = [(0, w)] \<and> m_ID w = mid \<and> carries toy sample_session ''hi'' w"
proof -
  let ?n = "linked ''bob'' ''j'' ''b:1'' sample_session ann"
  have keys: "\<forall>c k. pc_sessionKey (nd_pc ?n c) = Some k \<longrightarrow> length k = 32"
    by (auto simp: linked_def ann_def NewNode_def)
  have free: "\<not> blocked j ?n" for j by (simp add: blocked_def ann_def NewNode_def)
  show ?thesis
    using broadcast_reaches_every_ready_peer [OF sample_good(1) _ _ keys, of "''hi''"] sample_good(2) free
    by (auto split: prod.splits simp: map_eq_Cons_conv)
qed

definition sample_out :: "string \<Rightarrow> string \<Rightarrow> OutgoingMessage" where
  "sample_out mid jid = \<lparr>om_ID = mid, om_ToJID = jid, om_Body = ''body of '' @ mid, om_CreatedAt = 5, om_Attempts = 0\<rparr>"

definition sample_queue :: Queue where
  "sample_queue = NewQueue (Doc [sample_out ''m1'' ''j'', sample_out ''m2'' ''i'', sample_out ''m3'' ''j''])"

lemma sample_pending: "Pending sample_queue = [sample_out ''m1'' ''j'', sample_out ''m2'' ''i'', sample_out ''m3'' ''j'']"
  by (simp add: sample_queue_def Pending_def NewQueue_def)

theorem flush_delivers_backlog_witness:
  "\<exists>w1 w2 q' n'. FlushQueue sample_env None ''j'' ((linked ''bob'' ''j'' ''b:1'' sample_session ann)\<lparr>nd_Queue := Some sample_queue\<rparr>) = (2, n') \<and>
     nd_out n' = [(0, w1), (0, w2)] \<and> m_ID w1 = ''m1'' \<and> m_ID w2 = ''m3'' \<and>
     nd_Queue n' = Some q' \<and> Pending q' = [sample_out ''m2'' ''i'']"
proof -
  let ?n = "(linked ''bob'' ''j'' ''b:1'' sample_session ann)\<lparr>nd_Queue := Some sample_queue\<rparr>"
  have c: "conn_of_jid ''j'' ?n = Some 0" by (simp add: conn_of_jid_def)
  show ?thesis
    using flush_delivers_backlog [OF c, of sample_session sample_env sample_queue None] sample_good
    by (auto simp: sample_pending sample_out_def list_all2_Cons1)
qed

theorem hello_sends_backlog_witness:
  "\<exists>h n n'. handleMessage sample_env 0 h n = Returns n' \<and> length (nd_out n') = 1 + length (nd_out n)"
proof -
  let ?i = "sample_id CHR ''b''"
  define h where "h = (blank MsgHello)\<lparr>m_From := ''bob'', m_PubKey := PublicKeyHex ?i, m_JID := id_JID ?i\<rparr>"
  define q where "q = NewQueue (Doc [sample_out ''m1'' (id_JID ?i)])"
  define n where "n = (snd (open_conn sample_env ''b:1'' ann))\<lparr>nd_Queue := Some q\<rparr>"
  have q: "Pending q = [sample_out ''m1'' (id_JID ?i)]" by (simp add: q_def Pending_def NewQueue_def)
  have key: "\<exists>k. DeriveSessionKey toy (id_rawPriv (sample_id CHR ''a'')) (x25519_pub toy (id_rawPriv ?i)) = Some k"
    using DeriveSessionKey_agree [OF toy_ok(1)] identity_ok_fields(4) [OF sample_id_ok] by metis
  have n: "nd_conns n = [(''b:1'', 0)]" "nd_Identity n = sample_id CHR ''a''" "pc_sessionKey (nd_pc n 0) = None"
    "pc_jid (nd_pc n 0) = ''''" "nd_Queue n = Some q"
    by (simp_all add: n_def open_conn_def set_pc_def Let_def)
  have h: "m_Type h = MsgHello" "m_PubKey h = PublicKeyHex ?i" "m_JID h = id_JID ?i" by (simp_all add: h_def blank_def)
  show ?thesis
    using key hello_sends_backlog [OF h(1), of "x25519_pub toy (id_rawPriv ?i)" sample_env n _ 0 q] h n q sample_good toy_ok(2)
      announced_parses [OF sample_id_ok toy_pub_len, of "CHR ''b''"]
    by (fastforce simp: sample_out_def list_all2_Cons1)
qed

end
