(* ===== verification/Node_Policy.thy ===== *)
theory Node_Policy
  imports Node_Delivery Node_Session
begin

text \<open>
  What a node accepts and from whom: replays, blocked contacts, group membership, the history it resends,
  and how long a connection attempt lasts.
\<close>

subsection \<open>Replays\<close>

fun run_messages :: "(env \<times> nat \<times> Message) list \<Rightarrow> Node \<Rightarrow> Node outcome" where
  "run_messages [] n = Returns n"
| "run_messages ((E, c, msg) # ms) n = bind_outcome (handleMessage E c msg n) (run_messages ms)"

definition recorded :: "(env \<times> nat \<times> Message) list \<Rightarrow> (gotime \<times> string) list" where
  "recorded ms = map (\<lambda>(E, c, msg). (en_now E, m_ID msg))
     (filter (\<lambda>(E, c, msg). deduplicated (m_Type msg) \<and> m_ID msg \<noteq> '''') ms)"

lemma handleMessage_seen: "handleMessage E c msg n = Returns n' \<Longrightarrow> nd_seen n' = gate_seen E msg (nd_seen n)"
  by (auto simp: handleMessage_cases dest!: dispatch_one_link one_link_frame split: if_splits)

lemma run_messages_seen:
  "run_messages ms n = Returns n' \<Longrightarrow> nd_seen n = Some s \<Longrightarrow>
    nd_seen n' = Some (fold (\<lambda>(now, y) s. snd (SeenAdd now y s)) (recorded ms) s)"
  by (induction ms arbitrary: n s)
    (auto simp: recorded_def gate_seen_def elim!: bind_outcome_Returns dest!: handleMessage_seen split: if_splits)

lemma recorded_bounds: "length (recorded ms) \<le> length ms" "\<forall>(now, y) \<in> set (recorded ms). \<exists>E c msg. (E, c, msg) \<in> set ms \<and> now = en_now E"
  by (auto simp: recorded_def)

text \<open>
  C7. A node acts once on a message of a kind that the replay filter looks at: chat and group chat, rekey, the six kinds of the
  file transfer, read receipts, the two kinds of rooms and the two of the synchronisation (\<open>deduplicated\<close>). After such a
  message with an ID was handled, and any other messages in between (fewer than the replay filter holds, none of them later
  than its time to live), any message of one of these kinds under the same ID, whatever else it says and whichever connection it comes
  from, leaves the node exactly as it is. A hello, a typing note, a heartbeat, a ping or a message of an unknown kind is not looked
  up in the filter: it is processed whatever its ID (a repeated hello derives the session key anew).
\<close>

theorem replayed_message_ignored:
  assumes "nd_seen n = Some s" and "seen_inv s" and "deduplicated (m_Type msg)" and "m_ID msg \<noteq> ''''"
    and "fst (dedup_gate E msg n)" and "\<forall>(k, ts) \<in> set (ids s). ts < en_now E"
    and "handleMessage E c msg n = Returns n1" and "run_messages ms n1 = Returns n2"
    and "int (length ms) < maxIds s" and "\<forall>(E', d, m) \<in> set ms. Sub (en_now E') (en_now E) \<le> seenTTL s"
    and "deduplicated (m_Type again)" and "m_ID again = m_ID msg"
  shows "handleMessage E2 c2 again n2 = Returns n2"
proof -
  have fresh: "fst (SeenAdd (en_now E) (m_ID msg) s)"
    using assms(1,3,4,5) by (simp add: dedup_gate_def split: prod.splits)
  have n1: "nd_seen n1 = Some (snd (SeenAdd (en_now E) (m_ID msg) s))"
    using handleMessage_seen [OF assms(7)] assms(1,3,4) by (simp add: gate_seen_def)
  let ?s2 = "fold (\<lambda>(now, y) s. snd (SeenAdd now y s)) (recorded ms) (snd (SeenAdd (en_now E) (m_ID msg) s))"
  have n2: "nd_seen n2 = Some ?s2" by (rule run_messages_seen [OF assms(8) n1])
  have "\<not> fst (SeenAdd (en_now E2) (m_ID msg) ?s2)"
    by (rule seen_replay [OF assms(2,4) fresh assms(6)]) (use recorded_bounds [of ms] assms(9,10) in fastforce)+
  then have "SeenAdd (en_now E2) (m_ID msg) ?s2 = (False, ?s2)"
    using assms(4) by (auto simp: SeenAdd_def Let_def split: if_splits)
  then show ?thesis
    using n2 assms(4,11,12) by (simp add: handleMessage_def dedup_gate_def)
qed

subsection \<open>Blocked contacts\<close>

lemma blocked_chat_ignored:
  assumes "m_Type msg = MsgChat" and "blocked (pc_jid (nd_pc n c)) n" and "handleMessage E c msg n = Returns n'"
  shows "nd_events n' = nd_events n \<and> nd_History n' = nd_History n \<and> nd_Contacts n' = nd_Contacts n \<and> nd_out n' = nd_out n \<and>
     nd_pc n' = nd_pc n \<and> nd_Queue n' = nd_Queue n"
proof (cases "fst (dedup_gate E msg n)")
  case True
  let ?n = "n\<lparr>nd_seen := gate_seen E msg (nd_seen n)\<rparr>"
  have "n' = handle_chat E c msg ?n" using handleMessage_chat [OF assms(1) True] assms(3) by simp
  moreover obtain ok l where "allowInbound E c ?n = (ok, ?n\<lparr>nd_Limiter := l\<rparr>)"
    using allowInbound_state [of E c ?n] by (metis prod.collapse)
  ultimately have "n' = ?n\<lparr>nd_Limiter := l\<rparr>"
    using assms(2) by (auto simp: handle_chat_def blocked_def split: option.splits)
  then show ?thesis by simp
next
  case False
  then show ?thesis using assms(3) by (auto simp: handleMessage_cases)
qed

text \<open>
  C15. A blocked contact's chat messages have no effect: nothing is shown, stored, counted or answered, and a broadcast
  writes nothing to its connections.
\<close>

theorem blocked_chat_has_no_effect:
  assumes "m_Type msg = MsgChat" and "blocked (pc_jid (nd_pc n c)) n" and "handleMessage E c msg n = Returns n'"
  shows "nd_events n' = nd_events n \<and> nd_History n' = nd_History n \<and> nd_Contacts n' = nd_Contacts n \<and> nd_out n' = nd_out n \<and>
     nd_pc n' = nd_pc n \<and> nd_Queue n' = nd_Queue n"
  using assms by (rule blocked_chat_ignored)

text \<open>
  Blocking does not cover the history sync: a \<open>sync_data\<close> message from a blocked contact, past any rate limit,
  is still shown and stored like a chat message.
\<close>

theorem blocked_contact_still_heard:
  assumes "m_Type msg = MsgSyncData" and "blocked (pc_jid (nd_pc n c)) n" and "fst (dedup_gate E msg n)"
    and "pc_sessionKey (nd_pc n c) = Some k" and "open_body E k msg = Some body"
  shows "\<exists>n'. handleMessage E c msg n = Returns n' \<and> blocked (pc_jid (nd_pc n' c)) n' \<and>
     nd_events n' = nd_events n @ [ChatEv (pc_lid (nd_pc n c)) (pc_jid (nd_pc n c)) (pc_name (nd_pc n c)) body]"
  using assms by (simp add: handleMessage_cases dispatch_def handleSyncData_def decryptSessionBody_def show_chat_def blocked_def
      split: option.splits)

subsection \<open>Groups\<close>

lemma group_chat_outcome:
  assumes "m_Type msg = MsgGroupChat" and "handleMessage E c msg n = Returns n'"
  shows "nd_events n' = nd_events n \<and> nd_History n' = nd_History n \<or>
     (\<exists>s room body. nd_Groups n = Some s \<and> GetRoom (m_GroupID msg) s = Some room \<and>
        IsMember (m_GroupID msg) (pc_jid (nd_pc n c)) s \<and> IsMember (m_GroupID msg) (JID_of n) s \<and>
        open_body E (rm_Key room) msg = Some body \<and>
        nd_events n' = nd_events n @ [GroupChatEv (m_GroupID msg) (pc_lid (nd_pc n c)) (pc_jid (nd_pc n c))
                                       (pc_name (nd_pc n c)) body (m_ReplyTo msg)])"
proof (cases "fst (dedup_gate E msg n)")
  case True
  let ?n = "n\<lparr>nd_seen := gate_seen E msg (nd_seen n)\<rparr>"
  have n': "n' = handleGroupChat E c msg ?n"
    using True assms by (simp add: handleMessage_cases dispatch_def)
  obtain ok l where "allowInbound E c ?n = (ok, ?n\<lparr>nd_Limiter := l\<rparr>)"
    using allowInbound_state [of E c ?n] by (metis prod.collapse)
  then show ?thesis
    unfolding n' handleGroupChat_def by (auto simp: count_message_def Let_def split: option.splits)
next
  case False
  then show ?thesis using assms(2) by (auto simp: handleMessage_cases)
qed

text \<open>
  C14. Group messages stay within the group: a group message is shown or stored only if the room is known, both the
  sender of the connection and this node are members of it, and the body opens under the room's key; the event then names
  the room, the authenticated sender and that text. In every other case events and history are unchanged.
\<close>

theorem group_chat_members_only:
  assumes "m_Type msg = MsgGroupChat" and "handleMessage E c msg n = Returns n'"
  shows "nd_events n' = nd_events n \<and> nd_History n' = nd_History n \<or>
     (\<exists>s room body. nd_Groups n = Some s \<and> GetRoom (m_GroupID msg) s = Some room \<and>
        IsMember (m_GroupID msg) (pc_jid (nd_pc n c)) s \<and> IsMember (m_GroupID msg) (JID_of n) s \<and>
        open_body E (rm_Key room) msg = Some body \<and>
        nd_events n' = nd_events n @ [GroupChatEv (m_GroupID msg) (pc_lid (nd_pc n c)) (pc_jid (nd_pc n c))
                                       (pc_name (nd_pc n c)) body (m_ReplyTo msg)])"
  using assms by (rule group_chat_outcome)

text \<open>
  Leaving is not authenticated: a \<open>group_leave\<close> message removes whatever JID it names from whatever room it
  names, on any connection, even one without a session; afterwards nothing that member sends to the room is shown.
\<close>

theorem anyone_can_remove_a_member:
  assumes "m_Type msg = MsgGroupLeave" and "m_GroupID msg \<noteq> ''''" and "fst (dedup_gate E msg n)"
    and "nd_Groups n = Some s" and "map_of (st_rooms s) (m_GroupID msg) = Some room"
  shows "\<exists>n' s'. handleMessage E c msg n = Returns n' \<and> nd_Groups n' = Some s' \<and> \<not> IsMember (m_GroupID msg) (m_JID msg) s' \<and>
     (\<forall>E2 d chat n2. m_Type chat = MsgGroupChat \<longrightarrow> m_GroupID chat = m_GroupID msg \<longrightarrow> pc_jid (nd_pc n d) = m_JID msg \<longrightarrow>
        handleMessage E2 d chat n' = Returns n2 \<longrightarrow> nd_events n2 = nd_events n')"
proof -
  let ?s' = "snd (RemoveMember (en_gw E) (m_GroupID msg) (m_JID msg) s)"
  let ?n' = "n\<lparr>nd_seen := gate_seen E msg (nd_seen n), nd_Groups := Some ?s'\<rparr>"
  have run: "handleMessage E c msg n = Returns ?n'"
    using assms by (simp add: handleMessage_cases dispatch_def handle_group_leave_def)
  have gone: "\<not> IsMember (m_GroupID msg) (m_JID msg) ?s'"
    using assms(5) by (simp add: IsMember_def RemoveMember_def AList.update_conv)
  have "nd_events n2 = nd_events ?n'"
    if "m_Type chat = MsgGroupChat" "m_GroupID chat = m_GroupID msg" "pc_jid (nd_pc n d) = m_JID msg"
      "handleMessage E2 d chat ?n' = Returns n2" for E2 d chat n2
    using group_chat_outcome [OF that(1,4)] that(2,3) gone by auto
  then show ?thesis using run gone by auto
qed

subsection \<open>The history sync\<close>

definition sync_copy :: "primitives \<Rightarrow> nat \<Rightarrow> string \<Rightarrow> ChatMessage \<Rightarrow> nat \<times> Message \<Rightarrow> bool" where
  "sync_copy P c k m cw \<longleftrightarrow> fst cw = c \<and> m_Type (snd cw) = MsgSyncData \<and> m_ReplyTo (snd cw) = cm_ReplyTo m \<and>
     carries P k (cm_Body m) (snd cw)"

lemma sendSyncData_out:
  assumes "pc_sessionKey (nd_pc n c) = Some k" and "aes_key k" and "good_rand E" and "good_cipher (en_P E)"
    and "length (cm_Body m) \<le> MaxDecompressed"
  shows "\<exists>w. nd_out (snd (sendSyncData E c (cm_Body m) (cm_ReplyTo m) n)) = nd_out n @ [w] \<and> sync_copy (en_P E) c k m w \<and>
     nd_pc (snd (sendSyncData E c (cm_Body m) (cm_ReplyTo m) n)) = nd_pc n"
proof -
  obtain ct z where e: "encryptForSend E k (cm_Body m) n = (Some (ct, z), n\<lparr>nd_draws := nd_draws n + 1\<rparr>)"
    using encryptForSend_ok [OF assms(3,2)] .
  show ?thesis
    using assms(1) e sealed_carries [OF e assms(3,4,5)] by (simp add: sendSyncData_def sync_copy_def)
qed

lemma sync_loop_out:
  assumes "pc_sessionKey (nd_pc n c) = Some k" and "aes_key k" and "good_rand E" and "good_cipher (en_P E)"
    and "\<forall>m \<in> set ms. length (cm_Body m) \<le> MaxDecompressed"
  shows "\<exists>ws. nd_out (sync_loop E c ms sent n) = nd_out n @ ws \<and>
     list_all2 (sync_copy (en_P E) c k) (take (50 - sent) (filter (\<lambda>m. syncable m) ms)) ws"
  using assms(1,5)
proof (induction ms arbitrary: sent n)
  case (Cons m ms)
  show ?case
  proof (cases "syncable m \<and> sent < 50")
    case True
    let ?n = "snd (sendSyncData E c (cm_Body m) (cm_ReplyTo m) n)"
    obtain w where w: "nd_out ?n = nd_out n @ [w]" "sync_copy (en_P E) c k m w" "nd_pc ?n = nd_pc n"
      using sendSyncData_out [OF Cons.prems(1) assms(2,3,4)] Cons.prems(2) by (meson list.set_intros(1))
    obtain ws where "nd_out (sync_loop E c ms (Suc sent) ?n) = nd_out ?n @ ws"
        "list_all2 (sync_copy (en_P E) c k) (take (50 - Suc sent) (filter (\<lambda>m. syncable m) ms)) ws"
      using Cons.IH [of ?n "Suc sent"] Cons.prems w(3) by auto
    moreover have "50 - sent = Suc (50 - Suc sent)" using True by arith
    ultimately show ?thesis using True w by (intro exI [of _ "w # ws"]) simp
  next
    case False
    then show ?thesis using Cons.IH [of n sent] Cons.prems by (auto simp: not_less)
  qed
qed simp

text \<open>
  What a sync request discloses: to a peer with a session that asks for the time since \<open>t\<close>, the node sends exactly
  the first fifty direct messages it has sent since \<open>t\<close>, to whomever they were addressed, in history order and readable
  with that peer's session key, and it sends nothing received and nothing from a room.
\<close>

theorem sync_request_discloses_sent_messages:
  assumes "m_Type msg = MsgSyncRequest" and "fst (dedup_gate E msg n)" and "nd_History n = Some h" and "0 < m_SyncSince msg"
    and "pc_sessionKey (nd_pc n c) = Some k" and "length k = 32" and "good_rand E" and "good_cipher (en_P E)"
    and "\<forall>m \<in> set (GetAll h). length (cm_Body m) \<le> MaxDecompressed"
  shows "\<exists>n' ws. handleMessage E c msg n = Returns n' \<and> nd_out n' = nd_out n @ ws \<and> length ws \<le> 50 \<and>
     list_all2 (\<lambda>m (d, w). d = c \<and> m_Type w = MsgSyncData \<and> carries (en_P E) k (cm_Body m) w)
       (take 50 (filter (\<lambda>m. cm_Direction m = ''sent'' \<and> cm_GroupID m = '''') (GetSince (unixTime (m_SyncSince msg)) h))) ws"
proof -
  let ?n = "n\<lparr>nd_seen := gate_seen E msg (nd_seen n)\<rparr>"
  let ?ms = "GetSince (unixTime (m_SyncSince msg)) h"
  have run: "handleMessage E c msg n = Returns (sync_loop E c ?ms 0 ?n)"
    using assms(1-4) by (simp add: handleMessage_cases dispatch_def handleSyncRequest_def)
  have "set ?ms \<subseteq> set (GetAll h)" by (auto simp: GetSince_def GetAll_def)
  then obtain ws where ws: "nd_out (sync_loop E c ?ms 0 ?n) = nd_out n @ ws"
      "list_all2 (sync_copy (en_P E) c k) (take 50 (filter (\<lambda>m. syncable m) ?ms)) ws"
    using sync_loop_out [of ?n c k E ?ms 0] assms(5-9) by (auto simp: subset_iff)
  have "length ws \<le> 50" using list_all2_lengthD [OF ws(2)] by simp
  moreover have "list_all2 (\<lambda>m (d, w). d = c \<and> m_Type w = MsgSyncData \<and> carries (en_P E) k (cm_Body m) w)
      (take 50 (filter (\<lambda>m. syncable m) ?ms)) ws"
    using ws(2) by (rule list_all2_mono) (auto simp: sync_copy_def)
  ultimately show ?thesis using run ws(1) by auto
qed

subsection \<open>Connection attempts\<close>

text \<open>
  C22. Dialling with a bound always ends: with \<open>maxAttempts > 0\<close>, \<open>ConnectWithRetry\<close> returns after at most that many
  attempts, whatever the network answers and the other goroutines do, and it reports either a connection whose session is
  ready or that it gave up at exactly the last attempt.
\<close>

theorem connect_with_retry_ends:
  assumes "0 < maxAttempts"
  shows "\<exists>r n'. retry_loop (nat maxAttempts) E dial wait addr maxAttempts 0 n = Some (r, n') \<and>
     (r = Connected \<and> session_ready addr n' \<or> r = GaveUp maxAttempts)"
proof -
  have ready: "session_ready addr (status_set E ph d n) = session_ready addr n" for n ph d
    by (simp add: session_ready_def status_set_def split: option.splits)
  have "\<exists>r n'. retry_loop k E dial wait addr maxAttempts a n = Some (r, n') \<and>
     (r = Connected \<and> session_ready addr n' \<or> r = GaveUp maxAttempts)"
    if "a + int k = maxAttempts" "a < maxAttempts" for k a n
    using that
  proof (induction k arbitrary: a n)
    case (Suc k)
    show ?case
    proof (cases "a + 1 < maxAttempts")
      case True
      then show ?thesis using Suc assms ready by (auto simp: Let_def split: prod.splits)
    next
      case False
      then have "a + 1 = maxAttempts" using Suc.prems by simp
      then show ?thesis using assms ready by (auto simp: Let_def split: prod.splits)
    qed
  qed simp
  then show ?thesis using assms by simp
qed

subsection \<open>Received files\<close>

text \<open>
  The last chunk of a file stops its connection: a chunk that completes a received transfer makes the handler
  block for ever, so the read loop of that connection never returns, nothing more is read from it and it is never removed.
\<close>

theorem completing_chunk_blocks_connection:
  assumes "m_Type msg = MsgFileChunk" and "fst (dedup_gate E msg n)" and "GetTransfer (m_FileID msg) (nd_Files n) = Some t"
    and "tr_Direction t = ''receive''" and "DecodeChunk (m_ChunkData msg) = Some data"
    and "WriteChunk (en_now E) (m_ChunkIndex msg) data t = (Inr (), t')" and "tr_ChunkTotal t' \<le> tr_chunksRecv t'"
  shows "handleMessage E c msg n = Blocks \<and> read_loop c addr ((E, Some msg) # ls) n = Blocks"
proof -
  have "tr_Direction t' = ''receive''"
    using assms(4,6) by (auto simp: WriteChunk_def Let_def split: if_splits)
  then have "SaveFile s m t' = Blocks" for s m by (simp add: SaveFile_def IsComplete_def RLock_def)
  then have "handleMessage E c msg n = Blocks"
    using assms
    by (simp add: handleMessage_cases dispatch_def handle_file_chunk_def chunk_arrived_def IsComplete_def RLock_def Let_def)
  then show ?thesis by simp
qed

subsection \<open>Witnesses\<close>

abbreviation sample_peer :: Node where "sample_peer \<equiv> linked ''bob'' ''j'' ''b:1'' sample_session ann"

definition sample_msg :: "MsgType \<Rightarrow> string \<Rightarrow> Message" where
  "sample_msg ty mid = (blank ty)\<lparr>m_ID := mid, m_Body := b64_encode (replicate 12 CHR ''n'' @ replicate 12 CHR ''n'' @ ''hi''),
     m_JID := ''j'', m_GroupID := ''g'', m_SyncSince := 1\<rparr>"

lemma sample_msg_fields [simp]:
  "m_Type (sample_msg ty mid) = ty" "m_ID (sample_msg ty mid) = mid" "m_JID (sample_msg ty mid) = ''j''"
  "m_GroupID (sample_msg ty mid) = ''g''" "m_SyncSince (sample_msg ty mid) = 1"
  by (simp_all add: sample_msg_def blank_def)

lemma sample_msg_opens: "open_body sample_env sample_session (sample_msg ty mid) = Some ''hi''"
  by (simp add: open_body_def sample_msg_def blank_def Decrypt_def toy_def Decode_def sample_session_def aes_key_def)

lemma sample_peer_fields [simp]: "nd_Groups ann = None" "nd_History ann = None" "nd_Contacts ann = None" "nd_events ann = []"
  by (simp_all add: ann_def NewNode_def)

theorem replayed_message_ignored_witness:
  "\<exists>n1. handleMessage sample_env 0 (sample_msg MsgChat ''m1'') sample_peer = Returns n1 \<and>
     handleMessage sample_env 3 (sample_msg MsgSyncData ''m1'') n1 = Returns n1"
proof -
  obtain n1 where n1: "handleMessage sample_env 0 (sample_msg MsgChat ''m1'') sample_peer = Returns n1"
    by (simp add: handleMessage_cases dispatch_def)
  then show ?thesis
    using replayed_message_ignored [of sample_peer "NewSeen 10000 Hour" "sample_msg MsgChat ''m1''" sample_env 0 n1 "[]" n1
        "sample_msg MsgSyncData ''m1''" sample_env 3]
    by (auto simp: seen_inv_New, auto simp: NewSeen_def)
qed

definition blocking_book :: ContactBook where
  "blocking_book = \<lparr>cb_contacts = [(''j'', \<lparr>ct_JID = ''j'', ct_Name = ''bob'', ct_DisplayName = '''', ct_LastAddress = '''',
     ct_LastSeen = 0, ct_FirstMet = 0, ct_MessageCount = 0, ct_Favorite = False, ct_Blocked = True, ct_Notes = '''', ct_Tags = []\<rparr>)],
     cb_file = Absent\<rparr>"

lemma sample_blocked: "blocked ''j'' (sample_peer\<lparr>nd_Contacts := Some blocking_book\<rparr>)"
  by (simp add: blocked_def IsBlocked_def blocking_book_def)

theorem blocked_chat_has_no_effect_witness:
  "\<exists>n'. handleMessage sample_env 0 (sample_msg MsgChat ''m1'') (sample_peer\<lparr>nd_Contacts := Some blocking_book\<rparr>) = Returns n' \<and>
     nd_events n' = []"
proof -
  obtain n' where "handleMessage sample_env 0 (sample_msg MsgChat ''m1'') (sample_peer\<lparr>nd_Contacts := Some blocking_book\<rparr>) = Returns n'"
    by (simp add: handleMessage_cases dispatch_def)
  then show ?thesis
    using blocked_chat_has_no_effect [of "sample_msg MsgChat ''m1''" "sample_peer\<lparr>nd_Contacts := Some blocking_book\<rparr>" 0]
      sample_blocked by auto
qed

theorem blocked_contact_still_heard_witness:
  "\<exists>n'. handleMessage sample_env 0 (sample_msg MsgSyncData ''m1'') (sample_peer\<lparr>nd_Contacts := Some blocking_book\<rparr>) = Returns n' \<and>
     nd_events n' = [ChatEv ''lid'' ''j'' ''bob'' ''hi'']"
  using blocked_contact_still_heard [of "sample_msg MsgSyncData ''m1''" "sample_peer\<lparr>nd_Contacts := Some blocking_book\<rparr>" 0
      sample_env sample_session "''hi''"] sample_blocked sample_msg_opens
  by auto

definition sample_store :: Store where
  "sample_store = \<lparr>st_rooms = [(''g'', \<lparr>rm_ID = ''g'', rm_Name = ''room'', rm_Creator = ''j'', rm_Key = sample_session,
     rm_Members = [''j'', JID_of ann], rm_CreatedAt = 5\<rparr>)], st_file = Absent\<rparr>"

theorem group_chat_members_only_witness:
  "\<exists>n'. handleMessage sample_env 0 (sample_msg MsgGroupChat ''m1'') (sample_peer\<lparr>nd_Groups := Some sample_store\<rparr>) = Returns n' \<and>
     (nd_events n' = [] \<or> IsMember ''g'' ''j'' sample_store)"
proof -
  obtain n' where "handleMessage sample_env 0 (sample_msg MsgGroupChat ''m1'') (sample_peer\<lparr>nd_Groups := Some sample_store\<rparr>) = Returns n'"
    by (simp add: handleMessage_cases dispatch_def)
  then show ?thesis
    using group_chat_members_only [of "sample_msg MsgGroupChat ''m1''" sample_env 0 "sample_peer\<lparr>nd_Groups := Some sample_store\<rparr>" n']
    by auto
qed

theorem anyone_can_remove_a_member_witness:
  "\<exists>n' s'. handleMessage sample_env 7 (sample_msg MsgGroupLeave ''m1'') (sample_peer\<lparr>nd_Groups := Some sample_store\<rparr>) = Returns n' \<and>
     nd_Groups n' = Some s' \<and> \<not> IsMember ''g'' ''j'' s'"
  using anyone_can_remove_a_member [of "sample_msg MsgGroupLeave ''m1''" sample_env "sample_peer\<lparr>nd_Groups := Some sample_store\<rparr>"
      sample_store _ 7]
  by (fastforce simp: sample_store_def)

theorem sync_request_discloses_sent_messages_witness:
  "\<exists>n' w. handleMessage sample_env 0 (sample_msg MsgSyncRequest ''m1'')
       (sample_peer\<lparr>nd_History := Some ((empty_history 0 0)\<lparr>h_messages := [(sample ''a'')\<lparr>cm_Timestamp := unixTime 9\<rparr>]\<rparr>)\<rparr>) = Returns n' \<and>
     nd_out n' = [(0, w)] \<and> carries toy sample_session ''hi'' w"
  using sync_request_discloses_sent_messages [of "sample_msg MsgSyncRequest ''m1''" sample_env
      "sample_peer\<lparr>nd_History := Some ((empty_history 0 0)\<lparr>h_messages := [(sample ''a'')\<lparr>cm_Timestamp := unixTime 9\<rparr>]\<rparr>)\<rparr>"
      "(empty_history 0 0)\<lparr>h_messages := [(sample ''a'')\<lparr>cm_Timestamp := unixTime 9\<rparr>]\<rparr>" 0 sample_session] sample_good
  by (auto simp: GetAll_def GetSince_def sample_def unixTime_def list_all2_Cons1)

theorem connect_with_retry_ends_witness:
  "\<exists>r n'. retry_loop 3 sample_env (\<lambda>_. Some ''refused'') (\<lambda>_ n. n) ''b:1'' 3 0 ann = Some (r, n')"
  using connect_with_retry_ends [of 3 sample_env "\<lambda>_. Some ''refused''" "\<lambda>_ n. n" "''b:1''" ann] by auto

theorem completing_chunk_blocks_connection_witness:
  "\<exists>n msg. handleMessage sample_env 0 msg n = Blocks"
proof -
  define t where "t = new_receive 4 5 ''f'' ''a.txt'' ''j'' 1 1"
  define n where "n = sample_peer\<lparr>nd_Files := (nd_Files sample_peer)\<lparr>mg_transfers := [(''f'', t)]\<rparr>\<rparr>"
  define msg where "msg = (blank MsgFileChunk)\<lparr>m_FileID := ''f'', m_ChunkData := EncodeChunk ''x''\<rparr>"
  have "\<exists>t'. WriteChunk (en_now sample_env) (m_ChunkIndex msg) ''x'' t = (Inr (), t') \<and> tr_ChunkTotal t' \<le> tr_chunksRecv t'"
    by (simp add: WriteChunk_def t_def new_receive_def msg_def blank_def Let_def)
  then obtain t' where t': "WriteChunk (en_now sample_env) (m_ChunkIndex msg) ''x'' t = (Inr (), t')" "tr_ChunkTotal t' \<le> tr_chunksRecv t'"
    by blast
  have "DecodeChunk (m_ChunkData msg) = Some ''x''"
    by (simp add: msg_def DecodeChunk_def EncodeChunk_def del: b64_encode.simps)
  then have "handleMessage sample_env 0 msg n = Blocks \<and> read_loop 0 ''b:1'' [(sample_env, Some msg)] n = Blocks"
    by (intro completing_chunk_blocks_connection [OF _ _ _ _ _ t'])
      (simp_all add: n_def msg_def blank_def t_def new_receive_def GetTransfer_def)
  then show ?thesis by blast
qed

end
