(* ===== verification/Go_Net.thy ===== *)
theory Go_Net
  imports Go_Strings
begin

unbundle bit_operations_syntax

text \<open>
  The part of Go's package \<^verbatim>\<open>net\<close> that the address discovery uses: the type \<^verbatim>\<open>net.IP\<close>, its
  classification, its printed form and \<^verbatim>\<open>net.ParseIP\<close>. An IP is the list of its bytes, of length 4 or
  16, and \<open>nil\<close> is the empty list. The lemmas show that parsing inverts printing, for both families.
\<close>

type_synonym ip = "byte list"

abbreviation v4prefix :: ip where "v4prefix \<equiv> [0, 0, 0, 0, 0, 0, 0, 0, 0, 0, 0xFF, 0xFF]"

definition IPv4 :: "byte \<Rightarrow> byte \<Rightarrow> byte \<Rightarrow> byte \<Rightarrow> ip" where
  "IPv4 a b c d = v4prefix @ [a, b, c, d]"

definition To4 :: "ip \<Rightarrow> ip option" where
  "To4 i = (if length i = 4 then Some i
            else if length i = 16 \<and> take 12 i = v4prefix then Some (drop 12 i) else None)"

definition ip_Equal :: "ip \<Rightarrow> ip \<Rightarrow> bool" where
  "ip_Equal i j \<longleftrightarrow>
     (if length i = length j then i = j
      else if length i = 4 \<and> length j = 16 then v4prefix @ i = j
      else length i = 16 \<and> length j = 4 \<and> i = v4prefix @ j)"

subsection \<open>Classification\<close>

definition IsUnspecified :: "ip \<Rightarrow> bool" where
  "IsUnspecified i \<longleftrightarrow> ip_Equal i (IPv4 0 0 0 0) \<or> ip_Equal i (replicate 16 0)"

definition IsLoopback :: "ip \<Rightarrow> bool" where
  "IsLoopback i \<longleftrightarrow> (case To4 i of Some q \<Rightarrow> q ! 0 = 127 | None \<Rightarrow> ip_Equal i (replicate 15 0 @ [1]))"

definition IsMulticast :: "ip \<Rightarrow> bool" where
  "IsMulticast i \<longleftrightarrow>
     (case To4 i of Some q \<Rightarrow> q ! 0 AND 0xF0 = 0xE0 | None \<Rightarrow> length i = 16 \<and> i ! 0 = 0xFF)"

definition IsLinkLocalUnicast :: "ip \<Rightarrow> bool" where
  "IsLinkLocalUnicast i \<longleftrightarrow>
     (case To4 i of Some q \<Rightarrow> q ! 0 = 169 \<and> q ! 1 = 254
      | None \<Rightarrow> length i = 16 \<and> i ! 0 = 0xFE \<and> i ! 1 AND 0xC0 = 0x80)"

definition IsPrivate :: "ip \<Rightarrow> bool" where
  "IsPrivate i \<longleftrightarrow>
     (case To4 i of
        Some q \<Rightarrow> q ! 0 = 10 \<or> q ! 0 = 172 \<and> q ! 1 AND 0xF0 = 16 \<or> q ! 0 = 192 \<and> q ! 1 = 168
      | None \<Rightarrow> length i = 16 \<and> i ! 0 AND 0xFE = 0xFC)"

definition IsGlobalUnicast :: "ip \<Rightarrow> bool" where
  "IsGlobalUnicast i \<longleftrightarrow>
     (length i = 4 \<or> length i = 16) \<and> \<not> ip_Equal i (IPv4 255 255 255 255) \<and> \<not> IsUnspecified i
     \<and> \<not> IsLoopback i \<and> \<not> IsMulticast i \<and> \<not> IsLinkLocalUnicast i"

subsection \<open>Printing\<close>

fun hex_digits :: "nat \<Rightarrow> string" where
  "hex_digits n = (if n < 16 then [hex_digit n] else hex_digits (n div 16) @ [hex_digit (n mod 16)])"

declare hex_digits.simps [simp del]

text \<open>The sixteen-bit groups of an address and the bytes of a group.\<close>

fun groups :: "ip \<Rightarrow> nat list" where
  "groups (a # b # r) = (unat a * 256 + unat b) # groups r"
| "groups _ = []"

definition group_bytes :: "nat \<Rightarrow> byte list" where
  "group_bytes g = [word_of_nat (g div 256), word_of_nat (g mod 256)]"

text \<open>The first longest run of at least two zero groups, as its start and its length.\<close>

fun zeros_scan :: "nat \<Rightarrow> nat \<times> nat \<Rightarrow> nat list \<Rightarrow> nat \<times> nat" where
  "zeros_scan i best [] = best"
| "zeros_scan i best (g # gs) =
     (let l = length (takeWhile (\<lambda>x. x = 0) (g # gs))
      in zeros_scan (i + 1) (if 2 \<le> l \<and> snd best < l then (i, l) else best) gs)"

definition v6_string :: "nat list \<Rightarrow> string" where
  "v6_string gs =
     (case zeros_scan 0 (0, 0) gs of (s, l) \<Rightarrow>
        if l = 0 then Join (map hex_digits gs) '':''
        else Join (map hex_digits (take s gs)) '':'' @ ''::'' @ Join (map hex_digits (drop (s + l) gs)) '':'')"

definition v4_string :: "ip \<Rightarrow> string" where
  "v4_string q = Join (map (\<lambda>b. nat_digits (unat b)) q) ''.''"

definition ip_String :: "ip \<Rightarrow> string" where
  "ip_String i =
     (case To4 i of
        Some q \<Rightarrow> v4_string q
      | None \<Rightarrow> if i = [] then ''<nil>'' else if length i = 16 then v6_string (groups i)
               else CHR ''?'' # EncodeToString (map (\<lambda>b. char_of (unat b)) i))"

subsection \<open>Parsing\<close>

definition octet :: "string \<Rightarrow> bool" where
  "octet s \<longleftrightarrow> s \<noteq> [] \<and> list_all is_digit s \<and> (length s = 1 \<or> hd s \<noteq> CHR ''0'') \<and> digits_value s \<le> 255"

definition parse4 :: "string \<Rightarrow> ip option" where
  "parse4 s =
     (let fs = Split s CHR ''.''
      in if length fs = 4 \<and> list_all octet fs then Some (map (\<lambda>f. word_of_nat (digits_value f)) fs) else None)"

definition is_hex :: "char \<Rightarrow> bool" where "is_hex c \<longleftrightarrow> hex_value c \<noteq> None"

definition hex_number :: "string \<Rightarrow> nat" where
  "hex_number s = foldl (\<lambda>v c. 16 * v + the (hex_value c)) 0 s"

text \<open>The loop of \<^verbatim>\<open>parseIPv6\<close>: the rest of the text, the bytes read and the place of the \<open>::\<close>.\<close>

function parse6 :: "string \<Rightarrow> ip \<Rightarrow> nat option \<Rightarrow> (string \<times> ip \<times> nat option) option" where
  "parse6 s acc ell =
     (if 16 \<le> length acc then Some (s, acc, ell)
      else
        let h = takeWhile is_hex s; r = dropWhile is_hex s; acc' = acc @ group_bytes (hex_number h)
        in if h = [] \<or> 4 < length h then None
           else case r of
             [] \<Rightarrow> Some ([], acc', ell)
           | c # t \<Rightarrow>
               if c = CHR ''.'' then
                 (if ell = None \<and> length acc \<noteq> 12 \<or> 12 < length acc then None
                  else map_option (\<lambda>q. ([], acc @ q, ell)) (parse4 s))
               else if c \<noteq> CHR '':'' then None
               else case t of
                 [] \<Rightarrow> None
               | d # u \<Rightarrow>
                   if d = CHR '':'' then
                     (if ell \<noteq> None then None
                      else if u = [] then Some ([], acc', Some (length acc'))
                      else parse6 u acc' (Some (length acc')))
                   else parse6 t acc' ell)"
  by auto
termination
proof (relation "measure (\<lambda>(s, acc, ell). length s)", goal_cases)
  case (2 s acc ell x y c t d u)
  then show ?case
    using length_dropWhile_le [of is_hex s] by (auto dest!: arg_cong [where f = length])
next
  case (3 s acc ell x y c t d u)
  then show ?case
    using length_dropWhile_le [of is_hex s] by (auto dest!: arg_cong [where f = length])
qed simp

declare parse6.simps [simp del]

definition expand :: "string \<times> ip \<times> nat option \<Rightarrow> ip option" where
  "expand r =
     (case r of (s, acc, ell) \<Rightarrow>
        if s \<noteq> [] then None
        else if length acc < 16 then
          map_option (\<lambda>e. take e acc @ replicate (16 - length acc) 0 @ drop e acc) ell
        else if ell \<noteq> None then None else Some acc)"

definition parse_v6 :: "string \<Rightarrow> ip option" where
  "parse_v6 s =
     (if HasPrefix s ''::'' then
        (if drop 2 s = [] then Some (replicate 16 0)
         else Option.bind (parse6 (drop 2 s) [] (Some 0)) expand)
      else Option.bind (parse6 s [] None) expand)"

text \<open>\<^verbatim>\<open>ParseIP\<close> refuses an address with a zone, so the character \<^verbatim>\<open>%\<close> is never accepted.\<close>

definition ParseIP :: "string \<Rightarrow> ip option" where
  "ParseIP s =
     (case find (\<lambda>c. c = CHR ''.'' \<or> c = CHR '':'' \<or> c = CHR ''%'') s of
        None \<Rightarrow> None
      | Some c \<Rightarrow>
          if c = CHR ''.'' then map_option (\<lambda>q. v4prefix @ q) (parse4 s)
          else if c = CHR ''%'' \<or> CHR ''%'' \<in> set s then None
          else parse_v6 s)"

subsection \<open>Parsing inverts printing\<close>

lemma byte_of_hex_digit: "d < 16 \<Longrightarrow> byte_of (hex_digit d) \<in> {48..57} \<union> {97..102}"
  by (auto simp: hex_digit_def byte_of_char_of)

lemma is_hex_digit [simp]: "d < 16 \<Longrightarrow> is_hex (hex_digit d)"
  by (simp add: is_hex_def)

lemma is_hex_separators [simp]: "\<not> is_hex CHR '':''" "\<not> is_hex CHR ''.''" "\<not> is_hex CHR ''%''"
  by (simp_all add: is_hex_def hex_value_def byte_of_def)

lemma hex_digits_hex: "list_all is_hex (hex_digits n)"
  by (induction n rule: hex_digits.induct) (subst hex_digits.simps, simp)

lemma hex_digits_not_Nil [simp]: "hex_digits n \<noteq> []"
  by (subst hex_digits.simps) simp

lemma hex_number_digits [simp]: "hex_number (hex_digits n) = n"
  by (induction n rule: hex_digits.induct) (subst hex_digits.simps, simp add: hex_number_def)

lemma length_hex_digits: "n < 16 ^ Suc k \<Longrightarrow> length (hex_digits n) \<le> Suc k"
proof (induction k arbitrary: n)
  case 0
  then show ?case by (subst hex_digits.simps) simp
next
  case (Suc k)
  then have "length (hex_digits (n div 16)) \<le> Suc k"
    by (intro Suc.IH) (simp add: less_mult_imp_div_less mult.commute)
  then show ?case by (subst hex_digits.simps) simp
qed

lemma hex_digits_span:
  assumes "r = [] \<or> \<not> is_hex (hd r)"
  shows "takeWhile is_hex (hex_digits g @ r) = hex_digits g" "dropWhile is_hex (hex_digits g @ r) = r"
  using assms hex_digits_hex [of g] by (auto simp: takeWhile_append dropWhile_append list_all_iff
      takeWhile_eq_Nil_iff dropWhile_eq_self_iff)

text \<open>One group at the front of the text.\<close>

lemma parse6_group:
  assumes "g < 65536" and "length acc < 16" and "r = [] \<or> hd r = CHR '':''"
  shows "parse6 (hex_digits g @ r) acc ell =
     (let acc' = acc @ group_bytes g in
      case r of [] \<Rightarrow> Some ([], acc', ell)
      | c # t \<Rightarrow> case t of [] \<Rightarrow> None
        | d # u \<Rightarrow> if d = CHR '':'' then
              (if ell \<noteq> None then None else if u = [] then Some ([], acc', Some (length acc'))
               else parse6 u acc' (Some (length acc')))
            else parse6 t acc' ell)"
proof -
  have r: "r = [] \<or> \<not> is_hex (hd r)" using assms(3) by auto
  have h: "\<not> (hex_digits g = [] \<or> 4 < length (hex_digits g))" using length_hex_digits [of g 3] assms(1) by simp
  have l: "(16 \<le> length acc) = False" using assms(2) by simp
  show ?thesis
    unfolding parse6.simps [of "hex_digits g @ r"] Let_def hex_digits_span [OF r] hex_number_digits l if_False
    using h assms(3) by (cases r) simp_all
qed

definition digits_of :: "nat list \<Rightarrow> string" where
  "digits_of gs = Join (map hex_digits gs) '':''"

definition bytes_of :: "nat list \<Rightarrow> ip" where
  "bytes_of gs = concat (map group_bytes gs)"

lemma length_bytes_of [simp]: "length (bytes_of gs) = 2 * length gs"
  by (induction gs) (auto simp: bytes_of_def group_bytes_def)

lemma hex_digits_Cons: obtains c w where "hex_digits g = c # w" "c \<noteq> CHR '':''"
proof (cases "hex_digits g")
  case (Cons c w)
  then have "is_hex c" using hex_digits_hex [of g] by simp
  then show ?thesis using that Cons by (metis is_hex_separators(1))
qed simp

lemma digits_of_two: "digits_of (g # g' # gs) = hex_digits g @ CHR '':'' # digits_of (g' # gs)"
  by (simp add: digits_of_def)

lemma digits_of_Cons:
  obtains c w where "digits_of (g # gs) = c # w" "c \<noteq> CHR '':''"
proof -
  obtain c w where "hex_digits g = c # w" "c \<noteq> CHR '':''" by (rule hex_digits_Cons)
  then show ?thesis using that by (cases gs) (auto simp: digits_of_def)
qed

lemma parse6_groups:
  assumes "list_all (\<lambda>g. g < 65536) (g # gs)" and "length acc + 2 * length (g # gs) \<le> 16"
  shows "parse6 (digits_of (g # gs)) acc ell = Some ([], acc @ bytes_of (g # gs), ell)"
  using assms
proof (induction gs arbitrary: g acc)
  case Nil
  then show ?case using parse6_group [of g acc "[]" ell] by (simp add: digits_of_def bytes_of_def)
next
  case (Cons g' gs)
  obtain c w where dg: "digits_of (g' # gs) = c # w" "c \<noteq> CHR '':''" by (rule digits_of_Cons)
  have "parse6 (digits_of (g # g' # gs)) acc ell = parse6 (digits_of (g' # gs)) (acc @ group_bytes g) ell"
    using parse6_group [of g acc "CHR '':'' # digits_of (g' # gs)" ell] Cons.prems
    by (simp add: digits_of_two dg)
  also have "\<dots> = Some ([], acc @ bytes_of (g # g' # gs), ell)"
    using Cons.IH [of g' "acc @ group_bytes g"] Cons.prems by (simp add: bytes_of_def group_bytes_def)
  finally show ?case .
qed

lemma parse6_ellipsis:
  assumes "list_all (\<lambda>g. g < 65536) (g # gs)" and "length acc + 2 * length (g # gs) \<le> 16"
  shows "parse6 (digits_of (g # gs) @ CHR '':'' # CHR '':'' # u) acc None =
    (let acc' = acc @ bytes_of (g # gs)
     in if u = [] then Some ([], acc', Some (length acc')) else parse6 u acc' (Some (length acc')))"
  using assms
proof (induction gs arbitrary: g acc)
  case Nil
  then show ?case
    using parse6_group [of g acc "CHR '':'' # CHR '':'' # u" None]
    by (simp add: digits_of_def bytes_of_def)
next
  case (Cons g' gs)
  obtain c w where dg: "digits_of (g' # gs) = c # w" "c \<noteq> CHR '':''" by (rule digits_of_Cons)
  have "parse6 (digits_of (g # g' # gs) @ CHR '':'' # CHR '':'' # u) acc None =
      parse6 (digits_of (g' # gs) @ CHR '':'' # CHR '':'' # u) (acc @ group_bytes g) None"
    using parse6_group [of g acc "CHR '':'' # digits_of (g' # gs) @ CHR '':'' # CHR '':'' # u" None] Cons.prems
    by (simp add: digits_of_two dg)
  then show ?case
    using Cons.IH [of g' "acc @ group_bytes g"] Cons.prems by (simp add: bytes_of_def group_bytes_def)
qed

text \<open>The run that is abbreviated consists of zeros.\<close>

lemma zeros_scan_run:
  assumes "zeros_scan i best gs = (s, l)" and "snd best = 0 \<or> P (fst best) (snd best)"
    and "\<And>k l. k < length gs \<Longrightarrow> 2 \<le> l \<Longrightarrow> k + l \<le> length gs \<Longrightarrow> take l (drop k gs) = replicate l 0 \<Longrightarrow> P (i + k) l"
  shows "l = 0 \<or> P s l"
  using assms
proof (induction i best gs rule: zeros_scan.induct)
  case (2 i best g gs)
  define l' where "l' = length (takeWhile (\<lambda>x. x = 0) (g # gs))"
  have run: "take l' (g # gs) = replicate l' 0" "l' \<le> length (g # gs)"
  proof -
    have "take l' (g # gs) = takeWhile (\<lambda>x. x = 0) (g # gs)"
      by (simp add: l'_def takeWhile_eq_take [symmetric])
    moreover have "takeWhile (\<lambda>x. x = 0) (g # gs) = replicate l' 0"
      unfolding l'_def by (intro replicate_eqI) (auto dest: set_takeWhileD)
    ultimately show "take l' (g # gs) = replicate l' 0" by simp
    show "l' \<le> length (g # gs)" unfolding l'_def by (rule length_takeWhile_le)
  qed
  have best: "2 \<le> l' \<Longrightarrow> P i l'" using "2.prems"(3) [of 0 l'] run by simp
  have tl: "P (i + 1 + k) l" if "k < length gs" "2 \<le> l" "k + l \<le> length gs" "take l (drop k gs) = replicate l 0" for k l
    using "2.prems"(3) [of "Suc k" l] that by simp
  show ?case
    by (rule "2.IH" [OF l'_def])
      (use "2.prems"(1,2) best tl in \<open>auto simp: l'_def Let_def simp del: takeWhile.simps\<close>)
qed simp

lemma zeros_scan_zero:
  assumes "zeros_scan 0 (0, 0) gs = (s, l)" and "l \<noteq> 0"
  shows "s + l \<le> length gs" "gs = take s gs @ replicate l 0 @ drop (s + l) gs" "2 \<le> l"
proof -
  have "l = 0 \<or> (2 \<le> l \<and> s + l \<le> length gs \<and> take l (drop s gs) = replicate l 0)"
    by (rule zeros_scan_run [OF assms(1), where P = "\<lambda>s l. 2 \<le> l \<and> s + l \<le> length gs \<and> take l (drop s gs) = replicate l 0"])
      auto
  then show "s + l \<le> length gs" "2 \<le> l" "gs = take s gs @ replicate l 0 @ drop (s + l) gs"
    using assms(2) by (auto simp: add.commute simp flip: drop_drop)
      (metis append_take_drop_id)
qed

lemma bytes_of_append [simp]: "bytes_of (gs @ hs) = bytes_of gs @ bytes_of hs"
  by (simp add: bytes_of_def)

lemma bytes_of_zeros [simp]: "bytes_of (replicate l 0) = replicate (2 * l) 0"
  by (induction l) (simp_all add: bytes_of_def group_bytes_def)

lemma unat_byte [simp]: "unat b < 256" for b :: byte
  using unsigned_less [of b, where ?'a = nat] by simp

lemma group_bytes_group [simp]: "group_bytes (unat a * 256 + unat b) = [a, b]" for a b :: byte
  using unat_byte [of b] by (simp add: group_bytes_def)

lemma groups_bytes: "even (length i) \<Longrightarrow> bytes_of (groups i) = i \<and> 2 * length (groups i) = length i"
  by (induction i rule: groups.induct) (auto simp: bytes_of_def)

lemma groups_bound: "list_all (\<lambda>g. g < 65536) (groups i)"
proof (induction i rule: groups.induct)
  case (1 a b r)
  have "unat a * 256 + unat b < 65536" using unat_byte [of a] unat_byte [of b] by linarith
  then show ?case using 1 by simp
qed auto

lemma digits_of_Nil [simp]: "digits_of [] = []"
  by (simp add: digits_of_def)

lemma digits_of_eq_Nil [simp]: "digits_of gs = [] \<longleftrightarrow> gs = []"
  by (cases gs) (simp_all, metis digits_of_Cons list.distinct(1))

lemma v6_string_digits:
  "v6_string gs = (case zeros_scan 0 (0, 0) gs of (s, l) \<Rightarrow>
     if l = 0 then digits_of gs else digits_of (take s gs) @ ''::'' @ digits_of (drop (s + l) gs))"
  unfolding v6_string_def digits_of_def ..

lemma parse_v6_plain:
  assumes "length gs = 8" and "list_all (\<lambda>g. g < 65536) gs"
  shows "parse_v6 (digits_of gs) = Some (bytes_of gs)"
proof -
  obtain g hs where gs: "gs = g # hs" using assms(1) by (cases gs) auto
  obtain c w where "digits_of gs = c # w" "c \<noteq> CHR '':''" unfolding gs by (rule digits_of_Cons)
  then have "\<not> HasPrefix (digits_of gs) ''::''" by (simp add: HasPrefix_def)
  then show ?thesis
    using parse6_groups [of g hs "[]" None] assms by (simp add: parse_v6_def gs expand_def)
qed

lemma parse_v6_run:
  assumes "length xs + l + length ys = 8" and "0 < l"
    and "list_all (\<lambda>g. g < 65536) xs" and "list_all (\<lambda>g. g < 65536) ys"
  shows "parse_v6 (digits_of xs @ ''::'' @ digits_of ys) = Some (bytes_of (xs @ replicate l 0 @ ys))"
proof (cases xs)
  case Nil
  then show ?thesis
    using parse6_groups [of "hd ys" "tl ys" "[]" "Some 0"] assms
    by (cases ys) (auto simp: parse_v6_def HasPrefix_def expand_def)
next
  case (Cons g hs)
  obtain c w where "digits_of xs = c # w" "c \<noteq> CHR '':''" unfolding Cons by (rule digits_of_Cons)
  then have np: "\<not> HasPrefix (digits_of xs @ ''::'' @ digits_of ys) ''::''" by (simp add: HasPrefix_def)
  define acc where "acc = bytes_of xs"
  have "parse6 (digits_of xs @ ''::'' @ digits_of ys) [] None = Some ([], acc @ bytes_of ys, Some (length acc))"
    using parse6_ellipsis [of g hs "[]" "digits_of ys"] parse6_groups [of "hd ys" "tl ys" acc "Some (length acc)"] assms
    by (cases ys) (auto simp: Cons acc_def bytes_of_def [of "[]"])
  then show ?thesis
    using np assms by (simp add: parse_v6_def expand_def acc_def Let_def algebra_simps)
qed

lemma parse_v6_string:
  assumes "length gs = 8" and "list_all (\<lambda>g. g < 65536) gs"
  shows "parse_v6 (v6_string gs) = Some (bytes_of gs)"
proof -
  obtain s l where z: "zeros_scan 0 (0, 0) gs = (s, l)" by force
  show ?thesis
  proof (cases "l = 0")
    case True
    then show ?thesis using parse_v6_plain [OF assms] by (simp add: v6_string_digits z)
  next
    case False
    note run = zeros_scan_zero [OF z False]
    have b: "list_all (\<lambda>g. g < 65536) (take s gs)" "list_all (\<lambda>g. g < 65536) (drop (s + l) gs)"
      using assms(2) by (auto simp: list_all_iff dest: in_set_takeD in_set_dropD)
    have "parse_v6 (digits_of (take s gs) @ ''::'' @ digits_of (drop (s + l) gs))
        = Some (bytes_of (take s gs @ replicate l 0 @ drop (s + l) gs))"
      by (rule parse_v6_run) (use run(1,3) assms(1) b in auto)
    then show ?thesis using False run(2) by (simp add: v6_string_digits z)
  qed
qed

lemma set_Join: "set (Join ws sep) \<subseteq> \<Union> (set ` set ws) \<union> set sep"
  by (induction ws sep rule: Join.induct) auto

definition ip_char :: "char \<Rightarrow> bool" where
  "ip_char c \<longleftrightarrow> is_hex c \<or> c = CHR '':'' \<or> c = CHR ''.''"

lemma digits_of_chars: "set (digits_of gs) \<subseteq> {c. is_hex c \<or> c = CHR '':''}"
  using set_Join [of "map hex_digits gs" "'':''"] hex_digits_hex
  by (fastforce simp: digits_of_def list_all_iff)

lemma v6_string_chars: "set (v6_string gs) \<subseteq> {c. is_hex c \<or> c = CHR '':''}"
  using digits_of_chars by (auto simp: v6_string_digits split: prod.splits)

lemma nat_digits_head: "nat_digits n = w \<Longrightarrow> length w = 1 \<or> hd w \<noteq> CHR ''0''"
proof (induction n arbitrary: w rule: nat_digits.induct)
  case (1 n)
  show ?case
  proof (cases "n < 10")
    case True
    then have "w = [digit n]" using 1(2) by (simp add: nat_digits.simps)
    then show ?thesis by simp
  next
    case False
    define v where "v = nat_digits (n div 10)"
    have w: "w = v @ [digit (n mod 10)]" "v \<noteq> []"
      using 1(2) False by (simp_all add: nat_digits.simps [of n] v_def)
    have "hd v \<noteq> CHR ''0''"
    proof (cases "length v = 1")
      case True
      then have "v = [digit (n div 10)]" "n div 10 < 10"
        by (auto simp: v_def nat_digits.simps [of "n div 10"] split: if_splits)
      moreover have "digit (n div 10) \<noteq> CHR ''0''"
        using False \<open>n div 10 < 10\<close> byte_of_digit [of "n div 10"] by (auto simp: byte_of_def)
      ultimately show ?thesis by simp
    qed (use 1(1) False v_def in auto)
    then show ?thesis using w by simp
  qed
qed

lemma octet_digits: "n < 256 \<Longrightarrow> octet (nat_digits n)"
  using nat_digits_head [of n "nat_digits n"] by (simp add: octet_def nat_digits_all)

lemma not_digit [simp]: "\<not> is_digit CHR ''.''" "\<not> is_digit CHR '':''" "\<not> is_digit CHR ''%''"
  by (simp_all add: is_digit_def byte_of_def)

lemma parse4_string:
  assumes "length q = 4"
  shows "parse4 (v4_string q) = Some q"
proof -
  have "Split (v4_string q) CHR ''.'' = map (\<lambda>b. nat_digits (unat b)) q"
    unfolding v4_string_def using assms nat_digits_all
    by (intro Split_Join) (force simp: list_all_iff)+
  then show ?thesis
    using assms by (auto simp: parse4_def list_all_iff octet_digits comp_def)
qed

lemma is_digit_hex: "is_digit c \<Longrightarrow> is_hex c"
  by (simp add: is_digit_def is_hex_def hex_value_def)

lemma v4_string_chars: "set (v4_string q) \<subseteq> {c. is_digit c \<or> c = CHR ''.''}"
  using set_Join [of "map (\<lambda>b. nat_digits (unat b)) q" "''.''"] nat_digits_all
  by (fastforce simp: v4_string_def list_all_iff)

lemma find_first:
  assumes "\<forall>x\<in>set s. P x \<longrightarrow> x = c" and "c \<in> set s" and "P c"
  shows "find P s = Some c"
  using assms(1,2)
proof (induction s)
  case (Cons x s)
  show ?case
  proof (cases "P x")
    case True
    moreover from this Cons.prems(1) have "x = c" by (meson list.set_intros(1))
    ultimately show ?thesis by simp
  next
    case False
    with Cons.prems(2) assms(3) have "c \<in> set s" by (metis set_ConsD)
    then have "find P s = Some c" using Cons.IH Cons.prems(1) by (meson list.set_intros(2))
    with False show ?thesis by simp
  qed
qed simp

lemma ParseIP_v4:
  assumes "length q = 4"
  shows "ParseIP (v4_string q) = Some (v4prefix @ q)"
proof -
  have "CHR ''.'' \<in> set (v4_string q)"
    using assms by (auto simp: v4_string_def length_Suc_conv numeral_eq_Suc)
  then have "find (\<lambda>c. c = CHR ''.'' \<or> c = CHR '':'' \<or> c = CHR ''%'') (v4_string q) = Some CHR ''.''"
    using v4_string_chars [of q] by (intro find_first) auto
  then show ?thesis using parse4_string [OF assms] by (simp add: ParseIP_def)
qed

lemma digits_of_colon: "2 \<le> length gs \<Longrightarrow> CHR '':'' \<in> set (digits_of gs)"
  by (cases gs rule: remdups_adj.cases) (simp_all add: digits_of_two)

lemma v6_string_colon: "length gs = 8 \<Longrightarrow> CHR '':'' \<in> set (v6_string gs)"
  using digits_of_colon [of gs] by (cases "zeros_scan 0 (0, 0) gs") (simp add: v6_string_digits)

lemma ParseIP_v6:
  assumes "length i = 16"
  shows "ParseIP (v6_string (groups i)) = Some i"
proof -
  have g: "length (groups i) = 8" "bytes_of (groups i) = i"
    using groups_bytes [of i] assms by simp_all
  have "find (\<lambda>c. c = CHR ''.'' \<or> c = CHR '':'' \<or> c = CHR ''%'') (v6_string (groups i)) = Some CHR '':''"
    using v6_string_chars [of "groups i"] v6_string_colon [OF g(1)] by (intro find_first) auto
  moreover have "CHR ''%'' \<notin> set (v6_string (groups i))"
    using v6_string_chars [of "groups i"] by auto
  ultimately show ?thesis
    using parse_v6_string [OF g(1) groups_bound] g(2) by (simp add: ParseIP_def)
qed

text \<open>The sixteen-byte form of an address, the form in which \<^verbatim>\<open>ParseIP\<close> answers.\<close>

definition To16 :: "ip \<Rightarrow> ip" where
  "To16 i = (if length i = 4 then v4prefix @ i else i)"

lemma ParseIP_String:
  assumes "length i = 4 \<or> length i = 16"
  shows "ParseIP (ip_String i) = Some (To16 i)"
proof (cases "To4 i")
  case None
  then show ?thesis using assms ParseIP_v6 [of i] by (auto simp: ip_String_def To4_def To16_def split: if_splits)
next
  case (Some q)
  then have "length q = 4" "To16 i = v4prefix @ q"
    by (auto simp: To4_def To16_def split: if_splits) (metis append_take_drop_id append_Cons append_Nil)
  then show ?thesis using Some ParseIP_v4 by (simp add: ip_String_def)
qed

lemma ip_String_chars:
  assumes "length i = 4 \<or> length i = 16"
  shows "set (ip_String i) \<subseteq> {c. ip_char c}"
proof (cases "To4 i")
  case None
  then show ?thesis
    using assms v6_string_chars [of "groups i"] by (auto simp: ip_String_def ip_char_def To4_def split: if_splits)
next
  case (Some q)
  then show ?thesis
    using v4_string_chars [of q] by (auto simp: ip_String_def ip_char_def is_digit_hex)
qed

lemma ip_String_not_Nil: "length i = 4 \<or> length i = 16 \<Longrightarrow> ip_String i \<noteq> []"
  using ParseIP_String [of i] by (auto simp: ParseIP_def)

lemma ip_String_colon:
  assumes "length i = 4 \<or> length i = 16"
  shows "CHR '':'' \<in> set (ip_String i) \<longleftrightarrow> To4 i = None"
proof (cases "To4 i")
  case None
  then have "length (groups i) = 8" "length i = 16" using assms groups_bytes [of i] by (auto simp: To4_def split: if_splits)
  then show ?thesis using None v6_string_colon [of "groups i"] by (auto simp: ip_String_def)
next
  case (Some q)
  then show ?thesis using v4_string_chars [of q] by (auto simp: ip_String_def)
qed

end
