(* ===== verification/Stun.thy ===== *)
theory Stun
  imports Go_Net
begin

unbundle bit_operations_syntax

text \<open>
  The STUN client, \<^verbatim>\<open>src/internal/nat/stun.go\<close>, with its machine integers at their width. A Go error
  is the left side of a sum; an index out of range is the outcome \<open>Panics\<close>. The socket is the record
  \<open>stun_io\<close> of its answers. The theorems compare the parser with the encoding of RFC 5389.
\<close>

subsection \<open>Big-endian numbers\<close>

definition Uint16 :: "byte list \<Rightarrow> 16 word" where
  "Uint16 b = ucast (b ! 1) OR push_bit 8 (ucast (b ! 0))"

definition Uint32 :: "byte list \<Rightarrow> 32 word" where
  "Uint32 b = ucast (b ! 3) OR push_bit 8 (ucast (b ! 2)) OR push_bit 16 (ucast (b ! 1)) OR push_bit 24 (ucast (b ! 0))"

definition PutUint16 :: "16 word \<Rightarrow> byte list" where
  "PutUint16 w = [ucast (drop_bit 8 w), ucast w]"

definition PutUint32 :: "32 word \<Rightarrow> byte list" where
  "PutUint32 w = [ucast (drop_bit 24 w), ucast (drop_bit 16 w), ucast (drop_bit 8 w), ucast w]"

lemma Uint16_Put [simp]: "Uint16 (PutUint16 w) = w"
  by (rule bit_word_eqI) (auto simp: Uint16_def PutUint16_def bit_simps)

lemma Uint32_Put [simp]: "Uint32 (PutUint32 w) = w"
proof (rule bit_word_eqI)
  fix n assume "n < LENGTH(32)"
  then have "n < 32" "24 \<le> n \<Longrightarrow> 24 + (n - 24) = n" "16 \<le> n \<Longrightarrow> 16 + (n - 16) = n" by simp_all
  then show "bit (Uint32 (PutUint32 w)) n = bit w n"
    by (cases "8 \<le> n"; cases "16 \<le> n"; cases "24 \<le> n") (auto simp: Uint32_def PutUint32_def bit_simps)
qed

lemma PutUint32_Uint32: "PutUint32 (Uint32 [a, b, c, d]) = [a, b, c, d]"
  by (simp add: PutUint32_def Uint32_def) (intro conjI bit_word_eqI; auto simp: bit_simps dest: bit_imp_le_length)

lemma PutUint32_XOR: "PutUint32 (v XOR w) = map2 (\<lambda>a b. a XOR b) (PutUint32 v) (PutUint32 w)"
  by (simp add: PutUint32_def) (intro conjI bit_word_eqI; auto simp: bit_simps)

lemma length_Put [simp]: "length (PutUint16 w) = 2" "length (PutUint32 v) = 4"
  by (simp_all add: PutUint16_def PutUint32_def)

subsection \<open>Messages\<close>

definition stunMagicCookie :: "32 word" where "stunMagicCookie = 0x2112A442"

abbreviation bindingRequest :: "16 word" where "bindingRequest \<equiv> 0x0001"
abbreviation bindingSuccessResp :: "16 word" where "bindingSuccessResp \<equiv> 0x0101"
abbreviation attrMappedAddress :: "16 word" where "attrMappedAddress \<equiv> 0x0001"
abbreviation attrXorMappedAddress :: "16 word" where "attrXorMappedAddress \<equiv> 0x0020"
abbreviation familyIPv4 :: byte where "familyIPv4 \<equiv> 0x01"
abbreviation familyIPv6 :: byte where "familyIPv6 \<equiv> 0x02"

record PublicAddr =
  pa_IP :: string
  pa_Port :: int

definition PublicAddrString :: "PublicAddr \<Rightarrow> string" where
  "PublicAddrString p =
     (if Contains (pa_IP p) '':'' then ''['' @ pa_IP p @ '']:'' @ Itoa (pa_Port p)
      else pa_IP p @ '':'' @ Itoa (pa_Port p))"

text \<open>\<^verbatim>\<open>copy(packet[8:20], txID)\<close> writes at most twelve bytes and leaves the rest zero.\<close>

definition buildBindingRequest :: "byte list \<Rightarrow> byte list" where
  "buildBindingRequest txID =
     PutUint16 bindingRequest @ PutUint16 0 @ PutUint32 stunMagicCookie
     @ take 12 txID @ replicate (12 - length txID) 0"

definition parseXorMappedAddress :: "byte list \<Rightarrow> byte list \<Rightarrow> string + PublicAddr" where
  "parseXorMappedAddress val txID =
     (if length val < 4 then Inl ''xor-mapped address too short''
      else if val ! 1 = familyIPv4 then
        (if length val < 8 then Inl ''xor-mapped IPv4 too short''
         else
           let port = Uint16 (take 2 (drop 2 val)) XOR ucast (drop_bit 16 stunMagicCookie);
               addr = Uint32 (take 4 (drop 4 val)) XOR stunMagicCookie;
               i = IPv4 (ucast (drop_bit 24 addr)) (ucast (drop_bit 16 addr)) (ucast (drop_bit 8 addr)) (ucast addr)
           in Inr \<lparr>pa_IP = ip_String i, pa_Port = uint port\<rparr>)
      else if val ! 1 = familyIPv6 then
        (if length val < 20 \<or> length txID \<noteq> 12 then Inl ''xor-mapped IPv6 too short''
         else
           let port = Uint16 (take 2 (drop 2 val)) XOR ucast (drop_bit 16 stunMagicCookie);
               mask = PutUint32 stunMagicCookie @ txID;
               raw = map2 (\<lambda>v m. v XOR m) (take 16 (drop 4 val)) mask
           in Inr \<lparr>pa_IP = ip_String raw, pa_Port = uint port\<rparr>)
      else Inl ''unsupported address family'')"

definition parseMappedAddress :: "byte list \<Rightarrow> string + PublicAddr" where
  "parseMappedAddress val =
     (if length val < 4 then Inl ''mapped address too short''
      else if val ! 1 = familyIPv4 then
        (if length val < 8 then Inl ''only IPv4 supported''
         else Inr \<lparr>pa_IP = ip_String (IPv4 (val ! 4) (val ! 5) (val ! 6) (val ! 7)),
                   pa_Port = uint (Uint16 (take 2 (drop 2 val)))\<rparr>)
      else if val ! 1 = familyIPv6 then
        (if length val < 20 then Inl ''mapped IPv6 too short''
         else Inr \<lparr>pa_IP = ip_String (take 16 (drop 4 val)), pa_Port = uint (Uint16 (take 2 (drop 2 val)))\<rparr>)
      else Inl ''unsupported address family'')"

text \<open>The \<open>switch\<close> on the type of one attribute, and the padding of its length.\<close>

definition take_attr :: "byte list \<Rightarrow> 16 word \<Rightarrow> byte list \<Rightarrow> PublicAddr option \<Rightarrow> PublicAddr option" where
  "take_attr txID attrType val mapped =
     (if attrType = attrXorMappedAddress then
        (case parseXorMappedAddress val txID of Inr addr \<Rightarrow> Some addr | Inl _ \<Rightarrow> mapped)
      else if attrType = attrMappedAddress then
        (if mapped = None then
           (case parseMappedAddress val of Inr addr \<Rightarrow> Some addr | Inl _ \<Rightarrow> mapped)
         else mapped)
      else mapped)"

definition padded :: "nat \<Rightarrow> nat" where
  "padded n = (if n mod 4 \<noteq> 0 then n + (4 - n mod 4) else n)"

text \<open>The bound \<^verbatim>\<open>4+attrLen\<close> of the slice is computed in sixteen bits; when it wraps around, the slice panics.\<close>

function attr_loop :: "byte list \<Rightarrow> byte list \<Rightarrow> PublicAddr option \<Rightarrow> PublicAddr option outcome" where
  "attr_loop txID body mapped =
     (if length body < 4 then Returns mapped
      else
        let attrType = Uint16 (take 2 body); attrLen = Uint16 (take 2 (drop 2 body))
        in if length body < unat attrLen + 4 then Returns mapped
           else if unat (4 + attrLen) < 4 then Panics
           else
             let val = take (unat (4 + attrLen) - 4) (drop 4 body);
                 mapped' = take_attr txID attrType val mapped
             in if length body < padded (unat attrLen) + 4 then Returns mapped'
                else attr_loop txID (drop (4 + padded (unat attrLen)) body) mapped')"
  by auto
termination
  by (relation "measure (\<lambda>(txID, body, mapped). length body)") auto

declare attr_loop.simps [simp del]

definition parseMappedAttribute :: "byte list \<Rightarrow> byte list \<Rightarrow> PublicAddr option outcome" where
  "parseMappedAttribute body txID = attr_loop txID body None"

text \<open>The comparison of the transaction identifiers indexes the expected one with the range of the other.\<close>

fun same_txID :: "byte list \<Rightarrow> byte list \<Rightarrow> bool outcome" where
  "same_txID [] expected = Returns True"
| "same_txID (t # ts) [] = Panics"
| "same_txID (t # ts) (e # es) = (if t \<noteq> e then Returns False else same_txID ts es)"

definition hex4 :: "16 word \<Rightarrow> string" where
  "hex4 w = (let ds = hex_digits (unat w) in replicate (4 - length ds) CHR ''0'' @ ds)"

definition parseBindingResponse :: "byte list \<Rightarrow> byte list \<Rightarrow> (string + PublicAddr) outcome" where
  "parseBindingResponse data expectedTxID =
     (if length data < 20 then Returns (Inl ''stun response too short'')
      else
        let msgType = Uint16 (take 2 data); msgLen = Uint16 (take 2 (drop 2 data));
            magic = Uint32 (take 4 (drop 4 data)); txID = take 12 (drop 8 data)
        in if magic \<noteq> stunMagicCookie then Returns (Inl ''stun magic cookie mismatch'')
           else if msgType \<noteq> bindingSuccessResp then Returns (Inl (''stun not successful, type=0x'' @ hex4 msgType))
           else bind_outcome (same_txID txID expectedTxID) (\<lambda>same.
             if \<not> same then Returns (Inl ''stun transaction id mismatch'')
             else bind_outcome (parseMappedAttribute (take (unat msgLen) (drop 20 data)) txID) (\<lambda>mapped.
               Returns (case mapped of
                 None \<Rightarrow> Inl ''stun response has no recognized address attribute''
               | Some addr \<Rightarrow> Inr addr))))"

subsection \<open>The query\<close>

text \<open>\<open>st_reply\<close> is what the socket answers to a request: the first datagram that arrives within the time limit.\<close>

record stun_io =
  st_resolve :: "string option"
  st_rand :: "string + byte list"
  st_deadline :: "string option"
  st_write :: "string option"
  st_reply :: "byte list \<Rightarrow> string + byte list"

definition DiscoverPublicAddr :: "stun_io \<Rightarrow> (string + PublicAddr) outcome" where
  "DiscoverPublicAddr io =
     (case st_resolve io of
        Some err \<Rightarrow> Returns (Inl (''resolve stun server: '' @ err))
      | None \<Rightarrow>
          (case st_rand io of
             Inl err \<Rightarrow> Returns (Inl err)
           | Inr txID \<Rightarrow>
               (case st_deadline io of
                  Some err \<Rightarrow> Returns (Inl err)
                | None \<Rightarrow>
                    (case st_write io of
                       Some err \<Rightarrow> Returns (Inl (''send stun request: '' @ err))
                     | None \<Rightarrow>
                         (case st_reply io (buildBindingRequest txID) of
                            Inl err \<Rightarrow> Returns (Inl (''no stun response (firewall/strict NAT, or server down): '' @ err))
                          | Inr datagram \<Rightarrow> parseBindingResponse (take 512 datagram) txID)))))"

subsection \<open>The encoding of RFC 5389\<close>

text \<open>The value of an XOR-MAPPED-ADDRESS attribute, an attribute, and a binding response.\<close>

definition xor_value :: "byte list \<Rightarrow> ip \<Rightarrow> 16 word \<Rightarrow> byte list" where
  "xor_value txID i port =
     (let (fam, raw) = (case To4 i of Some q \<Rightarrow> (familyIPv4, q) | None \<Rightarrow> (familyIPv6, i))
      in [0, fam] @ PutUint16 (port XOR ucast (drop_bit 16 stunMagicCookie))
         @ map2 (\<lambda>a m. a XOR m) raw (PutUint32 stunMagicCookie @ txID))"

definition attr_bytes :: "16 word \<times> byte list \<Rightarrow> byte list" where
  "attr_bytes a = (case a of (t, v) \<Rightarrow>
     PutUint16 t @ PutUint16 (word_of_nat (length v)) @ v @ replicate (padded (length v) - length v) 0)"

definition response :: "byte list \<Rightarrow> (16 word \<times> byte list) list \<Rightarrow> byte list" where
  "response txID as =
     (let body = concat (map attr_bytes as)
      in PutUint16 bindingSuccessResp @ PutUint16 (word_of_nat (length body))
         @ PutUint32 stunMagicCookie @ txID @ body)"

text \<open>What a client is to take from the attributes: the last readable XOR-MAPPED-ADDRESS, and without
  one the first readable MAPPED-ADDRESS.\<close>

definition readable :: "(byte list \<Rightarrow> string + PublicAddr) \<Rightarrow> 16 word \<Rightarrow> (16 word \<times> byte list) list \<Rightarrow> PublicAddr list" where
  "readable parse ty as = [projr (parse v). (t, v) \<leftarrow> as, t = ty \<and> isl (parse v) = False]"

definition preferred :: "byte list \<Rightarrow> (16 word \<times> byte list) list \<Rightarrow> PublicAddr option" where
  "preferred txID as =
     (let xs = readable (\<lambda>v. parseXorMappedAddress v txID) attrXorMappedAddress as;
          ms = readable parseMappedAddress attrMappedAddress as
      in if xs \<noteq> [] then Some (last xs) else if ms \<noteq> [] then Some (hd ms) else None)"

lemma zip_XOR_cancel: "length a \<le> length m \<Longrightarrow> map2 (\<lambda>x y. x XOR y) (map2 (\<lambda>x y. x XOR y) a m) m = (a :: byte list)"
  by (induction a m rule: list_induct2') (auto simp: xor.assoc)

lemma parse_xor_value:
  assumes "length i = 4 \<or> length i = 16" and "length txID = 12"
  shows "parseXorMappedAddress (xor_value txID i port) txID = Inr \<lparr>pa_IP = ip_String i, pa_Port = uint port\<rparr>"
proof (cases "To4 i")
  case None
  then have "length i = 16" using assms(1) by (auto simp: To4_def)
  then show ?thesis
    using None assms(2) zip_XOR_cancel [of i "PutUint32 stunMagicCookie @ txID"]
    by (simp add: parseXorMappedAddress_def xor_value_def Let_def xor.assoc take_zip)
next
  case (Some q)
  then have "length q = 4" by (auto simp: To4_def split: if_splits)
  then obtain a b c d where q: "q = [a, b, c, d]" by (auto simp: numeral_eq_Suc length_Suc_conv)
  define m where "m = PutUint32 stunMagicCookie"
  obtain e f g h where m: "m = [e, f, g, h]" by (simp add: m_def PutUint32_def)
  have "PutUint32 (Uint32 [a XOR e, b XOR f, c XOR g, d XOR h] XOR stunMagicCookie) = [a, b, c, d]"
    unfolding PutUint32_XOR PutUint32_Uint32 m_def [symmetric] m by (simp add: xor.assoc)
  then show ?thesis
    using Some by (simp add: parseXorMappedAddress_def xor_value_def Let_def xor.assoc q m m_def [symmetric]
        PutUint32_def [of "_ XOR _"] ip_String_def To4_def IPv4_def)
qed

lemma padded_ge: "n \<le> padded n"
  unfolding padded_def by presburger

lemma attr_loop_attr:
  assumes "length v < 65532"
  shows "attr_loop txID (attr_bytes (t, v) @ r) mapped = attr_loop txID r (take_attr txID t v mapped)"
proof -
  have n: "unat (word_of_nat (length v) :: 16 word) = length v"
    using assms by (simp add: unat_of_nat take_bit_nat_eq_self)
  have n4: "unat (4 + word_of_nat (length v) :: 16 word) = length v + 4"
  proof -
    have "4 + word_of_nat (length v) = (word_of_nat (length v + 4) :: 16 word)" by simp
    then show ?thesis using assms by (simp only: unat_of_nat) (simp add: take_bit_nat_eq_self)
  qed
  have "attr_bytes (t, v) @ r = PutUint16 t @ PutUint16 (word_of_nat (length v))
      @ v @ replicate (padded (length v) - length v) 0 @ r" by (simp add: attr_bytes_def)
  then show ?thesis
    using padded_ge [of "length v"]
    by (simp only:) (subst attr_loop.simps, simp add: Let_def n n4)
qed

lemma attr_loop_attrs:
  assumes "list_all (\<lambda>(t, v). length v < 65532) as"
  shows "attr_loop txID (concat (map attr_bytes as)) mapped
    = Returns (foldl (\<lambda>m (t, v). take_attr txID t v m) mapped as)"
  using assms
proof (induction as arbitrary: mapped)
  case Nil
  then show ?case by (simp add: attr_loop.simps)
next
  case (Cons a as)
  then show ?case by (cases a) (simp add: attr_loop_attr)
qed

lemma take_attrs_preferred:
  "foldl (\<lambda>m (t, v). take_attr txID t v m) mapped as =
     (let xs = readable (\<lambda>v. parseXorMappedAddress v txID) attrXorMappedAddress as;
          ms = readable parseMappedAddress attrMappedAddress as
      in if xs \<noteq> [] then Some (last xs) else if mapped \<noteq> None then mapped
         else if ms \<noteq> [] then Some (hd ms) else None)"
proof (induction as arbitrary: mapped)
  case (Cons a as)
  obtain t v where "a = (t, v)" by force
  then show ?case
    using Cons by (auto simp: take_attr_def readable_def Let_def split: sum.splits)
qed (simp add: readable_def)

lemma parse_response:
  assumes "length txID = 12" and "length (concat (map attr_bytes as)) < 65536"
    and "list_all (\<lambda>(t, v). length v < 65532) as"
  shows "parseBindingResponse (response txID as) txID = Returns
    (case preferred txID as of
       None \<Rightarrow> Inl ''stun response has no recognized address attribute'' | Some addr \<Rightarrow> Inr addr)"
proof -
  define body where "body = concat (map attr_bytes as)"
  have n: "unat (word_of_nat (length body) :: 16 word) = length body"
    using assms(2) by (simp add: body_def unat_of_nat take_bit_nat_eq_self)
  have same: "same_txID txID txID = Returns True" by (induction txID) auto
  have "parseMappedAttribute body txID = Returns (preferred txID as)"
    using attr_loop_attrs [OF assms(3)] take_attrs_preferred [of txID None as]
    by (simp add: parseMappedAttribute_def body_def preferred_def Let_def)
  then show ?thesis
    using assms(1) same n by (simp add: parseBindingResponse_def response_def Let_def flip: body_def)
qed

lemma attr_loop_returns:
  assumes "length body < 65536"
  shows "\<exists>m. attr_loop txID body mapped = Returns m"
  using assms
proof (induction txID body mapped rule: attr_loop.induct)
  case (1 txID body mapped)
  define n where "n = Uint16 (take 2 (drop 2 body))"
  have "\<not> unat (4 + n) < 4" if "unat n + 4 \<le> length body"
  proof -
    have "unat n + 4 < 2 ^ LENGTH(16)" using that 1(2) by simp
    then have "unat (n + 4) = unat n + 4" by (simp add: unat_word_ariths take_bit_nat_eq_self)
    then show ?thesis by (simp add: add.commute)
  qed
  then show ?case
    using 1 by (subst attr_loop.simps) (simp add: Let_def flip: n_def)
qed

lemma same_txID_iff: "length ts = length es \<Longrightarrow> same_txID ts es = Returns (ts = es)"
  by (induction ts es rule: list_induct2) auto

text \<open>
  The parser of STUN answers returns for every datagram, without panic in spite of the
  sixteen-bit bound of its slice, and an address is taken only from an answer that carries the magic
  cookie, the type of a success response and the transaction identifier of the request.\<close>

theorem stun_parser_total_and_matching:
  assumes "length expectedTxID = 12"
  shows "\<exists>r. parseBindingResponse data expectedTxID = Returns r
    \<and> (\<forall>a. r = Inr a \<longrightarrow> take 12 (drop 8 data) = expectedTxID
          \<and> Uint32 (take 4 (drop 4 data)) = stunMagicCookie \<and> Uint16 (take 2 data) = bindingSuccessResp)"
proof (cases "length data < 20")
  case True
  then show ?thesis by (simp add: parseBindingResponse_def)
next
  case False
  define body where "body = take (unat (Uint16 (take 2 (drop 2 data)))) (drop 20 data)"
  have "unat (Uint16 (take 2 (drop 2 data))) < 65536"
    using unsigned_less [of "Uint16 (take 2 (drop 2 data))", where ?'a = nat] by simp
  then have "length body < 65536" by (auto simp: body_def)
  then obtain m where "parseMappedAttribute body (take 12 (drop 8 data)) = Returns m"
    using attr_loop_returns parseMappedAttribute_def by metis
  moreover have "same_txID (take 12 (drop 8 data)) expectedTxID = Returns (take 12 (drop 8 data) = expectedTxID)"
    using False assms by (intro same_txID_iff) simp
  ultimately show ?thesis
    using False by (auto simp: parseBindingResponse_def Let_def body_def split: option.splits)
qed

text \<open>
  C24. The public address. A server that answers with a binding response whose last XOR-MAPPED-ADDRESS
  attribute states an address and a port, of either family and among any other attributes, makes the
  query return exactly them, in the form from which \<^verbatim>\<open>net.ParseIP\<close> reads the address back.\<close>

theorem stun_finds_public_address:
  assumes "st_resolve io = None" and "st_rand io = Inr txID" and "st_deadline io = None" and "st_write io = None"
    and "length txID = 12" and "length i = 4 \<or> length i = 16"
    and "as = before @ (attrXorMappedAddress, xor_value txID i port) # after"
    and "list_all (\<lambda>(t, v). t \<noteq> attrXorMappedAddress) after"
    and "st_reply io (buildBindingRequest txID) = Inr (response txID as)" and "length (response txID as) \<le> 512"
  shows "DiscoverPublicAddr io = Returns (Inr \<lparr>pa_IP = ip_String i, pa_Port = uint port\<rparr>)
    \<and> ParseIP (ip_String i) = Some (To16 i)"
proof -
  have body: "length (concat (map attr_bytes as)) \<le> 492"
    using assms(5,10) by (simp add: response_def Let_def)
  have "length v < 65532" if "(t, v) \<in> set as" for t v
  proof -
    have "length (attr_bytes (t, v)) \<le> length (concat (map attr_bytes as))"
      using that by (induction as) auto
    then show ?thesis using body by (simp add: attr_bytes_def)
  qed
  then have "list_all (\<lambda>(t, v). length v < 65532) as" by (auto simp: list_all_iff)
  then have parse: "parseBindingResponse (response txID as) txID = Returns (case preferred txID as of
      None \<Rightarrow> Inl ''stun response has no recognized address attribute'' | Some addr \<Rightarrow> Inr addr)"
    using body assms(5) by (intro parse_response) auto
  have "readable (\<lambda>v. parseXorMappedAddress v txID) attrXorMappedAddress after = []"
    using assms(8) by (induction after) (auto simp: readable_def)
  then have "preferred txID as = Some \<lparr>pa_IP = ip_String i, pa_Port = uint port\<rparr>"
    using parse_xor_value [OF assms(6,5)] by (simp add: preferred_def readable_def assms(7))
  then show ?thesis
    using assms parse ParseIP_String [OF assms(6)] by (simp add: DiscoverPublicAddr_def)
qed

definition sample_txID :: "byte list" where
  "sample_txID = [1, 2, 3, 4, 5, 6, 7, 8, 9, 10, 11, 12]"

definition sample_reply :: "byte list" where
  "sample_reply = response sample_txID
     [(attrMappedAddress, [0, 1, 0, 80, 10, 0, 0, 1]), (attrXorMappedAddress, xor_value sample_txID [203, 0, 113, 5] 40000),
      (0x8022, [107, 111, 114])]"

definition sample_io :: stun_io where
  "sample_io = \<lparr>st_resolve = None, st_rand = Inr sample_txID, st_deadline = None, st_write = None,
     st_reply = (\<lambda>req. Inr sample_reply)\<rparr>"

theorem stun_finds_public_address_witness:
  "DiscoverPublicAddr sample_io = Returns (Inr \<lparr>pa_IP = ip_String [203, 0, 113, 5], pa_Port = 40000\<rparr>)
   \<and> ParseIP (ip_String [203, 0, 113, 5]) = Some (To16 [203, 0, 113, 5])"
proof -
  have l: "length sample_reply \<le> 512"
    by (simp add: sample_reply_def response_def attr_bytes_def padded_def xor_value_def sample_txID_def To4_def)
  show ?thesis
    using stun_finds_public_address [where io = sample_io and txID = sample_txID and i = "[203, 0, 113, 5]"
        and port = 40000 and before = "[(attrMappedAddress, [0, 1, 0, 80, 10, 0, 0, 1])]"
        and after = "[(0x8022, [107, 111, 114])]", OF _ _ _ _ _ _ refl]
      l by (simp add: sample_io_def sample_txID_def [THEN arg_cong [where f = length]] sample_reply_def)
qed

theorem stun_parser_total_and_matching_witness:
  "length sample_txID = 12 \<and> (\<exists>r. parseBindingResponse sample_reply sample_txID = Returns r
    \<and> (\<forall>a. r = Inr a \<longrightarrow> take 12 (drop 8 sample_reply) = sample_txID
          \<and> Uint32 (take 4 (drop 4 sample_reply)) = stunMagicCookie \<and> Uint16 (take 2 sample_reply) = bindingSuccessResp))"
proof -
  have "length sample_txID = 12" by (simp add: sample_txID_def)
  then show ?thesis using stun_parser_total_and_matching [of sample_txID sample_reply] by blast
qed

end
