(* ===== verification/Nat_Candidates.thy ===== *)
theory Nat_Candidates
  imports Stun Go_Base64 "HOL-Library.List_Lexorder" "HOL-Library.Char_ord"
begin

text \<open>
  Candidate addresses, \<^verbatim>\<open>src/internal/nat/candidate.go\<close>: gathering, priorities, ordering,
  de-duplication and the bundle that is shared out of band. The interfaces of the machine are an
  argument (\<open>None\<close> where the system call fails), as are the JSON codec of a bundle and SHA-256.
\<close>

subsection \<open>Candidates\<close>

type_synonym CandidateType = string

abbreviation CandidateHost :: CandidateType where "CandidateHost \<equiv> ''host''"
abbreviation CandidateSrflx :: CandidateType where "CandidateSrflx \<equiv> ''srflx''"

record Candidate =
  ca_ID :: string
  ca_Type :: CandidateType
  ca_IP :: string
  ca_Port :: int
  ca_Interface :: string
  ca_Transport :: string
  ca_Priority :: int

definition Address :: "Candidate \<Rightarrow> string" where
  "Address c =
     (if Contains (ca_IP c) '':'' \<and> \<not> HasPrefix (ca_IP c) ''['' then ''['' @ ca_IP c @ '']:'' @ Itoa (ca_Port c)
      else ca_IP c @ '':'' @ Itoa (ca_Port c))"

datatype StrategyStep = StepDirectLAN | StepIPv6 | StepPublicUDP | StepPunching | StepFailed

fun StepString :: "StrategyStep \<Rightarrow> string" where
  "StepString StepDirectLAN = ''direct-lan''"
| "StepString StepIPv6 = ''ipv6-direct''"
| "StepString StepPublicUDP = ''public-udp''"
| "StepString StepPunching = ''hole-punching''"
| "StepString StepFailed = ''failed''"

definition StepFor :: "Candidate \<Rightarrow> StrategyStep" where
  "StepFor c =
     (let isV6 = (case ParseIP (ca_IP c) of None \<Rightarrow> False | Some i \<Rightarrow> To4 i = None \<and> Contains (ca_IP c) '':'')
      in if ca_Type c = CandidateHost \<and> \<not> isV6 then StepDirectLAN
         else if ca_Type c = CandidateHost \<and> isV6 then StepIPv6
         else if ca_Type c = CandidateSrflx \<and> \<not> isV6 then StepPublicUDP
         else if ca_Type c = CandidateSrflx \<and> isV6 then StepPublicUDP
         else StepPunching)"

definition PriorityFor :: "CandidateType \<Rightarrow> ip \<Rightarrow> string \<Rightarrow> int" where
  "PriorityFor candidateType i transport =
     (let base0 = (if candidateType = CandidateHost then (if To4 i \<noteq> None then 1000 else 900)
                   else (if To4 i \<noteq> None then 700 else 650));
          base1 = (if transport = ''tcp'' then base0 + 10 else base0);
          base2 = (if IsPrivate i then base1 + 5 else base1)
      in if IsGlobalUnicast i \<and> \<not> IsPrivate i \<and> candidateType = CandidateHost then base2 + 2 else base2)"

subsection \<open>Order and duplicates\<close>

text \<open>The order of \<^verbatim>\<open>Prioritize\<close>: the higher priority first, then the smaller identifier.\<close>

datatype rank = Rank int string

instantiation rank :: linorder
begin

fun less_eq_rank :: "rank \<Rightarrow> rank \<Rightarrow> bool" where
  "less_eq_rank (Rank p i) (Rank q j) \<longleftrightarrow> (if p \<noteq> q then q < p else i \<le> j)"

definition less_rank :: "rank \<Rightarrow> rank \<Rightarrow> bool" where
  "less_rank r s \<longleftrightarrow> r \<le> s \<and> \<not> s \<le> r"

instance
proof
  fix r s t :: rank
  show "r < s \<longleftrightarrow> r \<le> s \<and> \<not> s \<le> r" by (rule less_rank_def)
  show "r \<le> r" by (cases r) simp
  show "r \<le> s \<Longrightarrow> s \<le> t \<Longrightarrow> r \<le> t" by (cases r; cases s; cases t) (auto split: if_splits)
  show "r \<le> s \<Longrightarrow> s \<le> r \<Longrightarrow> r = s" by (cases r; cases s) (auto split: if_splits)
  show "r \<le> s \<or> s \<le> r" by (cases r; cases s) auto
qed

end

definition rank_of :: "Candidate \<Rightarrow> rank" where
  "rank_of c = Rank (ca_Priority c) (ca_ID c)"

definition Prioritize :: "Candidate list \<Rightarrow> Candidate list" where
  "Prioritize cands = sort_key rank_of cands"

definition dedup_key :: "(string \<Rightarrow> string) \<Rightarrow> Candidate \<Rightarrow> string" where
  "dedup_key uni c = ca_Transport c @ ''|'' @ ToLower uni (Address c)"

fun dedup_loop :: "(string \<Rightarrow> string) \<Rightarrow> string list \<Rightarrow> Candidate list \<Rightarrow> Candidate list" where
  "dedup_loop uni seen [] = []"
| "dedup_loop uni seen (c # cs) =
     (if List.member seen (dedup_key uni c) then dedup_loop uni seen cs
      else c # dedup_loop uni (dedup_key uni c # seen) cs)"

definition Deduplicate :: "(string \<Rightarrow> string) \<Rightarrow> Candidate list \<Rightarrow> Candidate list" where
  "Deduplicate uni cands = dedup_loop uni [] cands"

subsection \<open>Gathering\<close>

text \<open>An address of an interface is a \<^verbatim>\<open>*net.IPNet\<close>, a \<^verbatim>\<open>*net.IPAddr\<close> or of another type.\<close>

datatype ifaddr = IPNet ip | IPAddr ip | OtherAddr

record iface =
  if_Name :: string
  if_Up :: bool
  if_Loopback :: bool
  if_Addrs :: "ifaddr list option"

fun addr_ip :: "ifaddr \<Rightarrow> ip" where
  "addr_ip (IPNet i) = i"
| "addr_ip (IPAddr i) = i"
| "addr_ip OtherAddr = []"

definition ReplaceByte :: "string \<Rightarrow> char \<Rightarrow> string" where
  "ReplaceByte s c = filter (\<lambda>d. d \<noteq> c) s"

definition shortIP :: "string \<Rightarrow> string" where
  "shortIP s = take 8 (ReplaceByte (ReplaceByte s CHR '':'') CHR ''.'')"

definition ip_text :: "ip \<Rightarrow> string" where
  "ip_text i = (case To4 i of Some q \<Rightarrow> ip_String q | None \<Rightarrow> ip_String i)"

definition host_candidate :: "int \<Rightarrow> string \<Rightarrow> ip \<Rightarrow> string \<Rightarrow> Candidate" where
  "host_candidate tcpPort name i transport =
     \<lparr>ca_ID = ''host-'' @ shortIP (ip_text i) @ ''-'' @ name @ ''-'' @ transport, ca_Type = CandidateHost,
      ca_IP = ip_text i, ca_Port = tcpPort, ca_Interface = name, ca_Transport = transport,
      ca_Priority = PriorityFor CandidateHost i transport\<rparr>"

definition usable :: "ip \<Rightarrow> bool" where
  "usable i \<longleftrightarrow> i \<noteq> [] \<and> \<not> IsLoopback i \<and> \<not> IsUnspecified i \<and> \<not> IsMulticast i"

definition addr_candidates :: "int \<Rightarrow> string \<Rightarrow> ifaddr \<Rightarrow> Candidate list" where
  "addr_candidates tcpPort name a =
     (if usable (addr_ip a) then map (host_candidate tcpPort name (addr_ip a)) [''tcp'', ''udp''] else [])"

definition iface_candidates :: "int \<Rightarrow> iface \<Rightarrow> Candidate list" where
  "iface_candidates tcpPort f =
     (if \<not> if_Up f \<or> if_Loopback f then []
      else case if_Addrs f of None \<Rightarrow> [] | Some as \<Rightarrow> concat (map (addr_candidates tcpPort (if_Name f)) as))"

definition GatherHostCandidates :: "iface list option \<Rightarrow> int \<Rightarrow> Candidate list" where
  "GatherHostCandidates interfaces tcpPort =
     (case interfaces of None \<Rightarrow> [] | Some fs \<Rightarrow> Prioritize (concat (map (iface_candidates tcpPort) fs)))"

text \<open>\<open>nil\<close>, which \<^verbatim>\<open>ParseIP\<close> returns for a text that is no address, is the empty list.\<close>

definition parsed_ip :: "string \<Rightarrow> ip" where
  "parsed_ip s = (case ParseIP s of None \<Rightarrow> [] | Some i \<Rightarrow> i)"

definition srflx_candidate :: "string \<Rightarrow> PublicAddr \<Rightarrow> Candidate" where
  "srflx_candidate cid pub =
     \<lparr>ca_ID = cid, ca_Type = CandidateSrflx, ca_IP = pa_IP pub, ca_Port = pa_Port pub, ca_Interface = '''',
      ca_Transport = ''udp'', ca_Priority = PriorityFor CandidateSrflx (parsed_ip (pa_IP pub)) ''udp''\<rparr>"

text \<open>
  \<^verbatim>\<open>discoverViaDial\<close> hands a socket opened by \<^verbatim>\<open>net.DialUDP\<close> to \<^verbatim>\<open>DiscoverPublicAddr\<close>. On such a socket
  \<^verbatim>\<open>WriteToUDP\<close> always fails with \<^verbatim>\<open>ErrWriteToConnected\<close>. The arguments are the error of the first
  resolution, the error of the dialling and the answers the socket would give.\<close>

definition ErrWriteToConnected :: string where
  "ErrWriteToConnected = ''use of WriteTo with pre-connected connection''"

definition discoverViaDial :: "string option \<Rightarrow> string option \<Rightarrow> stun_io \<Rightarrow> (string + PublicAddr) outcome" where
  "discoverViaDial resolve dial io =
     (case resolve of
        Some err \<Rightarrow> Returns (Inl err)
      | None \<Rightarrow> (case dial of Some err \<Rightarrow> Returns (Inl err)
                 | None \<Rightarrow> DiscoverPublicAddr (io\<lparr>st_write := Some ErrWriteToConnected\<rparr>)))"

fun found :: "string \<Rightarrow> (string + PublicAddr) outcome \<Rightarrow> Candidate list outcome" where
  "found cid (Returns (Inr pub)) = Returns [srflx_candidate cid pub]"
| "found cid (Returns (Inl err)) = Returns []"
| "found cid Blocks = Blocks"
| "found cid Panics = Panics"

definition DiscoverSrflxCandidates ::
  "string option \<times> string option \<times> stun_io \<Rightarrow> string option \<times> string option \<times> stun_io \<Rightarrow> Candidate list outcome" where
  "DiscoverSrflxCandidates v4 v6 =
     (case (v4, v6) of ((r4, d4, io4), (r6, d6, io6)) \<Rightarrow>
        bind_outcome (found ''srflx-v4-udp'' (discoverViaDial r4 d4 io4)) (\<lambda>out4.
        bind_outcome (found ''srflx-v6-udp'' (discoverViaDial r6 d6 io6)) (\<lambda>out6.
          Returns (Prioritize (out4 @ out6)))))"

definition DiscoverSrflxOnConn :: "stun_io \<Rightarrow> Candidate option outcome" where
  "DiscoverSrflxOnConn io =
     bind_outcome (DiscoverPublicAddr io) (\<lambda>r.
       Returns (case r of Inl err \<Rightarrow> None | Inr pub \<Rightarrow> Some (srflx_candidate ''srflx-conn-udp'' pub)))"

subsection \<open>Bundles\<close>

record Bundle =
  bu_Version :: int
  bu_JID :: string
  bu_DeviceID :: string
  bu_Candidates :: "Candidate list"

text \<open>\<^verbatim>\<open>base64.RawURLEncoding\<close> and \<^verbatim>\<open>base64.URLEncoding\<close>: the other two digits, without and with padding.\<close>

definition to_url :: "char \<Rightarrow> char" where
  "to_url c = (if c = CHR ''+'' then CHR ''-'' else if c = CHR ''/'' then CHR ''_'' else c)"

definition of_url :: "char \<Rightarrow> char" where
  "of_url c = (if c = CHR ''-'' then CHR ''+'' else if c = CHR ''_'' then CHR ''/'' else c)"

definition rawurl_encode :: "string \<Rightarrow> string" where
  "rawurl_encode s = map to_url (filter (\<lambda>c. c \<noteq> CHR ''='') (b64_encode s))"

definition url_text :: "string \<Rightarrow> string" where
  "url_text s = filter (\<lambda>c. c \<noteq> CHR 0x0A \<and> c \<noteq> CHR 0x0D) s"

definition rawurl_decode :: "string \<Rightarrow> string option" where
  "rawurl_decode s =
     (let t = url_text s
      in if CHR ''+'' \<in> set t \<or> CHR ''/'' \<in> set t \<or> CHR ''='' \<in> set t then None
         else b64_quads (map of_url t @ replicate ((4 - length t mod 4) mod 4) CHR ''=''))"

definition url_decode :: "string \<Rightarrow> string option" where
  "url_decode s =
     (let t = url_text s
      in if CHR ''+'' \<in> set t \<or> CHR ''/'' \<in> set t then None else b64_quads (map of_url t))"

definition EncodeBundle :: "(Bundle \<Rightarrow> string option) \<Rightarrow> string \<Rightarrow> string \<Rightarrow> Candidate list \<Rightarrow> string" where
  "EncodeBundle marshal jid deviceID cands =
     (case marshal \<lparr>bu_Version = 1, bu_JID = jid, bu_DeviceID = deviceID, bu_Candidates = cands\<rparr> of
        None \<Rightarrow> '''' | Some raw \<Rightarrow> rawurl_encode raw)"

definition DecodeBundle :: "(string \<Rightarrow> Bundle option) \<Rightarrow> string \<Rightarrow> string + Bundle" where
  "DecodeBundle unmarshal encoded =
     (let trimmed = ReplaceByte (ReplaceByte (TrimSpace encoded) CHR 0x0A) CHR '' '';
          raw = (case rawurl_decode trimmed of Some r \<Rightarrow> Some r | None \<Rightarrow> url_decode trimmed)
      in case raw of
           None \<Rightarrow> Inl ''invalid candidate bundle: must be base64 from /candidates''
         | Some r \<Rightarrow>
             (case unmarshal r of
                None \<Rightarrow> Inl ''invalid candidate bundle: corrupted JSON''
              | Some b \<Rightarrow>
                  if bu_Version b \<noteq> 1 then Inl (''unsupported bundle version '' @ Itoa (bu_Version b))
                  else if bu_Candidates b = [] then Inl ''bundle has no candidates''
                  else Inr b))"

definition Fingerprint :: "(string \<Rightarrow> string) \<Rightarrow> (Candidate list \<Rightarrow> string) \<Rightarrow> Bundle \<Rightarrow> string" where
  "Fingerprint sha256 marshal b = take 12 (EncodeToString (sha256 (marshal (bu_Candidates b))))"

subsection \<open>Priorities and order\<close>

text \<open>
  The classes of candidates do not overlap: every IPv4 host candidate precedes every IPv6 host
  candidate, these every server-reflexive IPv4 candidate and these every server-reflexive IPv6
  candidate, whatever the transports and the bonuses for private and global addresses.\<close>

theorem priority_classes_separate:
  assumes "To4 a \<noteq> None" and "To4 b = None" and "To4 c \<noteq> None" and "To4 d = None"
  shows "PriorityFor CandidateHost b t2 < PriorityFor CandidateHost a t1
    \<and> PriorityFor CandidateSrflx c t3 < PriorityFor CandidateHost b t2
    \<and> PriorityFor CandidateSrflx d t4 < PriorityFor CandidateSrflx c t3"
  using assms by (simp add: PriorityFor_def Let_def)

theorem priority_classes_separate_witness:
  "PriorityFor CandidateHost [0xFE, 0x80, 0, 0, 0, 0, 0, 0, 0, 0, 0, 0, 0, 0, 0, 1] ''tcp'' < PriorityFor CandidateHost [192, 168, 1, 5] ''udp''
    \<and> PriorityFor CandidateSrflx [203, 0, 113, 5] ''udp'' < PriorityFor CandidateHost [0xFE, 0x80, 0, 0, 0, 0, 0, 0, 0, 0, 0, 0, 0, 0, 0, 1] ''tcp''
    \<and> PriorityFor CandidateSrflx [0x20, 1, 0, 0, 0, 0, 0, 0, 0, 0, 0, 0, 0, 0, 0, 1] ''udp'' < PriorityFor CandidateSrflx [203, 0, 113, 5] ''udp''"
  by (rule priority_classes_separate) (simp_all add: To4_def)

lemma dedup_loop_subset: "c \<in> set (dedup_loop uni seen cs) \<Longrightarrow> c \<in> set cs"
  by (induction uni seen cs rule: dedup_loop.induct) (auto split: if_splits)

lemma dedup_loop_unseen: "c \<in> set (dedup_loop uni seen cs) \<Longrightarrow> dedup_key uni c \<notin> set seen"
  by (induction uni seen cs rule: dedup_loop.induct) (auto split: if_splits)

lemma dedup_loop_distinct: "distinct (map (dedup_key uni) (dedup_loop uni seen cs))"
  by (induction uni seen cs rule: dedup_loop.induct) (auto dest: dedup_loop_unseen)

lemma dedup_loop_sorted: "sorted (map rank_of cs) \<Longrightarrow> sorted (map rank_of (dedup_loop uni seen cs))"
  by (induction uni seen cs rule: dedup_loop.induct) (auto dest: dedup_loop_subset)

lemma dedup_loop_keeps_first:
  assumes "sorted (map rank_of cs)" and "c \<in> set cs"
  shows "dedup_key uni c \<in> set seen
    \<or> (\<exists>c'\<in>set (dedup_loop uni seen cs). dedup_key uni c' = dedup_key uni c \<and> rank_of c' \<le> rank_of c)"
  using assms
proof (induction uni seen cs rule: dedup_loop.induct)
  case (2 uni seen d cs)
  show ?case
  proof (cases "c = d")
    case False
    then have "c \<in> set cs" "rank_of d \<le> rank_of c" using "2.prems" by auto
    then show ?thesis using 2 by auto
  qed auto
qed simp

text \<open>
  The list a node shares and dials. Ordering and then removing duplicates gives a list in
  the order of priority and identifier, without two entries for one transport and address, and every
  candidate is represented by one for the same transport and address that ranks at least as high.\<close>

theorem best_candidate_kept:
  "sorted (map rank_of (Deduplicate uni (Prioritize cands)))
   \<and> distinct (map (dedup_key uni) (Deduplicate uni (Prioritize cands)))
   \<and> set (Deduplicate uni (Prioritize cands)) \<subseteq> set cands
   \<and> (\<forall>c\<in>set cands. \<exists>c'\<in>set (Deduplicate uni (Prioritize cands)).
        dedup_key uni c' = dedup_key uni c \<and> rank_of c' \<le> rank_of c)"
proof -
  have sorted: "sorted (map rank_of (Prioritize cands))" by (simp add: Prioritize_def)
  have "set (Deduplicate uni (Prioritize cands)) \<subseteq> set cands"
    using dedup_loop_subset by (fastforce simp: Deduplicate_def Prioritize_def)
  moreover have "\<forall>c\<in>set cands. \<exists>c'\<in>set (Deduplicate uni (Prioritize cands)).
        dedup_key uni c' = dedup_key uni c \<and> rank_of c' \<le> rank_of c"
    using dedup_loop_keeps_first [OF sorted, of _ uni "[]"] by (simp add: Deduplicate_def Prioritize_def)
  ultimately show ?thesis
    using dedup_loop_distinct dedup_loop_sorted [OF sorted] by (simp add: Deduplicate_def)
qed

definition twice :: "Candidate list" where
  "twice = [host_candidate 9999 ''wlan0'' [192, 168, 1, 5] ''udp'', host_candidate 9999 ''eth0'' [192, 168, 1, 5] ''udp'']"

theorem best_candidate_kept_witness:
  "\<exists>c'\<in>set (Deduplicate id (Prioritize twice)).
     dedup_key id c' = dedup_key id (hd twice) \<and> rank_of c' \<le> rank_of (hd twice)"
  using best_candidate_kept [of id twice] by (auto simp: twice_def)

subsection \<open>Gathered candidates\<close>

lemma ip_text_String: "length i = 4 \<or> length i = 16 \<Longrightarrow> ip_text i = ip_String i"
  by (auto simp: ip_text_def ip_String_def To4_def split: option.splits if_splits)

lemma To4_To16: "length i = 4 \<or> length i = 16 \<Longrightarrow> To4 (To16 i) = To4 i"
  by (auto simp: To4_def To16_def)

lemma in_addr_candidates:
  "c \<in> set (addr_candidates port name a) \<longleftrightarrow>
     usable (addr_ip a) \<and> (\<exists>t\<in>{''tcp'', ''udp''}. c = host_candidate port name (addr_ip a) t)"
  by (auto simp: addr_candidates_def)

lemma in_iface_candidates:
  "c \<in> set (iface_candidates port f) \<longleftrightarrow>
     if_Up f \<and> \<not> if_Loopback f \<and> (\<exists>as. if_Addrs f = Some as \<and> (\<exists>a\<in>set as. c \<in> set (addr_candidates port (if_Name f) a)))"
  by (cases "if_Addrs f") (auto simp: iface_candidates_def)

lemma Contains_char: "Contains s [c] \<longleftrightarrow> c \<in> set s"
  by (simp add: Contains_sublist sublist_def) (metis in_set_conv_decomp)

text \<open>
  What a machine offers. The gathered candidates are, for every usable address of every
  interface that is up and no loopback, one for TCP and one for UDP with the port of the node; the
  address is read back from its text, and the strategy tries an IPv4 address in the stage for the
  local network and an IPv6 address in the stage for IPv6.\<close>

theorem gathered_candidates_staged:
  assumes "\<And>f as a. f \<in> set fs \<Longrightarrow> if_Addrs f = Some as \<Longrightarrow> a \<in> set as \<Longrightarrow> length (addr_ip a) \<in> {0, 4, 16}"
  shows "c \<in> set (GatherHostCandidates (Some fs) port) \<longleftrightarrow>
    (\<exists>f\<in>set fs. \<exists>as a t. if_Up f \<and> \<not> if_Loopback f \<and> if_Addrs f = Some as \<and> a \<in> set as \<and> usable (addr_ip a)
       \<and> t \<in> {''tcp'', ''udp''} \<and> c = host_candidate port (if_Name f) (addr_ip a) t
       \<and> ParseIP (ca_IP c) = Some (To16 (addr_ip a))
       \<and> StepFor c = (if To4 (addr_ip a) \<noteq> None then StepDirectLAN else StepIPv6))"
proof -
  have mem: "c \<in> set (GatherHostCandidates (Some fs) port) \<longleftrightarrow>
    (\<exists>f\<in>set fs. \<exists>as a t. if_Up f \<and> \<not> if_Loopback f \<and> if_Addrs f = Some as \<and> a \<in> set as \<and> usable (addr_ip a)
       \<and> t \<in> {''tcp'', ''udp''} \<and> c = host_candidate port (if_Name f) (addr_ip a) t)"
    unfolding GatherHostCandidates_def Prioritize_def
    by (simp add: in_iface_candidates in_addr_candidates) blast
  have stage: "ParseIP (ca_IP (host_candidate port name i t)) = Some (To16 i)
      \<and> StepFor (host_candidate port name i t) = (if To4 i \<noteq> None then StepDirectLAN else StepIPv6)"
    if "length i \<in> {0, 4, 16}" "usable i" for name i t
  proof -
    have l: "length i = 4 \<or> length i = 16" using that by (auto simp: usable_def)
    show ?thesis
      using ParseIP_String [OF l] ip_String_colon [OF l]
      by (simp add: host_candidate_def ip_text_String [OF l] StepFor_def Contains_char To4_To16 [OF l])
  qed
  show ?thesis
  proof
    assume "c \<in> set (GatherHostCandidates (Some fs) port)"
    then obtain f as a t where "f \<in> set fs" "if_Up f" "\<not> if_Loopback f" "if_Addrs f = Some as" "a \<in> set as"
      "usable (addr_ip a)" "t \<in> {''tcp'', ''udp''}" "c = host_candidate port (if_Name f) (addr_ip a) t"
      unfolding mem by blast
    moreover from this have "length (addr_ip a) \<in> {0, 4, 16}" using assms by blast
    ultimately show "\<exists>f\<in>set fs. \<exists>as a t. if_Up f \<and> \<not> if_Loopback f \<and> if_Addrs f = Some as \<and> a \<in> set as \<and> usable (addr_ip a)
       \<and> t \<in> {''tcp'', ''udp''} \<and> c = host_candidate port (if_Name f) (addr_ip a) t
       \<and> ParseIP (ca_IP c) = Some (To16 (addr_ip a))
       \<and> StepFor c = (if To4 (addr_ip a) \<noteq> None then StepDirectLAN else StepIPv6)"
      using stage by metis
  qed (unfold mem, blast)
qed

definition wlan :: iface where
  "wlan = \<lparr>if_Name = ''wlan0'', if_Up = True, if_Loopback = False, if_Addrs = Some [IPNet [192, 168, 1, 5]]\<rparr>"

theorem gathered_candidates_staged_witness:
  "host_candidate 9999 ''wlan0'' [192, 168, 1, 5] ''tcp'' \<in> set (GatherHostCandidates (Some [wlan]) 9999)
   \<and> StepFor (host_candidate 9999 ''wlan0'' [192, 168, 1, 5] ''tcp'') = StepDirectLAN"
proof -
  let ?c = "host_candidate 9999 ''wlan0'' [192, 168, 1, 5] ''tcp''"
  have u: "usable [192, 168, 1, 5]"
    by code_simp
  have mem: "?c \<in> set (GatherHostCandidates (Some [wlan]) 9999)"
    using u by (simp add: GatherHostCandidates_def Prioritize_def iface_candidates_def addr_candidates_def wlan_def)
  moreover have "StepFor ?c = StepDirectLAN"
  proof -
    have "length (addr_ip a) \<in> {0, 4, 16}" if "f \<in> set [wlan]" "if_Addrs f = Some as" "a \<in> set as" for f as a
      using that by (auto simp: wlan_def)
    from gathered_candidates_staged [of "[wlan]" ?c 9999, OF this] mem show ?thesis
      by (auto simp: wlan_def To4_def)
  qed
  ultimately show ?thesis by blast
qed

text \<open>
  Asking a STUN server over sockets of its own never yields a candidate, whatever the server
  answers: the request is written with an explicit destination to a socket that is connected.\<close>

theorem dialled_stun_finds_nothing: "DiscoverSrflxCandidates v4 v6 = Returns []"
proof -
  have "\<exists>err. discoverViaDial r d io = Returns (Inl err)" for r d io
    by (auto simp: discoverViaDial_def DiscoverPublicAddr_def split: option.splits sum.splits)
  then have "found cid (discoverViaDial r d io) = Returns []" for cid r d io
    by (metis found.simps(2))
  then show ?thesis by (simp add: DiscoverSrflxCandidates_def Prioritize_def split: prod.splits)
qed

subsection \<open>Bundles\<close>

definition b64_pad :: "string \<Rightarrow> string" where
  "b64_pad t = t @ replicate ((4 - length t mod 4) mod 4) CHR ''=''"

lemma b64_pad_four: "b64_pad (a # b # c # d # t) = a # b # c # d # b64_pad t"
  by (simp add: b64_pad_def)

lemma b64_digits_kept:
  "n < 64 \<Longrightarrow> filter (\<lambda>c. c \<noteq> CHR ''='') (b64_digit n # s) = b64_digit n # filter (\<lambda>c. c \<noteq> CHR ''='') s"
  by simp

lemma b64_encode_pad: "b64_pad (filter (\<lambda>c. c \<noteq> CHR ''='') (b64_encode s)) = b64_encode s"
proof (induction s rule: b64_encode.induct)
  case (2 a)
  obtain v w where "v < 64" "w < 64" "b64_encode [a] = [b64_digit v, b64_digit w, CHR ''='', CHR ''='']"
    by (rule b64_one)
  then show ?case by (simp add: b64_pad_def numeral_2_eq_2)
next
  case (3 a b)
  obtain v w x where "v < 64" "w < 64" "x < 64" "b64_encode [a, b] = [b64_digit v, b64_digit w, b64_digit x, CHR ''='']"
    by (rule b64_two)
  then show ?case by (simp add: b64_pad_def numeral_2_eq_2)
next
  case (4 a b c s)
  obtain v w x y where "v < 64" "w < 64" "x < 64" "y < 64"
    "b64_encode (a # b # c # s) = [b64_digit v, b64_digit w, b64_digit x, b64_digit y] @ b64_encode s"
    by (rule b64_three)
  then show ?case using 4 by (simp add: b64_pad_four)
qed (simp add: b64_pad_def)

definition b64_char :: "char \<Rightarrow> bool" where
  "b64_char c \<longleftrightarrow> c = CHR ''='' \<or> (\<exists>n<64. c = b64_digit n)"

lemma b64_char_digit [simp]: "n < 64 \<Longrightarrow> b64_char (b64_digit n)" "b64_char CHR ''=''"
  by (auto simp: b64_char_def)

lemma b64_encode_chars: "list_all b64_char (b64_encode s)"
proof (induction s rule: b64_encode.induct)
  case (2 a)
  obtain v w where "v < 64" "w < 64" "b64_encode [a] = [b64_digit v, b64_digit w, CHR ''='', CHR ''='']"
    by (rule b64_one)
  then show ?case by (simp)
next
  case (3 a b)
  obtain v w x where "v < 64" "w < 64" "x < 64" "b64_encode [a, b] = [b64_digit v, b64_digit w, b64_digit x, CHR ''='']"
    by (rule b64_two)
  then show ?case by (simp)
next
  case (4 a b c s)
  obtain v w x y where "v < 64" "w < 64" "x < 64" "y < 64"
    "b64_encode (a # b # c # s) = [b64_digit v, b64_digit w, b64_digit x, b64_digit y] @ b64_encode s"
    by (rule b64_three)
  then show ?case using 4 by simp
qed simp

text \<open>The characters of an encoded bundle.\<close>

definition url_char :: "char \<Rightarrow> bool" where
  "url_char c \<longleftrightarrow> byte_of c \<in> {45, 95} \<union> {48..57} \<union> {65..90} \<union> {97..122}"

lemma plus_or_slash: "byte_of c = 43 \<Longrightarrow> c = CHR ''+''" "byte_of c = 47 \<Longrightarrow> c = CHR ''/''"
proof -
  have "byte_of CHR ''+'' = 43" "byte_of CHR ''/'' = 47" by (simp_all add: byte_of_def)
  then show "byte_of c = 43 \<Longrightarrow> c = CHR ''+''" "byte_of c = 47 \<Longrightarrow> c = CHR ''/''"
    by (metis char_of_byte_of)+
qed

lemma url_char_to_url:
  assumes "n < 64"
  shows "url_char (to_url (b64_digit n)) \<and> of_url (to_url (b64_digit n)) = b64_digit n"
proof -
  consider "b64_digit n = CHR ''+''" | "b64_digit n = CHR ''/''"
    | "byte_of (b64_digit n) \<in> {48..57} \<union> {65..90} \<union> {97..122}"
    using b64_digit_byte [OF assms] plus_or_slash [of "b64_digit n"] by blast
  then show ?thesis
  proof cases
    case 3
    then have "b64_digit n \<noteq> CHR ''+''" "b64_digit n \<noteq> CHR ''/''" "b64_digit n \<noteq> CHR ''-''" "b64_digit n \<noteq> CHR ''_''"
      by (auto simp: byte_of_def)
    then show ?thesis using 3 by (simp add: url_char_def to_url_def of_url_def)
  qed (simp_all add: url_char_def to_url_def of_url_def byte_of_def)
qed

lemma rawurl_encode_chars: "list_all url_char (rawurl_encode s)"
  using b64_encode_chars [of s] url_char_to_url by (auto simp: rawurl_encode_def list_all_iff b64_char_def)

lemma of_url_rawurl: "map of_url (rawurl_encode s) = filter (\<lambda>c. c \<noteq> CHR ''='') (b64_encode s)"
proof -
  have "of_url (to_url c) = c" if "c \<in> set (b64_encode s)" "c \<noteq> CHR ''=''" for c
    using that b64_encode_chars [of s] url_char_to_url by (auto simp: list_all_iff b64_char_def)
  then show ?thesis by (auto simp: rawurl_encode_def intro: map_idI)
qed

lemma url_char_not:
  "url_char c \<Longrightarrow> c \<noteq> CHR ''+'' \<and> c \<noteq> CHR ''/'' \<and> c \<noteq> CHR ''='' \<and> c \<noteq> CHR 0x0A \<and> c \<noteq> CHR 0x0D \<and> c \<noteq> CHR '' ''"
  by (auto simp: url_char_def byte_of_def)

lemma rawurl_round_trip: "rawurl_decode (rawurl_encode s) = Some s"
proof -
  have "url_text (rawurl_encode s) = rawurl_encode s"
    using rawurl_encode_chars [of s] by (auto simp: url_text_def list_all_iff filter_id_conv dest!: url_char_not)
  moreover have "CHR ''+'' \<notin> set (rawurl_encode s)" "CHR ''/'' \<notin> set (rawurl_encode s)" "CHR ''='' \<notin> set (rawurl_encode s)"
    using rawurl_encode_chars [of s] by (auto simp: list_all_iff dest!: url_char_not)
  moreover have "map of_url (rawurl_encode s) @ replicate ((4 - length (rawurl_encode s) mod 4) mod 4) CHR ''='' = b64_encode s"
    using b64_encode_pad [of s] of_url_rawurl [of s] by (simp add: b64_pad_def rawurl_encode_def)
  ultimately show ?thesis by (simp add: rawurl_decode_def b64_quads_encode)
qed

text \<open>
  Sharing a bundle. A bundle that was encoded for sharing is decoded to exactly the same
  bundle, even when blanks and line breaks were inserted at any places on the way, provided that the
  JSON codec reads back what it wrote and that there is a candidate.\<close>

theorem bundle_survives_sharing:
  assumes "marshal b = Some raw" and "unmarshal raw = Some b"
    and "b = \<lparr>bu_Version = 1, bu_JID = jid, bu_DeviceID = dev, bu_Candidates = cands\<rparr>" and "cands \<noteq> []"
    and "filter (\<lambda>c. c \<noteq> CHR 0x0A \<and> c \<noteq> CHR '' '') pasted = EncodeBundle marshal jid dev cands"
  shows "DecodeBundle unmarshal pasted = Inr b"
proof -
  let ?P = "\<lambda>c. c \<noteq> CHR 0x0A \<and> c \<noteq> CHR '' ''"
  have code: "EncodeBundle marshal jid dev cands = rawurl_encode raw"
    using assms(1,3) by (simp add: EncodeBundle_def)
  have url: "url_char c" if "c \<in> set pasted" "?P c" for c
  proof -
    have "c \<in> set (filter ?P pasted)" using that by simp
    then have "c \<in> set (rawurl_encode raw)" unfolding assms(5) code .
    then show ?thesis using rawurl_encode_chars [of raw] by (auto simp: list_all_iff)
  qed
  have "filter ?P (TrimSpace pasted) = filter ?P pasted"
  proof (rule filter_TrimSpace)
    show "list_all ascii pasted" using url by (force simp: list_all_iff ascii_def url_char_def byte_of_def)
    show "\<forall>c\<in>set pasted. ?P c \<longrightarrow> byte_of c \<notin> {9, 10, 11, 12, 13, 32}"
      using url by (fastforce simp: url_char_def)
  qed
  then have "ReplaceByte (ReplaceByte (TrimSpace pasted) CHR 0x0A) CHR '' '' = rawurl_encode raw"
    using assms(5) code by (simp add: ReplaceByte_def conj_commute)
  then show ?thesis
    using assms(2-4) by (simp add: DecodeBundle_def rawurl_round_trip)
qed

definition shared :: Bundle where
  "shared = \<lparr>bu_Version = 1, bu_JID = ''korik:ab'', bu_DeviceID = ''cli-1'', bu_Candidates = twice\<rparr>"

theorem bundle_survives_sharing_witness:
  "DecodeBundle (\<lambda>raw. if raw = ''{1}'' then Some shared else None) (''  '' @ rawurl_encode ''{1}'' @ [CHR 0x0A]) = Inr shared"
proof (rule bundle_survives_sharing [where marshal = "\<lambda>_. Some ''{1}''" and raw = "''{1}''"])
  show "filter (\<lambda>c. c \<noteq> CHR 0x0A \<and> c \<noteq> CHR '' '') (''  '' @ rawurl_encode ''{1}'' @ [CHR 0x0A])
    = EncodeBundle (\<lambda>_. Some ''{1}'') ''korik:ab'' ''cli-1'' twice"
    using rawurl_encode_chars [of "''{1}''"]
    by (auto simp: EncodeBundle_def list_all_iff filter_id_conv dest!: url_char_not)
qed (simp_all add: shared_def twice_def)

end
