(* ===== verification/Nat_Tester.thy ===== *)
theory Nat_Tester
  imports Stun
begin

text \<open>
  The NAT test, \<^verbatim>\<open>src/internal/nat/tester.go\<close>. The sockets the test opens are the record \<open>nat_io\<close>:
  whether each could be opened and what it answers. The four queries run in goroutines that only add
  to a set under a lock, so their order is immaterial; they are taken in the order of their start.
\<close>

subsection \<open>Types of NAT\<close>

datatype NATType = FullCone | RestrictedCone | PortRestrictedCone | Symmetric

fun NATString :: "NATType \<Rightarrow> string" where
  "NATString FullCone = ''Full Cone''"
| "NATString RestrictedCone = ''Restricted Cone''"
| "NATString PortRestrictedCone = ''Port Restricted Cone''"
| "NATString Symmetric = ''Symmetric''"

record TestResult =
  tr_NATType :: NATType
  tr_LocalIP :: string
  tr_PublicIP :: string
  tr_IsSymmetric :: bool
  tr_SymmetricNAT :: bool
  tr_HolesPunched :: nat
  tr_Latency :: duration
  tr_Compatibility :: string
  tr_Recommendations :: "string list"

definition ClassifyNATType :: "nat \<Rightarrow> bool \<Rightarrow> NATType" where
  "ClassifyNATType responseCount bindingSuccess =
     (if \<not> bindingSuccess then Symmetric
      else if 1 < responseCount then Symmetric
      else if responseCount = 1 then FullCone else RestrictedCone)"

definition NATCompatible :: "NATType \<Rightarrow> NATType \<Rightarrow> bool" where
  "NATCompatible a b = (if a = Symmetric \<or> b = Symmetric then False else True)"

fun Recommendations :: "NATType \<Rightarrow> string list" where
  "Recommendations FullCone =
    [''No action needed: Full Cone NAT allows direct P2P connections.'',
     ''Use LAN mode for the fastest connection within the same network.'']"
| "Recommendations RestrictedCone =
    [''Direct P2P works if both peers have exchanged UDP packets first.'',
     ''Use LAN mode when both peers are on the same network.'',
     ''If P2P fails, configure port forwarding on your router.'']"
| "Recommendations PortRestrictedCone =
    [''P2P requires both peers to have sent packets to each other first.'',
     ''Consider configuring port forwarding for reliable connections.'',
     ''Use a relay server (TURN) as a fallback for guaranteed connectivity.'']"
| "Recommendations Symmetric =
    [''WARNING: Direct P2P will likely fail with Symmetric NAT on both sides.'',
     ''Use a relay server (TURN) for reliable connectivity.'',
     ''Configure port forwarding on your router as a workaround.'',
     ''Try LAN mode if both peers are on the same local network.'']"

subsection \<open>The test\<close>

text \<open>One round of the punching loop: the error of the write, and the datagram that is read.\<close>

type_synonym punch_round = "string option \<times> (string + byte list)"

function punch_loop :: "nat \<Rightarrow> (nat \<Rightarrow> punch_round) \<Rightarrow> nat \<Rightarrow> nat" where
  "punch_loop i rounds successes =
     (if i < 3 then
        (case rounds i of
           (Some err, _) \<Rightarrow> punch_loop (i + 1) rounds successes
         | (None, Inl err) \<Rightarrow> punch_loop (i + 1) rounds successes
         | (None, Inr datagram) \<Rightarrow>
             punch_loop (i + 1) rounds (if take 1024 datagram \<noteq> [] then successes + 1 else successes))
      else successes)"
  by auto
termination
  by (relation "measure (\<lambda>(i, rounds, successes). 3 - i)") auto

declare punch_loop.simps [simp del]

definition testHolePunching :: "string option \<Rightarrow> (nat \<Rightarrow> punch_round) \<Rightarrow> nat" where
  "testHolePunching resolve rounds = (case resolve of Some err \<Rightarrow> 0 | None \<Rightarrow> punch_loop 0 rounds 0)"

record latency_io =
  la_listen :: "string option"
  la_start :: gotime
  la_end :: gotime
  la_stun :: stun_io

definition MeasureLatency :: "latency_io \<Rightarrow> (string + duration) outcome" where
  "MeasureLatency io =
     (case la_listen io of
        Some err \<Rightarrow> Returns (Inl (''cannot create UDP socket for latency measurement: '' @ err))
      | None \<Rightarrow> bind_outcome (DiscoverPublicAddr (la_stun io)) (\<lambda>r.
          Returns (case r of Inl err \<Rightarrow> Inl (''latency measurement failed: '' @ err)
                   | Inr _ \<Rightarrow> Inr (Sub (la_end io) (la_start io)))))"

definition response_key :: "PublicAddr \<Rightarrow> string" where
  "response_key a = pa_IP a @ '':'' @ Itoa (pa_Port a)"

text \<open>The four goroutines: the error of opening the socket of each, and the socket.\<close>

fun query_servers :: "(string option \<times> stun_io) list \<Rightarrow> string list \<Rightarrow> string list outcome" where
  "query_servers [] responses = Returns responses"
| "query_servers ((derr, io) # qs) responses =
     (if derr \<noteq> None then query_servers qs responses
      else bind_outcome (DiscoverPublicAddr io) (\<lambda>r.
        case r of
          Inl qerr \<Rightarrow> query_servers qs responses
        | Inr addr \<Rightarrow> query_servers qs (List.insert (response_key addr) responses)))"

record nat_io =
  na_listen :: "string option"
  na_localIP :: string
  na_latency :: latency_io
  na_stun :: stun_io
  na_queries :: "(string option \<times> stun_io) list"
  na_punch :: "string option"
  na_rounds :: "nat \<Rightarrow> punch_round"

definition DetectNATType :: "nat_io \<Rightarrow> (string + TestResult) outcome" where
  "DetectNATType io =
     (case na_listen io of
        Some err \<Rightarrow> Returns (Inl (''cannot open UDP socket for NAT detection: '' @ err))
      | None \<Rightarrow>
        bind_outcome (MeasureLatency (na_latency io)) (\<lambda>lat.
        bind_outcome (DiscoverPublicAddr (na_stun io)) (\<lambda>pub.
        case pub of
          Inl err \<Rightarrow> Returns (Inl (''STUN query failed: '' @ err))
        | Inr pubAddr \<Rightarrow>
            bind_outcome (query_servers (na_queries io) []) (\<lambda>responses.
            let natType = ClassifyNATType (length responses) True;
                isSymmetric = (natType = Symmetric)
            in Returns (Inr
                 \<lparr>tr_NATType = natType, tr_LocalIP = na_localIP io, tr_PublicIP = pa_IP pubAddr,
                  tr_IsSymmetric = isSymmetric, tr_SymmetricNAT = isSymmetric,
                  tr_HolesPunched = testHolePunching (na_punch io) (na_rounds io),
                  tr_Latency = (case lat of Inl _ \<Rightarrow> 0 | Inr d \<Rightarrow> d),
                  tr_Compatibility = (if isSymmetric then ''Partial: direct P2P may fail with symmetric NAT on both sides'' else ''Compatible''),
                  tr_Recommendations = Recommendations natType\<rparr>)))))"

subsection \<open>What the test can tell\<close>

definition answers :: "string option \<times> stun_io \<Rightarrow> PublicAddr \<Rightarrow> bool" where
  "answers q a \<longleftrightarrow> fst q = None \<and> DiscoverPublicAddr (snd q) = Returns (Inr a)"

lemma query_servers_responses:
  assumes "query_servers qs responses = Returns rs"
  shows "set rs = set responses \<union> response_key ` {a. \<exists>q\<in>set qs. answers q a}
    \<and> (distinct responses \<longrightarrow> distinct rs)"
  using assms
proof (induction qs responses rule: query_servers.induct)
  case (2 derr io qs responses)
  show ?case
  proof (cases "derr = None")
    case True
    then obtain r where r: "DiscoverPublicAddr io = Returns r" using 2 by (auto elim: bind_outcome_Returns)
    show ?thesis
    proof (cases r)
      case (Inl err)
      then show ?thesis using 2 True r by (auto simp: answers_def)
    next
      case (Inr a)
      then show ?thesis using 2 True r by (auto simp: answers_def)
    qed
  qed (use 2 in \<open>auto simp: answers_def\<close>)
qed simp

lemma Itoa_no_colon: "CHR '':'' \<notin> set (Itoa i)"
  using nat_digits_all [of "nat i"] nat_digits_all [of "nat (- i)"] by (auto simp: Itoa_def list_all_iff)

lemma response_key_port:
  assumes "response_key a = response_key b"
  shows "pa_Port a = pa_Port b"
proof -
  have key: "takeWhile (\<lambda>c. c \<noteq> CHR '':'') (rev (response_key a)) = rev (Itoa (pa_Port a))" for a
    using Itoa_no_colon [of "pa_Port a"]
    by (simp add: response_key_def) (subst takeWhile_append2, auto)
  then show ?thesis using assms by (metis Itoa_inj rev_rev_ident)
qed

lemma punch_loop_bound: "i \<le> 3 \<Longrightarrow> punch_loop i rounds s \<le> s + (3 - i)"
proof (induction i rounds s rule: punch_loop.induct)
  case (1 i rounds s)
  then show ?case
    by (subst punch_loop.simps) (fastforce split: prod.splits option.splits sum.splits)
qed

text \<open>
  The verdict. The test never reports a port-restricted NAT and counts at most three punched
  holes. Every query is sent from a socket of its own; so as soon as two of them are answered with
  different ports, which is what any NAT shows for two sockets, the verdict is a symmetric NAT.\<close>

theorem own_sockets_look_symmetric:
  assumes "DetectNATType io = Returns (Inr r)"
  shows "tr_NATType r \<noteq> PortRestrictedCone \<and> tr_HolesPunched r \<le> 3
    \<and> (\<forall>q1 q2 a b. q1 \<in> set (na_queries io) \<longrightarrow> q2 \<in> set (na_queries io) \<longrightarrow> answers q1 a \<longrightarrow> answers q2 b
         \<longrightarrow> pa_Port a \<noteq> pa_Port b \<longrightarrow> tr_NATType r = Symmetric \<and> \<not> NATCompatible (tr_NATType r) other)"
proof -
  obtain rs where rs: "query_servers (na_queries io) [] = Returns rs"
    and nt: "tr_NATType r = ClassifyNATType (length rs) True"
    and hp: "tr_HolesPunched r = testHolePunching (na_punch io) (na_rounds io)"
    using assms by (auto simp: DetectNATType_def Let_def split: option.splits sum.splits elim!: bind_outcome_Returns)
  note resp = query_servers_responses [OF rs]
  have "tr_NATType r = Symmetric" if "q1 \<in> set (na_queries io)" "q2 \<in> set (na_queries io)"
    "answers q1 a" "answers q2 b" "pa_Port a \<noteq> pa_Port b" for q1 q2 a b
  proof -
    have "{response_key a, response_key b} \<subseteq> set rs" using resp that by auto
    then have "card {response_key a, response_key b} \<le> length rs"
      by (meson card_length card_mono finite_set le_trans)
    moreover have "response_key a \<noteq> response_key b" using response_key_port that(5) by blast
    ultimately show ?thesis by (simp add: nt ClassifyNATType_def)
  qed
  moreover have "tr_HolesPunched r \<le> 3"
    using punch_loop_bound [of 0 "na_rounds io" 0] by (simp add: hp testHolePunching_def split: option.splits)
  ultimately show ?thesis by (auto simp: nt ClassifyNATType_def NATCompatible_def)
qed

text \<open>A full-cone NAT that maps two sockets to the ports 40000 and 40001.\<close>

definition mapped_to :: "16 word \<Rightarrow> stun_io" where
  "mapped_to port = sample_io\<lparr>st_reply := (\<lambda>req. Inr (response sample_txID
     [(attrXorMappedAddress, xor_value sample_txID [203, 0, 113, 5] port)]))\<rparr>"

definition cone :: nat_io where
  "cone = \<lparr>na_listen = None, na_localIP = ''0.0.0.0'',
     na_latency = \<lparr>la_listen = None, la_start = 0, la_end = 20 * Millisecond, la_stun = mapped_to 40000\<rparr>,
     na_stun = mapped_to 40000, na_queries = [(None, mapped_to 40000), (None, mapped_to 40001)],
     na_punch = None, na_rounds = (\<lambda>i. (None, Inl ''timeout''))\<rparr>"

lemma mapped_to_answers:
  "DiscoverPublicAddr (mapped_to port) = Returns (Inr \<lparr>pa_IP = ip_String [203, 0, 113, 5], pa_Port = uint port\<rparr>)"
proof -
  have l: "length sample_txID = 12" by (simp add: sample_txID_def)
  have "length (response sample_txID [(attrXorMappedAddress, xor_value sample_txID [203, 0, 113, 5] port)]) \<le> 512"
    by (simp add: response_def attr_bytes_def padded_def xor_value_def sample_txID_def To4_def)
  moreover have "parseBindingResponse (response sample_txID [(attrXorMappedAddress, xor_value sample_txID [203, 0, 113, 5] port)]) sample_txID
      = Returns (Inr \<lparr>pa_IP = ip_String [203, 0, 113, 5], pa_Port = uint port\<rparr>)"
    using parse_xor_value [of "[203, 0, 113, 5]" sample_txID port] l calculation
    by (subst parse_response) (simp_all add: preferred_def readable_def response_def Let_def xor_value_def To4_def)
  ultimately show ?thesis by (simp add: DiscoverPublicAddr_def mapped_to_def sample_io_def)
qed

theorem own_sockets_look_symmetric_witness:
  "\<exists>r. DetectNATType cone = Returns (Inr r) \<and> tr_NATType r = Symmetric \<and> \<not> NATCompatible (tr_NATType r) FullCone"
proof -
  have two: "answers (None, mapped_to 40000) \<lparr>pa_IP = ip_String [203, 0, 113, 5], pa_Port = 40000\<rparr>"
    "answers (None, mapped_to 40001) \<lparr>pa_IP = ip_String [203, 0, 113, 5], pa_Port = 40001\<rparr>"
    by (simp_all add: answers_def mapped_to_answers)
  have sent: "(None, mapped_to 40000) \<in> set (na_queries cone)" "(None, mapped_to 40001) \<in> set (na_queries cone)"
    by (simp_all add: cone_def)
  obtain r where r: "DetectNATType cone = Returns (Inr r)"
    by (simp add: DetectNATType_def cone_def MeasureLatency_def mapped_to_answers Let_def)
  from own_sockets_look_symmetric [OF r, of FullCone, THEN conjunct2, THEN conjunct2, rule_format, OF sent two]
  show ?thesis using r by (auto simp: NATCompatible_def)
qed

end
