(* ===== verification/Discovery.thy ===== *)
theory Discovery
  imports Nat_Candidates Node_Sample
begin

text \<open>
  Discovery on the local network, \<^verbatim>\<open>src/internal/peer/discovery.go\<close>: the announcements, their parser,
  one step of the listening loop and the list of announcements of a node. The interfaces of the machine
  and the address of the fallback socket are arguments; sockets are not modelled: a step of the
  listener answers which connection attempt is started in a goroutine.
\<close>

subsection \<open>Announcements\<close>

abbreviation discoveryPrefix :: string where "discoveryPrefix \<equiv> ''korik''"
abbreviation discoveryIPv6MC :: string where "discoveryIPv6MC \<equiv> ''ff02::1''"
abbreviation transportTCP :: string where "transportTCP \<equiv> ''tcp''"
abbreviation transportUDP :: string where "transportUDP \<equiv> ''udp''"

record ParsedDiscovery =
  d_JID :: string
  d_Transport :: string
  d_IP :: string
  d_Port :: string
  d_DeviceID :: string

definition DialAddress :: "ParsedDiscovery \<Rightarrow> string \<Rightarrow> string" where
  "DialAddress d fallbackIP =
     (let i = (if d_IP d = '''' then fallbackIP else d_IP d)
      in if Contains i '':'' \<and> \<not> HasPrefix i ''['' then ''['' @ i @ '']:'' @ d_Port d
         else i @ '':'' @ d_Port d)"

definition BuildDiscoveryPayload :: "string \<Rightarrow> string \<Rightarrow> string \<Rightarrow> int \<Rightarrow> string \<Rightarrow> string" where
  "BuildDiscoveryPayload jid transport i port deviceID =
     (let transport' = (if transport \<noteq> transportTCP \<and> transport \<noteq> transportUDP then transportTCP else transport)
      in Join [discoveryPrefix, jid, transport', i, Itoa port, deviceID] ''|'')"

definition validPort :: "string \<Rightarrow> bool" where
  "validPort port = (case Atoi port of None \<Rightarrow> False | Some n \<Rightarrow> 0 < n \<and> n \<le> 65535)"

text \<open>\<^verbatim>\<open>strings.Trim\<close> with a set of one-byte characters.\<close>

definition Trim :: "string \<Rightarrow> string \<Rightarrow> string" where
  "Trim s cutset = rev (dropWhile (\<lambda>c. List.member cutset c) (rev (dropWhile (\<lambda>c. List.member cutset c) s)))"

definition stripZone :: "string \<Rightarrow> string" where
  "stripZone s = (case Index s ''%'' of Some i \<Rightarrow> take i s | None \<Rightarrow> Trim s ''[]'')"

text \<open>The result is \<open>None\<close> where the code returns \<open>false\<close>.\<close>

definition ParseDiscoveryPayload :: "(string \<Rightarrow> string) \<Rightarrow> string \<Rightarrow> string \<Rightarrow> ParsedDiscovery option" where
  "ParseDiscoveryPayload uni payload remoteIP =
     (let parts = Split (TrimSpace payload) CHR ''|''
      in if length parts < 3 \<or> parts ! 0 \<noteq> discoveryPrefix then None
         else
           let d = \<lparr>d_JID = TrimSpace (parts ! 1), d_Transport = '''', d_IP = '''', d_Port = '''', d_DeviceID = ''''\<rparr>;
               checked = (\<lambda>d. if validPort (d_Port d) then Some d else None)
           in if d_JID d = '''' then None
              else if length parts = 3 then
                checked (d\<lparr>d_Transport := transportTCP, d_Port := TrimSpace (parts ! 2)\<rparr>)
              else if length parts = 4 then
                checked (d\<lparr>d_Transport := transportTCP, d_Port := TrimSpace (parts ! 2), d_DeviceID := TrimSpace (parts ! 3)\<rparr>)
              else
                let transport = ToLower uni (TrimSpace (parts ! 2));
                    d5 = d\<lparr>d_Transport := transport, d_IP := TrimSpace (parts ! 3), d_Port := TrimSpace (parts ! 4)\<rparr>;
                    d' = (if length parts = 5 then d5 else d5\<lparr>d_DeviceID := TrimSpace (parts ! 5)\<rparr>)
                in if transport \<noteq> transportTCP \<and> transport \<noteq> transportUDP then None
                   else if ParseIP (stripZone (d_IP d')) = None then None
                   else checked d')"

subsection \<open>Listening\<close>

datatype dialling = NotDialled | DialTCP string | PunchUDP string

text \<open>One round of the loop of \<^verbatim>\<open>listenDiscoveryFamily\<close>: the datagram in the buffer of 1024 bytes and the
  address it came from, empty if unknown; \<open>internet\<close> is whether the internet mode is active.\<close>

definition listen_step :: "(string \<Rightarrow> string) \<Rightarrow> bool \<Rightarrow> string \<Rightarrow> ip \<Rightarrow> Node \<Rightarrow> dialling" where
  "listen_step uni internet datagram remote n =
     (let remoteIP = (if remote = [] then '''' else ip_String remote)
      in case ParseDiscoveryPayload uni (take 1024 datagram) remoteIP of
           None \<Rightarrow> NotDialled
         | Some parsed \<Rightarrow>
             if d_JID parsed = id_JID (nd_Identity n) \<and> (d_DeviceID parsed = '''' \<or> d_DeviceID parsed = nd_DeviceID n)
             then NotDialled
             else
               let peerAddr = DialAddress parsed remoteIP
               in if haskey (nd_conns n) peerAddr then NotDialled
                  else if d_Transport parsed = transportUDP then
                    (if internet then PunchUDP peerAddr else DialTCP peerAddr)
                  else DialTCP peerAddr)"

subsection \<open>Announcing\<close>

record discoverySend =
  ds_network :: string
  ds_IP :: ip
  ds_Port :: int
  ds_payload :: string

text \<open>\<open>dial\<close> is the local address of the fallback socket, \<open>None\<close> if it could not be opened.\<close>

definition localFallbackIP :: "ip option \<Rightarrow> string" where
  "localFallbackIP dial = (case dial of None \<Rightarrow> ''0.0.0.0'' | Some i \<Rightarrow> if i = [] then ''0.0.0.0'' else ip_String i)"

definition announcement :: "Node \<Rightarrow> int \<Rightarrow> int \<Rightarrow> string \<Rightarrow> ip \<Rightarrow> string \<Rightarrow> discoverySend" where
  "announcement n port discoveryPort network dst i =
     \<lparr>ds_network = network, ds_IP = dst, ds_Port = discoveryPort,
      ds_payload = BuildDiscoveryPayload (id_JID (nd_Identity n)) transportTCP i port (nd_DeviceID n)\<rparr>"

text \<open>The loops over the interfaces and their addresses, with the addresses seen so far.\<close>

fun announce_addrs :: "Node \<Rightarrow> int \<Rightarrow> int \<Rightarrow> ifaddr list \<Rightarrow> string list \<Rightarrow> discoverySend list \<times> string list" where
  "announce_addrs n port discoveryPort [] seen = ([], seen)"
| "announce_addrs n port discoveryPort (a # as) seen =
     (let i = addr_ip a; isV6 = (To4 i = None \<and> Contains (ip_String i) '':''); ipStr = stripZone (ip_text i)
      in if \<not> usable i \<or> List.member seen ipStr then announce_addrs n port discoveryPort as seen
         else case announce_addrs n port discoveryPort as (ipStr # seen) of (out, seen') \<Rightarrow>
           ((if isV6 then announcement n port discoveryPort ''udp6'' (parsed_ip discoveryIPv6MC) ipStr
             else announcement n port discoveryPort ''udp4'' (IPv4 255 255 255 255) ipStr) # out, seen'))"

fun announce_ifaces :: "Node \<Rightarrow> int \<Rightarrow> int \<Rightarrow> iface list \<Rightarrow> string list \<Rightarrow> discoverySend list" where
  "announce_ifaces n port discoveryPort [] seen = []"
| "announce_ifaces n port discoveryPort (f # fs) seen =
     (if \<not> if_Up f \<or> if_Loopback f then announce_ifaces n port discoveryPort fs seen
      else case if_Addrs f of
        None \<Rightarrow> announce_ifaces n port discoveryPort fs seen
      | Some as \<Rightarrow> (case announce_addrs n port discoveryPort as seen of (out, seen') \<Rightarrow>
          out @ announce_ifaces n port discoveryPort fs seen'))"

definition discoveryPayloads :: "iface list option \<Rightarrow> ip option \<Rightarrow> int \<Rightarrow> int \<Rightarrow> Node \<Rightarrow> discoverySend list" where
  "discoveryPayloads interfaces dial port discoveryPort n =
     (let fallback = announcement n port discoveryPort ''udp4'' (IPv4 255 255 255 255) (localFallbackIP dial)
      in case interfaces of
           None \<Rightarrow> [fallback]
         | Some fs \<Rightarrow> (let out = announce_ifaces n port discoveryPort fs [] in if out = [] then [fallback] else out))"

text \<open>\<^verbatim>\<open>announce\<close>, called five times at the start and then at every tick until the node is stopped.\<close>

definition announce :: "iface list option \<Rightarrow> ip option \<Rightarrow> int \<Rightarrow> int \<Rightarrow> Node \<Rightarrow> discoverySend list" where
  "announce interfaces dial port discoveryPort n =
     (if Stopped n then [] else discoveryPayloads interfaces dial port discoveryPort n)"

subsection \<open>Announcements are understood\<close>

text \<open>A field that survives the format: no separator, no white space.\<close>

definition wire_field :: "string \<Rightarrow> bool" where
  "wire_field s \<longleftrightarrow> no_space s \<and> CHR ''|'' \<notin> set s"

lemma wire_field_ip: "set s \<subseteq> {c. ip_char c} \<Longrightarrow> wire_field s"
proof -
  assume s: "set s \<subseteq> {c. ip_char c}"
  have "byte_of c \<in> {46, 58} \<union> {48..57} \<union> {65..70} \<union> {97..102}" if "ip_char c" for c
    using that by (auto simp: ip_char_def is_hex_def hex_value_def Let_def byte_of_def split: if_splits)
  then have b: "byte_of c \<in> {46, 58} \<union> {48..57} \<union> {65..70} \<union> {97..102}" if "c \<in> set s" for c
    using s that by blast
  have "no_space s" using b by (fastforce simp: list_all_iff)
  moreover have "CHR ''|'' \<notin> set s" using b [of "CHR ''|''"] by (auto simp: byte_of_def)
  ultimately show ?thesis by (simp add: wire_field_def)
qed

lemma wire_field_Itoa: "0 \<le> i \<Longrightarrow> wire_field (Itoa i)"
  using nat_digits_all [of "nat i"] is_digit_hex
  by (intro wire_field_ip) (auto simp: Itoa_def list_all_iff ip_char_def)

lemma plain_Join: "list_all no_space ws \<Longrightarrow> no_space sep \<Longrightarrow> no_space (Join ws sep)"
  using set_Join [of ws sep] by (fastforce simp: list_all_iff)

lemma stripZone_ip:
  assumes "set s \<subseteq> {c. ip_char c}"
  shows "stripZone s = s"
proof -
  have chars: "CHR ''%'' \<notin> set s" "CHR ''['' \<notin> set s" "CHR '']'' \<notin> set s"
    using assms by (auto simp: ip_char_def is_hex_def hex_value_def byte_of_def)
  then have "Index s ''%'' = None" using Contains_char [of s "CHR ''%''"] by (simp add: Contains_def)
  moreover have "Trim s ''[]'' = s"
  proof -
    have "dropWhile (\<lambda>c. List.member ''[]'' c) t = t" if "set t = set s" for t
      using that chars(2,3) by (cases t) auto
    then show ?thesis by (simp add: Trim_def)
  qed
  ultimately show ?thesis by (simp add: stripZone_def)
qed

lemma parse_build:
  assumes "wire_field jid" and "jid \<noteq> ''''" and "wire_field dev" and "0 < port" and "port \<le> 65535"
    and "length i = 4 \<or> length i = 16"
  shows "ParseDiscoveryPayload uni (BuildDiscoveryPayload jid transportTCP (ip_String i) port dev) remoteIP =
    Some \<lparr>d_JID = jid, d_Transport = transportTCP, d_IP = ip_String i, d_Port = Itoa port, d_DeviceID = dev\<rparr>"
proof -
  note chars = ip_String_chars [OF assms(6)]
  let ?ws = "[discoveryPrefix, jid, transportTCP, ip_String i, Itoa port, dev]"
  have f: "list_all wire_field ?ws"
    using assms(1,3,4) wire_field_ip [OF chars] wire_field_Itoa [of port] by (simp add: wire_field_def byte_of_def)
  then have "no_space (Join ?ws ''|'')"
    by (intro plain_Join) (auto simp: list_all_iff wire_field_def byte_of_def)
  then have "Split (TrimSpace (Join ?ws ''|'')) CHR ''|'' = ?ws"
    using f by (simp only: TrimSpace_plain, intro Split_Join) (auto simp: wire_field_def list_all_iff)
  moreover have "TrimSpace w = w" if "w \<in> set ?ws" for w
  proof -
    have "wire_field w" using f that unfolding list_all_iff by blast
    then show ?thesis by (simp add: wire_field_def TrimSpace_plain)
  qed
  moreover have "ToLower uni transportTCP = transportTCP"
    by (simp add: ToLower_def ascii_def byte_of_def lower_ascii_def)
  moreover have "validPort (Itoa port)" using assms(4,5) by (simp add: validPort_def Atoi_Itoa)
  ultimately show ?thesis
    using assms(2) ParseIP_String [OF assms(6)]
    by (simp add: ParseDiscoveryPayload_def BuildDiscoveryPayload_def Let_def stripZone_ip [OF chars])
qed

definition ip_sized :: "ip \<Rightarrow> bool" where
  "ip_sized i \<longleftrightarrow> length i = 4 \<or> length i = 16"

definition sized :: "iface list \<Rightarrow> bool" where
  "sized fs \<longleftrightarrow> (\<forall>f\<in>set fs. \<forall>as. if_Addrs f = Some as \<longrightarrow> (\<forall>a\<in>set as. addr_ip a = [] \<or> ip_sized (addr_ip a)))"

lemma ip_text_strip: "ip_sized i \<Longrightarrow> stripZone (ip_text i) = ip_String i"
  by (simp add: ip_sized_def ip_text_String stripZone_ip ip_String_chars)

text \<open>What an announcement of a node says for the text of an address.\<close>

definition says :: "Node \<Rightarrow> int \<Rightarrow> string \<Rightarrow> string" where
  "says n port t = BuildDiscoveryPayload (id_JID (nd_Identity n)) transportTCP t port (nd_DeviceID n)"

lemma announcement_says [simp]: "ds_payload (announcement n port dp network dst t) = says n port t"
  by (simp add: announcement_def says_def)

definition announces :: "Node \<Rightarrow> int \<Rightarrow> string \<Rightarrow> bool" where
  "announces n port p \<longleftrightarrow> (\<exists>i. ip_sized i \<and> p = says n port (ip_String i))"

lemma announce_addrs_Cons:
  assumes "announce_addrs n port dp (a # as) seen = (out, seen')" and "addr_ip a = [] \<or> ip_sized (addr_ip a)"
  obtains "usable (addr_ip a) \<longrightarrow> ip_String (addr_ip a) \<in> set seen" "announce_addrs n port dp as seen = (out, seen')"
  | s rest where "ip_sized (addr_ip a)" "out = s # rest" "ds_payload s = says n port (ip_String (addr_ip a))"
      "announce_addrs n port dp as (ip_String (addr_ip a) # seen) = (rest, seen')"
proof (cases "usable (addr_ip a)")
  case True
  then have sz: "ip_sized (addr_ip a)" using assms(2) by (auto simp: usable_def)
  then show ?thesis
    using True that assms(1) by (auto simp: Let_def ip_text_strip split: if_splits prod.splits)
next
  case False
  then show ?thesis using that(1) assms(1) by (simp add: Let_def)
qed

lemma announce_addrs_spec:
  assumes "\<forall>a\<in>set as. addr_ip a = [] \<or> ip_sized (addr_ip a)" and "announce_addrs n port dp as seen = (out, seen')"
  shows "(\<forall>p\<in>ds_payload ` set out. announces n port p)
    \<and> set seen \<subseteq> set seen' \<and> (\<forall>a\<in>set as. usable (addr_ip a) \<longrightarrow> ip_String (addr_ip a) \<in> set seen')
    \<and> (\<forall>t\<in>set seen'. t \<in> set seen \<or> says n port t \<in> ds_payload ` set out)"
  using assms
proof (induction as arbitrary: seen out)
  case (Cons a as)
  have "addr_ip a = [] \<or> ip_sized (addr_ip a)" using Cons.prems(1) by simp
  with Cons.prems(2) show ?case
  proof (cases rule: announce_addrs_Cons)
    case 1
    then show ?thesis using Cons.IH [of seen out] Cons.prems(1) by auto
  next
    case (2 s rest)
    then have "announces n port (ds_payload s)" by (auto simp: announces_def)
    then show ?thesis
      using Cons.IH [OF _ 2(4)] Cons.prems(1) 2(2,3) by (auto simp: image_iff)
  qed
qed auto

lemma announce_ifaces_Cons:
  assumes "sized (f # fs)"
  obtains "\<not> (if_Up f \<and> \<not> if_Loopback f \<and> if_Addrs f \<noteq> None)"
      "announce_ifaces n port dp (f # fs) seen = announce_ifaces n port dp fs seen"
  | as out seen' where "if_Addrs f = Some as" "\<forall>a\<in>set as. addr_ip a = [] \<or> ip_sized (addr_ip a)"
      "announce_addrs n port dp as seen = (out, seen')"
      "announce_ifaces n port dp (f # fs) seen = out @ announce_ifaces n port dp fs seen'"
proof (cases "if_Up f \<and> \<not> if_Loopback f \<and> if_Addrs f \<noteq> None")
  case True
  then obtain as where as: "if_Addrs f = Some as" by auto
  obtain out seen' where "announce_addrs n port dp as seen = (out, seen')" by force
  then show ?thesis using that(2) as True assms by (simp add: sized_def)
next
  case False
  then show ?thesis using that(1) by (auto split: option.splits)
qed

lemma announce_ifaces_sound:
  "sized fs \<Longrightarrow> p \<in> ds_payload ` set (announce_ifaces n port dp fs seen) \<Longrightarrow> announces n port p"
proof (induction fs arbitrary: seen)
  case (Cons f fs)
  have sz: "sized fs" using Cons.prems(1) by (simp add: sized_def)
  from Cons.prems(1) show ?case
  proof (cases rule: announce_ifaces_Cons [of f fs n port dp seen])
    case 1
    then show ?thesis using Cons.IH [OF sz] Cons.prems(2) by simp
  next
    case (2 as out seen')
    then show ?thesis using Cons.IH [OF sz] Cons.prems(2) announce_addrs_spec [OF 2(2,3)] by auto
  qed
qed simp

lemma announce_ifaces_complete:
  assumes "sized fs" and "f \<in> set fs" and "if_Up f" and "\<not> if_Loopback f" and "if_Addrs f = Some as" and "a \<in> set as"
    and "usable (addr_ip a)"
  shows "ip_String (addr_ip a) \<in> set seen
    \<or> says n port (ip_String (addr_ip a)) \<in> ds_payload ` set (announce_ifaces n port dp fs seen)"
  using assms(1,2)
proof (induction fs arbitrary: seen)
  case (Cons g fs)
  have sz: "sized fs" using Cons.prems(1) by (simp add: sized_def)
  from Cons.prems(1) show ?case
  proof (cases rule: announce_ifaces_Cons [of g fs n port dp seen])
    case 1
    then have "f \<in> set fs" using Cons.prems(2) assms(3-5) by auto
    then show ?thesis using Cons.IH [OF sz] 1 by simp
  next
    case (2 bs out seen')
    note spec = announce_addrs_spec [OF 2(2,3)]
    have "ip_String (addr_ip a) \<in> set seen'
      \<or> says n port (ip_String (addr_ip a)) \<in> ds_payload ` set (announce_ifaces n port dp fs seen')"
      using spec Cons.IH [OF sz, of seen'] Cons.prems(2) assms(5-7) 2(1) by auto
    then show ?thesis using spec 2(4) by (auto simp: image_Un)
  qed
qed simp

definition dial_text :: "ip \<Rightarrow> int \<Rightarrow> string" where
  "dial_text i port =
     (if To4 i = None then ''['' @ ip_String i @ '']:'' @ Itoa port else ip_String i @ '':'' @ Itoa port)"

lemma DialAddress_ip:
  assumes "ip_sized i"
  shows "DialAddress \<lparr>d_JID = jid, d_Transport = t, d_IP = ip_String i, d_Port = Itoa port, d_DeviceID = dev\<rparr> fallback = dial_text i port"
proof -
  have sz: "length i = 4 \<or> length i = 16" using assms by (simp add: ip_sized_def)
  have "\<not> HasPrefix (ip_String i) ''[''"
    using ip_String_chars [OF sz] by (auto simp: HasPrefix_single ip_char_def is_hex_def hex_value_def byte_of_def dest: hd_in_set)
  then show ?thesis
    using ip_String_not_Nil [OF sz] ip_String_colon [OF sz] by (simp add: DialAddress_def dial_text_def Contains_char Let_def)
qed

lemma listen_says:
  assumes "wire_field (id_JID (nd_Identity n))" and "id_JID (nd_Identity n) \<noteq> ''''" and "wire_field (nd_DeviceID n)"
    and "0 < port" and "port \<le> 65535" and "ip_sized i" and "length (says n port (ip_String i)) \<le> 1024"
  shows "listen_step uni internet (says n port (ip_String i)) remote m =
    (if id_JID (nd_Identity n) = id_JID (nd_Identity m) \<and> (nd_DeviceID n = '''' \<or> nd_DeviceID n = nd_DeviceID m)
        \<or> haskey (nd_conns m) (dial_text i port)
     then NotDialled else DialTCP (dial_text i port))"
proof -
  have sz: "length i = 4 \<or> length i = 16" using assms(6) by (simp add: ip_sized_def)
  show ?thesis
    using assms(7) parse_build [OF assms(1-5) sz]
    by (auto simp: listen_step_def says_def DialAddress_ip [OF assms(6)])
qed

text \<open>
  C25. Discovery. Every usable address of an interface that is up is announced, and a datagram with that
  announcement makes every other node, unless it is connected there already, dial exactly this address
  and the port of the announcing node; the announcing node ignores its own announcement. The name
  and the device of the node must not contain the separator or white space, and the announcement
  must fit the buffer of the listener.\<close>

theorem announced_address_is_dialled:
  assumes "wire_field (id_JID (nd_Identity n))" and "id_JID (nd_Identity n) \<noteq> ''''" and "wire_field (nd_DeviceID n)"
    and "0 < port" and "port \<le> 65535" and "sized fs" and "\<not> Stopped n"
    and "f \<in> set fs" and "if_Up f" and "\<not> if_Loopback f" and "if_Addrs f = Some as" and "a \<in> set as" and "usable (addr_ip a)"
    and "length (says n port (ip_String (addr_ip a))) \<le> 1024"
    and "id_JID (nd_Identity m) \<noteq> id_JID (nd_Identity n) \<or> nd_DeviceID n \<notin> {'''', nd_DeviceID m}"
    and "\<not> haskey (nd_conns m) (dial_text (addr_ip a) port)"
  shows "\<exists>s\<in>set (announce (Some fs) dial port dp n).
    listen_step uni internet (ds_payload s) remote m = DialTCP (dial_text (addr_ip a) port)
    \<and> listen_step uni internet (ds_payload s) remote n = NotDialled"
proof -
  have "addr_ip a = [] \<or> ip_sized (addr_ip a)" using assms(6,8,11,12) by (auto simp: sized_def)
  then have i: "ip_sized (addr_ip a)" using assms(13) by (auto simp: usable_def)
  have "says n port (ip_String (addr_ip a)) \<in> ds_payload ` set (announce_ifaces n port dp fs [])"
    using announce_ifaces_complete [OF assms(6,8-13), of "[]" n port dp] by simp
  then obtain s where "s \<in> set (announce_ifaces n port dp fs [])" "ds_payload s = says n port (ip_String (addr_ip a))"
    by (metis imageE)
  moreover from this have "s \<in> set (announce (Some fs) dial port dp n)"
    using assms(7) by (auto simp: announce_def discoveryPayloads_def Let_def)
  ultimately show ?thesis
    using listen_says [OF assms(1-5) i assms(14)] assms(15,16) by (intro bexI [of _ s]) auto
qed

text \<open>
  C38. What the listener accepts. An announcement that is accepted, in any of the formats and with
  whatever content, names a peer and one of the two transports, its port is a number from 1 to 65535,
  and an address it states is the text of an IP address up to brackets and zone.\<close>

theorem accepted_announcement_wellformed:
  assumes "ParseDiscoveryPayload uni payload remoteIP = Some d"
  shows "d_JID d \<noteq> '''' \<and> d_Transport d \<in> {transportTCP, transportUDP}
    \<and> (\<exists>p. Atoi (d_Port d) = Some p \<and> 1 \<le> p \<and> p \<le> 65535)
    \<and> (d_IP d \<noteq> '''' \<longrightarrow> ParseIP (stripZone (d_IP d)) \<noteq> None)"
  using assms
  by (auto simp: ParseDiscoveryPayload_def Let_def validPort_def split: if_splits option.splits)

definition cy :: Node where "cy = ann\<lparr>nd_DeviceID := ''cli-1a2b3c4d''\<rparr>"

lemma wire_field_append: "wire_field s \<Longrightarrow> wire_field t \<Longrightarrow> wire_field (s @ t)"
  by (simp add: wire_field_def)

lemma wire_field_hex: "wire_field (EncodeToString bs)"
proof (rule wire_field_ip)
  show "set (EncodeToString bs) \<subseteq> {c. ip_char c}"
    by (auto simp: EncodeToString_def ip_char_def less_mult_imp_div_less)
qed

lemma sample_address: "ip_String [192, 168, 1, 5] = ''192.168.1.5''"
  by code_simp

lemma cy_wire: "wire_field (id_JID (nd_Identity cy))" "wire_field (nd_DeviceID cy)"
  using wire_field_append [OF _ wire_field_hex [of "replicate 32 CHR ''a''"], of "''korik:''"]
  by (simp_all add: cy_def sample_id_def Let_def wire_field_def byte_of_def)

theorem announced_address_is_dialled_witness:
  "\<exists>s\<in>set (announce (Some [wlan]) None 9999 9998 cy).
    listen_step id False (ds_payload s) [192, 168, 1, 5] bob = DialTCP (dial_text [192, 168, 1, 5] 9999)
    \<and> listen_step id False (ds_payload s) [192, 168, 1, 5] cy = NotDialled"
proof -
  have u: "usable [192, 168, 1, 5]" by code_simp
  have p: "length (Itoa 9999) = 4" by (simp add: Itoa_def nat_digits.simps)
  have "length (says cy 9999 (ip_String [192, 168, 1, 5])) \<le> 1024"
    by (simp add: says_def BuildDiscoveryPayload_def sample_address p cy_def sample_id_def Let_def)
  moreover have "id_JID (nd_Identity bob) \<noteq> id_JID (nd_Identity cy)" "id_JID (nd_Identity cy) \<noteq> ''''"
    by (simp_all add: cy_def sample_id_def Let_def Encode_inj)
  moreover have "\<not> Stopped cy" by (simp add: cy_def ann_def NewNode_def Stopped_def)
  ultimately show ?thesis
    using announced_address_is_dialled [of cy 9999 "[wlan]" wlan "[IPNet [192, 168, 1, 5]]" "IPNet [192, 168, 1, 5]" bob None 9998 id False "[192, 168, 1, 5]"]
      u cy_wire by (simp add: wlan_def sized_def ip_sized_def)
qed

theorem accepted_announcement_wellformed_witness:
  "\<exists>d. ParseDiscoveryPayload id (BuildDiscoveryPayload ''korik:ab'' transportTCP (ip_String [192, 168, 1, 5]) 9999 ''cli'') '''' = Some d
    \<and> d_JID d \<noteq> '''' \<and> d_Transport d \<in> {transportTCP, transportUDP}
    \<and> (\<exists>p. Atoi (d_Port d) = Some p \<and> 1 \<le> p \<and> p \<le> 65535)"
proof -
  have "wire_field ''korik:ab''" "wire_field ''cli''" by (simp_all add: wire_field_def byte_of_def)
  then have "ParseDiscoveryPayload id (BuildDiscoveryPayload ''korik:ab'' transportTCP (ip_String [192, 168, 1, 5]) 9999 ''cli'') '''' \<noteq> None"
    by (simp add: parse_build)
  then show ?thesis using accepted_announcement_wellformed by fast
qed

end
