(* ===== verification/Discovery_Run.thy ===== *)
theory Discovery_Run
  imports Discovery
begin

text \<open>
  The two goroutines of \<^verbatim>\<open>StartDiscovery\<close> in \<^verbatim>\<open>src/internal/peer/discovery.go\<close> as a whole: the opening of the listening socket and its
  loop, and the loop that announces. The state of the node, the interfaces and the datagrams are given for each round.
\<close>

text \<open>
  The line that is printed when the socket of a family cannot be opened, \<open>None\<close> when it can: the results of both calls
  of \<^verbatim>\<open>net.ResolveUDPAddr\<close>, with and without brackets, and of \<^verbatim>\<open>net.ListenUDP\<close>.\<close>

definition open_discovery :: "string \<Rightarrow> string option \<Rightarrow> string option \<Rightarrow> string option \<Rightarrow> string option" where
  "open_discovery network bracketed plain listen =
     (case (if bracketed = None then None else plain) of
        Some err \<Rightarrow> Some (''discovery listen error: '' @ err)
      | None \<Rightarrow>
          (case listen of
             Some err \<Rightarrow> Some (''discovery listen error ('' @ network @ ''): '' @ err)
           | None \<Rightarrow> None))"

text \<open>The loop: a round is a failed read, which is passed over, or a datagram with its sender and the node as it is then.\<close>

fun listen_loop :: "(string \<Rightarrow> string) \<Rightarrow> (bool \<times> string \<times> ip \<times> Node) option list \<Rightarrow> dialling list" where
  "listen_loop uni [] = []"
| "listen_loop uni (None # rs) = listen_loop uni rs"
| "listen_loop uni (Some (internet, datagram, remote, n) # rs) = listen_step uni internet datagram remote n # listen_loop uni rs"

definition listenDiscoveryFamily ::
    "string \<Rightarrow> string option \<Rightarrow> string option \<Rightarrow> string option \<Rightarrow> (string \<Rightarrow> string) \<Rightarrow>
     (bool \<times> string \<times> ip \<times> Node) option list \<Rightarrow> string option \<times> dialling list" where
  "listenDiscoveryFamily network bracketed plain listen uni rs =
     (case open_discovery network bracketed plain listen of
        Some line \<Rightarrow> (Some line, [])
      | None \<Rightarrow> (None, listen_loop uni rs))"

text \<open>
  The five rounds of the start and those of the ticker differ in their timing only: each ends the loop when the node was stopped.
  A round is the answer of \<^verbatim>\<open>net.Interfaces\<close>, the local address of the fallback and the node.\<close>

fun broadcastPresence :: "int \<Rightarrow> int \<Rightarrow> (iface list option \<times> ip option \<times> Node) list \<Rightarrow> discoverySend list" where
  "broadcastPresence port discoveryPort [] = []"
| "broadcastPresence port discoveryPort ((interfaces, dial, n) # rs) =
     (if Stopped n then [] else announce interfaces dial port discoveryPort n @ broadcastPresence port discoveryPort rs)"

text \<open>What \<^verbatim>\<open>sendDiscoveryPayload\<close> gives to the network; its arguments are whether dialling and writing succeed.\<close>

definition sendDiscoveryPayload :: "bool \<Rightarrow> bool \<Rightarrow> discoverySend \<Rightarrow> (string \<times> ip \<times> int \<times> string) option" where
  "sendDiscoveryPayload dials writes s =
     (if dials \<and> writes then Some (ds_network s, ds_IP s, ds_Port s, ds_payload s) else None)"

lemma fallback_sized:
  assumes "case dial of None \<Rightarrow> True | Some i \<Rightarrow> i = [] \<or> ip_sized i"
  shows "\<exists>i. ip_sized i \<and> localFallbackIP dial = ip_String i"
proof -
  have "ip_String [0, 0, 0, 0] = ''0.0.0.0''" by code_simp
  then have zero: "\<exists>i. ip_sized i \<and> ''0.0.0.0'' = ip_String i" by (intro exI [of _ "[0, 0, 0, 0]"]) (simp add: ip_sized_def)
  then show ?thesis using assms by (auto simp: localFallbackIP_def split: option.splits)
qed

lemma announce_sound:
  assumes "s \<in> set (announce interfaces dial port dp n)" and "case interfaces of None \<Rightarrow> True | Some fs \<Rightarrow> sized fs"
    and "case dial of None \<Rightarrow> True | Some i \<Rightarrow> i = [] \<or> ip_sized i"
  shows "announces n port (ds_payload s)"
proof -
  have fb: "announces n port (ds_payload (announcement n port dp net dst (localFallbackIP dial)))" for net dst
    using fallback_sized [OF assms(3)] by (auto simp: announces_def)
  show ?thesis
    using assms(1,2) fb announce_ifaces_sound
    by (fastforce simp: announce_def discoveryPayloads_def Let_def split: if_splits option.splits)
qed

text \<open>
  A node only ever offers itself. Whatever rounds the announcing of a node goes through, everything it sends makes a listener dial an
  address with the port of this node, or nothing.\<close>

theorem presence_offers_itself:
  assumes "s \<in> set (broadcastPresence port dp rs)"
    and "\<forall>(interfaces, dial, n) \<in> set rs. nd_Identity n = i \<and> nd_DeviceID n = dev
        \<and> (case interfaces of None \<Rightarrow> True | Some fs \<Rightarrow> sized fs) \<and> (case dial of None \<Rightarrow> True | Some a \<Rightarrow> a = [] \<or> ip_sized a)"
    and "wire_field (id_JID i)" and "id_JID i \<noteq> ''''" and "wire_field dev" and "0 < port" and "port \<le> 65535"
    and "length (ds_payload s) \<le> 1024"
  shows "\<exists>a. ip_sized a \<and> listen_step uni internet (ds_payload s) remote m \<in> {NotDialled, DialTCP (dial_text a port)}"
proof -
  have "\<exists>n. nd_Identity n = i \<and> nd_DeviceID n = dev \<and> announces n port (ds_payload s)"
    using assms(1,2)
  proof (induction port dp rs rule: broadcastPresence.induct)
    case (2 port dp interfaces dial n rs)
    show ?case
    proof (cases "s \<in> set (announce interfaces dial port dp n)")
      case True
      then show ?thesis using announce_sound [OF True] 2(3) by auto
    qed (use 2 in \<open>auto split: if_splits\<close>)
  qed simp
  then obtain n a where n: "nd_Identity n = i" "nd_DeviceID n = dev" "ip_sized a" "ds_payload s = says n port (ip_String a)"
    by (auto simp: announces_def)
  then show ?thesis
    using listen_says [of n port a uni internet remote m] assms(3-8) by (intro exI [of _ a]) auto
qed

end
