(* ===== verification/Udp_Link.thy ===== *)
theory Udp_Link
  imports Go_Strings
begin

text \<open>
  The UDP adapter, \<^verbatim>\<open>src/internal/peer/udp_adapter.go\<close>, with the two buffers of package \<^verbatim>\<open>bufio\<close> through
  which \<^verbatim>\<open>setupConn\<close> and \<^verbatim>\<open>sendRaw\<close> of \<^verbatim>\<open>src/internal/peer/node.go\<close> use it. The operating system is the
  predicate \<open>fits\<close>: whether it accepts a datagram of that content (it refuses one that is longer than a
  UDP datagram can be). The network is an argument, a function from the datagrams sent to those that arrive: it
  may lose, repeat and reorder datagrams, and what is assumed of it is only that it makes none up.
\<close>

subsection \<open>The adapter\<close>

record udpConn =
  uc_remote :: string
  uc_incoming :: "string list"
  uc_closed :: bool

definition newUDPConn :: "string \<Rightarrow> udpConn" where
  "newUDPConn remote = \<lparr>uc_remote = remote, uc_incoming = [], uc_closed = False\<rparr>"

text \<open>The \<open>default\<close> branch of the \<open>select\<close>: the channel has 64 places.\<close>

definition push :: "string \<Rightarrow> udpConn \<Rightarrow> udpConn" where
  "push data c = (if length (uc_incoming c) < 64 then c\<lparr>uc_incoming := uc_incoming c @ [data]\<rparr> else c)"

text \<open>\<^verbatim>\<open>Read\<close> into a slice of \<open>room\<close> bytes. When a datagram waits and the connection is closed, \<open>select\<close> takes
  either branch: \<open>pick\<close> is its choice. \<open>Inl\<close> is the error \<^verbatim>\<open>udp conn closed\<close>.\<close>

definition udp_Read :: "bool \<Rightarrow> nat \<Rightarrow> udpConn \<Rightarrow> ((unit + string) \<times> udpConn) outcome" where
  "udp_Read pick room c =
     (case uc_incoming c of
        [] \<Rightarrow> if uc_closed c then Returns (Inl (), c) else Blocks
      | data # rest \<Rightarrow>
          if uc_closed c \<and> \<not> pick then Returns (Inl (), c)
          else Returns (Inr (take room data), c\<lparr>uc_incoming := rest\<rparr>))"

definition udp_Close :: "udpConn \<Rightarrow> udpConn" where
  "udp_Close c = c\<lparr>uc_closed := True\<rparr>"

subsection \<open>The writer\<close>

text \<open>A \<^verbatim>\<open>bufio.Writer\<close>: what is buffered and whether an error has occurred, which is kept for ever. The
  datagrams that leave the socket are returned.\<close>

record bwriter =
  bw_buf :: string
  bw_err :: bool

definition NewWriter :: bwriter where
  "NewWriter = \<lparr>bw_buf = '''', bw_err = False\<rparr>"

definition udp_Write :: "(string \<Rightarrow> bool) \<Rightarrow> string \<Rightarrow> bool \<times> string list" where
  "udp_Write fits b = (if fits b then (True, [b]) else (False, []))"

definition bw_Flush :: "(string \<Rightarrow> bool) \<Rightarrow> bwriter \<Rightarrow> bwriter \<times> string list" where
  "bw_Flush fits w =
     (if bw_err w \<or> bw_buf w = [] then (w, [])
      else case udp_Write fits (bw_buf w) of
        (True, sent) \<Rightarrow> (w\<lparr>bw_buf := []\<rparr>, sent)
      | (False, sent) \<Rightarrow> (w\<lparr>bw_err := True\<rparr>, sent))"

lemma bw_Flush_done: "bw_Flush fits w = (w', sent) \<Longrightarrow> \<not> bw_err w \<Longrightarrow> bw_err w' \<or> bw_buf w' = []"
  by (auto simp: bw_Flush_def udp_Write_def split: if_splits)

function bw_Write :: "(string \<Rightarrow> bool) \<Rightarrow> string \<Rightarrow> bwriter \<Rightarrow> bwriter \<times> string list" where
  "bw_Write fits p w =
     (if 4096 - length (bw_buf w) < length p \<and> \<not> bw_err w then
        (if bw_buf w = [] then
           (case udp_Write fits p of
              (True, sent) \<Rightarrow> (w, sent)
            | (False, sent) \<Rightarrow> (w\<lparr>bw_err := True\<rparr>, sent))
         else
           let room = 4096 - length (bw_buf w)
           in case bw_Flush fits (w\<lparr>bw_buf := bw_buf w @ take room p\<rparr>) of (w', sent) \<Rightarrow>
                (case bw_Write fits (drop room p) w' of (w'', sent') \<Rightarrow> (w'', sent @ sent')))
      else if bw_err w then (w, [])
      else (w\<lparr>bw_buf := bw_buf w @ p\<rparr>, []))"
  by auto
termination
  by (relation "measures [\<lambda>(fits, p, w). length p, \<lambda>(fits, p, w). if bw_err w then 0 else length (bw_buf w)]")
    (auto dest!: sym [of _ "bw_Flush _ _"] bw_Flush_done)

declare bw_Write.simps [simp del]

text \<open>The end of \<^verbatim>\<open>sendRaw\<close>: both errors are ignored.\<close>

definition send_line :: "(string \<Rightarrow> bool) \<Rightarrow> string \<Rightarrow> bwriter \<Rightarrow> bwriter \<times> string list" where
  "send_line fits b w =
     (case bw_Write fits b w of (w1, sent1) \<Rightarrow>
        (case bw_Flush fits w1 of (w2, sent2) \<Rightarrow> (w2, sent1 @ sent2)))"

fun send_lines :: "(string \<Rightarrow> bool) \<Rightarrow> string list \<Rightarrow> bwriter \<Rightarrow> bwriter \<times> string list" where
  "send_lines fits [] w = (w, [])"
| "send_lines fits (b # bs) w =
     (case send_line fits b w of (w1, sent1) \<Rightarrow>
        (case send_lines fits bs w1 of (w2, sent2) \<Rightarrow> (w2, sent1 @ sent2)))"

subsection \<open>The reader\<close>

text \<open>
  The lines that \<^verbatim>\<open>reader.ReadBytes\<close> returns for a sequence of datagrams in the channel: \<open>acc\<close> are the
  full buffers collected for the line, \<open>buf\<close> is the buffer of 4096 bytes, and \<open>k\<close> counts the empty reads
  in a row, of which the hundredth is the error that ends the loop.\<close>

abbreviation newline :: char where "newline \<equiv> CHR 0x0A"

lemma IndexByte_not_Nil: "IndexByte buf c = Some i \<Longrightarrow> buf \<noteq> []"
  by auto

function read_lines :: "nat \<Rightarrow> string \<Rightarrow> string \<Rightarrow> string list \<Rightarrow> string list" where
  "read_lines k acc buf ds =
     (case IndexByte buf newline of
        Some i \<Rightarrow> (acc @ take (i + 1) buf) # read_lines 0 [] (drop (i + 1) buf) ds
      | None \<Rightarrow>
          if 4096 \<le> length buf then read_lines 0 (acc @ buf) [] ds
          else case ds of
            [] \<Rightarrow> []
          | d # ds' \<Rightarrow>
              if d = [] then (if 99 \<le> k then [] else read_lines (k + 1) acc buf ds')
              else read_lines 0 acc (buf @ take (4096 - length buf) d) ds')"
  by auto
termination
  by (relation "measures [\<lambda>(k, acc, buf, ds). length ds, \<lambda>(k, acc, buf, ds). length buf]")
    (auto dest: IndexByte_not_Nil)

declare read_lines.simps [simp del]

text \<open>The read loop of the socket has a buffer of 4096 bytes, so a longer datagram loses its end.\<close>

definition received :: "string list \<Rightarrow> string list" where
  "received ds = read_lines 0 [] [] (map (take 4096) ds)"

subsection \<open>Lines over the link\<close>

text \<open>The text of a message on the wire: one newline, at its end.\<close>

definition is_line :: "string \<Rightarrow> bool" where
  "is_line d \<longleftrightarrow> (\<exists>body. d = body @ [newline] \<and> newline \<notin> set body)"

lemma line_not_Nil: "is_line d \<Longrightarrow> d \<noteq> []"
  by (auto simp: is_line_def)

lemma send_line_fits:
  assumes "fits b" and "b \<noteq> []"
  shows "send_line fits b NewWriter = (NewWriter, [b])"
  using assms
  by (simp add: send_line_def NewWriter_def bw_Write.simps bw_Flush_def udp_Write_def)

lemma send_line_refused:
  assumes "\<not> fits b" and "b \<noteq> []"
  shows "send_line fits b NewWriter = (\<lparr>bw_buf = (if 4096 < length b then [] else b), bw_err = True\<rparr>, [])"
  using assms
  by (simp add: send_line_def NewWriter_def bw_Write.simps bw_Flush_def udp_Write_def)

lemma send_lines_error: "bw_err w \<Longrightarrow> send_lines fits bs w = (w, [])"
  by (induction bs) (simp_all add: send_line_def bw_Write.simps bw_Flush_def)

lemma send_lines_append:
  "list_all fits bs \<Longrightarrow> list_all is_line bs \<Longrightarrow>
    snd (send_lines fits (bs @ cs) NewWriter) = bs @ snd (send_lines fits cs NewWriter)"
proof (induction bs)
  case (Cons b bs)
  then show ?case
    using send_line_fits [of fits b] line_not_Nil [of b] by (auto split: prod.splits)
qed simp

lemma IndexByte_none: "c \<notin> set s \<Longrightarrow> IndexByte s c = None"
  by (induction s) auto

lemma IndexByte_end: "c \<notin> set s \<Longrightarrow> IndexByte (s @ c # t) c = Some (length s)"
  by (induction s) auto

lemma read_lines_fill:
  assumes "d \<noteq> []"
  shows "read_lines k acc [] (d # ds) = read_lines 0 acc (take 4096 d) ds"
  using assms by (subst read_lines.simps) simp

lemma read_lines_line:
  assumes "is_line d" and "length d \<le> 4096"
  shows "read_lines k acc [] (d # ds) = (acc @ d) # read_lines 0 [] [] ds"
proof -
  obtain body where d: "d = body @ [newline]" "newline \<notin> set body" using assms(1) by (auto simp: is_line_def)
  have "read_lines 0 acc d ds = (acc @ d) # read_lines 0 [] [] ds"
    using IndexByte_end [OF d(2), of "[]"] by (subst read_lines.simps) (simp add: d(1))
  then show ?thesis using assms(2) read_lines_fill [of d] line_not_Nil [OF assms(1)] by simp
qed

lemma read_lines_lines:
  "list_all (\<lambda>d. is_line d \<and> length d \<le> 4096) ds \<Longrightarrow> read_lines 0 [] [] (ds @ es) = ds @ read_lines 0 [] [] es"
  by (induction ds) (simp_all add: read_lines_line)

lemma read_lines_full:
  assumes "newline \<notin> set buf" and "length buf = 4096"
  shows "read_lines k acc buf ds = read_lines 0 (acc @ buf) [] ds"
  using assms by (subst read_lines.simps) (simp add: IndexByte_none)

lemma push_all: "uc_incoming (fold push ds c) = uc_incoming c @ take (64 - length (uc_incoming c)) ds"
proof (induction ds arbitrary: c)
  case (Cons d ds)
  then show ?case
    by (cases "length (uc_incoming c) < 64") (auto simp: push_def Suc_diff_Suc [symmetric] simp flip: Suc_diff_Suc)
qed simp

text \<open>
  What the handler of the connection reads of the messages \<open>ls\<close>: the sender's writer, the network, the socket
  and channel of the receiver, its reader. The datagrams that \<open>net\<close> lets through are all there before the
  reader takes the first one, which is the worst case for the channel.
\<close>

definition over_link :: "(string \<Rightarrow> bool) \<Rightarrow> (string list \<Rightarrow> string list) \<Rightarrow> string \<Rightarrow> string list \<Rightarrow> string list" where
  "over_link fits net remote ls =
     received (uc_incoming (fold push (net (snd (send_lines fits ls NewWriter))) (newUDPConn remote)))"

definition no_forgery :: "(string list \<Rightarrow> string list) \<Rightarrow> bool" where
  "no_forgery net \<longleftrightarrow> (\<forall>ds. set (net ds) \<subseteq> set ds)"

text \<open>
  C26. The link keeps messages whole. Messages of at most 4096 bytes with their newline, which the
  operating system accepts, leave as one datagram each, in order. Whatever of them the network loses, repeats or
  reorders, the reader at the other end gets exactly the messages that arrive, as they arrive (the first 64, if more wait):
  none is cut, joined with another or made up. Nothing in the adapter repairs a loss or an order: the lines come in the order
  in which they were sent, each once, only when the network delivers so.\<close>

theorem udp_link_delivers:
  assumes "list_all (\<lambda>d. is_line d \<and> length d \<le> 4096) ls" and "list_all fits ls" and "no_forgery net"
  shows "snd (send_lines fits ls NewWriter) = ls \<and> over_link fits net remote ls = take 64 (net ls)"
proof -
  have ln: "list_all is_line ls" using assms(1) by (auto simp: list_all_iff)
  have sent: "snd (send_lines fits ls NewWriter) = ls"
    using send_lines_append [OF assms(2) ln, of "[]"] by simp
  have arrived: "list_all (\<lambda>d. is_line d \<and> length d \<le> 4096) (take 64 (net ls))"
    using assms(1,3) by (fastforce simp: list_all_iff no_forgery_def dest: in_set_takeD)
  have "map (take 4096) (take 64 (net ls)) = take 64 (net ls)"
    using arrived by (intro map_idI) (auto simp: list_all_iff)
  moreover have "read_lines 0 [] [] (take 64 (net ls)) = take 64 (net ls)"
    using read_lines_lines [OF arrived, of "[]"] by (simp add: read_lines.simps)
  ultimately show ?thesis using sent by (simp add: over_link_def push_all newUDPConn_def received_def)
qed

text \<open>
  A long message takes the next one with it. The end of a message of more than 4096 bytes is cut
  off, with its newline; what is left and the following message arrive as one line.\<close>

theorem long_datagram_swallows_next:
  assumes "list_all (\<lambda>d. is_line d \<and> length d \<le> 4096) before" and "is_line d" and "4096 < length d"
    and "is_line e" and "length e \<le> 4096" and "list_all (\<lambda>d. is_line d \<and> length d \<le> 4096) after"
  shows "received (before @ d # e # after) = before @ (take 4096 d @ e) # after"
proof -
  have cut: "newline \<notin> set (take 4096 d)" "length (take 4096 d) = 4096"
    using assms(2,3) by (auto simp: is_line_def dest: in_set_takeD)
  have same: "map (take 4096) before = before" "map (take 4096) after = after"
    using assms(1,6) by (auto simp: list_all_iff intro: map_idI)
  have "received (before @ d # e # after) = before @ read_lines 0 [] [] (take 4096 d # e # after)"
    using read_lines_lines [OF assms(1)] assms(5) same by (simp add: received_def)
  also have "read_lines 0 [] [] (take 4096 d # e # after) = read_lines 0 (take 4096 d) [] (e # after)"
    using read_lines_fill [of "take 4096 d" 0 "[]"] read_lines_full [OF cut, of 0 "[]"] line_not_Nil [OF assms(2)] by simp
  also have "\<dots> = (take 4096 d @ e) # after"
    using read_lines_line [OF assms(4,5)] read_lines_lines [OF assms(6), of "[]"] by (simp add: read_lines.simps)
  finally show ?thesis .
qed

text \<open>
  A refused datagram ends the connection silently. After a message that the operating system
  does not accept as a datagram, for example one that is too long, no later message leaves the node on
  this connection, however short it is; the sender is told nothing.\<close>

theorem refused_message_mutes_connection:
  assumes "list_all fits bs" and "list_all is_line bs" and "is_line b" and "\<not> fits b"
  shows "snd (send_lines fits (bs @ b # later) NewWriter) = bs"
proof -
  have "snd (send_lines fits (b # later) NewWriter) = []"
    using send_line_refused [of fits b] assms(4) line_not_Nil [OF assms(3)] by (simp add: send_lines_error)
  then show ?thesis using send_lines_append [OF assms(1,2)] by simp
qed

text \<open>
  A burst. Of the datagrams that arrive before the reader takes any, the oldest 64 are kept and the
  newer ones are dropped.\<close>

theorem burst_keeps_oldest: "uc_incoming (fold push ds (newUDPConn remote)) = take 64 ds"
  by (simp add: push_all newUDPConn_def)

text \<open>A network that loses the first datagram, delivers the others in the opposite order and repeats the last one.\<close>

definition unruly :: "string list \<Rightarrow> string list" where
  "unruly ds = (case ds of [] \<Rightarrow> [] | d # rest \<Rightarrow> take 1 (rev rest) @ rev rest)"

theorem udp_link_delivers_witness:
  "over_link (\<lambda>d. length d \<le> 65507) unruly ''203.0.113.5:9999'' [''hi'' @ [newline], ''yo'' @ [newline], ''ok'' @ [newline]]
     = [''ok'' @ [newline], ''ok'' @ [newline], ''yo'' @ [newline]]"
proof -
  have "no_forgery unruly" by (auto simp: no_forgery_def unruly_def split: list.splits dest: in_set_takeD)
  then show ?thesis
    using udp_link_delivers [of "[''hi'' @ [newline], ''yo'' @ [newline], ''ok'' @ [newline]]" "\<lambda>d. length d \<le> 65507" unruly]
    by (simp add: is_line_def unruly_def)
qed

theorem long_datagram_swallows_next_witness:
  "received [replicate 5000 CHR ''a'' @ [newline], ''yo'' @ [newline]]
    = [take 4096 (replicate 5000 CHR ''a'' @ [newline]) @ ''yo'' @ [newline]]"
  using long_datagram_swallows_next [of "[]" "replicate 5000 CHR ''a'' @ [newline]" "''yo'' @ [newline]" "[]"]
  by (simp add: is_line_def)

theorem refused_message_mutes_connection_witness:
  "snd (send_lines (\<lambda>d. length d \<le> 65507) ([''hi'' @ [newline]] @ (replicate 87000 CHR ''a'' @ [newline]) # [''yo'' @ [newline]]) NewWriter)
    = [''hi'' @ [newline]]"
  by (rule refused_message_mutes_connection) (auto simp: is_line_def)

end
