(* ===== verification/Internet.thy ===== *)
theory Internet
  imports Discovery Udp_Link
begin

text \<open>
  Connections across networks, \<^verbatim>\<open>src/internal/peer/internet.go\<close>: the shared UDP socket with its table
  of links, hole punching, the candidates a node shares, and the five stages in which a bundle of a
  peer is tried. The record \<open>world\<close> has the answers of the network to a walk through the stages; what the
  other goroutines make of the node while the walk waits is the list of the states its polls see.
\<close>

subsection \<open>The transport\<close>

record InternetTransport =
  it_udpPeers :: "(string \<times> udpConn) list"
  it_pubAddr :: PublicAddr

definition StartInternet :: "string option \<Rightarrow> stun_io \<Rightarrow> string \<Rightarrow> (string + InternetTransport) outcome" where
  "StartInternet listen io stunServer =
     (case listen of
        Some err \<Rightarrow> Returns (Inl (''failed to open udp socket: '' @ err))
      | None \<Rightarrow> bind_outcome (DiscoverPublicAddr io) (\<lambda>r.
          Returns (case r of
            Inl err \<Rightarrow> Inl (''failed to query stun server ('' @ stunServer @ ''): '' @ err)
          | Inr pub \<Rightarrow> Inr \<lparr>it_udpPeers = [], it_pubAddr = pub\<rparr>)))"

text \<open>One datagram of \<^verbatim>\<open>readLoop\<close>; the first component is whether \<^verbatim>\<open>handleIncoming\<close> is started for the link.\<close>

definition read_step :: "string \<Rightarrow> string \<Rightarrow> InternetTransport \<Rightarrow> bool \<times> InternetTransport" where
  "read_step key datagram it =
     (let known = map_of (it_udpPeers it) key;
          uc = (case known of None \<Rightarrow> newUDPConn key | Some uc \<Rightarrow> uc)
      in (known = None, it\<lparr>it_udpPeers := AList.update key (push (take 4096 datagram) uc) (it_udpPeers it)\<rparr>))"

definition normalizeAddr :: "string \<Rightarrow> string" where "normalizeAddr addr = addr"

definition punch_hello :: "env \<Rightarrow> Node \<Rightarrow> Message" where
  "punch_hello E n = (blank MsgHello)
     \<lparr>m_From := nd_Name n, m_JID := id_JID (nd_Identity n), m_LID := id_LID (nd_Identity n),
      m_DeviceID := nd_DeviceID n, m_PubKey := PublicKeyHex (nd_Identity n), m_Timestamp := en_now E\<rparr>"

text \<open>\<open>resolve\<close> is \<^verbatim>\<open>net.ResolveUDPAddr\<close>. The result is the error, the datagrams of the punching goroutine
  with their destination, and the node, whose new task is the started \<^verbatim>\<open>handleIncoming\<close>.\<close>

definition ConnectPeerPublicAddr ::
    "env \<Rightarrow> (string \<Rightarrow> string + string) \<Rightarrow> string \<Rightarrow> Node \<times> InternetTransport option \<Rightarrow>
     string option \<times> (string \<times> Message) list \<times> Node \<times> InternetTransport option" where
  "ConnectPeerPublicAddr E resolve addrStr s =
     (case s of (n, internet) \<Rightarrow>
       (case internet of
          None \<Rightarrow> (Some ''internet mode not active yet, run StartInternet first'', [], n, internet)
        | Some it \<Rightarrow>
            (case resolve (normalizeAddr addrStr) of
               Inl err \<Rightarrow> (Some (''invalid address: '' @ err), [], n, internet)
             | Inr remote \<Rightarrow>
                 let new = (map_of (it_udpPeers it) remote = None);
                     it' = (if new then it\<lparr>it_udpPeers := AList.update remote (newUDPConn remote) (it_udpPeers it)\<rparr> else it)
                 in (None, replicate 6 (remote, punch_hello E n),
                     (if new then spawn (ReadTask (nd_next n)) n else n), Some it'))))"

subsection \<open>Candidates of this node\<close>

definition stripBrackets :: "string \<Rightarrow> string" where
  "stripBrackets s =
     (if 2 \<le> length s \<and> hd s = CHR ''['' \<and> last s = CHR '']'' then butlast (tl s) else s)"

definition LocalCandidates :: "(string \<Rightarrow> string) \<Rightarrow> iface list option \<Rightarrow> int \<Rightarrow> InternetTransport option \<Rightarrow> Candidate list" where
  "LocalCandidates uni interfaces port internet =
     (let host = GatherHostCandidates interfaces port;
          out = (case internet of
                   None \<Rightarrow> host
                 | Some it \<Rightarrow>
                     let s = stripBrackets (pa_IP (it_pubAddr it))
                     in host @ [\<lparr>ca_ID = ''srflx-conn-udp'', ca_Type = CandidateSrflx, ca_IP = s,
                          ca_Port = pa_Port (it_pubAddr it), ca_Interface = '''', ca_Transport = ''udp'',
                          ca_Priority = PriorityFor CandidateSrflx (parsed_ip s) ''udp''\<rparr>])
      in Deduplicate uni (Prioritize out))"

definition BundleForShare ::
    "(Bundle \<Rightarrow> string option) \<Rightarrow> (string \<Rightarrow> string) \<Rightarrow> iface list option \<Rightarrow> int \<Rightarrow> Node \<times> InternetTransport option \<Rightarrow> string" where
  "BundleForShare marshal uni interfaces port s =
     (case s of (n, internet) \<Rightarrow>
        EncodeBundle marshal (id_JID (nd_Identity n)) (nd_DeviceID n) (LocalCandidates uni interfaces port internet))"

subsection \<open>The five stages\<close>

abbreviation PhaseTraversing :: Phase where "PhaseTraversing \<equiv> ''nat-traversal''"

fun phaseForStep :: "StrategyStep \<Rightarrow> Phase" where
  "phaseForStep StepDirectLAN = PhaseConnecting"
| "phaseForStep StepIPv6 = PhaseConnecting"
| "phaseForStep StepPublicUDP = PhaseTraversing"
| "phaseForStep StepPunching = PhaseTraversing"
| "phaseForStep StepFailed = PhaseFailed"

definition peer_ready :: "string \<Rightarrow> Node \<Rightarrow> bool" where
  "peer_ready jid n \<longleftrightarrow> list_ex (\<lambda>c. pc_jid (nd_pc n c) = jid \<and> pc_sessionKey (nd_pc n c) \<noteq> None) (map snd (nd_conns n))"

text \<open>The polls of \<^verbatim>\<open>waitForPeerJID\<close>, one every 100 milliseconds until its deadline.\<close>

fun waitForPeerJID :: "string \<Rightarrow> Node list \<Rightarrow> Node \<Rightarrow> bool \<times> Node" where
  "waitForPeerJID jid [] n = (False, n)"
| "waitForPeerJID jid (s # ss) n = (if peer_ready jid s then (True, s) else waitForPeerJID jid ss s)"

datatype trial = Reported StrategyStep string | TriedTCP string | Punched string

record world =
  wd_env :: env
  wd_dial :: "string \<Rightarrow> string option"
  wd_resolve :: "string \<Rightarrow> string + string"
  wd_polls :: "nat \<Rightarrow> Node \<Rightarrow> Node list"
  wd_onStep :: bool

record walk =
  wk_node :: Node
  wk_internet :: "InternetTransport option"
  wk_waits :: nat
  wk_log :: "trial list"
  wk_sent :: "(string \<times> Message) list"

definition report :: "world \<Rightarrow> StrategyStep \<Rightarrow> string \<Rightarrow> walk \<Rightarrow> walk" where
  "report W step msg w =
     w\<lparr>wk_log := (if wd_onStep W then wk_log w @ [Reported step msg] else wk_log w),
       wk_node := status_set (wd_env W) (phaseForStep step) msg (wk_node w)\<rparr>"

definition dial_tcp :: "world \<Rightarrow> string \<Rightarrow> walk \<Rightarrow> walk" where
  "dial_tcp W addr w =
     w\<lparr>wk_node := snd (ConnectTo (wd_env W) (wd_dial W addr) addr (wk_node w)), wk_log := wk_log w @ [TriedTCP addr]\<rparr>"

definition punch_udp :: "world \<Rightarrow> string \<Rightarrow> walk \<Rightarrow> walk" where
  "punch_udp W addr w =
     (case ConnectPeerPublicAddr (wd_env W) (wd_resolve W) addr (wk_node w, wk_internet w) of
        (err, sent, n, internet) \<Rightarrow>
          w\<lparr>wk_node := n, wk_internet := internet, wk_sent := wk_sent w @ sent, wk_log := wk_log w @ [Punched addr]\<rparr>)"

definition wait_for :: "world \<Rightarrow> string \<Rightarrow> walk \<Rightarrow> bool \<times> walk" where
  "wait_for W jid w =
     (case waitForPeerJID jid (wd_polls W (wk_waits w) (wk_node w)) (wk_node w) of
        (ok, n) \<Rightarrow> (ok, w\<lparr>wk_node := n, wk_waits := wk_waits w + 1\<rparr>))"

fun tryTCP :: "world \<Rightarrow> StrategyStep \<Rightarrow> string \<Rightarrow> nat \<Rightarrow> Candidate list \<Rightarrow> walk \<Rightarrow> bool \<times> walk" where
  "tryTCP W step jid tried [] w = (False, w)"
| "tryTCP W step jid tried (c # cs) w =
     (if StepFor c \<noteq> step \<or> ca_Transport c \<noteq> transportTCP then tryTCP W step jid tried cs w
      else if 3 \<le> tried then (False, w)
      else case wait_for W jid (dial_tcp W (Address c)
                  (report W step (''trying '' @ StepString step @ '' '' @ Address c @ '' ('' @ ca_ID c @ '')'') w)) of
        (ok, w') \<Rightarrow>
          if ok then (True, report W step (''connected via '' @ Address c) w')
          else tryTCP W step jid (tried + 1) cs w')"

definition public_udp :: "world \<Rightarrow> string \<Rightarrow> Candidate list \<Rightarrow> walk \<Rightarrow> bool \<times> walk" where
  "public_udp W jid cands w =
     (case find (\<lambda>c. ca_Type c = CandidateSrflx \<and> ca_Transport c = transportUDP) cands of
        None \<Rightarrow> (False, w)
      | Some c \<Rightarrow>
          (case wait_for W jid (punch_udp W (Address c)
                  (report W StepPublicUDP (''punching '' @ Address c @ '' ('' @ ca_ID c @ '')'') w)) of
             (ok, w') \<Rightarrow> (ok, if ok then report W StepPublicUDP (''connected via '' @ Address c) w' else w')))"

definition punching :: "world \<Rightarrow> string \<Rightarrow> Candidate list \<Rightarrow> walk \<Rightarrow> bool \<times> walk" where
  "punching W jid cands w =
     (let targets = filter (\<lambda>c. ca_Transport c = ''udp'') cands
      in if targets = [] then (False, w)
         else case wait_for W jid (fold (\<lambda>c. punch_udp W (Address c)) targets
                  (report W StepPunching (''parallel punching '' @ Itoa (int (length targets)) @ '' UDP candidates'') w)) of
           (ok, w') \<Rightarrow> (ok, if ok then report W StepPunching ''connected via hole punching'' w' else w'))"

text \<open>The result is the error, \<open>None\<close> for \<open>nil\<close>.\<close>

definition ConnectWithCandidates :: "world \<Rightarrow> Bundle \<Rightarrow> walk \<Rightarrow> string option \<times> walk" where
  "ConnectWithCandidates W bundle w0 =
     (let cands = Prioritize (bu_Candidates bundle); jid = bu_JID bundle
      in case tryTCP W StepDirectLAN jid 0 cands w0 of (ok1, w1) \<Rightarrow>
         if ok1 then (None, w1)
         else case tryTCP W StepIPv6 jid 0 cands w1 of (ok2, w2) \<Rightarrow>
         if ok2 then (None, w2)
         else if wk_internet w2 = None then
           (Some ''no direct path and internet mode is off (enable -internet for UDP stages)'',
            report W StepFailed ''internet mode off: skipping public-udp and hole-punching stages'' w2)
         else case public_udp W jid cands w2 of (ok3, w3) \<Rightarrow>
         if ok3 then (None, w3)
         else case punching W jid cands w3 of (ok4, w4) \<Rightarrow>
         if ok4 then (None, w4)
         else (Some ''all connection stages failed: try same WiFi, check firewall, or use a relay'',
               report W StepFailed ''all stages failed (direct, ipv6, public-udp, punching)'' w4))"

subsection \<open>The walk through the stages\<close>

lemma peer_ready_status [simp]: "peer_ready jid (status_set E ph d n) = peer_ready jid n"
  by (simp add: peer_ready_def status_set_def)

lemma report_node [simp]: "peer_ready jid (wk_node (report W step msg w)) = peer_ready jid (wk_node w)"
  by (simp add: report_def)

lemma waitForPeerJID_ready: "waitForPeerJID jid ss n = (True, n') \<Longrightarrow> peer_ready jid n'"
  by (induction jid ss n rule: waitForPeerJID.induct) (auto split: if_splits)

lemma wait_for_ready: "wait_for W jid w = (True, w') \<Longrightarrow> peer_ready jid (wk_node w')"
  by (auto simp: wait_for_def split: prod.splits dest: waitForPeerJID_ready)

lemma tryTCP_ready: "tryTCP W step jid tried cs w = (True, w') \<Longrightarrow> peer_ready jid (wk_node w')"
proof (induction W step jid tried cs w rule: tryTCP.induct)
  case (2 W step jid tried c cs w)
  then show ?case by (auto split: if_splits prod.splits dest: wait_for_ready)
qed simp

lemma public_udp_ready: "public_udp W jid cands w = (True, w') \<Longrightarrow> peer_ready jid (wk_node w')"
  by (auto simp: public_udp_def split: option.splits prod.splits if_splits dest: wait_for_ready)

lemma punching_ready: "punching W jid cands w = (True, w') \<Longrightarrow> peer_ready jid (wk_node w')"
  by (auto simp: punching_def Let_def split: prod.splits if_splits dest: wait_for_ready)

text \<open>
  C23. No false success. When the attempt to reach a peer by its bundle returns without an
  error, the node has a connection with a session to the peer the bundle names, whatever happened on
  the way.\<close>

theorem candidates_connect_to_named_peer:
  assumes "ConnectWithCandidates W bundle w = (None, w')"
  shows "\<exists>c\<in>set (map snd (nd_conns (wk_node w'))).
    pc_jid (nd_pc (wk_node w') c) = bu_JID bundle \<and> pc_sessionKey (nd_pc (wk_node w') c) \<noteq> None"
proof -
  have "peer_ready (bu_JID bundle) (wk_node w')"
    using assms
    by (auto simp: ConnectWithCandidates_def Let_def split: prod.splits if_splits
        dest: tryTCP_ready public_udp_ready punching_ready)
  then show ?thesis by (simp add: peer_ready_def list_ex_iff)
qed

text \<open>The attempts in a log, without the reports.\<close>

definition attempts :: "walk \<Rightarrow> trial list" where
  "attempts w = filter (\<lambda>t. case t of Reported _ _ \<Rightarrow> False | _ \<Rightarrow> True) (wk_log w)"

lemma attempts_simps [simp]:
  "attempts (report W step msg w) = attempts w"
  "attempts (dial_tcp W addr w) = attempts w @ [TriedTCP addr]"
  "attempts (punch_udp W addr w) = attempts w @ [Punched addr]"
  "attempts (snd (wait_for W jid w)) = attempts w"
  by (simp_all add: attempts_def report_def dial_tcp_def punch_udp_def wait_for_def split: prod.splits)

lemma internet_simps [simp]:
  "wk_internet (report W step msg w) = wk_internet w"
  "wk_internet (dial_tcp W addr w) = wk_internet w"
  "wk_internet (snd (wait_for W jid w)) = wk_internet w"
  by (simp_all add: report_def dial_tcp_def wait_for_def split: prod.splits)

text \<open>A world in which no poll sees a session with the peer.\<close>

definition out_of_reach :: "world \<Rightarrow> string \<Rightarrow> bool" where
  "out_of_reach W jid \<longleftrightarrow> (\<forall>i n. \<forall>s\<in>set (wd_polls W i n). \<not> peer_ready jid s)"

lemma wait_out_of_reach:
  assumes "out_of_reach W jid"
  obtains w' where "wait_for W jid w = (False, w')" "attempts w' = attempts w" "wk_internet w' = wk_internet w"
proof -
  have never: "\<forall>s\<in>set ss. \<not> peer_ready jid s \<Longrightarrow> fst (waitForPeerJID jid ss n) = False" for ss n
    by (induction jid ss n rule: waitForPeerJID.induct) auto
  have "\<not> fst (waitForPeerJID jid (wd_polls W (wk_waits w) (wk_node w)) (wk_node w))"
    using assms never by (simp add: out_of_reach_def)
  then have "wait_for W jid w = (False, snd (wait_for W jid w))" by (auto simp: wait_for_def split: prod.splits)
  then show ?thesis using that attempts_simps(4) internet_simps(3) by blast
qed

definition tcp_in_stage :: "StrategyStep \<Rightarrow> Candidate \<Rightarrow> bool" where
  "tcp_in_stage step c \<longleftrightarrow> StepFor c = step \<and> ca_Transport c = transportTCP"

lemma tryTCP_out_of_reach:
  assumes "out_of_reach W jid"
  shows "\<exists>w'. tryTCP W step jid tried cs w = (False, w') \<and> wk_internet w' = wk_internet w
    \<and> attempts w' = attempts w @ map (\<lambda>c. TriedTCP (Address c)) (take (3 - tried) (filter (tcp_in_stage step) cs))"
proof (induction cs arbitrary: tried w)
  case (Cons c cs)
  show ?case
  proof (cases "tcp_in_stage step c")
    case True
    show ?thesis
    proof (cases "tried < 3")
      case lt: True
      let ?w = "dial_tcp W (Address c)
        (report W step (''trying '' @ StepString step @ '' '' @ Address c @ '' ('' @ ca_ID c @ '')'') w)"
      obtain v where v: "wait_for W jid ?w = (False, v)" "attempts v = attempts ?w" "wk_internet v = wk_internet ?w"
        using wait_out_of_reach [OF assms] .
      then have "tryTCP W step jid tried (c # cs) w = tryTCP W step jid (tried + 1) cs v"
        using True lt by (simp add: tcp_in_stage_def)
      moreover have "3 - tried = Suc (3 - (tried + 1))" using lt by simp
      ultimately show ?thesis using Cons.IH [of "tried + 1" v] True v(2,3) by auto
    qed (use True in \<open>auto simp: tcp_in_stage_def\<close>)
  next
    case False
    then show ?thesis using Cons.IH [of tried w] by (auto simp: tcp_in_stage_def)
  qed
qed simp

lemma punch_udp_internet: "wk_internet (punch_udp W addr w) = None \<longleftrightarrow> wk_internet w = None"
  by (simp add: punch_udp_def ConnectPeerPublicAddr_def Let_def split: option.splits sum.splits prod.splits)

lemma fold_punch_attempts:
  "attempts (fold (\<lambda>c. punch_udp W (Address c)) cs w) = attempts w @ map (\<lambda>c. Punched (Address c)) cs"
  by (induction cs arbitrary: w) simp_all

lemma public_udp_out_of_reach:
  assumes "out_of_reach W jid"
  shows "\<exists>w'. public_udp W jid cs w = (False, w') \<and> attempts w' = attempts w @ map (\<lambda>c. Punched (Address c))
    (take 1 (filter (\<lambda>c. ca_Type c = CandidateSrflx \<and> ca_Transport c = transportUDP) cs))"
proof (cases "find (\<lambda>c. ca_Type c = CandidateSrflx \<and> ca_Transport c = transportUDP) cs")
  case None
  then have "filter (\<lambda>c. ca_Type c = CandidateSrflx \<and> ca_Transport c = transportUDP) cs = []"
    by (simp add: find_None_iff filter_empty_conv)
  then show ?thesis using None by (simp add: public_udp_def)
next
  case (Some c)
  then have "take 1 (filter (\<lambda>c. ca_Type c = CandidateSrflx \<and> ca_Transport c = transportUDP) cs) = [c]"
    by (induction cs) (auto split: if_splits)
  moreover let ?w = "punch_udp W (Address c)
      (report W StepPublicUDP (''punching '' @ Address c @ '' ('' @ ca_ID c @ '')'') w)"
  obtain v where "wait_for W jid ?w = (False, v)" "attempts v = attempts ?w" "wk_internet v = wk_internet ?w"
    using wait_out_of_reach [OF assms] .
  ultimately show ?thesis using Some by (simp add: public_udp_def)
qed

lemma punching_out_of_reach:
  assumes "out_of_reach W jid"
  shows "\<exists>w'. punching W jid cs w = (False, w')
    \<and> attempts w' = attempts w @ map (\<lambda>c. Punched (Address c)) (filter (\<lambda>c. ca_Transport c = ''udp'') cs)"
proof -
  let ?ts = "filter (\<lambda>c. ca_Transport c = ''udp'') cs"
  let ?w = "fold (\<lambda>c. punch_udp W (Address c)) ?ts
      (report W StepPunching (''parallel punching '' @ Itoa (int (length ?ts)) @ '' UDP candidates'') w)"
  obtain v where "wait_for W jid ?w = (False, v)" "attempts v = attempts ?w" "wk_internet v = wk_internet ?w"
    using wait_out_of_reach [OF assms] .
  then show ?thesis by (cases "?ts = []") (simp_all add: punching_def Let_def fold_punch_attempts)
qed

text \<open>
  Nothing is left untried. When the peer never becomes ready, a node with internet mode ends with an
  error and the status \<open>failed\<close> after it has tried, in the order of priority, the first three TCP
  addresses for the local network, the first three for IPv6, the best public UDP address and then
  every UDP address of the bundle.\<close>

theorem all_stages_tried_before_failure:
  assumes "out_of_reach W (bu_JID bundle)" and "wk_internet w \<noteq> None" and "wk_log w = []"
  defines "cands \<equiv> Prioritize (bu_Candidates bundle)"
  shows "\<exists>err w'. ConnectWithCandidates W bundle w = (Some err, w') \<and> tk_phase (nd_Status (wk_node w')) = PhaseFailed
    \<and> attempts w' = map (\<lambda>c. TriedTCP (Address c)) (take 3 (filter (tcp_in_stage StepDirectLAN) cands))
        @ map (\<lambda>c. TriedTCP (Address c)) (take 3 (filter (tcp_in_stage StepIPv6) cands))
        @ map (\<lambda>c. Punched (Address c)) (take 1 (filter (\<lambda>c. ca_Type c = CandidateSrflx \<and> ca_Transport c = transportUDP) cands))
        @ map (\<lambda>c. Punched (Address c)) (filter (\<lambda>c. ca_Transport c = ''udp'') cands)"
proof -
  let ?jid = "bu_JID bundle"
  obtain w1 where w1: "tryTCP W StepDirectLAN ?jid 0 cands w = (False, w1)" "wk_internet w1 = wk_internet w"
    "attempts w1 = attempts w @ map (\<lambda>c. TriedTCP (Address c)) (take 3 (filter (tcp_in_stage StepDirectLAN) cands))"
    using tryTCP_out_of_reach [OF assms(1), of StepDirectLAN 0 cands w] by auto
  obtain w2 where w2: "tryTCP W StepIPv6 ?jid 0 cands w1 = (False, w2)" "wk_internet w2 = wk_internet w1"
    "attempts w2 = attempts w1 @ map (\<lambda>c. TriedTCP (Address c)) (take 3 (filter (tcp_in_stage StepIPv6) cands))"
    using tryTCP_out_of_reach [OF assms(1), of StepIPv6 0 cands w1] by auto
  obtain w3 where w3: "public_udp W ?jid cands w2 = (False, w3)" "attempts w3 = attempts w2 @ map (\<lambda>c. Punched (Address c))
      (take 1 (filter (\<lambda>c. ca_Type c = CandidateSrflx \<and> ca_Transport c = transportUDP) cands))"
    using public_udp_out_of_reach [OF assms(1), of cands w2] by auto
  obtain w4 where w4: "punching W ?jid cands w3 = (False, w4)" "attempts w4 = attempts w3
      @ map (\<lambda>c. Punched (Address c)) (filter (\<lambda>c. ca_Transport c = ''udp'') cands)"
    using punching_out_of_reach [OF assms(1), of cands w3] by auto
  have "attempts w = []" using assms(3) by (simp add: attempts_def)
  moreover have "ConnectWithCandidates W bundle w = (Some ''all connection stages failed: try same WiFi, check firewall, or use a relay'',
      report W StepFailed ''all stages failed (direct, ipv6, public-udp, punching)'' w4)"
    using w1(1,2) w2(1,2) w3(1) w4(1) assms(2) by (simp add: ConnectWithCandidates_def Let_def flip: cands_def)
  ultimately show ?thesis
    using w1(3) w2(3) w3(2) w4(2) by (simp add: report_def status_set_def SetPhase_def attempts_def)
qed

text \<open>
  A UDP peer is set up once. When the table has a link for an address, neither a datagram from there nor an
  attempt to connect there starts a handler, and the link stays in the table as it is but for the
  datagrams pushed: a link that is closed is never replaced, so the peer stays unreachable under this
  address.\<close>

theorem closed_udp_link_stays:
  assumes "map_of (it_udpPeers it) key = Some uc" and "uc_closed uc" and "resolve addr = Inr key"
  shows "\<not> fst (read_step key datagram it)
    \<and> map_option uc_closed (map_of (it_udpPeers (snd (read_step key datagram it))) key) = Some True
    \<and> (\<exists>sent. ConnectPeerPublicAddr E resolve addr (n, Some it) = (None, sent, n, Some it))"
  using assms
  by (auto simp: read_step_def push_def ConnectPeerPublicAddr_def normalizeAddr_def Let_def)

subsection \<open>A peer in reach and a peer out of reach\<close>

definition met :: Node where "met = linked ''ann'' ''korik:aa'' ''192.168.1.5:9999'' sample_session bob"

definition sample_world :: "Node list \<Rightarrow> world" where
  "sample_world polls = \<lparr>wd_env = sample_env, wd_dial = (\<lambda>_. None), wd_resolve = Inr, wd_polls = (\<lambda>i n. polls), wd_onStep = True\<rparr>"

definition sample_bundle :: Bundle where
  "sample_bundle = \<lparr>bu_Version = 1, bu_JID = ''korik:aa'', bu_DeviceID = '''',
     bu_Candidates = [host_candidate 9999 ''wlan0'' [192, 168, 1, 5] ''tcp'']\<rparr>"

definition sample_transport :: InternetTransport where
  "sample_transport = \<lparr>it_udpPeers = [(''203.0.113.5:9999'', udp_Close (newUDPConn ''203.0.113.5:9999''))],
     it_pubAddr = \<lparr>pa_IP = ''203.0.113.9'', pa_Port = 40000\<rparr>\<rparr>"

definition sample_walk :: walk where
  "sample_walk = \<lparr>wk_node = bob, wk_internet = Some sample_transport, wk_waits = 0, wk_log = [], wk_sent = []\<rparr>"

lemma sample_stage: "StepFor (host_candidate 9999 ''wlan0'' [192, 168, 1, 5] ''tcp'') = StepDirectLAN"
  using ParseIP_String [of "[192, 168, 1, 5]"]
  by (simp add: host_candidate_def ip_text_String StepFor_def To16_def To4_def)

theorem candidates_connect_to_named_peer_witness:
  "\<exists>w'. ConnectWithCandidates (sample_world [met]) sample_bundle sample_walk = (None, w')
    \<and> (\<exists>c\<in>set (map snd (nd_conns (wk_node w'))).
         pc_jid (nd_pc (wk_node w') c) = ''korik:aa'' \<and> pc_sessionKey (nd_pc (wk_node w') c) \<noteq> None)"
proof -
  have ready: "peer_ready ''korik:aa'' met" by (simp add: met_def peer_ready_def)
  then have wait: "wait_for (sample_world [met]) ''korik:aa'' w = (True, w\<lparr>wk_node := met, wk_waits := wk_waits w + 1\<rparr>)" for w
    by (simp add: wait_for_def sample_world_def)
  define c where "c = host_candidate 9999 ''wlan0'' [192, 168, 1, 5] ''tcp''"
  have c: "ca_Transport c = transportTCP" "StepFor c = StepDirectLAN"
    using sample_stage by (simp_all add: c_def host_candidate_def)
  obtain w' where "tryTCP (sample_world [met]) StepDirectLAN ''korik:aa'' 0 [c] sample_walk = (True, w')"
    by (simp add: c wait)
  then have w': "ConnectWithCandidates (sample_world [met]) sample_bundle sample_walk = (None, w')"
    by (simp add: ConnectWithCandidates_def sample_bundle_def Prioritize_def Let_def del: tryTCP.simps flip: c_def)
  then show ?thesis using candidates_connect_to_named_peer [OF w'] by (simp add: sample_bundle_def)
qed

theorem all_stages_tried_before_failure_witness:
  "\<exists>err w'. ConnectWithCandidates (sample_world [bob]) sample_bundle sample_walk = (Some err, w')
    \<and> tk_phase (nd_Status (wk_node w')) = PhaseFailed"
proof -
  have "out_of_reach (sample_world [bob]) (bu_JID sample_bundle)"
    by (simp add: out_of_reach_def sample_world_def peer_ready_def)
  then show ?thesis
    using all_stages_tried_before_failure [of "sample_world [bob]" sample_bundle sample_walk]
    by (auto simp: sample_walk_def)
qed

theorem closed_udp_link_stays_witness:
  "\<not> fst (read_step ''203.0.113.5:9999'' ''x'' sample_transport)
    \<and> (\<exists>sent. ConnectPeerPublicAddr sample_env Inr ''203.0.113.5:9999'' (bob, Some sample_transport) = (None, sent, bob, Some sample_transport))"
  using closed_udp_link_stays [of sample_transport "''203.0.113.5:9999''" "udp_Close (newUDPConn ''203.0.113.5:9999'')" Inr "''203.0.113.5:9999''" "''x''" sample_env bob]
  by (simp add: sample_transport_def udp_Close_def)

end
