(* ===== verification/Config_File.thy ===== *)
theory Config_File
  imports Persist Go_Strings
begin

text \<open>
  The configuration, \<^verbatim>\<open>src/internal/config/config.go\<close>. The JSON file is taken at the level of its
  members: every member may be missing. \<^verbatim>\<open>Save\<close> leaves out the members that the tag \<^verbatim>\<open>omitempty\<close> of the
  structure makes it leave out, those whose value is zero, and \<^verbatim>\<open>Load\<close> overlays the defaults. The draw
  of \<^verbatim>\<open>crypto/rand\<close> is an argument. \<^verbatim>\<open>DefaultConfigPath\<close> (the home directory) is left out.
\<close>

record Config =
  cf_Name :: string
  cf_Port :: int
  cf_DiscoveryPort :: int
  cf_HistorySize :: int
  cf_STUNServer :: string
  cf_NoDiscovery :: bool
  cf_InternetMode :: bool
  cf_ReadReceipts :: bool
  cf_TypingIndicator :: bool
  cf_AutoReconnect :: bool
  cf_DeviceID :: string
  cf_DeviceLabel :: string

text \<open>\<open>rnd\<close> are the four random bytes, \<open>None\<close> if the draw fails.\<close>

definition newDeviceID :: "string option \<Rightarrow> string" where
  "newDeviceID rnd = (case rnd of None \<Rightarrow> ''cli-1'' | Some raw \<Rightarrow> ''cli-'' @ take 8 (EncodeToString raw))"

definition DefaultConfig :: "string option \<Rightarrow> Config" where
  "DefaultConfig rnd =
     \<lparr>cf_Name = ''korik-user'', cf_Port = 9999, cf_DiscoveryPort = 9998, cf_HistorySize = 1000,
      cf_STUNServer = ''stun.l.google.com:19302'', cf_NoDiscovery = False, cf_InternetMode = False,
      cf_ReadReceipts = False, cf_TypingIndicator = True, cf_AutoReconnect = True,
      cf_DeviceID = newDeviceID rnd, cf_DeviceLabel = ''cli-1''\<rparr>"

definition EnsureDeviceID :: "string option \<Rightarrow> Config \<Rightarrow> bool \<times> Config" where
  "EnsureDeviceID rnd c =
     (if cf_DeviceID c \<noteq> '''' then (False, c)
      else (True, c\<lparr>cf_DeviceID := newDeviceID rnd,
                    cf_DeviceLabel := (if cf_DeviceLabel c = '''' then ''cli-1'' else cf_DeviceLabel c)\<rparr>))"

subsection \<open>The file\<close>

record config_doc =
  cd_name :: "string option"
  cd_port :: "int option"
  cd_discovery_port :: "int option"
  cd_history_size :: "int option"
  cd_stun_server :: "string option"
  cd_no_discovery :: "bool option"
  cd_internet_mode :: "bool option"
  cd_read_receipts :: "bool option"
  cd_typing_indicator :: "bool option"
  cd_auto_reconnect :: "bool option"
  cd_device_id :: "string option"
  cd_device_label :: "string option"

definition omitempty :: "'a \<Rightarrow> 'a \<Rightarrow> 'a option" where
  "omitempty zero v = (if v = zero then None else Some v)"

definition overlay :: "'a \<Rightarrow> 'a option \<Rightarrow> 'a" where
  "overlay old m = (case m of None \<Rightarrow> old | Some v \<Rightarrow> v)"

definition config_marshal :: "Config \<Rightarrow> config_doc" where
  "config_marshal c =
     \<lparr>cd_name = omitempty '''' (cf_Name c), cd_port = omitempty 0 (cf_Port c),
      cd_discovery_port = omitempty 0 (cf_DiscoveryPort c), cd_history_size = omitempty 0 (cf_HistorySize c),
      cd_stun_server = omitempty '''' (cf_STUNServer c), cd_no_discovery = omitempty False (cf_NoDiscovery c),
      cd_internet_mode = omitempty False (cf_InternetMode c), cd_read_receipts = omitempty False (cf_ReadReceipts c),
      cd_typing_indicator = omitempty False (cf_TypingIndicator c),
      cd_auto_reconnect = omitempty False (cf_AutoReconnect c), cd_device_id = omitempty '''' (cf_DeviceID c),
      cd_device_label = omitempty '''' (cf_DeviceLabel c)\<rparr>"

definition config_unmarshal :: "config_doc \<Rightarrow> Config \<Rightarrow> Config" where
  "config_unmarshal d c =
     \<lparr>cf_Name = overlay (cf_Name c) (cd_name d), cf_Port = overlay (cf_Port c) (cd_port d),
      cf_DiscoveryPort = overlay (cf_DiscoveryPort c) (cd_discovery_port d),
      cf_HistorySize = overlay (cf_HistorySize c) (cd_history_size d),
      cf_STUNServer = overlay (cf_STUNServer c) (cd_stun_server d),
      cf_NoDiscovery = overlay (cf_NoDiscovery c) (cd_no_discovery d),
      cf_InternetMode = overlay (cf_InternetMode c) (cd_internet_mode d),
      cf_ReadReceipts = overlay (cf_ReadReceipts c) (cd_read_receipts d),
      cf_TypingIndicator = overlay (cf_TypingIndicator c) (cd_typing_indicator d),
      cf_AutoReconnect = overlay (cf_AutoReconnect c) (cd_auto_reconnect d),
      cf_DeviceID = overlay (cf_DeviceID c) (cd_device_id d), cf_DeviceLabel = overlay (cf_DeviceLabel c) (cd_device_label d)\<rparr>"

datatype config_error = ConfigUnreadable | ConfigMalformed

fun Load :: "string option \<Rightarrow> config_doc stored \<Rightarrow> config_error + Config" where
  "Load rnd Absent = Inr (DefaultConfig rnd)"
| "Load rnd Unreadable = Inl ConfigUnreadable"
| "Load rnd Malformed = Inl ConfigMalformed"
| "Load rnd (Doc d) = Inr (config_unmarshal d (DefaultConfig rnd))"

definition ConfigSave :: "config_doc saving \<Rightarrow> Config \<Rightarrow> config_doc stored \<Rightarrow> bool \<times> config_doc stored" where
  "ConfigSave w c f = save_doc w (config_marshal c) f"

subsection \<open>Properties\<close>

lemma overlay_omitempty [simp]: "overlay old (omitempty zero v) = (if v = zero then old else v)"
  by (simp add: overlay_def omitempty_def)

text \<open>
  What survives a restart. After a successful save, loading gives back every text and number that
  is not empty or zero and the three switches that are off by default. The switches for the typing
  indicator and for reconnecting, which are on by default, come back on whatever was saved.\<close>

theorem switched_off_setting_comes_back:
  "\<exists>c'. Load rnd (snd (ConfigSave Written c f)) = Inr c'
    \<and> cf_TypingIndicator c' \<and> cf_AutoReconnect c'
    \<and> cf_NoDiscovery c' = cf_NoDiscovery c \<and> cf_InternetMode c' = cf_InternetMode c \<and> cf_ReadReceipts c' = cf_ReadReceipts c
    \<and> cf_Name c' = (if cf_Name c = '''' then ''korik-user'' else cf_Name c)
    \<and> cf_Port c' = (if cf_Port c = 0 then 9999 else cf_Port c)
    \<and> cf_DiscoveryPort c' = (if cf_DiscoveryPort c = 0 then 9998 else cf_DiscoveryPort c)
    \<and> cf_HistorySize c' = (if cf_HistorySize c = 0 then 1000 else cf_HistorySize c)
    \<and> cf_STUNServer c' = (if cf_STUNServer c = '''' then ''stun.l.google.com:19302'' else cf_STUNServer c)
    \<and> cf_DeviceID c' = (if cf_DeviceID c = '''' then newDeviceID rnd else cf_DeviceID c)
    \<and> cf_DeviceLabel c' = (if cf_DeviceLabel c = '''' then ''cli-1'' else cf_DeviceLabel c)"
  by (auto simp: ConfigSave_def config_marshal_def config_unmarshal_def DefaultConfig_def)

text \<open>
  The device keeps its name. Once the device has an identifier that was saved, every later start
  has the same one, whatever the random numbers.\<close>

theorem device_id_is_stable:
  assumes "EnsureDeviceID rnd c = (changed, c1)"
  shows "cf_DeviceID c1 \<noteq> '''' \<and> (changed \<longleftrightarrow> cf_DeviceID c = '''')
    \<and> (\<exists>c2. Load rnd' (snd (ConfigSave Written c1 f)) = Inr c2 \<and> cf_DeviceID c2 = cf_DeviceID c1
         \<and> EnsureDeviceID rnd'' c2 = (False, c2))"
proof -
  have "newDeviceID rnd \<noteq> ''''" by (simp add: newDeviceID_def split: option.splits)
  then have id: "cf_DeviceID c1 \<noteq> ''''" and ch: "changed \<longleftrightarrow> cf_DeviceID c = ''''"
    using assms(1) by (auto simp: EnsureDeviceID_def split: if_splits)
  then show ?thesis
    by (simp add: ConfigSave_def config_marshal_def config_unmarshal_def EnsureDeviceID_def)
qed

theorem device_id_is_stable_witness:
  "\<exists>c2. Load None (snd (ConfigSave Written (snd (EnsureDeviceID (Some ''abcd'') ((DefaultConfig None)\<lparr>cf_DeviceID := ''''\<rparr>))) Absent)) = Inr c2
     \<and> EnsureDeviceID None c2 = (False, c2)"
proof -
  obtain ch c1 where "EnsureDeviceID (Some ''abcd'') ((DefaultConfig None)\<lparr>cf_DeviceID := ''''\<rparr>) = (ch, c1)" by force
  from device_id_is_stable [OF this, of None Absent None] this show ?thesis by auto
qed

end
