(* ===== verification/Setup_Wizard.thy ===== *)
theory Setup_Wizard
  imports Config_File Validate Nat_Candidates
begin

text \<open>
  The first-run wizard, \<^verbatim>\<open>src/internal/setup/setup.go\<close>. What is typed is the list of the lines that
  \<^verbatim>\<open>ReadString\<close> returns without an error; at the end of the list it fails. The loop that asks for a
  nickname need not end, so it is a partial function, and \<open>None\<close> is a call that does not return.
\<close>

definition private_v4 :: "ifaddr \<Rightarrow> bool" where
  "private_v4 a = (let i = addr_ip a in if i = [] \<or> IsLoopback i then False else To4 i \<noteq> None \<and> IsPrivate i)"

definition DetectConnectionMode :: "iface list option \<Rightarrow> string" where
  "DetectConnectionMode interfaces =
     (case interfaces of
        None \<Rightarrow> ''lan''
      | Some fs \<Rightarrow>
          if list_ex (\<lambda>f. if \<not> if_Up f \<or> if_Loopback f then False
                          else case if_Addrs f of None \<Rightarrow> False | Some as \<Rightarrow> list_ex private_v4 as) fs
          then ''lan'' else ''internet'')"

definition IsFirstRun :: "bool \<Rightarrow> bool \<Rightarrow> bool" where
  "IsFirstRun config_exists identity_exists =
     (if config_exists then False else if identity_exists then False else True)"

text \<open>One question and its answer; the two branches treat an empty line differently.\<close>

definition ask :: "string \<Rightarrow> string list \<Rightarrow> string \<times> string list" where
  "ask nickname input =
     (if nickname = '''' \<or> nickname = ''korik-user'' then
        (case input of
           [] \<Rightarrow> (nickname, [])
         | l # ls \<Rightarrow> (if TrimSpace l \<noteq> '''' then TrimSpace l else ''korik-user'', ls))
      else
        (case input of
           [] \<Rightarrow> (nickname, [])
         | l # ls \<Rightarrow> (if TrimSpace l \<noteq> '''' then TrimSpace l else nickname, ls)))"

partial_function (option) nick_loop :: "string \<Rightarrow> string list \<Rightarrow> (string \<times> string list) option" where
  "nick_loop nickname input =
     (case ask nickname input of (nick, rest) \<Rightarrow>
        if Nickname nick \<noteq> None then nick_loop '''' rest else Some (nick, rest))"

definition RunWizard :: "iface list option \<Rightarrow> string list \<Rightarrow> Config \<Rightarrow> ((string \<times> bool) \<times> Config) option" where
  "RunWizard interfaces input cfg =
     (case nick_loop (TrimSpace (cf_Name cfg)) input of
        None \<Rightarrow> None
      | Some (nickname, rest) \<Rightarrow>
          let defaultChoice = (if DetectConnectionMode interfaces = ''internet'' then ''2'' else ''1'');
              useInternet = (case rest of
                 [] \<Rightarrow> False
               | l # _ \<Rightarrow> (if TrimSpace l = '''' then defaultChoice else TrimSpace l) = ''2'')
          in Some ((nickname, useInternet), cfg\<lparr>cf_Name := nickname, cf_InternetMode := useInternet\<rparr>))"

lemma ask_rest: "snd (ask nickname input) = tl input"
  by (cases input) (auto simp: ask_def)

lemma Nickname_default: "Nickname ''korik-user'' = None"
  by code_simp

lemma ask_fst: "ask nickname input = (fst (ask nickname input), tl input)"
  by (metis ask_rest prod.collapse)

lemma nick_loop_ends:
  assumes "l \<in> set input" and "Nickname (TrimSpace l) = None"
  shows "\<exists>nick rest. nick_loop nickname input = Some (nick, rest) \<and> Nickname nick = None"
  using assms(1)
proof (induction input arbitrary: nickname)
  case (Cons k ks)
  have l: "TrimSpace l \<noteq> ''''" using assms(2) by (auto simp: Nickname_def runes.simps)
  obtain nick where a: "ask nickname (k # ks) = (nick, ks)" using ask_fst [of nickname "k # ks"] by simp
  show ?case
  proof (cases "Nickname nick = None")
    case True
    then show ?thesis by (subst nick_loop.simps) (simp add: a)
  next
    case False
    then have "l \<in> set ks"
      using a Cons.prems assms(2) l by (auto simp: ask_def split: if_splits)
    then show ?thesis using Cons.IH [of "''''"] False by (subst nick_loop.simps) (simp add: a)
  qed
qed simp

lemma nick_loop_returned:
  assumes "nick_loop nickname input = Some y"
    and "\<And>nickname input nick rest. ask nickname input = (nick, rest) \<Longrightarrow> Nickname nick = None \<Longrightarrow> Q nickname input (nick, rest)"
    and "\<And>nickname input nick rest y. ask nickname input = (nick, rest) \<Longrightarrow> Nickname nick \<noteq> None \<Longrightarrow> Q '''' rest y \<Longrightarrow> Q nickname input y"
  shows "Q nickname input y"
proof (rule nick_loop.raw_induct [of Q, OF _ assms(1)], goal_cases)
  case (1 loop nickname input y)
  obtain nick rest where a: "ask nickname input = (nick, rest)" by force
  show ?case
  proof (cases "Nickname nick = None")
    case True
    then show ?thesis using assms(2) [OF a] 1(2) a by simp
  next
    case False
    then show ?thesis using assms(3) [OF a] 1 a by simp
  qed
qed

lemma nick_loop_needs:
  assumes "nick_loop nickname input = Some y"
  shows "(\<exists>l\<in>set input. Nickname (TrimSpace l) = None \<or> TrimSpace l = '''') \<or> (input = [] \<and> Nickname nickname = None)"
  using assms
proof (rule nick_loop_returned, goal_cases)
  case (1 nickname input nick rest)
  then show ?case by (cases input) (auto simp: ask_def split: if_splits)
next
  case (2 nickname input nick rest y)
  have "Nickname '''' \<noteq> None" by (simp add: Nickname_def runes.simps)
  moreover have "rest = tl input" using 2(1) ask_rest [of nickname input] by simp
  ultimately show ?case using 2 by (cases input) auto
qed

lemma nick_loop_valid: "nick_loop nickname input = Some y \<Longrightarrow> Nickname (fst y) = None"
  by (erule nick_loop_returned) auto

text \<open>
  The wizard and its end. When no line is blank, the wizard returns exactly if some line is a valid
  nickname, or nothing is typed and the configured name is valid; then the configuration has a valid
  nickname. Otherwise, in particular when the input ends after an invalid name, it asks for ever.\<close>

theorem wizard_returns_iff:
  assumes "list_all (\<lambda>l. TrimSpace l \<noteq> '''') input"
  shows "(RunWizard interfaces input cfg \<noteq> None \<longleftrightarrow>
      (\<exists>l\<in>set input. Nickname (TrimSpace l) = None) \<or> input = [] \<and> Nickname (TrimSpace (cf_Name cfg)) = None)
    \<and> (\<forall>r cfg'. RunWizard interfaces input cfg = Some (r, cfg') \<longrightarrow> Nickname (cf_Name cfg') = None)"
proof -
  let ?n = "TrimSpace (cf_Name cfg)"
  have returns: "RunWizard interfaces input cfg \<noteq> None \<longleftrightarrow> nick_loop ?n input \<noteq> None"
    by (auto simp: RunWizard_def Let_def split: option.splits)
  have ends: "nick_loop ?n input \<noteq> None \<longleftrightarrow>
      (\<exists>l\<in>set input. Nickname (TrimSpace l) = None) \<or> input = [] \<and> Nickname ?n = None"
  proof
    assume "nick_loop ?n input \<noteq> None"
    then show "(\<exists>l\<in>set input. Nickname (TrimSpace l) = None) \<or> input = [] \<and> Nickname ?n = None"
      using nick_loop_needs [of ?n input] assms by (auto simp: list_all_iff)
  next
    assume "(\<exists>l\<in>set input. Nickname (TrimSpace l) = None) \<or> input = [] \<and> Nickname ?n = None"
    then show "nick_loop ?n input \<noteq> None"
    proof
      assume "input = [] \<and> Nickname ?n = None"
      then show ?thesis by (subst nick_loop.simps) (simp add: ask_def)
    qed (use nick_loop_ends in fastforce)
  qed
  show ?thesis
    using returns ends nick_loop_valid [of ?n input] by (auto simp: RunWizard_def Let_def split: option.splits prod.splits)
qed

theorem wizard_returns_iff_witness:
  "RunWizard None [] ((DefaultConfig None)\<lparr>cf_Name := ''''\<rparr>) = None"
proof -
  have "TrimSpace '''' = ''''" by (simp add: TrimSpace_plain)
  moreover have "Nickname '''' \<noteq> None" by (simp add: Nickname_def runes.simps)
  ultimately show ?thesis
    using wizard_returns_iff [of "[]" None "(DefaultConfig None)\<lparr>cf_Name := ''''\<rparr>"] by fastforce
qed

text \<open>
  The suggested mode. The suggestion is \<open>lan\<close> exactly if the interfaces cannot be listed or an
  active one has a private IPv4 address that is no loopback address, and \<open>internet\<close> otherwise.\<close>

theorem suggested_mode:
  "(DetectConnectionMode interfaces = ''lan'' \<longleftrightarrow> interfaces = None \<or>
     (\<exists>fs f as a. interfaces = Some fs \<and> f \<in> set fs \<and> if_Up f \<and> \<not> if_Loopback f \<and> if_Addrs f = Some as \<and> a \<in> set as
        \<and> \<not> IsLoopback (addr_ip a) \<and> To4 (addr_ip a) \<noteq> None \<and> IsPrivate (addr_ip a)))
   \<and> (DetectConnectionMode interfaces \<noteq> ''lan'' \<longrightarrow> DetectConnectionMode interfaces = ''internet'')"
proof (cases interfaces)
  case (Some fs)
  have "private_v4 a \<longleftrightarrow> \<not> IsLoopback (addr_ip a) \<and> To4 (addr_ip a) \<noteq> None \<and> IsPrivate (addr_ip a)" for a
    by (auto simp: private_v4_def Let_def To4_def)
  then show ?thesis
    using Some by (auto simp: DetectConnectionMode_def list_ex_iff split: option.splits if_splits) force+
qed (simp add: DetectConnectionMode_def)

end
