(* ===== verification/Backup_Bundle.thy ===== *)
theory Backup_Bundle
  imports Crypto_Util Persist
begin

unbundle bit_operations_syntax

text \<open>
  Encrypted backups, \<^verbatim>\<open>src/internal/backup/backup.go\<close>. HMAC-SHA256 is an argument beside the
  primitives of \<open>Crypto_Util\<close>, as are the JSON codec of the payload and the random draws; the file is
  taken at the level of its document. The two loops of the key derivation run until they have enough
  bytes; they are partial functions, and \<open>None\<close> is a loop that does not end.
\<close>

subsection \<open>Key derivation\<close>

definition xor_bytes :: "string \<Rightarrow> string \<Rightarrow> string" where
  "xor_bytes s t = map2 (\<lambda>a b. char_of (byte_of a XOR byte_of b)) s t"

definition block_bytes :: "nat \<Rightarrow> string" where
  "block_bytes b = map char_of [b div 16777216 mod 256, b div 65536 mod 256, b div 256 mod 256, b mod 256]"

text \<open>The inner loop, from \<open>i\<close> to the number of iterations.\<close>

fun stretch :: "(string \<Rightarrow> string) \<Rightarrow> nat \<Rightarrow> string \<Rightarrow> string \<Rightarrow> string" where
  "stretch mac 0 u t = t"
| "stretch mac (Suc k) u t = stretch mac k (mac u) (xor_bytes t (mac u))"

definition key_block :: "(string \<Rightarrow> string \<Rightarrow> string) \<Rightarrow> string \<Rightarrow> string \<Rightarrow> nat \<Rightarrow> nat \<Rightarrow> string" where
  "key_block hmac password salt iterations block =
     (let u = hmac password (salt @ block_bytes block) in stretch (hmac password) (iterations - 1) u u)"

partial_function (option) pbkdf2_loop ::
    "(string \<Rightarrow> string \<Rightarrow> string) \<Rightarrow> string \<Rightarrow> string \<Rightarrow> nat \<Rightarrow> nat \<Rightarrow> string \<Rightarrow> string option" where
  "pbkdf2_loop hmac password salt iterations block out =
     (if length out < 32
      then pbkdf2_loop hmac password salt iterations (block + 1) (out @ key_block hmac password salt iterations block)
      else Some (take 32 out))"

definition pbkdf2 :: "(string \<Rightarrow> string \<Rightarrow> string) \<Rightarrow> string \<Rightarrow> string \<Rightarrow> nat \<Rightarrow> string option" where
  "pbkdf2 hmac password salt iterations = pbkdf2_loop hmac password salt iterations 1 []"

text \<open>The first loop of \<^verbatim>\<open>deriveKey\<close>, whose result is thrown away: \<open>room\<close> bytes are still to be filled.\<close>

partial_function (option) discarded_loop ::
    "(string \<Rightarrow> string \<Rightarrow> string) \<Rightarrow> string \<Rightarrow> string \<Rightarrow> nat \<Rightarrow> nat \<Rightarrow> nat \<Rightarrow> unit option" where
  "discarded_loop hmac password salt iterations block room =
     (if 0 < room
      then discarded_loop hmac password salt iterations (block + 1)
             (room - min room (length (key_block hmac password salt iterations block)))
      else Some ())"

definition deriveKey :: "(string \<Rightarrow> string \<Rightarrow> string) \<Rightarrow> string \<Rightarrow> string \<Rightarrow> nat \<Rightarrow> string option" where
  "deriveKey hmac password salt iterations =
     Option.bind (discarded_loop hmac password salt iterations 1 32) (\<lambda>_. pbkdf2 hmac password salt iterations)"

subsection \<open>Bundles\<close>

record BackupBundle =
  bb_Version :: int
  bb_CreatedAt :: gotime
  bb_SaltHex :: string
  bb_NonceHex :: string
  bb_DataHex :: string

record Payload =
  pl_PrivateKeyHex :: string
  pl_Config :: string
  pl_Contacts :: string
  pl_History :: string

datatype backup_error =
    PasswordTooShort | PayloadNotEncodable | NoRandom | BadKey | NotWritten
  | FileUnreadable | InvalidBackup | WrongPassword | CorruptedPayload

record backup_env =
  be_P :: primitives
  be_hmac :: "string \<Rightarrow> string \<Rightarrow> string"
  be_now :: gotime
  be_salt :: "string option"
  be_nonce :: "string option"
  be_marshal :: "Payload \<Rightarrow> string option"
  be_unmarshal :: "string \<Rightarrow> Payload option"
  be_save :: "BackupBundle saving"

text \<open>The outer option is whether the call returns; the result is the error, \<open>None\<close> for \<open>nil\<close>, and the file.\<close>

definition Export ::
    "backup_env \<Rightarrow> string \<Rightarrow> Payload \<Rightarrow> BackupBundle stored \<Rightarrow> (backup_error option \<times> BackupBundle stored) option" where
  "Export B password payload f =
     (if length password < 8 then Some (Some PasswordTooShort, f)
      else case be_marshal B payload of
        None \<Rightarrow> Some (Some PayloadNotEncodable, f)
      | Some plain \<Rightarrow>
          (case be_salt B of
             None \<Rightarrow> Some (Some NoRandom, f)
           | Some salt \<Rightarrow>
               (case deriveKey (be_hmac B) password salt 100000 of
                  None \<Rightarrow> None
                | Some key \<Rightarrow>
                    if \<not> aes_key key then Some (Some BadKey, f)
                    else case be_nonce B of
                      None \<Rightarrow> Some (Some NoRandom, f)
                    | Some nonce \<Rightarrow>
                        let sealed = nonce @ gcm_seal (be_P B) key nonce plain;
                            (ok, f') = save_doc (be_save B)
                              \<lparr>bb_Version = 1, bb_CreatedAt = be_now B, bb_SaltHex = EncodeToString salt,
                               bb_NonceHex = EncodeToString nonce, bb_DataHex = EncodeToString sealed\<rparr> f
                        in Some (if ok then None else Some NotWritten, f'))))"

definition Import :: "backup_env \<Rightarrow> string \<Rightarrow> BackupBundle stored \<Rightarrow> (backup_error + Payload) option" where
  "Import B password f =
     (case f of
        Absent \<Rightarrow> Some (Inl FileUnreadable)
      | Unreadable \<Rightarrow> Some (Inl FileUnreadable)
      | Malformed \<Rightarrow> Some (Inl InvalidBackup)
      | Doc bundle \<Rightarrow>
          (case DecodeString (bb_SaltHex bundle) of
             None \<Rightarrow> Some (Inl InvalidBackup)
           | Some salt \<Rightarrow>
               (case DecodeString (bb_DataHex bundle) of
                  None \<Rightarrow> Some (Inl InvalidBackup)
                | Some sealed \<Rightarrow>
                    (case deriveKey (be_hmac B) password salt 100000 of
                       None \<Rightarrow> None
                     | Some key \<Rightarrow>
                         if \<not> aes_key key then Some (Inl BadKey)
                         else if length sealed < NonceSize then Some (Inl InvalidBackup)
                         else case gcm_open (be_P B) key (take NonceSize sealed) (drop NonceSize sealed) of
                           None \<Rightarrow> Some (Inl WrongPassword)
                         | Some plain \<Rightarrow>
                             (case be_unmarshal B plain of
                                None \<Rightarrow> Some (Inl CorruptedPayload)
                              | Some payload \<Rightarrow> Some (Inr payload))))))"

subsection \<open>The derived key\<close>

definition hmac_len :: "(string \<Rightarrow> string \<Rightarrow> string) \<Rightarrow> bool" where
  "hmac_len hmac \<longleftrightarrow> (\<forall>k m. length (hmac k m) = 32)"

text \<open>PBKDF2 of RFC 8018 for one block: the exclusive or of the iterated MACs.\<close>

definition pbkdf2_spec :: "(string \<Rightarrow> string \<Rightarrow> string) \<Rightarrow> string \<Rightarrow> string \<Rightarrow> nat \<Rightarrow> string" where
  "pbkdf2_spec hmac password salt c =
     (let u = (\<lambda>i. (hmac password ^^ i) (hmac password (salt @ [CHR 0x00, CHR 0x00, CHR 0x00, CHR 0x01])))
      in foldl xor_bytes (u 0) (map u [1..<c]))"

lemma stretch_foldl:
  "stretch mac k ((mac ^^ i) u) t = foldl xor_bytes t (map (\<lambda>j. (mac ^^ j) u) [Suc i..<Suc (i + k)])"
proof (induction k arbitrary: i t)
  case (Suc k)
  have "stretch mac (Suc k) ((mac ^^ i) u) t = stretch mac k ((mac ^^ Suc i) u) (xor_bytes t ((mac ^^ Suc i) u))"
    by simp
  also have "\<dots> = foldl xor_bytes (xor_bytes t ((mac ^^ Suc i) u)) (map (\<lambda>j. (mac ^^ j) u) [Suc (Suc i)..<Suc (Suc i + k)])"
    by (rule Suc)
  also have "[Suc i..<Suc (i + Suc k)] = Suc i # [Suc (Suc i)..<Suc (Suc i + k)]"
    by (simp add: upt_conv_Cons)
  ultimately show ?case by simp
qed simp

lemma length_stretch: "(\<And>x. length (mac x) = n) \<Longrightarrow> length t = n \<Longrightarrow> length (stretch mac k u t) = n"
  by (induction mac k u t rule: stretch.induct) (simp_all add: xor_bytes_def)

lemma length_key_block: "hmac_len hmac \<Longrightarrow> length (key_block hmac password salt c b) = 32"
  by (simp add: key_block_def hmac_len_def length_stretch Let_def)

lemma key_block_spec:
  assumes "0 < c"
  shows "key_block hmac password salt c 1 = pbkdf2_spec hmac password salt c"
proof -
  have "char_of (0 :: nat) = CHR 0x00" "char_of (1 :: nat) = CHR 0x01"
    using char_of_byte_of [of "CHR 0x00"] char_of_byte_of [of "CHR 0x01"] by (simp_all add: byte_of_def)
  then have "block_bytes 1 = [CHR 0x00, CHR 0x00, CHR 0x00, CHR 0x01]" by (simp add: block_bytes_def)
  moreover have "stretch (hmac password) (c - 1) u t = foldl xor_bytes t (map (\<lambda>j. (hmac password ^^ j) u) [1..<c])" for u t
    using stretch_foldl [of "hmac password" "c - 1" 0 u t] assms by simp
  ultimately show ?thesis
    unfolding key_block_def pbkdf2_spec_def Let_def by simp
qed

lemma deriveKey_spec:
  assumes "hmac_len hmac" and "0 < iterations"
  shows "deriveKey hmac password salt iterations = Some (pbkdf2_spec hmac password salt iterations)
    \<and> length (pbkdf2_spec hmac password salt iterations) = 32"
proof -
  note len = length_key_block [OF assms(1), of password salt iterations]
  have "discarded_loop hmac password salt iterations 1 32 = Some ()"
    by (subst discarded_loop.simps, simp add: len) (subst discarded_loop.simps, simp)
  moreover have "pbkdf2 hmac password salt iterations = Some (key_block hmac password salt iterations 1)"
    unfolding pbkdf2_def
    by (subst pbkdf2_loop.simps, simp add: len) (subst pbkdf2_loop.simps, simp add: len)
  ultimately show ?thesis
    using len [of 1] unfolding deriveKey_def key_block_spec [OF assms(2)] by simp
qed

text \<open>
  C40. The key. For a MAC of 32 bytes both loops of the derivation end and the key is the first block
  of PBKDF2 as RFC 8018 defines it; the loop before it has no influence on the result. This is what the comment of
  the code promises; the requirements 13.2 and 13.3 ask for Argon2id with 64 MB and four iterations for
  an exported identity, which goes through this derivation.\<close>

theorem backup_key_is_pbkdf2:
  assumes "hmac_len hmac" and "0 < iterations"
  shows "deriveKey hmac password salt iterations = Some (pbkdf2_spec hmac password salt iterations)
    \<and> length (pbkdf2_spec hmac password salt iterations) = 32"
  using assms by (rule deriveKey_spec)

lemma export_import:
  assumes "hmac_len (be_hmac B)" and "gcm_opens (be_P B)" and "be_marshal B payload = Some plain"
    and "be_salt B = Some salt" and "be_nonce B = Some nonce" and "length nonce = NonceSize" and "be_save B = Written"
    and "be_P B' = be_P B" and "be_hmac B' = be_hmac B" and "be_unmarshal B' plain = Some payload'" and "8 \<le> length password"
  shows "\<exists>f'. Export B password payload f = Some (None, f') \<and> Import B' password f' = Some (Inr payload')"
proof -
  define k where "k = pbkdf2_spec (be_hmac B) password salt 100000"
  have key: "deriveKey (be_hmac B) password salt 100000 = Some k" "aes_key k"
    using deriveKey_spec [OF assms(1), of 100000 password salt] by (simp_all add: k_def aes_key_def)
  have "gcm_open (be_P B) k nonce (gcm_seal (be_P B) k nonce plain) = Some plain"
    using assms(2,6) key(2) by (simp add: gcm_opens_def)
  then show ?thesis
    using assms key by (simp add: Export_def Import_def Let_def)
qed

text \<open>
  Backup and restore. A password of fewer than eight bytes is refused and the file is left as it was.
  Otherwise, when the draws and the write succeed, the backup is written, and importing the file with
  the same password, on any machine with the same primitives, gives back the payload as its JSON codec
  returns it (the codec compacts the raw members).\<close>

theorem backup_round_trip:
  assumes "hmac_len (be_hmac B)" and "gcm_opens (be_P B)" and "be_marshal B payload = Some plain"
    and "be_salt B = Some salt" and "be_nonce B = Some nonce" and "length nonce = NonceSize" and "be_save B = Written"
    and "be_P B' = be_P B" and "be_hmac B' = be_hmac B" and "be_unmarshal B' plain = Some payload'"
  shows "if length password < 8 then Export B password payload f = Some (Some PasswordTooShort, f)
    else \<exists>f'. Export B password payload f = Some (None, f') \<and> Import B' password f' = Some (Inr payload')"
  using export_import [OF assms, of password f] by (simp add: Export_def)

definition toy_hmac :: "string \<Rightarrow> string \<Rightarrow> string" where
  "toy_hmac k m = take 32 (k @ m @ replicate 32 CHR ''0'')"

definition toy_payload :: Payload where
  "toy_payload = \<lparr>pl_PrivateKeyHex = ''ab'', pl_Config = '''', pl_Contacts = '''', pl_History = ''''\<rparr>"

definition toy_backup :: backup_env where
  "toy_backup = \<lparr>be_P = toy, be_hmac = toy_hmac, be_now = 0, be_salt = Some (replicate 16 CHR ''s''),
     be_nonce = Some (replicate 12 CHR ''n''), be_marshal = (\<lambda>p. Some (pl_PrivateKeyHex p)),
     be_unmarshal = (\<lambda>s. Some (toy_payload\<lparr>pl_PrivateKeyHex := s\<rparr>)), be_save = Written\<rparr>"

lemma toy_hmac_len: "hmac_len toy_hmac"
  by (auto simp: hmac_len_def toy_hmac_def min_def)

theorem backup_key_is_pbkdf2_witness:
  "deriveKey toy_hmac ''secret'' ''salt'' 2 = Some (pbkdf2_spec toy_hmac ''secret'' ''salt'' 2)"
  using backup_key_is_pbkdf2 [OF toy_hmac_len, of 2] by simp

theorem backup_round_trip_witness:
  "\<exists>f'. Export toy_backup ''password'' toy_payload Absent = Some (None, f') \<and> Import toy_backup ''password'' f' = Some (Inr toy_payload)"
proof -
  have "gcm_opens (be_P toy_backup)" using toy_ok by (simp add: toy_backup_def)
  then show ?thesis
    using backup_round_trip [of toy_backup toy_payload "''ab''" "replicate 16 CHR ''s''" "replicate 12 CHR ''n''" toy_backup toy_payload "''password''" Absent] toy_hmac_len
    by (simp add: toy_backup_def toy_payload_def)
qed

end
