(* ===== verification/Auto_Update.thy ===== *)
theory Auto_Update
  imports Persist Go_Strings
begin

text \<open>
  The update checker, \<^verbatim>\<open>src/internal/autoupdate/autoupdate.go\<close>: the cache in memory and on disk and
  the query of the release server. The answer of the server, the parsers of its JSON body and of its
  time stamp, and the reaction of the file system are the record \<open>update_env\<close>. A Go pointer is an
  option; dereferencing \<open>nil\<close> is the outcome \<open>Panics\<close>.
\<close>

record UpdateInfo =
  ui_Version :: string
  ui_ReleasedAt :: gotime
  ui_NotesURL :: string
  ui_CurrentVersion :: string
  ui_HasUpdate :: bool

record cacheRecord =
  cr_Info :: UpdateInfo
  cr_CachedAt :: gotime

record CheckResult =
  ck_UpdateInfo :: UpdateInfo
  ck_Cached :: bool
  ck_Error :: string

record Checker =
  ch_currentVersion :: string
  ch_noCheck :: bool
  ch_cached :: "UpdateInfo option"
  ch_cachedTime :: gotime
  ch_file :: "cacheRecord stored"

abbreviation cacheDuration :: duration where "cacheDuration \<equiv> 24 * Hour"

record release =
  re_TagName :: string
  re_PublishedAt :: string
  re_HTMLURL :: string

datatype web = NoResponse string | Response int "string + string"

record update_env =
  ue_now :: gotime
  ue_web :: web
  ue_release :: "string \<Rightarrow> string + release"
  ue_time :: "string \<Rightarrow> gotime option"
  ue_save :: "cacheRecord saving"

definition loadCache :: "gotime \<Rightarrow> Checker \<Rightarrow> Checker" where
  "loadCache now c =
     (case ch_file c of
        Doc r \<Rightarrow>
          if IsZero (cr_CachedAt r) then c
          else if cacheDuration < Sub now (cr_CachedAt r) then c
          else c\<lparr>ch_cached := Some (cr_Info r), ch_cachedTime := cr_CachedAt r\<rparr>
      | _ \<Rightarrow> c)"

definition NewChecker :: "gotime \<Rightarrow> string \<Rightarrow> cacheRecord stored \<Rightarrow> Checker" where
  "NewChecker now currentVersion f =
     loadCache now \<lparr>ch_currentVersion = currentVersion, ch_noCheck = False, ch_cached = None, ch_cachedTime = 0, ch_file = f\<rparr>"

definition SetNoCheck :: "bool \<Rightarrow> Checker \<Rightarrow> Checker" where
  "SetNoCheck b c = c\<lparr>ch_noCheck := b\<rparr>"

definition GetCached :: "gotime \<Rightarrow> Checker \<Rightarrow> UpdateInfo option" where
  "GetCached now c =
     (case ch_cached c of
        None \<Rightarrow> None
      | Some info \<Rightarrow> if cacheDuration < Sub now (ch_cachedTime c) then None else Some info)"

definition fetchLatest :: "update_env \<Rightarrow> Checker \<Rightarrow> string + UpdateInfo" where
  "fetchLatest U c =
     (case ue_web U of
        NoResponse err \<Rightarrow> Inl (''update check failed: '' @ err)
      | Response code body \<Rightarrow>
          if code \<noteq> 200 then Inl (''update check failed: status '' @ Itoa code)
          else case body of
            Inl err \<Rightarrow> Inl (''update check failed: reading response: '' @ err)
          | Inr bytes \<Rightarrow>
              (case ue_release U bytes of
                 Inl err \<Rightarrow> Inl (''update check failed: parsing response: '' @ err)
               | Inr r \<Rightarrow>
                   Inr \<lparr>ui_Version = re_TagName r,
                        ui_ReleasedAt = (case ue_time U (re_PublishedAt r) of None \<Rightarrow> 0 | Some t \<Rightarrow> t),
                        ui_NotesURL = re_HTMLURL r, ui_CurrentVersion = ch_currentVersion c,
                        ui_HasUpdate = (re_TagName r \<noteq> '''' \<and> re_TagName r \<noteq> ch_currentVersion c)\<rparr>))"

definition saveCache :: "update_env \<Rightarrow> UpdateInfo \<Rightarrow> Checker \<Rightarrow> Checker" where
  "saveCache U info c =
     c\<lparr>ch_cached := Some info, ch_cachedTime := ue_now U,
       ch_file := snd (save_doc (ue_save U) \<lparr>cr_Info = info, cr_CachedAt = ue_now U\<rparr> (ch_file c))\<rparr>"

definition ForceCheck :: "update_env \<Rightarrow> Checker \<Rightarrow> (string + UpdateInfo option) \<times> Checker" where
  "ForceCheck U c =
     (if ch_noCheck c then (Inr None, c)
      else case fetchLatest U c of
        Inl err \<Rightarrow> (Inl err, c)
      | Inr info \<Rightarrow> (Inr (Some info), saveCache U info c))"

definition CheckForUpdate :: "update_env \<Rightarrow> Checker \<Rightarrow> (string + UpdateInfo option) \<times> Checker" where
  "CheckForUpdate U c =
     (if ch_noCheck c then (Inr None, c)
      else case GetCached (ue_now U) c of
        Some info \<Rightarrow> (Inr (Some info), c)
      | None \<Rightarrow>
          (case fetchLatest U c of
             Inl err \<Rightarrow> (Inl err, c)
           | Inr info \<Rightarrow> (Inr (Some info), saveCache U info c)))"

text \<open>The goroutine of \<^verbatim>\<open>CheckAsync\<close>: what it sends on the channel. The zero value stands beside an error.\<close>

definition no_info :: UpdateInfo where
  "no_info = \<lparr>ui_Version = '''', ui_ReleasedAt = 0, ui_NotesURL = '''', ui_CurrentVersion = '''', ui_HasUpdate = False\<rparr>"

definition CheckAsync :: "update_env \<Rightarrow> Checker \<Rightarrow> (CheckResult \<times> Checker) outcome" where
  "CheckAsync U c =
     (case CheckForUpdate U c of
        (Inl err, c') \<Rightarrow> Returns (\<lparr>ck_UpdateInfo = no_info, ck_Cached = False, ck_Error = err\<rparr>, c')
      | (Inr (Some info), c') \<Rightarrow> Returns (\<lparr>ck_UpdateInfo = info, ck_Cached = False, ck_Error = ''''\<rparr>, c')
      | (Inr None, c') \<Rightarrow> Panics)"

subsection \<open>Properties\<close>

lemma fresh_within_a_day: "t0 \<le> t \<Longrightarrow> t \<le> t0 + cacheDuration \<Longrightarrow> \<not> cacheDuration < Sub t t0"
  by (simp add: Sub_def minDuration_def maxDuration_def)

lemma stale_after_a_day: "t0 + cacheDuration < t \<Longrightarrow> cacheDuration < Sub t t0"
  by (simp add: Sub_def minDuration_def maxDuration_def)

text \<open>
  One query a day. After a check that asked the server, every check within the next 24 hours, by the
  same checker or by one that is started anew from the file, answers the same without asking; after
  that the next check asks again.\<close>

theorem one_query_a_day:
  assumes "\<not> ch_noCheck c" and "GetCached (ue_now U) c = None" and "fetchLatest U c = Inr info"
    and "ue_save U = Written" and "ue_now U \<noteq> 0" and "ue_now U \<le> ue_now U'"
  defines "c1 \<equiv> snd (CheckForUpdate U c)"
  defines "c2 \<equiv> NewChecker (ue_now U') (ch_currentVersion c) (ch_file c1)"
  shows "fst (CheckForUpdate U c) = Inr (Some info)
    \<and> (ue_now U' \<le> ue_now U + cacheDuration \<longrightarrow>
         CheckForUpdate U' c1 = (Inr (Some info), c1) \<and> CheckForUpdate U' c2 = (Inr (Some info), c2))
    \<and> (ue_now U + cacheDuration < ue_now U' \<longrightarrow>
         GetCached (ue_now U') c1 = None \<and> GetCached (ue_now U') c2 = None)"
proof -
  have c1: "c1 = saveCache U info c" using assms(1-3) by (simp add: c1_def CheckForUpdate_def)
  have disk: "ch_file c1 = Doc \<lparr>cr_Info = info, cr_CachedAt = ue_now U\<rparr>"
    using assms(4) by (simp add: c1 saveCache_def)
  have "CheckForUpdate U' c1 = (Inr (Some info), c1) \<and> CheckForUpdate U' c2 = (Inr (Some info), c2)"
    if "ue_now U' \<le> ue_now U + cacheDuration"
    using fresh_within_a_day [OF assms(6) that] assms(1,5) disk
    by (simp add: c1 c2_def NewChecker_def loadCache_def CheckForUpdate_def GetCached_def saveCache_def IsZero_def)
  moreover have "GetCached (ue_now U') c1 = None \<and> GetCached (ue_now U') c2 = None"
    if "ue_now U + cacheDuration < ue_now U'"
    using stale_after_a_day [OF that] disk
    by (simp add: c1 c2_def NewChecker_def loadCache_def GetCached_def saveCache_def)
  moreover have "fst (CheckForUpdate U c) = Inr (Some info)" using assms(1-3) by (simp add: CheckForUpdate_def)
  ultimately show ?thesis by blast
qed

text \<open>
  The check in the background panics exactly if checking is disabled: the answer without an update
  and without an error is dereferenced.\<close>

theorem disabled_async_check_panics: "CheckAsync U c = Panics \<longleftrightarrow> ch_noCheck c"
  by (auto simp: CheckAsync_def CheckForUpdate_def split: option.splits sum.splits)

definition sample_update :: "gotime \<Rightarrow> update_env" where
  "sample_update now = \<lparr>ue_now = now, ue_web = Response 200 (Inr ''{}''),
     ue_release = (\<lambda>_. Inr \<lparr>re_TagName = ''v2'', re_PublishedAt = '''', re_HTMLURL = ''u''\<rparr>), ue_time = (\<lambda>_. None), ue_save = Written\<rparr>"

theorem one_query_a_day_witness:
  "\<exists>info. fst (CheckForUpdate (sample_update 5) (NewChecker 5 ''v1'' Absent)) = Inr (Some info)
    \<and> CheckForUpdate ((sample_update 7)\<lparr>ue_web := NoResponse ''offline''\<rparr>) (snd (CheckForUpdate (sample_update 5) (NewChecker 5 ''v1'' Absent)))
        = (Inr (Some info), snd (CheckForUpdate (sample_update 5) (NewChecker 5 ''v1'' Absent)))"
proof -
  let ?c = "NewChecker 5 ''v1'' Absent" and ?U = "(sample_update 7)\<lparr>ue_web := NoResponse ''offline''\<rparr>"
  obtain info where info: "fetchLatest (sample_update 5) ?c = Inr info"
    by (simp add: fetchLatest_def sample_update_def)
  have "\<not> ch_noCheck ?c" "GetCached (ue_now (sample_update 5)) ?c = None"
    by (simp_all add: NewChecker_def loadCache_def GetCached_def)
  from one_query_a_day [OF this info, of ?U] show ?thesis by (auto simp: sample_update_def)
qed

end
