(* ===== verification/Shell_Line.thy ===== *)
theory Shell_Line
  imports Validate Persist "HOL-Library.List_Lexorder" "HOL-Library.Char_ord" "HOL-Library.Multiset" "HOL-Library.Sublist"
begin

text \<open>
  The command line, \<^verbatim>\<open>src/internal/shell/shell.go\<close>: history, completion, fuzzy selection and the line
  editor on a terminal. The editor is a step for every read from the terminal; what it draws is not
  modelled. \<^verbatim>\<open>sort.Slice\<close> leaves the order of equal elements open and is an argument; the switching of the
  terminal to raw mode is left out.
\<close>

subsection \<open>Runes\<close>

text \<open>The conversions between a string and \<^verbatim>\<open>[]rune\<close>.\<close>

function to_runes :: "nat list \<Rightarrow> nat list" where
  "to_runes bs =
     (case bs of
        [] \<Rightarrow> []
      | b # r \<Rightarrow> (case decode_rune bs of
                   None \<Rightarrow> 0xFFFD # to_runes r
                 | Some (c, rest) \<Rightarrow> c # to_runes rest))"
  by auto
termination
  by (relation "measure length") (auto simp del: decode_rune.simps dest: decode_rune_shorter)

declare to_runes.simps [simp del]

definition encode_rune :: "nat \<Rightarrow> nat list" where
  "encode_rune r =
     (if r < 0x80 then [r]
      else if r < 0x800 then [0xC0 + r div 64, 0x80 + r mod 64]
      else if 0x10FFFF < r \<or> 0xD800 \<le> r \<and> r \<le> 0xDFFF then [0xEF, 0xBF, 0xBD]
      else if r < 0x10000 then [0xE0 + r div 4096, 0x80 + r div 64 mod 64, 0x80 + r mod 64]
      else [0xF0 + r div 262144, 0x80 + r div 4096 mod 64, 0x80 + r div 64 mod 64, 0x80 + r mod 64])"

definition rune_string :: "nat list \<Rightarrow> string" where
  "rune_string rs = map char_of (concat (map encode_rune rs))"

definition string_runes :: "string \<Rightarrow> nat list" where
  "string_runes s = to_runes (map byte_of s)"

subsection \<open>History\<close>

record Shell =
  sh_history :: "string list"
  sh_commands :: "string list"
  sh_contacts :: "string list option"
  sh_file :: "string stored"

text \<open>\<^verbatim>\<open>strings.TrimRight\<close> with a set of one-byte characters.\<close>

definition TrimRightSet :: "string \<Rightarrow> string \<Rightarrow> string" where
  "TrimRightSet s cutset = rev (dropWhile (\<lambda>c. List.member cutset c) (rev s))"

abbreviation nl :: char where "nl \<equiv> CHR 0x0A"
abbreviation cr :: char where "cr \<equiv> CHR 0x0D"

definition loadHistory :: "string stored \<Rightarrow> string list" where
  "loadHistory f =
     (case f of
        Doc data \<Rightarrow>
          takeLast 500 (filter (\<lambda>l. TrimSpace l \<noteq> '''') (map (\<lambda>l. TrimRightSet l [cr]) (Split data nl)))
      | _ \<Rightarrow> [])"

definition NewShell :: "string stored \<Rightarrow> string list \<Rightarrow> Shell" where
  "NewShell f commands = \<lparr>sh_history = loadHistory f, sh_commands = commands, sh_contacts = None, sh_file = f\<rparr>"

definition SetContactProvider :: "string list \<Rightarrow> Shell \<Rightarrow> Shell" where
  "SetContactProvider names s = s\<lparr>sh_contacts := Some names\<rparr>"

definition saveHistory :: "string saving \<Rightarrow> Shell \<Rightarrow> Shell" where
  "saveHistory w s = s\<lparr>sh_file := snd (save_doc w (Join (takeLast 500 (sh_history s)) [nl] @ [nl]) (sh_file s))\<rparr>"

definition AddHistory :: "string saving \<Rightarrow> string \<Rightarrow> Shell \<Rightarrow> Shell" where
  "AddHistory w line0 s =
     (let line = TrimRightSet line0 [cr, nl]
      in if TrimSpace line = '''' then s
         else if sh_history s \<noteq> [] \<and> last (sh_history s) = line then s
         else saveHistory w (s\<lparr>sh_history := takeLast 500 (sh_history s @ [line])\<rparr>))"

subsection \<open>Completion\<close>

definition LastIndexByte :: "string \<Rightarrow> char \<Rightarrow> nat option" where
  "LastIndexByte s c = map_option (\<lambda>i. length s - 1 - i) (IndexByte (rev s) c)"

definition Complete :: "(string \<Rightarrow> string) \<Rightarrow> Shell \<Rightarrow> string \<Rightarrow> string list" where
  "Complete uni s buffer =
     (if HasPrefix buffer ''/'' then
        let fields = Fields buffer
        in if length fields \<le> 1 \<and> \<not> Contains buffer '' ''
           then sort (filter (\<lambda>c. HasPrefix c buffer) (sh_commands s))
           else case sh_contacts s of
             None \<Rightarrow> []
           | Some names \<Rightarrow>
               if 1 \<le> length fields then
                 (let lst = (if HasSuffix buffer '' '' then '''' else last fields)
                  in sort (map (\<lambda>name. hd fields @ '' '' @ name)
                       (filter (\<lambda>name. lst = '''' \<or> HasPrefix (ToLower uni name) (ToLower uni lst)) names)))
               else []
      else case sh_contacts s of
        None \<Rightarrow> []
      | Some names \<Rightarrow>
          (case LastIndexByte buffer CHR ''@'' of
             None \<Rightarrow> []
           | Some idx \<Rightarrow>
               let prefix = drop (idx + 1) buffer
               in if Contains prefix '' '' then []
                  else map (\<lambda>name. take (idx + 1) buffer @ name)
                         (filter (\<lambda>name. HasPrefix (ToLower uni name) (ToLower uni prefix)) names)))"

subsection \<open>Fuzzy selection\<close>

text \<open>The loop of \<^verbatim>\<open>fuzzyScore\<close>: the rest of the query, the place in the target, the score and the last match.\<close>

fun score_loop :: "string \<Rightarrow> string \<Rightarrow> int \<Rightarrow> int \<Rightarrow> int \<Rightarrow> int option" where
  "score_loop [] target ti score lastMatch = Some score"
| "score_loop (q # qs) [] ti score lastMatch = None"
| "score_loop (q # qs) (t # ts) ti score lastMatch =
     (if t = q then
        score_loop qs ts (ti + 1)
          (if 0 \<le> lastMatch then score + (ti - lastMatch - 1) else if 0 < ti then score + ti else score) ti
      else score_loop (q # qs) ts (ti + 1) score lastMatch)"

definition shell_fuzzyScore :: "string \<Rightarrow> string \<Rightarrow> int option" where
  "shell_fuzzyScore query target = score_loop query target 0 0 (-1)"

definition FuzzyFilter ::
    "((string \<times> int) list \<Rightarrow> (string \<times> int) list) \<Rightarrow> (string \<Rightarrow> string) \<Rightarrow> string \<Rightarrow> string list \<Rightarrow> string list" where
  "FuzzyFilter arrange uni query candidates =
     (let q = ToLower uni (TrimSpace query)
      in if q = '''' then candidates
         else map fst (arrange (List.map_filter
                (\<lambda>c. map_option (Pair c) (shell_fuzzyScore q (ToLower uni c))) candidates)))"

subsection \<open>The editor\<close>

record editor =
  ed_buf :: "nat list"
  ed_pos :: nat
  ed_hist :: nat

definition start_line :: "Shell \<Rightarrow> editor" where
  "start_line s = \<lparr>ed_buf = [], ed_pos = 0, ed_hist = length (sh_history s)\<rparr>"

datatype edited = Entered string | InputEnds | Editing editor

text \<open>
  One round of the loop of \<^verbatim>\<open>ReadLine\<close>. The bytes are those that one read of at most three bytes
  returned; \<open>b\<close> is the first. Slices and elements are taken as they are written; an index out of
  range would be the outcome \<open>Panics\<close>.\<close>

definition recall :: "Shell \<Rightarrow> nat \<Rightarrow> editor \<Rightarrow> edited outcome" where
  "recall s i e =
     (if i < length (sh_history s) then
        (let buf = string_runes (sh_history s ! i)
         in Returns (Editing (e\<lparr>ed_buf := buf, ed_pos := length buf, ed_hist := i\<rparr>)))
      else Panics)"

definition arrow :: "Shell \<Rightarrow> nat \<Rightarrow> editor \<Rightarrow> edited outcome" where
  "arrow s code e =
     (if code = 65 then (if 0 < ed_hist e then recall s (ed_hist e - 1) e else Returns (Editing e))
      else if code = 66 then
        (if ed_hist e < length (sh_history s) then
           (if ed_hist e + 1 = length (sh_history s)
            then Returns (Editing (e\<lparr>ed_buf := [], ed_pos := 0, ed_hist := ed_hist e + 1\<rparr>))
            else recall s (ed_hist e + 1) e)
         else Returns (Editing e))
      else if code = 67 then
        Returns (Editing (if ed_pos e < length (ed_buf e) then e\<lparr>ed_pos := ed_pos e + 1\<rparr> else e))
      else if code = 68 then Returns (Editing (if 0 < ed_pos e then e\<lparr>ed_pos := ed_pos e - 1\<rparr> else e))
      else Returns (Editing e))"

definition splice :: "nat \<Rightarrow> nat \<Rightarrow> nat list \<Rightarrow> editor \<Rightarrow> edited outcome" where
  "splice lo hi new e =
     (if lo \<le> hi \<and> hi \<le> length (ed_buf e) then
        Returns (Editing (e\<lparr>ed_buf := take lo (ed_buf e) @ new @ drop hi (ed_buf e), ed_pos := lo + length new\<rparr>))
      else Panics)"

definition key_step :: "(string \<Rightarrow> string) \<Rightarrow> Shell \<Rightarrow> nat list \<Rightarrow> editor \<Rightarrow> edited outcome" where
  "key_step uni s tmp e =
     (case tmp of
        [] \<Rightarrow> Returns (Editing e)
      | b # rest \<Rightarrow>
          if b = 13 \<or> b = 10 then Returns (Entered (rune_string (ed_buf e)))
          else if b = 3 \<or> b = 4 then Returns (if ed_buf e = [] then InputEnds else Editing e)
          else if b = 9 then
            (case Complete uni s (rune_string (ed_buf e)) of
               [c] \<Rightarrow> (let buf = string_runes c in Returns (Editing (e\<lparr>ed_buf := buf, ed_pos := length buf\<rparr>)))
             | _ \<Rightarrow> Returns (Editing e))
          else if b = 127 \<or> b = 8 then
            (if 0 < ed_pos e then splice (ed_pos e - 1) (ed_pos e) [] e else Returns (Editing e))
          else if b = 27 \<and> 3 \<le> length tmp \<and> tmp ! 1 = 91 then arrow s (tmp ! 2) e
          else if b = 27 then Returns (Editing e)
          else if 32 \<le> b \<and> b < 127 then splice (ed_pos e) (ed_pos e) [b] e
          else Returns (Editing e))"

fun keys :: "(string \<Rightarrow> string) \<Rightarrow> Shell \<Rightarrow> nat list list \<Rightarrow> editor \<Rightarrow> edited outcome" where
  "keys uni s [] e = Returns (Editing e)"
| "keys uni s (k # ks) e =
     bind_outcome (key_step uni s k e) (\<lambda>r. case r of Editing e' \<Rightarrow> keys uni s ks e' | _ \<Rightarrow> Returns r)"

text \<open>
  The other path of \<^verbatim>\<open>ReadLine\<close>, when the input is no terminal: byte by byte from what is left of the input,
  which ends with \<^verbatim>\<open>io.EOF\<close>. The result is the line, or None for the error, and the rest of the input.\<close>

fun plain_line :: "string \<Rightarrow> string \<Rightarrow> string option \<times> string" where
  "plain_line buf [] = (if buf \<noteq> [] then Some buf else None, [])"
| "plain_line buf (c # rest) =
     (if c = nl then (Some buf, rest)
      else if c \<noteq> cr then plain_line (buf @ [c]) rest
      else plain_line buf rest)"

definition dirOf :: "string \<Rightarrow> string" where
  "dirOf path =
     (case LastIndexByte path CHR ''/'' of
        None \<Rightarrow> ''.''
      | Some idx \<Rightarrow> if idx = 0 then ''/'' else take idx path)"

subsection \<open>The editor is safe and edits at the cursor\<close>

definition ed_inv :: "Shell \<Rightarrow> editor \<Rightarrow> bool" where
  "ed_inv s e \<longleftrightarrow> ed_pos e \<le> length (ed_buf e) \<and> ed_hist e \<le> length (sh_history s)"

fun still :: "(editor \<Rightarrow> bool) \<Rightarrow> edited outcome \<Rightarrow> bool" where
  "still P (Returns (Editing e)) = P e"
| "still P (Returns r) = True"
| "still P Blocks = False"
| "still P Panics = False"

lemma stillE:
  assumes "still P x"
  obtains e where "x = Returns (Editing e)" "P e" | l where "x = Returns (Entered l)" | "x = Returns InputEnds"
  using assms by (auto elim: still.elims(2))

lemma splice_inv:
  "ed_inv s e \<Longrightarrow> lo \<le> hi \<Longrightarrow> hi \<le> length (ed_buf e) \<Longrightarrow> still (ed_inv s) (splice lo hi new e)"
  by (simp add: splice_def ed_inv_def)

lemma arrow_inv: "ed_inv s e \<Longrightarrow> still (ed_inv s) (arrow s code e)"
  by (auto simp: arrow_def recall_def ed_inv_def Let_def)

lemma tab_inv:
  "ed_inv s e \<Longrightarrow> still (ed_inv s) (case cs of
     [c] \<Rightarrow> (let buf = string_runes c in Returns (Editing (e\<lparr>ed_buf := buf, ed_pos := length buf\<rparr>)))
   | _ \<Rightarrow> Returns (Editing e))"
  by (simp add: ed_inv_def Let_def split: list.split)

lemma key_step_inv:
  assumes "ed_inv s e"
  shows "still (ed_inv s) (key_step uni s tmp e)"
proof -
  have "ed_pos e \<le> length (ed_buf e)" using assms by (simp add: ed_inv_def)
  then show ?thesis
    using assms splice_inv [OF assms] arrow_inv [OF assms] tab_inv [OF assms]
    by (cases tmp) (simp_all add: key_step_def)
qed

lemma keys_inv: "ed_inv s e \<Longrightarrow> still (ed_inv s) (keys uni s ks e)"
proof (induction ks arbitrary: e)
  case (Cons k ks)
  show ?case
    by (rule stillE [OF key_step_inv [OF Cons.prems, of uni k]]) (simp_all add: Cons.IH)
qed simp

text \<open>
  The editor never indexes out of range: whatever arrives from the terminal, in whatever portions, the
  cursor stays inside the line and the place in the history inside the history.\<close>

theorem editor_never_panics:
  "\<exists>r. keys uni s ks (start_line s) = Returns r
    \<and> (\<forall>e. r = Editing e \<longrightarrow> ed_pos e \<le> length (ed_buf e) \<and> ed_hist e \<le> length (sh_history s))"
proof -
  have "still (ed_inv s) (keys uni s ks (start_line s))"
    by (rule keys_inv) (simp add: ed_inv_def start_line_def)
  then show ?thesis by (rule stillE) (auto simp: ed_inv_def)
qed

theorem editor_never_panics_witness:
  "\<exists>r. keys id (NewShell Absent []) [[27, 91, 65], [97], [127], [127]] (start_line (NewShell Absent [])) = Returns r
    \<and> (\<forall>e. r = Editing e \<longrightarrow> ed_pos e \<le> length (ed_buf e) \<and> ed_hist e \<le> length (sh_history (NewShell Absent [])))"
  by (rule editor_never_panics)

text \<open>The line as the texts before and after the cursor.\<close>

definition around :: "editor \<Rightarrow> nat list \<times> nat list" where
  "around e = (take (ed_pos e) (ed_buf e), drop (ed_pos e) (ed_buf e))"

definition edit :: "nat list \<Rightarrow> nat list \<times> nat list \<Rightarrow> nat list \<times> nat list" where
  "edit tmp z =
     (case z of (l, r) \<Rightarrow>
       if hd tmp = 127 \<or> hd tmp = 8 then (butlast l, r)
       else if take 3 tmp = [27, 91, 68] then (if l = [] then (l, r) else (butlast l, last l # r))
       else if take 3 tmp = [27, 91, 67] then (if r = [] then (l, r) else (l @ [hd r], tl r))
       else if 32 \<le> hd tmp \<and> hd tmp < 127 then (l @ [hd tmp], r)
       else (l, r))"

text \<open>A read that is not Enter, an end of input, a completion or a recall from the history.\<close>

definition edit_key :: "nat list \<Rightarrow> bool" where
  "edit_key tmp \<longleftrightarrow> tmp \<noteq> [] \<and> hd tmp \<notin> {13, 10, 3, 4, 9} \<and> take 3 tmp \<notin> {[27, 91, 65], [27, 91, 66]}"

lemma around_splice:
  assumes "lo \<le> hi" and "hi \<le> length (ed_buf e)"
  shows "\<exists>e'. splice lo hi new e = Returns (Editing e') \<and> around e' = (take lo (ed_buf e) @ new, drop hi (ed_buf e))"
  using assms by (simp add: splice_def around_def)

lemma arrow_key:
  assumes "\<not> (3 \<le> length tmp \<and> tmp ! 1 = 91)" and "tmp = b # rest"
  shows "take 3 tmp \<noteq> [27, 91, c]"
  using assms by (cases rest rule: remdups_adj.cases) auto

lemma take_three: "3 \<le> length tmp \<Longrightarrow> take 3 tmp = [tmp ! 0, tmp ! 1, tmp ! 2]"
  by (cases tmp rule: remdups_adj.cases) (auto simp: numeral_3_eq_3 numeral_2_eq_2 Suc_le_length_iff)

lemma key_step_arrow:
  assumes "3 \<le> length tmp" and "tmp ! 0 = 27" and "tmp ! 1 = 91"
  shows "key_step uni s tmp e = arrow s (tmp ! 2) e" "take 3 tmp = [27, 91, tmp ! 2]" "hd tmp = 27"
proof -
  obtain b rest where "tmp = b # rest" using assms(1) by (cases tmp) auto
  then show "key_step uni s tmp e = arrow s (tmp ! 2) e" "hd tmp = 27"
    using assms by (simp_all add: key_step_def)
  show "take 3 tmp = [27, 91, tmp ! 2]" using take_three [OF assms(1)] assms(2,3) by simp
qed

lemma around_move:
  "0 < ed_pos e \<Longrightarrow> ed_pos e \<le> length (ed_buf e) \<Longrightarrow>
     around (e\<lparr>ed_pos := ed_pos e - 1\<rparr>) = (butlast (fst (around e)), last (fst (around e)) # snd (around e))"
  "ed_pos e < length (ed_buf e) \<Longrightarrow>
     around (e\<lparr>ed_pos := ed_pos e + 1\<rparr>) = (fst (around e) @ [hd (snd (around e))], tl (snd (around e)))"
proof -
  assume p: "0 < ed_pos e" "ed_pos e \<le> length (ed_buf e)"
  then obtain q where q: "ed_pos e = Suc q" "q < length (ed_buf e)" by (cases "ed_pos e") auto
  then show "around (e\<lparr>ed_pos := ed_pos e - 1\<rparr>) = (butlast (fst (around e)), last (fst (around e)) # snd (around e))"
    by (simp add: around_def take_Suc_conv_app_nth Cons_nth_drop_Suc)
next
  assume "ed_pos e < length (ed_buf e)"
  then show "around (e\<lparr>ed_pos := ed_pos e + 1\<rparr>) = (fst (around e) @ [hd (snd (around e))], tl (snd (around e)))"
    by (simp add: around_def take_Suc_conv_app_nth hd_drop_conv_nth tl_drop drop_Suc)
qed

lemma arrow_refines:
  assumes "ed_pos e \<le> length (ed_buf e)" and "code \<notin> {65, 66}"
  shows "\<exists>e'. arrow s code e = Returns (Editing e') \<and> around e' = edit [27, 91, code] (around e)"
proof -
  have z: "fst (around e) = [] \<longleftrightarrow> ed_pos e = 0" "snd (around e) = [] \<longleftrightarrow> \<not> ed_pos e < length (ed_buf e)"
    using assms(1) by (auto simp: around_def)
  show ?thesis
    using assms(2) z around_move(1) [OF _ assms(1)] around_move(2) [of e]
    by (cases "code = 67"; cases "code = 68"; cases "around e") (simp_all add: arrow_def edit_def)
qed

text \<open>
  C37. Editing at the cursor. Every read that is a printable character, a backspace or a movement of the
  cursor, and every read that is none of these, Enter, end of input, completion or recall, changes
  the texts before and after the cursor as an editor with two stacks does: insertion and deletion
  happen at the end of the first, movement carries one character over.\<close>

theorem editor_refines_cursor:
  assumes "ed_pos e \<le> length (ed_buf e)" and "edit_key tmp"
  shows "\<exists>e'. key_step uni s tmp e = Returns (Editing e') \<and> around e' = edit tmp (around e)"
proof -
  obtain b rest where t: "tmp = b # rest" using assms(2) by (cases tmp) (auto simp: edit_key_def)
  have key: "b \<notin> {13, 10, 3, 4, 9}" using assms(2) t by (simp add: edit_key_def)
  consider (bsp) "b = 127 \<or> b = 8" | (arr) "b = 27" "3 \<le> length tmp" "tmp ! 1 = 91"
    | (prn) "32 \<le> b" "b < 127" | (oth) "\<not> (b = 127 \<or> b = 8)" "\<not> (b = 27 \<and> 3 \<le> length tmp \<and> tmp ! 1 = 91)" "\<not> (32 \<le> b \<and> b < 127)"
    by blast
  then show ?thesis
  proof cases
    case bsp
    then show ?thesis
      using key assms(1) around_splice [of "ed_pos e - 1" "ed_pos e" e "[]"]
      by (auto simp: key_step_def t edit_def around_def butlast_take)
  next
    case arr
    have "tmp ! 0 = 27" using arr(1) t by simp
    note a = key_step_arrow [OF arr(2) this arr(3)]
    have "tmp ! 2 \<notin> {65, 66}" using assms(2) a(2) by (auto simp: edit_key_def)
    moreover have "edit tmp = edit [27, 91, tmp ! 2]" using a(2,3) by (simp add: edit_def fun_eq_iff)
    ultimately show ?thesis using arrow_refines [OF assms(1)] a(1) by simp
  next
    case prn
    then show ?thesis
      using key assms(1) around_splice [of "ed_pos e" "ed_pos e" e "[b]"]
      by (auto simp: key_step_def t edit_def around_def)
  next
    case oth
    have "take 3 tmp \<noteq> [27, 91, c]" for c
      using oth(2) t by (cases rest rule: remdups_adj.cases) auto
    then show ?thesis
      using key oth by (auto simp: key_step_def t edit_def split: prod.splits)
  qed
qed

definition sample_editor :: editor where
  "sample_editor = \<lparr>ed_buf = [97, 98, 99], ed_pos = 2, ed_hist = 0\<rparr>"

theorem editor_refines_cursor_witness:
  "\<exists>e'. key_step id (NewShell Absent []) [127] sample_editor = Returns (Editing e')
    \<and> around e' = edit [127] (around sample_editor)"
  by (rule editor_refines_cursor) (simp_all add: sample_editor_def edit_key_def)

subsection \<open>What is typed and what is entered\<close>

definition printable :: "nat \<Rightarrow> bool" where "printable b \<longleftrightarrow> 32 \<le> b \<and> b < 127"

text \<open>A read whose first byte is no control of the editor.\<close>

definition plain_read :: "nat list \<Rightarrow> bool" where
  "plain_read tmp \<longleftrightarrow> tmp \<noteq> [] \<and> hd tmp \<notin> {13, 10, 3, 4, 9, 127, 8, 27}"

lemma plain_step:
  assumes "plain_read tmp" and "ed_pos e = length (ed_buf e)"
  shows "\<exists>e'. key_step uni s tmp e = Returns (Editing e') \<and> ed_pos e' = length (ed_buf e')
    \<and> ed_buf e' = ed_buf e @ filter printable [hd tmp]"
proof -
  obtain b rest where "tmp = b # rest" using assms(1) by (cases tmp) (auto simp: plain_read_def)
  then show ?thesis using assms by (simp add: key_step_def plain_read_def splice_def printable_def)
qed

lemma plain_keys:
  assumes "list_all plain_read ks" and "ed_pos e = length (ed_buf e)"
  shows "\<exists>e'. keys uni s (ks @ ls) e = keys uni s ls e' \<and> ed_buf e' = ed_buf e @ filter printable (map hd ks)"
  using assms
proof (induction ks arbitrary: e)
  case (Cons k ks)
  obtain e1 where e1: "key_step uni s k e = Returns (Editing e1)" "ed_pos e1 = length (ed_buf e1)"
      "ed_buf e1 = ed_buf e @ filter printable [hd k]"
    using plain_step [of k e uni s] Cons.prems by auto
  with Cons.IH [OF _ e1(2)] Cons.prems show ?case by fastforce
qed auto

lemma rune_string_ascii: "list_all printable rs \<Longrightarrow> rune_string rs = map char_of rs"
  by (induction rs) (simp_all add: rune_string_def encode_rune_def printable_def)

text \<open>
  What is entered. When every read before Enter starts with a byte that is no control of the editor, the
  line that is returned holds exactly the printable first bytes of the reads. The rest of a
  read, which holds the rest of a pasted text, and every byte above 126, of which all letters outside
  ASCII consist, leave no trace in the line.\<close>

theorem typed_line:
  assumes "list_all plain_read ks"
  shows "keys uni s (ks @ [[13]]) (start_line s) = Returns (Entered (map char_of (filter printable (map hd ks))))"
proof -
  obtain e where e: "keys uni s (ks @ [[13]]) (start_line s) = keys uni s [[13]] e"
      "ed_buf e = filter printable (map hd ks)"
    using plain_keys [OF assms, of "start_line s" uni s "[[13]]"] by (auto simp: start_line_def)
  then show ?thesis by (simp add: key_step_def rune_string_ascii list_all_iff)
qed

text \<open>The word \<open>hi\<close>, then \<open>abc\<close> pasted, then a letter with an accent.\<close>

theorem typed_line_witness:
  "keys id (NewShell Absent []) ([[104], [105], [97, 98, 99], [0xC3, 0xA9]] @ [[13]]) (start_line (NewShell Absent []))
     = Returns (Entered ''hia'')"
proof -
  have "list_all plain_read [[104], [105], [97, 98, 99], [0xC3, 0xA9]]" by (simp add: plain_read_def)
  moreover have "map char_of (filter printable (map hd [[104], [105], [97, 98, 99], [0xC3, 0xA9::nat]])) = ''hia''"
    by (simp add: printable_def) code_simp
  ultimately show ?thesis by (simp only: typed_line)
qed

subsection \<open>The history survives a restart\<close>

definition history_line :: "string \<Rightarrow> bool" where
  "history_line l \<longleftrightarrow> nl \<notin> set l \<and> TrimRightSet l [cr] = l \<and> TrimSpace l \<noteq> ''''"

definition history_inv :: "Shell \<Rightarrow> bool" where
  "history_inv s \<longleftrightarrow> list_all history_line (sh_history s) \<and> length (sh_history s) \<le> 500"

lemma TrimSpace_Nil [simp]: "TrimSpace [] = []"
  using TrimSpace_plain [of "[]"] by simp

lemma set_TrimRightSet: "set (TrimRightSet l cs) \<subseteq> set l"
  using set_dropWhileD by (force simp: TrimRightSet_def)

lemma TrimRightSet_fixed:
  "set cs \<subseteq> set ds \<Longrightarrow> TrimRightSet (TrimRightSet l ds) cs = TrimRightSet l ds"
proof -
  assume "set cs \<subseteq> set ds"
  then have "dropWhile (\<lambda>c. c \<in> set cs) (dropWhile (\<lambda>c. c \<in> set ds) xs) = dropWhile (\<lambda>c. c \<in> set ds) xs" for xs :: string
    by (induction xs) (auto simp: dropWhile_eq_self_iff)
  then show ?thesis by (simp add: TrimRightSet_def)
qed

lemma takeLast_list_all: "list_all P xs \<Longrightarrow> list_all P (takeLast n xs)"
  by (auto simp: takeLast_def list_all_iff dest: in_set_dropD)

lemma loadHistory_lines: "list_all history_line (loadHistory f)" "length (loadHistory f) \<le> 500"
proof -
  have "list_all history_line (filter (\<lambda>l. TrimSpace l \<noteq> '''') (map (\<lambda>l. TrimRightSet l [cr]) (Split data nl)))" for data
    using Split_parts set_TrimRightSet by (fastforce simp: history_line_def list_all_iff TrimRightSet_fixed)
  then show "list_all history_line (loadHistory f)" "length (loadHistory f) \<le> 500"
    by (simp_all add: loadHistory_def takeLast_list_all split: stored.split)
qed

lemma load_written:
  assumes "list_all history_line hs" and "length hs \<le> 500"
  shows "loadHistory (Doc (Join hs [nl] @ [nl])) = hs"
proof -
  have "Split (Join hs [nl] @ [nl]) nl = (if hs = [] then [[], []] else hs @ [[]])"
    using assms(1)
  proof (induction hs)
    case (Cons h hs)
    then show ?case by (cases hs) (simp_all add: Split_append history_line_def)
  qed simp
  moreover have "map (\<lambda>l. TrimRightSet l [cr]) hs = hs" "filter (\<lambda>l. TrimSpace l \<noteq> '''') hs = hs"
    using assms(1) by (auto simp: list_all_iff history_line_def intro!: map_idI)
  ultimately show ?thesis
    using assms(2) by (simp add: loadHistory_def takeLast_all TrimRightSet_def)
qed

definition add_line :: "string \<Rightarrow> Shell \<Rightarrow> Shell" where
  "add_line l = AddHistory Written (filter (\<lambda>c. c \<noteq> nl) l)"

lemma add_line_step:
  assumes "history_inv s"
  shows "history_inv (add_line l s)"
    and "loadHistory (sh_file s) = sh_history s \<Longrightarrow> loadHistory (sh_file (add_line l s)) = sh_history (add_line l s)"
proof -
  let ?l = "TrimRightSet (filter (\<lambda>c. c \<noteq> nl) l) [cr, nl]"
  have "TrimSpace ?l \<noteq> '''' \<Longrightarrow> history_line ?l"
    using set_TrimRightSet [of "filter (\<lambda>c. c \<noteq> nl) l" "[cr, nl]"] by (auto simp: history_line_def TrimRightSet_fixed)
  then have ok: "TrimSpace ?l \<noteq> '''' \<Longrightarrow> list_all history_line (takeLast 500 (sh_history s @ [?l]))"
    using assms by (intro takeLast_list_all) (simp add: history_inv_def)
  then show "history_inv (add_line l s)"
    using assms by (simp add: add_line_def AddHistory_def saveHistory_def history_inv_def Let_def)
  show "loadHistory (sh_file (add_line l s)) = sh_history (add_line l s)" if "loadHistory (sh_file s) = sh_history s"
    using that ok load_written [of "takeLast 500 (sh_history s @ [?l])"]
    by (simp add: add_line_def AddHistory_def saveHistory_def Let_def takeLast_all)
qed

interpretation history_file: persisted "\<lambda>f. Some (loadHistory f)" sh_file sh_history add_line history_inv
  by unfold_locales (simp_all add: add_line_step)

text \<open>
  The history of commands survives a restart: whatever the history file held, after any lines without a
  line break were added and written, a shell that opens the file recalls the same lines in the same order.\<close>

theorem command_history_survives:
  assumes "list_all (\<lambda>l. nl \<notin> set l) ls"
  shows "sh_history (NewShell (sh_file (fold (AddHistory Written) ls (NewShell f cmds))) cmds')
    = sh_history (fold (AddHistory Written) ls (NewShell f cmds))"
proof -
  have "AddHistory Written l = add_line l" if "l \<in> set ls" for l
  proof -
    have "filter (\<lambda>c. c \<noteq> nl) l = l" using assms that by (intro filter_True) (auto simp: list_all_iff)
    then show ?thesis by (simp add: add_line_def)
  qed
  then have "fold (AddHistory Written) ls s = fold add_line ls s" for s
    by (intro fold_cong) auto
  moreover have "history_inv (NewShell f cmds)" by (simp add: history_inv_def NewShell_def loadHistory_lines)
  ultimately show ?thesis
    using history_file.reopen_run [of "NewShell f cmds" ls] by (simp add: NewShell_def)
qed

theorem command_history_survives_witness:
  "sh_history (NewShell (sh_file (fold (AddHistory Written) [''/peers'', ''hello''] (NewShell Absent []))) [])
    = sh_history (fold (AddHistory Written) [''/peers'', ''hello''] (NewShell Absent []))"
  by (rule command_history_survives) simp

subsection \<open>The fuzzy score\<close>

text \<open>How much of the target has to be read until the query is found in it.\<close>

fun needed :: "string \<Rightarrow> string \<Rightarrow> nat option" where
  "needed [] ts = Some 0"
| "needed (q # qs) [] = None"
| "needed (q # qs) (t # ts) = map_option Suc (if t = q then needed qs ts else needed (q # qs) ts)"

lemma needed_spec:
  "case needed qs ts of
     None \<Rightarrow> \<not> subseq qs ts
   | Some n \<Rightarrow> subseq qs (take n ts) \<and> length qs \<le> n \<and> (\<forall>m. subseq qs (take m ts) \<longrightarrow> n \<le> m)"
proof (induction qs ts rule: needed.induct)
  case (3 q qs t ts)
  have step: "subseq (q # qs) (take m (t # ts)) \<longleftrightarrow>
      (\<exists>m'. m = Suc m' \<and> subseq (if t = q then qs else q # qs) (take m' ts))" for m
    by (cases m) (auto simp: subseq_Cons2_iff)
  show ?case
    using 3 step subseq_Cons2_iff [of q qs t ts] by (cases "t = q") (auto split: option.splits)
qed (auto split: option.splits)

lemma score_loop_needed:
  "lm \<le> ti \<Longrightarrow> 0 \<le> lm \<or> lm = -1 \<and> 0 \<le> ti \<Longrightarrow>
   score_loop qs ts ti score lm =
     (if qs = [] then Some score
      else map_option (\<lambda>n. score + (ti - lm - 1) + int n - int (length qs)) (needed qs ts))"
proof (induction qs ts ti score lm rule: score_loop.induct)
  case (3 q qs t ts ti score lm)
  show ?case
  proof (cases "t = q")
    case True
    then show ?thesis using 3 by (auto simp: option.map_comp comp_def intro!: option.map_cong)
  next
    case False
    then show ?thesis using 3 by (auto simp: option.map_comp comp_def intro!: option.map_cong)
  qed
qed auto

text \<open>
  The score of a candidate. A candidate is kept exactly when the query is a subsequence of it, and
  its score is the number of other characters in the shortest beginning of the candidate that has
  the query as a subsequence, so that the best score, 0, goes to the candidates that start with the query.\<close>

theorem fuzzy_score_counts_gaps:
  "case shell_fuzzyScore query target of
     None \<Rightarrow> \<not> subseq query target
   | Some v \<Rightarrow> 0 \<le> v \<and> subseq query (take (length query + nat v) target)
       \<and> (\<forall>m < length query + nat v. \<not> subseq query (take m target))"
proof (cases "query = []")
  case False
  then have "shell_fuzzyScore query target = map_option (\<lambda>n. int n - int (length query)) (needed query target)"
    by (simp add: shell_fuzzyScore_def score_loop_needed)
  moreover have "length query \<le> n \<Longrightarrow> length query + nat (int n - int (length query)) = n" for n by simp
  ultimately show ?thesis
    using needed_spec [of query target] by (auto split: option.splits simp: not_le [symmetric])
qed (simp add: shell_fuzzyScore_def)

theorem fuzzy_score_counts_gaps_witness:
  "shell_fuzzyScore ''jo'' ''marijo'' = Some 4 \<and> \<not> subseq ''jo'' (take 5 ''marijo'')"
proof -
  have "shell_fuzzyScore ''jo'' ''marijo'' = Some 4" by (simp add: shell_fuzzyScore_def)
  then have "\<not> subseq ''jo'' (take m ''marijo'')" if "m < 6" for m
    using fuzzy_score_counts_gaps [of "''jo''" "''marijo''"] that by simp
  from this [of 5] show ?thesis by (simp add: shell_fuzzyScore_def)
qed

lemma kept_iff: "shell_fuzzyScore query target \<noteq> None \<longleftrightarrow> subseq query target"
  using needed_spec [of query target]
  by (cases "query = []") (auto simp: shell_fuzzyScore_def score_loop_needed split: option.splits dest: subseq_order.trans)

text \<open>
  Fuzzy selection, for every way to sort that \<^verbatim>\<open>sort.Slice\<close> allows: the result has the candidates in
  which the query is a subsequence, case ignored, each as often as it was given, better scores first.\<close>

theorem fuzzy_filter_selects:
  assumes "\<And>xs. mset (arrange xs) = mset xs" and "\<And>xs. sorted (map snd (arrange xs))"
    and "ToLower uni (TrimSpace query) \<noteq> ''''"
  shows "mset (FuzzyFilter arrange uni query cs)
      = mset (filter (\<lambda>c. subseq (ToLower uni (TrimSpace query)) (ToLower uni c)) cs)
    \<and> sorted (map (\<lambda>c. the (shell_fuzzyScore (ToLower uni (TrimSpace query)) (ToLower uni c))) (FuzzyFilter arrange uni query cs))"
proof -
  let ?q = "ToLower uni (TrimSpace query)"
  let ?score = "\<lambda>c. shell_fuzzyScore ?q (ToLower uni c)"
  let ?kept = "List.map_filter (\<lambda>c. map_option (Pair c) (?score c)) cs"
  have f: "FuzzyFilter arrange uni query cs = map fst (arrange ?kept)"
    using assms(3) by (simp add: FuzzyFilter_def Let_def)
  have "map fst ?kept = filter (\<lambda>c. ?score c \<noteq> None) cs"
    by (induction cs) (auto simp: List.map_filter_simps)
  then have "mset (map fst ?kept) = mset (filter (\<lambda>c. subseq ?q (ToLower uni c)) cs)" by (simp only: kept_iff)
  then have "mset (map fst (arrange ?kept)) = mset (filter (\<lambda>c. subseq ?q (ToLower uni c)) cs)"
    using assms(1) [of ?kept] by (simp only: mset_map)
  moreover have "snd p = the (?score (fst p))" if "p \<in> set (arrange ?kept)" for p
  proof -
    have "p \<in> set ?kept" using that mset_eq_setD [OF assms(1)] by blast
    then obtain c where "map_option (Pair c) (?score c) = Some p" by (auto simp: List.map_filter_def)
    then show ?thesis by (cases "?score c") auto
  qed
  then have "map (\<lambda>c. the (?score c)) (map fst (arrange ?kept)) = map snd (arrange ?kept)" by simp
  ultimately show ?thesis using f assms(2) [of ?kept] by (simp only: simp_thms)
qed

theorem fuzzy_filter_selects_witness:
  "mset (FuzzyFilter (sort_key snd) id ''jo'' [''mary'', ''marijo'', ''john''])
     = mset (filter (\<lambda>c. subseq (ToLower id (TrimSpace ''jo'')) (ToLower id c)) [''mary'', ''marijo'', ''john''])"
proof -
  have "no_space ''jo''" by (simp add: byte_of_def)
  then have "TrimSpace ''jo'' = ''jo''" by (rule TrimSpace_plain)
  then have "ToLower id (TrimSpace ''jo'') \<noteq> ''''" by (simp add: ToLower_def)
  then show ?thesis
    by (intro fuzzy_filter_selects [THEN conjunct1]) simp_all
qed

subsection \<open>Lines from a pipe\<close>

lemma plain_line_reads:
  "nl \<notin> set l \<Longrightarrow> plain_line buf (l @ nl # rest) = (Some (buf @ filter (\<lambda>c. c \<noteq> cr) l), rest)"
  by (induction l arbitrary: buf) auto

text \<open>
  A line that arrives through a pipe, ended by a line feed with or without a carriage return, is returned whole and
  what follows it is left for the next call.\<close>

theorem piped_line:
  assumes "nl \<notin> set l" and "cr \<notin> set l"
  shows "plain_line [] (l @ nl # rest) = (Some l, rest) \<and> plain_line [] (l @ cr # nl # rest) = (Some l, rest)"
proof -
  have l: "filter (\<lambda>c. c \<noteq> cr) l = l" using assms(2) by (intro filter_True) auto
  show ?thesis
    using plain_line_reads [of l "[]" rest] plain_line_reads [of "l @ [cr]" "[]" rest] assms l by simp
qed

theorem piped_line_witness:
  "plain_line [] (''/quit'' @ nl # []) = (Some ''/quit'', []) \<and> plain_line [] (''/quit'' @ cr # nl # []) = (Some ''/quit'', [])"
  by (rule piped_line) simp_all

end
