(* ===== verification/Ui_Text.thy ===== *)
theory Ui_Text
  imports Status_Tracker Validate
begin

text \<open>
  What is shown to the user: \<^verbatim>\<open>src/internal/ui/ui.go\<close>, the notification of \<^verbatim>\<open>src/internal/notify/notify.go\<close>
  and the small helpers of \<^verbatim>\<open>src/main.go\<close>. The rendering of a time by \<^verbatim>\<open>Format\<close> depends on the time zone and
  is an argument; the minutes and hours of a duration are computed in \<open>float64\<close> as package \<^verbatim>\<open>time\<close> does.
\<close>

subsection \<open>Colours and lines\<close>

abbreviation ESC :: char where "ESC \<equiv> CHR 0x1B"

definition Reset :: string where "Reset = ESC # ''[0m''"
definition Bold :: string where "Bold = ESC # ''[1m''"
definition Dim :: string where "Dim = ESC # ''[2m''"
definition Red :: string where "Red = ESC # ''[31m''"
definition Green :: string where "Green = ESC # ''[32m''"
definition Yellow :: string where "Yellow = ESC # ''[33m''"
definition Blue :: string where "Blue = ESC # ''[34m''"
definition Magenta :: string where "Magenta = ESC # ''[35m''"
definition Cyan :: string where "Cyan = ESC # ''[36m''"
definition Gray :: string where "Gray = ESC # ''[90m''"

datatype TimestampMode = TimestampAbsolute | TimestampRelative

text \<open>\<open>int(d.Minutes())\<close> and \<open>d.Hours()\<close>.\<close>

definition trunc :: "rat \<Rightarrow> int" where
  "trunc x = (if x < 0 then \<lceil>x\<rceil> else \<lfloor>x\<rfloor>)"

definition Minutes :: "duration \<Rightarrow> rat" where
  "Minutes d = f64 (f64 (of_int (go_div d Minute)) + f64 (f64 (of_int (go_mod d Minute)) / 60000000000))"

definition Hours :: "duration \<Rightarrow> rat" where
  "Hours d = f64 (f64 (of_int (go_div d Hour)) + f64 (f64 (of_int (go_mod d Hour)) / 3600000000000))"

definition FormatRelative :: "(string \<Rightarrow> gotime \<Rightarrow> string) \<Rightarrow> gotime \<Rightarrow> gotime \<Rightarrow> string" where
  "FormatRelative fmt now ts =
     (if IsZero ts then Dim @ ''never'' @ Reset
      else let d = Sub now ts
           in if d < Minute then Dim @ ''just now'' @ Reset
              else if d < Hour then Dim @ Itoa (trunc (Minutes d)) @ ''m ago'' @ Reset
              else if d < 24 * Hour then Dim @ Itoa (trunc (Hours d)) @ ''h ago'' @ Reset
              else if d < 7 * 24 * Hour then Dim @ Itoa (trunc (f64 (Hours d / 24))) @ ''d ago'' @ Reset
              else Dim @ fmt ''2006-01-02'' ts @ Reset)"

definition FormatTimestamp :: "(string \<Rightarrow> gotime \<Rightarrow> string) \<Rightarrow> gotime \<Rightarrow> gotime \<Rightarrow> TimestampMode \<Rightarrow> string" where
  "FormatTimestamp fmt now ts mode =
     (if mode = TimestampRelative then FormatRelative fmt now ts else Dim @ fmt ''15:04:05'' ts @ Reset)"

definition Incoming ::
    "(string \<Rightarrow> gotime \<Rightarrow> string) \<Rightarrow> gotime \<Rightarrow> string \<Rightarrow> string \<Rightarrow> gotime \<Rightarrow> TimestampMode \<Rightarrow> string" where
  "Incoming fmt now name body ts mode =
     FormatTimestamp fmt now ts mode @ Reset @ Green @ '' '' @ name @ '': '' @ body"

definition Outgoing ::
    "(string \<Rightarrow> gotime \<Rightarrow> string) \<Rightarrow> gotime \<Rightarrow> string \<Rightarrow> string \<Rightarrow> gotime \<Rightarrow> TimestampMode \<Rightarrow> string" where
  "Outgoing fmt now name body ts mode =
     FormatTimestamp fmt now ts mode @ '' '' @ Cyan @ [CHR 0xE2, CHR 0x86, CHR 0x92] @ '' '' @ name @ '': '' @ body @ Reset"

definition SystemLine :: "string \<Rightarrow> string" where "SystemLine body = Yellow @ ''[*] '' @ body @ Reset"
definition PeerEvent :: "string \<Rightarrow> string" where "PeerEvent body = Blue @ body @ Reset"
definition TypingLine :: "string \<Rightarrow> string" where "TypingLine body = Gray @ body @ Reset"
definition SuccessLine :: "string \<Rightarrow> string" where
  "SuccessLine body = Green @ Bold @ ''['' @ [CHR 0xE2, CHR 0x9C, CHR 0x93] @ ''] '' @ body @ Reset"
definition FailureLine :: "string \<Rightarrow> string" where
  "FailureLine hint = Red @ Bold @ ''Error: '' @ Reset @ Red @ hint @ Reset"
definition FileEvent :: "string \<Rightarrow> string" where "FileEvent body = Magenta @ body @ Reset"
definition HintLine :: "string \<Rightarrow> string" where "HintLine body = Gray @ body @ Reset"

text \<open>\<open>s[:limit]\<close> with a negative limit panics.\<close>

definition Truncate :: "string \<Rightarrow> int \<Rightarrow> string outcome" where
  "Truncate s limit =
     (if int (length s) \<le> limit then Returns s
      else if limit \<le> 3 then (if limit < 0 then Panics else Returns (take (nat limit) s))
      else Returns (take (nat (limit - 3)) s @ ''...''))"

definition PadRight :: "string \<Rightarrow> int \<Rightarrow> string" where
  "PadRight s width =
     (if width \<le> int (length s) then s else s @ replicate (nat (width - int (length s))) CHR '' '')"

subsection \<open>Helpers of the main program\<close>

definition shortID :: "string \<Rightarrow> string" where
  "shortID full = (if length full \<le> 8 then full else take 8 full)"

definition formatTimeSince :: "(string \<Rightarrow> gotime \<Rightarrow> string) \<Rightarrow> gotime \<Rightarrow> gotime \<Rightarrow> string" where
  "formatTimeSince fmt now t =
     (if IsZero t then ''never''
      else let d = Sub now t
           in if d < Minute then ''just now''
              else if d < Hour then Itoa (trunc (Minutes d)) @ '' min ago''
              else if d < 24 * Hour then Itoa (trunc (Hours d)) @ '' hour ago''
              else if d < 7 * 24 * Hour then Itoa (trunc (f64 (Hours d / 24))) @ '' day ago''
              else fmt ''2006-01-02'' t)"

subsection \<open>Notifications\<close>

fun escapeApple :: "string \<Rightarrow> string" where
  "escapeApple [] = []"
| "escapeApple (c # s) =
     (if c = CHR 0x22 \<or> c = CHR 0x5C then [CHR 0x5C] else []) @
     (if c = CHR 0x0A \<or> c = CHR 0x0D then [CHR '' ''] else [c]) @ escapeApple s"

datatype platform = Linux | Darwin | Windows | OtherOS

text \<open>\<^verbatim>\<open>Send\<close> gives the command line that is started; \<open>has\<close> tells which programs \<^verbatim>\<open>exec.LookPath\<close> finds.\<close>

definition apple_script :: "string \<Rightarrow> string \<Rightarrow> string" where
  "apple_script title body =
     ''display notification '' @ [CHR 0x22] @ escapeApple body @ [CHR 0x22] @ '' with title '' @
     [CHR 0x22] @ escapeApple title @ [CHR 0x22]"

definition NotifySend :: "platform \<Rightarrow> (string \<Rightarrow> bool) \<Rightarrow> string \<Rightarrow> string \<Rightarrow> string list option" where
  "NotifySend os has title body =
     (case os of
        Linux \<Rightarrow> if has ''notify-send'' then Some [''notify-send'', title, body] else None
      | Darwin \<Rightarrow>
          if has ''terminal-notifier'' then Some [''terminal-notifier'', ''-title'', title, ''-message'', body]
          else if has ''osascript'' then Some [''osascript'', ''-e'', apple_script title body]
          else None
      | Windows \<Rightarrow>
          if has ''powershell''
          then Some [''powershell'', ''-NoProfile'', ''-NonInteractive'', ''-Command'',
            ''[Windows.UI.Notifications.ToastNotificationManager, Windows.UI.Notifications, ContentType = WindowsRuntime] | Out-Null'']
          else None
      | OtherOS \<Rightarrow> None)"

subsection \<open>Properties\<close>

text \<open>
  How AppleScript reads the rest of a string literal: up to the first quotation mark that no backslash
  precedes; the value and what follows the literal.\<close>

fun read_literal :: "string \<Rightarrow> (string \<times> string) option" where
  "read_literal [] = None"
| "read_literal (c # s) =
     (if c = CHR 0x22 then Some ([], s)
      else if c = CHR 0x5C then
        (case s of [] \<Rightarrow> None | d # t \<Rightarrow> map_option (apfst ((#) d)) (read_literal t))
      else map_option (apfst ((#) c)) (read_literal s))"

definition one_line :: "string \<Rightarrow> string" where
  "one_line s = map (\<lambda>c. if c = CHR 0x0A \<or> c = CHR 0x0D then CHR '' '' else c) s"

lemma read_escaped: "read_literal (escapeApple s @ CHR 0x22 # rest) = Some (one_line s, rest)"
  by (induction s) (auto simp: one_line_def)

text \<open>
  A notification cannot break out of its script. Whatever a peer puts into its name and its message, the
  script that is run is one statement with two string literals, whose values are the message and
  the title with line breaks replaced by blanks.\<close>

theorem notification_is_quoted:
  "\<exists>rest. apple_script title body = ''display notification '' @ CHR 0x22 # rest
    \<and> (\<exists>rest'. read_literal rest = Some (one_line body, '' with title '' @ CHR 0x22 # rest')
        \<and> read_literal rest' = Some (one_line title, ''''))"
  using read_escaped [of body "'' with title '' @ CHR 0x22 # escapeApple title @ [CHR 0x22]"] read_escaped [of title "[]"]
  by (auto simp: apple_script_def)

text \<open>
  Shortening. A text is shortened to at most the limit and keeps its beginning; a negative limit panics
  on every text, and no other does.\<close>

theorem truncate_bounds:
  "(Truncate s limit = Panics \<longleftrightarrow> limit < 0)
    \<and> (\<forall>t. Truncate s limit = Returns t \<longrightarrow>
        int (length t) \<le> limit \<and> take (nat (limit - 3)) t = take (nat (limit - 3)) s)"
  by (auto simp: Truncate_def min_def)

theorem truncate_bounds_witness:
  "(Truncate ''hello'' 4 = Panics \<longleftrightarrow> (4::int) < 0)
    \<and> (\<forall>t. Truncate ''hello'' 4 = Returns t \<longrightarrow>
        int (length t) \<le> 4 \<and> take (nat (4 - 3)) t = take (nat (4 - 3)) ''hello'')"
  by (rule truncate_bounds)

end
