(* ===== verification/Main_Parse.thy ===== *)
theory Main_Parse
  imports Go_Strings Validate
begin

text \<open>
  How the main loop of \<^verbatim>\<open>src/main.go\<close> understands a line: the conditions of its \<^verbatim>\<open>switch\<close>, in their order. The
  line was trimmed before. A command carries the argument that its branch takes from the line.
\<close>

datatype command =
    CQuit | CHelp | CPeers | CCandidates | CConnectCandidates string | CGroups | CGroup string | CG string | CReply string
  | CDevices | CStatus | CConnect string | CRetry string | CHistory string | CTimestamp string | CDisappearing string
  | CSend string | CAccept string | CReject string | CResume string | CQueue | CContacts string | CSearch string
  | CAlias string | CFavorite string | CBlock string | CUnblock string | CContact string | CVerify string | CTestNat
  | CTrust string | CEphemeral string | CLinkDevice | CExportIdentity string | CImportIdentity string | CCheckUpdate
  | CExportData string | CImportData string | CChat string

text \<open>\<^verbatim>\<open>strings.TrimSpace(strings.TrimPrefix(line, p))\<close>.\<close>

definition argument :: "string \<Rightarrow> string \<Rightarrow> string" where
  "argument p line = TrimSpace (if HasPrefix line p then drop (length p) line else line)"

text \<open>The branches that test a prefix, with what they make of the line.\<close>

type_synonym branch = "(string \<Rightarrow> bool) \<times> (string \<Rightarrow> command)"

definition exactly :: "string \<Rightarrow> command \<Rightarrow> branch" where
  "exactly s c = ((\<lambda>line. line = s), (\<lambda>_. c))"

definition prefixed :: "string \<Rightarrow> (string \<Rightarrow> command) \<Rightarrow> branch" where
  "prefixed p c = ((\<lambda>line. HasPrefix line p), (\<lambda>line. c (argument p line)))"

definition whole :: "string \<Rightarrow> (string \<Rightarrow> command) \<Rightarrow> branch" where
  "whole p c = ((\<lambda>line. HasPrefix line p), c)"

definition branches :: "branch list" where
  "branches =
    [exactly ''/quit'' CQuit, exactly ''/help'' CHelp, exactly ''/peers'' CPeers, exactly ''/candidates'' CCandidates,
     prefixed ''/connect-candidates '' CConnectCandidates, exactly ''/groups'' CGroups, whole ''/group '' CGroup,
     prefixed ''/g '' CG, prefixed ''/reply '' CReply, exactly ''/devices'' CDevices, exactly ''/status'' CStatus,
     prefixed ''/connect '' CConnect, prefixed ''/retry '' CRetry, whole ''/history'' CHistory,
     prefixed ''/timestamp'' CTimestamp, prefixed ''/disappearing'' CDisappearing,
     ((\<lambda>line. HasPrefix line ''/send ''), (\<lambda>line. CSend (drop 6 line))),
     prefixed ''/accept '' CAccept, prefixed ''/reject '' CReject, prefixed ''/resume '' CResume, exactly ''/queue'' CQueue,
     whole ''/contacts'' CContacts, prefixed ''/search '' CSearch, whole ''/alias '' CAlias,
     prefixed ''/favorite '' CFavorite, prefixed ''/block '' CBlock, prefixed ''/unblock '' CUnblock,
     prefixed ''/contact '' CContact, prefixed ''/verify '' CVerify, prefixed ''/safety '' CVerify,
     exactly ''/test-nat'' CTestNat, prefixed ''/trust '' CTrust, prefixed ''/ephemeral'' CEphemeral,
     exactly ''/link-device'' CLinkDevice, prefixed ''/export-identity '' CExportIdentity,
     prefixed ''/import-identity '' CImportIdentity, exactly ''/check-update'' CCheckUpdate,
     prefixed ''/export-data '' CExportData, prefixed ''/import-data '' CImportData]"

definition parse_command :: "string \<Rightarrow> command" where
  "parse_command line = (case find (\<lambda>b. fst b line) branches of Some b \<Rightarrow> snd b line | None \<Rightarrow> CChat line)"

text \<open>The list that the shell completes.\<close>

definition commands :: "string list" where
  "commands =
    [''/peers'', ''/devices'', ''/candidates'', ''/connect'', ''/connect-candidates'', ''/retry'', ''/status'', ''/history'',
     ''/send'', ''/accept'', ''/reject'', ''/resume'', ''/queue'', ''/contacts'', ''/search'', ''/contact'', ''/alias'',
     ''/favorite'', ''/block'', ''/unblock'', ''/verify'', ''/safety'', ''/export'', ''/import'', ''/disappearing'',
     ''/ephemeral'', ''/group'', ''/groups'', ''/g'', ''/reply'', ''/test-nat'', ''/trust'', ''/link-device'',
     ''/export-identity'', ''/import-identity'', ''/export-data'', ''/import-data'', ''/check-update'', ''/timestamp'',
     ''/help'', ''/quit'']"

subsection \<open>What the parser does\<close>

lemmas branch_defs = branches_def exactly_def prefixed_def whole_def

lemma HasPrefix_steps [simp]:
  "HasPrefix s []" "\<not> HasPrefix [] (c # p)" "HasPrefix (a # s) (c # p) \<longleftrightarrow> a = c \<and> HasPrefix s p"
  by (auto simp: HasPrefix_def)

definition is_chat :: "command \<Rightarrow> bool" where
  "is_chat c = (case c of CChat _ \<Rightarrow> True | _ \<Rightarrow> False)"

text \<open>
  The promised commands that do not exist. The commands \<^verbatim>\<open>/export\<close> and \<^verbatim>\<open>/import\<close> are completed by the shell, listed by
  the help and named by the instructions for linking a device, but every line that starts with one of
  them and a blank is an ordinary chat message.\<close>

theorem export_is_sent_as_chat:
  "''/export'' \<in> set commands \<and> ''/import'' \<in> set commands
    \<and> parse_command (''/export '' @ path) = CChat (''/export '' @ path)
    \<and> parse_command (''/import '' @ path) = CChat (''/import '' @ path)"
  unfolding commands_def parse_command_def branch_defs by simp

text \<open>
  Commands without their argument. Of the listed commands, exactly these are chat messages when they are
  typed alone, which is also what a command followed by blanks is after trimming.\<close>

theorem bare_commands_sent_as_chat:
  "filter (\<lambda>c. is_chat (parse_command c)) commands =
    [''/connect'', ''/connect-candidates'', ''/retry'', ''/send'', ''/accept'', ''/reject'', ''/resume'', ''/search'',
     ''/contact'', ''/alias'', ''/favorite'', ''/block'', ''/unblock'', ''/verify'', ''/safety'', ''/export'', ''/import'',
     ''/group'', ''/g'', ''/reply'', ''/trust'', ''/export-identity'', ''/import-identity'', ''/export-data'', ''/import-data'']"
  unfolding commands_def parse_command_def branch_defs
  by (simp add: is_chat_def)

text \<open>
  Only a line that starts with a slash is a command; everything else is chat, word for word.\<close>

theorem plain_text_is_chat:
  assumes "\<not> HasPrefix line ''/''"
  shows "parse_command line = CChat line"
  using assms unfolding parse_command_def branch_defs by (cases line) simp_all

theorem plain_text_is_chat_witness: "parse_command ''hello /quit'' = CChat ''hello /quit''"
  by (rule plain_text_is_chat) (simp add: HasPrefix_def)

end
