(* ===== verification/Main_Backup.thy ===== *)
theory Main_Backup
  imports Config_File Backup_Bundle Contact_Book Verify_Safety Shell_Line Go_Path
    Identity_Keys "HOL-Library.Countable"
begin

text \<open>
  The functions of \<^verbatim>\<open>src/main.go\<close> behind the commands for backups, for sending files and for safety numbers. The
  files under \<^verbatim>\<open>~/.korik\<close> that a backup copies are kept as bytes, except the identity file, which is taken at the
  level of its key; reading and writing the JSON of the configuration is the record \<open>config_codec\<close>.
\<close>

subsection \<open>Building a backup\<close>

record home_dir =
  hd_identity :: "string stored"
  hd_config :: "string stored"
  hd_contacts :: "string stored"
  hd_history :: "string stored"

datatype build_error = IdentityUnreadable | IdentityMalformed

definition bytes_of :: "string stored \<Rightarrow> string" where
  "bytes_of f = (case f of Doc b \<Rightarrow> b | _ \<Rightarrow> '''')"

definition buildBackupPayload :: "home_dir \<Rightarrow> build_error + Payload" where
  "buildBackupPayload h =
     (case hd_identity h of
        Absent \<Rightarrow> Inl IdentityUnreadable
      | Unreadable \<Rightarrow> Inl IdentityUnreadable
      | Malformed \<Rightarrow> Inl IdentityMalformed
      | Doc key \<Rightarrow>
          Inr \<lparr>pl_PrivateKeyHex = key, pl_Config = bytes_of (hd_config h),
               pl_Contacts = bytes_of (hd_contacts h), pl_History = bytes_of (hd_history h)\<rparr>)"

subsection \<open>Restoring a backup\<close>

record config_codec =
  cc_parse :: "string \<Rightarrow> config_doc option"
  cc_print :: "config_doc \<Rightarrow> string"

definition decoded :: "(string \<Rightarrow> 'd option) \<Rightarrow> string stored \<Rightarrow> 'd stored" where
  "decoded parse f =
     (case f of
        Absent \<Rightarrow> Absent | Unreadable \<Rightarrow> Unreadable | Malformed \<Rightarrow> Malformed
      | Doc b \<Rightarrow> (case parse b of None \<Rightarrow> Malformed | Some d \<Rightarrow> Doc d))"

text \<open>The reaction of the file system to each write, and the random draws in their order.\<close>

record restore_env =
  rs_P :: primitives
  rs_codec :: config_codec
  rs_identity :: "string saving"
  rs_contacts :: "string saving"
  rs_history :: "string saving"
  rs_config :: "string saving"
  rs_rnd :: "nat \<Rightarrow> string option"

definition zero_config :: Config where
  "zero_config =
     \<lparr>cf_Name = '''', cf_Port = 0, cf_DiscoveryPort = 0, cf_HistorySize = 0, cf_STUNServer = '''', cf_NoDiscovery = False,
      cf_InternetMode = False, cf_ReadReceipts = False, cf_TypingIndicator = False, cf_AutoReconnect = False,
      cf_DeviceID = '''', cf_DeviceLabel = ''''\<rparr>"

definition merged_config :: "(nat \<Rightarrow> string option) \<Rightarrow> Config \<Rightarrow> config_doc stored \<Rightarrow> Config" where
  "merged_config rnd imported f =
     (let current = (case Load (rnd 0) f of Inl e \<Rightarrow> DefaultConfig (rnd 1) | Inr c \<Rightarrow> c);
          c1 = current\<lparr>cf_Name := cf_Name imported\<rparr>;
          c2 = (if cf_Port imported \<noteq> 0
                then (if cf_Port imported = cf_Port c1 then c1\<lparr>cf_Port := cf_Port imported + 1\<rparr>
                      else c1\<lparr>cf_Port := cf_Port imported\<rparr>)
                else c1);
          c3 = snd (EnsureDeviceID (rnd 2) c2)
      in if cf_DeviceID c3 = cf_DeviceID imported
         then snd (EnsureDeviceID (rnd 3) (c3\<lparr>cf_DeviceID := ''''\<rparr>))
         else c3)"

definition restore_config :: "restore_env \<Rightarrow> string \<Rightarrow> string stored \<Rightarrow> string stored" where
  "restore_config R bytes f =
     (case cc_parse (rs_codec R) bytes of
        Some d \<Rightarrow>
          snd (save_doc (rs_config R)
                 (cc_print (rs_codec R) (config_marshal
                    (merged_config (rs_rnd R) (config_unmarshal d zero_config) (decoded (cc_parse (rs_codec R)) f)))) f)
      | None \<Rightarrow> snd (save_doc (rs_config R) bytes f))"

datatype restore_error = NoIdentity | BadIdentity identity_error

definition restoreBackupPayload :: "restore_env \<Rightarrow> Payload \<Rightarrow> home_dir \<Rightarrow> restore_error option \<times> home_dir" where
  "restoreBackupPayload R p h =
     (if pl_PrivateKeyHex p = '''' then (Some NoIdentity, h)
      else case RestoreFromHex (rs_P R) (pl_PrivateKeyHex p) (rs_identity R) (hd_identity h) of
        (Inl e, f) \<Rightarrow> (Some (BadIdentity e), h\<lparr>hd_identity := f\<rparr>)
      | (Inr i, f) \<Rightarrow>
          let h1 = h\<lparr>hd_identity := f\<rparr>;
              h2 = (if pl_Contacts p \<noteq> '''' then h1\<lparr>hd_contacts := snd (save_doc (rs_contacts R) (pl_Contacts p) (hd_contacts h1))\<rparr> else h1);
              h3 = (if pl_History p \<noteq> '''' then h2\<lparr>hd_history := snd (save_doc (rs_history R) (pl_History p) (hd_history h2))\<rparr> else h2);
              h4 = (if pl_Config p \<noteq> '''' then h3\<lparr>hd_config := restore_config R (pl_Config p) (hd_config h3)\<rparr> else h3)
          in (None, h4))"

subsection \<open>Arguments of the command that sends a file\<close>

definition TrimQuotes :: "string \<Rightarrow> string" where
  "TrimQuotes p = TrimRightSet (dropWhile (\<lambda>c. c = CHR 0x22) p) [CHR 0x22]"

definition expandPath :: "string \<Rightarrow> string \<Rightarrow> string" where
  "expandPath home p0 =
     (let p = TrimQuotes p0 in if HasPrefix p ''~'' then JoinPath [home, drop 1 p] else p)"

datatype send_args_error = SendUsage | FileNotFound string

text \<open>\<open>exists\<close> is whether \<^verbatim>\<open>os.Stat\<close> finds the path.\<close>

definition parseSendArgs :: "(string \<Rightarrow> bool) \<Rightarrow> string \<Rightarrow> string \<Rightarrow> send_args_error + string \<times> string" where
  "parseSendArgs exists input0 home =
     (let input = TrimSpace input0
      in if input = '''' then Inl SendUsage
         else if exists (expandPath home input) then Inr (expandPath home input, '''')
         else case LastIndexByte input CHR '' '' of
           Some lastSpace \<Rightarrow>
             if 0 < lastSpace \<and> exists (expandPath home (take lastSpace input))
             then Inr (expandPath home (take lastSpace input), TrimSpace (drop (lastSpace + 1) input))
             else Inl (FileNotFound input)
         | None \<Rightarrow> Inl (FileNotFound input))"

subsection \<open>Safety numbers\<close>

text \<open>\<^verbatim>\<open>strings.SplitN(s, ":", 2)\<close>, when it has two parts: the second.\<close>

definition after_colon :: "string \<Rightarrow> string option" where
  "after_colon s = map_option (\<lambda>i. drop (i + 1) s) (IndexByte s CHR '':'')"

text \<open>What is shown: the name, the number and the short code; the inner \<open>None\<close> is the refusal.\<close>

definition showSafetyNumber ::
    "primitives \<Rightarrow> string \<Rightarrow> ContactBook \<Rightarrow> (string \<times> string \<times> string) option outcome" where
  "showSafetyNumber P jid book =
     (let c = GetContact jid book;
          pubHex = (case c of
             Some ct \<Rightarrow> (case after_colon (ct_JID ct) of Some s \<Rightarrow> s | None \<Rightarrow> '''')
           | None \<Rightarrow> (case after_colon jid of Some s \<Rightarrow> s | None \<Rightarrow> jid));
          name = (case c of Some ct \<Rightarrow> GetDisplayName ct | None \<Rightarrow> jid)
      in case SafetyNumber P pubHex of
           None \<Rightarrow> Returns None
         | Some r \<Rightarrow> bind_outcome r (\<lambda>number. Returns (Some (name, number, ShortCode P pubHex))))"

subsection \<open>Properties\<close>

lemma device_id_nonempty: "newDeviceID rnd \<noteq> ''''"
  by (simp add: newDeviceID_def split: option.split)

lemma EnsureDeviceID_id:
  "cf_DeviceID (snd (EnsureDeviceID rnd c)) = (if cf_DeviceID c = '''' then newDeviceID rnd else cf_DeviceID c)"
  "cf_Name (snd (EnsureDeviceID rnd c)) = cf_Name c" "cf_Port (snd (EnsureDeviceID rnd c)) = cf_Port c"
  by (simp_all add: EnsureDeviceID_def)

lemma merged_config_fields:
  fixes rnd imported f
  defines "cur \<equiv> (case Load (rnd 0) f of Inl e \<Rightarrow> DefaultConfig (rnd 1) | Inr c \<Rightarrow> c)"
  shows "cf_Name (merged_config rnd imported f) = cf_Name imported"
    and "cf_Port (merged_config rnd imported f) =
      (if cf_Port imported = 0 then cf_Port cur
       else if cf_Port imported = cf_Port cur then cf_Port imported + 1 else cf_Port imported)"
    and "cf_DeviceID (merged_config rnd imported f) \<noteq> ''''"
    and "newDeviceID (rnd 3) \<noteq> cf_DeviceID imported \<Longrightarrow> cf_DeviceID (merged_config rnd imported f) \<noteq> cf_DeviceID imported"
  unfolding merged_config_def cur_def Let_def
  by (simp_all add: EnsureDeviceID_id device_id_nonempty)

lemma restored_identity:
  assumes "load_identity P key = Inr i"
  shows "RestoreFromHex P key Written f = (Inr i, Doc (EncodeToString (id_rawPriv i)))"
    and "load_identity P (EncodeToString (id_rawPriv i)) = Inr i"
  using assms by (auto simp: RestoreFromHex_def save_identity_def load_identity_def fromRawPrivate_def Let_def
      split: option.splits if_splits)

definition codec_ok :: "config_codec \<Rightarrow> bool" where
  "codec_ok cc \<longleftrightarrow> (\<forall>d. cc_parse cc (cc_print cc d) = Some d)"

lemma loaded_config:
  "Load rnd (Doc (config_marshal c)) = Inr c' \<Longrightarrow> cf_DeviceID c \<noteq> '''' \<Longrightarrow>
     cf_DeviceID c' = cf_DeviceID c \<and> cf_Name c' = (if cf_Name c = '''' then ''korik-user'' else cf_Name c)"
  by (auto simp: config_marshal_def config_unmarshal_def DefaultConfig_def)

text \<open>
  C39. Linking a second device. When the backup holds a usable key and a readable configuration and the
  writes succeed, restoring it succeeds; the next start has the identity of the backup, the contacts and
  the history of the backup (those it had, if the backup has none), the name of the backup, and an
  identifier of the device that is not the one of the device that made the backup, so that the
  two recognise each other.\<close>

theorem restore_links_device:
  assumes "load_identity (rs_P R) (pl_PrivateKeyHex p) = Inr i" and "pl_PrivateKeyHex p \<noteq> ''''"
    and "cc_parse (rs_codec R) (pl_Config p) = Some d" and "pl_Config p \<noteq> ''''" and "codec_ok (rs_codec R)"
    and "rs_identity R = Written" "rs_contacts R = Written" "rs_history R = Written" "rs_config R = Written"
    and "newDeviceID (rs_rnd R 3) \<noteq> overlay '''' (cd_device_id d)"
  shows "\<exists>h' c. restoreBackupPayload R p h = (None, h')
    \<and> fst (LoadOrCreate (rs_P R) gen w (hd_identity h')) = Inr i
    \<and> hd_contacts h' = (if pl_Contacts p = '''' then hd_contacts h else Doc (pl_Contacts p))
    \<and> hd_history h' = (if pl_History p = '''' then hd_history h else Doc (pl_History p))
    \<and> Load rnd (decoded (cc_parse (rs_codec R)) (hd_config h')) = Inr c
    \<and> cf_Name c = (if overlay '''' (cd_name d) = '''' then ''korik-user'' else overlay '''' (cd_name d))
    \<and> cf_DeviceID c \<noteq> '''' \<and> cf_DeviceID c \<noteq> overlay '''' (cd_device_id d)"
proof -
  define m where "m = merged_config (rs_rnd R) (config_unmarshal d zero_config) (decoded (cc_parse (rs_codec R)) (hd_config h))"
  have imported: "cf_Name (config_unmarshal d zero_config) = overlay '''' (cd_name d)"
      "cf_DeviceID (config_unmarshal d zero_config) = overlay '''' (cd_device_id d)"
    by (simp_all add: config_unmarshal_def zero_config_def)
  obtain c where c: "Load rnd (Doc (config_marshal m)) = Inr c" by simp
  note l = loaded_config [OF c]
  define h' where "h' = \<lparr>hd_identity = Doc (EncodeToString (id_rawPriv i)),
     hd_config = Doc (cc_print (rs_codec R) (config_marshal m)),
     hd_contacts = (if pl_Contacts p = '''' then hd_contacts h else Doc (pl_Contacts p)),
     hd_history = (if pl_History p = '''' then hd_history h else Doc (pl_History p))\<rparr>"
  have "restoreBackupPayload R p h = (None, h')"
    using assms(2,3,4,6-9) restored_identity(1) [OF assms(1)]
    by (simp add: restoreBackupPayload_def restore_config_def m_def h'_def)
  moreover have "fst (LoadOrCreate (rs_P R) gen w (hd_identity h')) = Inr i"
    using restored_identity(2) [OF assms(1)] by (simp add: LoadOrCreate_def h'_def)
  moreover have "Load rnd (decoded (cc_parse (rs_codec R)) (hd_config h')) = Inr c"
    using c assms(5) by (simp add: decoded_def codec_ok_def h'_def)
  ultimately show ?thesis
    using l assms(10) merged_config_fields(1,3,4) [of "rs_rnd R" "config_unmarshal d zero_config"]
    by (intro exI [of _ h'] exI [of _ c]) (simp add: m_def imported h'_def)
qed

text \<open>
  The port after a restore. A port in the backup replaces the port of this device exactly if
  the two differed: devices that had different ports end with the same one, and only devices that had
  the same port are told apart.\<close>

theorem restored_port_clashes_iff:
  assumes "Load (rnd 0) f = Inr current" and "cf_Port imported \<noteq> 0"
  shows "cf_Port (merged_config rnd imported f) = cf_Port imported \<longleftrightarrow> cf_Port current \<noteq> cf_Port imported"
  using assms merged_config_fields(2) [of rnd imported f] by simp

theorem restored_port_clashes_iff_witness:
  "cf_Port (merged_config (\<lambda>_. None) (zero_config\<lparr>cf_Port := 7000\<rparr>) Absent) = 7000"
proof -
  have "cf_Port (merged_config (\<lambda>_. None) (zero_config\<lparr>cf_Port := 7000\<rparr>) Absent) = cf_Port (zero_config\<lparr>cf_Port := 7000\<rparr>)
      \<longleftrightarrow> cf_Port (DefaultConfig None) \<noteq> cf_Port (zero_config\<lparr>cf_Port := 7000\<rparr>)"
    by (rule restored_port_clashes_iff) simp_all
  then show ?thesis by (simp add: DefaultConfig_def)
qed

lemma LastIndexByte_snoc: "c \<notin> set t \<Longrightarrow> LastIndexByte (p @ c # t) c = Some (length p)"
proof -
  assume "c \<notin> set t"
  moreover have "c \<notin> set r \<Longrightarrow> IndexByte (r @ c # q) c = Some (length r)" for r q by (induction r) auto
  ultimately show ?thesis by (simp add: LastIndexByte_def)
qed

text \<open>
  The target of a file. When the whole argument names a file it is sent to everybody, blanks and all;
  otherwise, when what precedes the last word names a file, that file is sent to the target the
  last word names.\<close>

theorem send_target_is_last_word:
  assumes "TrimSpace input = p @ CHR '' '' # t" and "no_space t" and "p \<noteq> ''''"
    and "exists (expandPath home p)"
  shows "parseSendArgs exists input home =
    Inr (if exists (expandPath home (TrimSpace input)) then (expandPath home (TrimSpace input), '''') else (expandPath home p, t))"
proof -
  have "CHR '' '' \<notin> set t" using assms(2) by (auto simp: list_all_iff byte_of_def)
  from LastIndexByte_snoc [OF this] show ?thesis
    using assms TrimSpace_plain [OF assms(2)] by (simp add: parseSendArgs_def Let_def)
qed

lemma no_colon_in_hex: "after_colon (EncodeToString bs) = None"
proof -
  have colon: "CHR '':'' \<noteq> hex_digit d" if "d < 16" for d
  proof
    assume "CHR '':'' = hex_digit d"
    then have "hex_value CHR '':'' = Some d" using hex_value_digit [OF that] by simp
    then show False by (simp add: hex_value_def byte_of_def)
  qed
  have "byte_of b div 16 < 16" for b using byte_of_less [of b] by linarith
  then have "CHR '':'' \<notin> set (EncodeToString bs)"
    by (simp add: EncodeToString_def colon)
  moreover have "c \<notin> set s \<Longrightarrow> IndexByte s c = None" for s c by (induction s) auto
  ultimately show ?thesis by (simp add: after_colon_def)
qed

lemma after_colon_korik: "after_colon (''korik:'' @ k) = Some k"
  by (simp add: after_colon_def)

text \<open>
  Safety numbers are bound to the key. For a node with the identity \<open>i\<close>, the number shown for its
  contact, for its JID that is not a contact and for its bare public key are the same and are
  the safety number of its public key.\<close>

theorem shown_number_is_of_key:
  assumes "id_JID i = ''korik:'' @ PublicKeyHex i" and "SafetyNumber P (PublicKeyHex i) = Some (Returns number)"
    and "GetContact (id_JID i) book = Some c" and "ct_JID c = id_JID i"
    and "GetContact (id_JID i) book' = None" and "GetContact (PublicKeyHex i) book' = None"
  shows "showSafetyNumber P (id_JID i) book = Returns (Some (GetDisplayName c, number, ShortCode P (PublicKeyHex i)))
    \<and> showSafetyNumber P (id_JID i) book' = Returns (Some (id_JID i, number, ShortCode P (PublicKeyHex i)))
    \<and> showSafetyNumber P (PublicKeyHex i) book' = Returns (Some (PublicKeyHex i, number, ShortCode P (PublicKeyHex i)))"
proof -
  have "after_colon (PublicKeyHex i) = None" by (simp add: PublicKeyHex_def no_colon_in_hex)
  moreover have "after_colon (id_JID i) = Some (PublicKeyHex i)" unfolding assms(1) by (rule after_colon_korik)
  ultimately show ?thesis
    using assms(2-) by (simp add: showSafetyNumber_def Let_def)
qed

text \<open>A codec for the witness: the members numbered by a fixed enumeration, written in decimal.\<close>

definition doc_tuple :: "config_doc \<Rightarrow> (string option \<times> int option \<times> int option \<times> int option \<times> string option \<times> bool option) \<times>
    (bool option \<times> bool option \<times> bool option \<times> bool option \<times> string option \<times> string option)" where
  "doc_tuple d = ((cd_name d, cd_port d, cd_discovery_port d, cd_history_size d, cd_stun_server d, cd_no_discovery d),
     (cd_internet_mode d, cd_read_receipts d, cd_typing_indicator d, cd_auto_reconnect d, cd_device_id d, cd_device_label d))"

definition tuple_doc :: "(string option \<times> int option \<times> int option \<times> int option \<times> string option \<times> bool option) \<times>
    (bool option \<times> bool option \<times> bool option \<times> bool option \<times> string option \<times> string option) \<Rightarrow> config_doc" where
  "tuple_doc t = (case t of ((a, b, c, d, e, f), (g, h, i, j, k, l)) \<Rightarrow>
     \<lparr>cd_name = a, cd_port = b, cd_discovery_port = c, cd_history_size = d, cd_stun_server = e, cd_no_discovery = f,
      cd_internet_mode = g, cd_read_receipts = h, cd_typing_indicator = i, cd_auto_reconnect = j, cd_device_id = k,
      cd_device_label = l\<rparr>)"

definition toy_codec :: config_codec where
  "toy_codec = \<lparr>cc_parse = (\<lambda>s. Some (tuple_doc (from_nat (digits_value s)))),
     cc_print = (\<lambda>d. nat_digits (to_nat (doc_tuple d)))\<rparr>"

lemma toy_codec_ok: "codec_ok toy_codec"
  by (simp add: codec_ok_def toy_codec_def tuple_doc_def doc_tuple_def)

definition toy_restore :: restore_env where
  "toy_restore = \<lparr>rs_P = toy, rs_codec = toy_codec, rs_identity = Written, rs_contacts = Written, rs_history = Written,
     rs_config = Written, rs_rnd = (\<lambda>_. Some ''wxyz'')\<rparr>"

definition toy_home_payload :: Payload where
  "toy_home_payload = \<lparr>pl_PrivateKeyHex = EncodeToString sample_key,
     pl_Config = cc_print toy_codec (config_marshal (zero_config\<lparr>cf_Name := ''ann'', cf_DeviceID := ''cli-1''\<rparr>)),
     pl_Contacts = ''[]'', pl_History = ''''\<rparr>"

theorem restore_links_device_witness:
  "\<exists>h' c. restoreBackupPayload toy_restore toy_home_payload
      \<lparr>hd_identity = Absent, hd_config = Absent, hd_contacts = Absent, hd_history = Absent\<rparr> = (None, h')
    \<and> hd_contacts h' = Doc ''[]'' \<and> hd_history h' = Absent
    \<and> Load None (decoded (cc_parse (rs_codec toy_restore)) (hd_config h')) = Inr c
    \<and> cf_Name c = ''ann'' \<and> cf_DeviceID c \<noteq> ''cli-1''"
proof -
  let ?d = "config_marshal (zero_config\<lparr>cf_Name := ''ann'', cf_DeviceID := ''cli-1''\<rparr>)"
  have env: "rs_P toy_restore = toy" "rs_codec toy_restore = toy_codec" "rs_rnd toy_restore 3 = Some ''wxyz''"
    by (simp_all add: toy_restore_def)
  obtain i where i: "load_identity toy (pl_PrivateKeyHex toy_home_payload) = Inr i"
    by (simp add: toy_home_payload_def load_identity_def fromRawPrivate_def sample_key_def Let_def)
  have d: "cc_parse toy_codec (pl_Config toy_home_payload) = Some ?d"
    using toy_codec_ok by (simp add: codec_ok_def toy_home_payload_def)
  have ne: "pl_PrivateKeyHex toy_home_payload \<noteq> ''''" "pl_Config toy_home_payload \<noteq> ''''"
    by (simp_all add: toy_home_payload_def toy_codec_def sample_key_def EncodeToString_def)
  have fresh: "newDeviceID (rs_rnd toy_restore 3) \<noteq> overlay '''' (cd_device_id ?d)"
    by (simp add: env newDeviceID_def config_marshal_def overlay_def omitempty_def EncodeToString_def)
  have name: "overlay '''' (cd_name ?d) = ''ann''" "overlay '''' (cd_device_id ?d) = ''cli-1''"
    by (simp_all add: config_marshal_def zero_config_def)
  show ?thesis
    using restore_links_device [of toy_restore toy_home_payload i ?d
        "\<lparr>hd_identity = Absent, hd_config = Absent, hd_contacts = Absent, hd_history = Absent\<rparr>" None Written None]
      i d ne fresh toy_codec_ok unfolding name env
    by (auto simp: toy_restore_def toy_home_payload_def)
qed

theorem send_target_is_last_word_witness:
  "parseSendArgs (\<lambda>p. p = ''a b.txt'') ''a b.txt bob'' ''/home/u'' = Inr (''a b.txt'', ''bob'')"
proof -
  have trim: "TrimSpace ''a b.txt bob'' = ''a b.txt bob''" by (rule TrimSpace_ends) (simp_all add: byte_of_def)
  have path: "expandPath ''/home/u'' ''a b.txt'' = ''a b.txt''" "expandPath ''/home/u'' ''a b.txt bob'' = ''a b.txt bob''"
    by (simp_all add: expandPath_def TrimQuotes_def TrimRightSet_def HasPrefix_def)
  have "parseSendArgs (\<lambda>p. p = ''a b.txt'') ''a b.txt bob'' ''/home/u'' =
      Inr (if expandPath ''/home/u'' (TrimSpace ''a b.txt bob'') = ''a b.txt''
           then (expandPath ''/home/u'' (TrimSpace ''a b.txt bob''), '''') else (expandPath ''/home/u'' ''a b.txt'', ''bob''))"
    by (rule send_target_is_last_word) (simp_all add: trim path byte_of_def)
  also have "\<dots> = Inr (''a b.txt'', ''bob'')" by (simp add: trim path)
  finally show ?thesis .
qed

definition toy_contact :: "string \<Rightarrow> Contact" where
  "toy_contact jid = \<lparr>ct_JID = jid, ct_Name = ''ann'', ct_DisplayName = '''', ct_LastAddress = '''', ct_LastSeen = 0,
     ct_FirstMet = 0, ct_MessageCount = 0, ct_Favorite = False, ct_Blocked = False, ct_Notes = '''', ct_Tags = []\<rparr>"

theorem shown_number_is_of_key_witness:
  "\<exists>number. showSafetyNumber toy (''korik:'' @ EncodeToString sample_key)
      \<lparr>cb_contacts = [(''korik:'' @ EncodeToString sample_key, toy_contact (''korik:'' @ EncodeToString sample_key))], cb_file = Absent\<rparr>
    = Returns (Some (''ann'', number, ShortCode toy (EncodeToString sample_key)))"
proof -
  define i where "i = \<lparr>id_rawPriv = sample_key, id_Public = sample_key, id_JID = ''korik:'' @ EncodeToString sample_key,
    id_LID = ''''\<rparr>"
  obtain number where n: "SafetyNumber toy (PublicKeyHex i) = Some (Returns number)"
    by (simp add: SafetyNumber_def i_def PublicKeyHex_def FormatFingerprint_def toy_def)
  have "showSafetyNumber toy (id_JID i) \<lparr>cb_contacts = [(id_JID i, toy_contact (id_JID i))], cb_file = Absent\<rparr>
      = Returns (Some (GetDisplayName (toy_contact (id_JID i)), number, ShortCode toy (PublicKeyHex i)))"
    by (rule shown_number_is_of_key [where book' = "\<lparr>cb_contacts = [], cb_file = Absent\<rparr>", THEN conjunct1])
      (use n in \<open>simp_all add: i_def PublicKeyHex_def GetContact_def toy_contact_def\<close>)
  then show ?thesis by (auto simp: i_def PublicKeyHex_def GetDisplayName_def toy_contact_def)
qed

end
