(* ===== verification/Main_Commands.thy ===== *)
theory Main_Commands
  imports Main_Parse Main_Backup Ui_Text Internet Auto_Update
begin

text \<open>
  The commands of \<^verbatim>\<open>src/main.go\<close>: one definition for each branch of the \<^verbatim>\<open>switch\<close> of the main loop, and \<open>run_line\<close> for
  one round of it. The history, the contacts, the queue and the rooms are those of the node, as in the
  program, where the node and the loop share the pointers; \<open>run_line\<close> is meant for a node that has all four.

  \<^item> What is printed is appended to \<open>ap_out\<close> as a value of type \<open>shown\<close>, before colours. An error is
    shown by its value; \<^verbatim>\<open>status.HumanizeError\<close> turns it into text.
  \<^item> A goroutine that a command starts is appended to \<open>ap_jobs\<close>.
  \<^item> \<open>cenv\<close> is the environment of one command: that of the node, the rendering and parsing of times and durations, the
    file system, what is typed as a password, the answers of dialling, the interfaces of the machine and the transport
    of \<open>Internet\<close>, and the JSON of bundles and candidates.
\<close>

datatype cmd_error =
    RoomFault room_error | FileFault file_error | ConnectFault connect_result | BookFault contacts_error
  | BackupFault backup_error | IdentityFault identity_error | RestoreFault restore_error | BuildFault build_error
  | SendArgsFault send_args_error

datatype shown =
    ShSystem string | ShHint string | ShSuccess string | ShFailure string | ShError cmd_error | ShFile string
  | ShPlain string | ShOut string string | ShLine string

datatype job = JobCandidates Bundle | JobRetry string int | JobTestNat | JobCheckUpdate

record auditEntry =
  ae_Timestamp :: gotime
  ae_Event :: string
  ae_Actor :: string
  ae_Detail :: string

record App =
  ap_node :: Node
  ap_cfg :: Config
  ap_shell :: Shell
  ap_mode :: TimestampMode
  ap_home :: home_dir
  ap_backups :: "string \<Rightarrow> BackupBundle stored"
  ap_audit :: "auditEntry list"
  ap_out :: "shown list"
  ap_jobs :: "job list"
  ap_lastInput :: gotime
  ap_typingSent :: bool

record cenv =
  ce_E :: env
  ce_fmt :: "string \<Rightarrow> gotime \<Rightarrow> string"
  ce_dur :: "string \<Rightarrow> duration option"
  ce_durstr :: "duration \<Rightarrow> string"
  ce_exists :: "string \<Rightarrow> bool"
  ce_home :: string
  ce_stun :: string
  ce_dial :: "string option"
  ce_unbundle :: "string \<Rightarrow> Bundle option"
  ce_bundle :: "Bundle \<Rightarrow> string option"
  ce_candjson :: "Candidate list \<Rightarrow> string"
  ce_interfaces :: "iface list option"
  ce_internet :: "InternetTransport option"
  ce_port :: int
  ce_password :: string
  ce_B :: backup_env
  ce_R :: restore_env
  ce_audit :: bool
  ce_shell :: "string saving"

subsection \<open>Small steps\<close>

definition say :: "shown list \<Rightarrow> App \<Rightarrow> App" where
  "say ls a = a\<lparr>ap_out := ap_out a @ ls\<rparr>"

definition set_node :: "Node \<Rightarrow> App \<Rightarrow> App" where
  "set_node n a = a\<lparr>ap_node := n\<rparr>"

definition start_job :: "job \<Rightarrow> App \<Rightarrow> App" where
  "start_job j a = a\<lparr>ap_jobs := ap_jobs a @ [j]\<rparr>"

text \<open>\<^verbatim>\<open>audit.Log\<close>: nothing is written when the entry cannot be encoded or the file not be opened.\<close>

definition AuditLog :: "cenv \<Rightarrow> string \<Rightarrow> string \<Rightarrow> string \<Rightarrow> App \<Rightarrow> App" where
  "AuditLog C event actor detail a =
     (if ce_audit C
      then a\<lparr>ap_audit := ap_audit a @ [\<lparr>ae_Timestamp = en_now (ce_E C), ae_Event = event, ae_Actor = actor, ae_Detail = detail\<rparr>]\<rparr>
      else a)"

definition the_history :: "App \<Rightarrow> History" where
  "the_history a = (case nd_History (ap_node a) of Some h \<Rightarrow> h
     | None \<Rightarrow> \<lparr>h_maxSize = 0, h_messages = [], h_ttl = 0, h_totalStored = 0, h_tailOnly = False, h_file = Absent\<rparr>)"

definition the_book :: "App \<Rightarrow> ContactBook" where
  "the_book a = (case nd_Contacts (ap_node a) of Some b \<Rightarrow> b | None \<Rightarrow> \<lparr>cb_contacts = [], cb_file = Absent\<rparr>)"

definition the_queue :: "App \<Rightarrow> Queue" where
  "the_queue a = (case nd_Queue (ap_node a) of Some q \<Rightarrow> q | None \<Rightarrow> \<lparr>q_items = [], q_file = Absent\<rparr>)"

definition the_rooms :: "App \<Rightarrow> Store" where
  "the_rooms a = (case nd_Groups (ap_node a) of Some s \<Rightarrow> s | None \<Rightarrow> \<lparr>st_rooms = [], st_file = Absent\<rparr>)"

definition set_book :: "ContactBook \<Rightarrow> App \<Rightarrow> App" where
  "set_book b a = set_node ((ap_node a)\<lparr>nd_Contacts := Some b\<rparr>) a"

definition set_history :: "History \<Rightarrow> App \<Rightarrow> App" where
  "set_history h a = set_node ((ap_node a)\<lparr>nd_History := Some h\<rparr>) a"

text \<open>An entry of the history for a message that was sent.\<close>

definition sent_entry :: "cenv \<Rightarrow> string \<Rightarrow> string \<Rightarrow> string \<Rightarrow> string \<Rightarrow> string \<Rightarrow> App \<Rightarrow> ChatMessage" where
  "sent_entry C mid device gid re body a =
     \<lparr>cm_ID = mid, cm_From = nd_Name (ap_node a), cm_JID = JID_of (ap_node a), cm_LID = LID_of (ap_node a),
      cm_SenderDevice = device, cm_Seq = 0, cm_GroupID = gid, cm_ReplyTo = re, cm_Body = body,
      cm_Timestamp = en_now (ce_E C), cm_Direction = ''sent'', cm_ExpiresAt = 0\<rparr>"

definition remember :: "cenv \<Rightarrow> ChatMessage \<Rightarrow> App \<Rightarrow> App" where
  "remember C m a = set_node (history_add (ce_E C) m (ap_node a)) a"

definition renderReply :: "History \<Rightarrow> string \<Rightarrow> string \<Rightarrow> string outcome" where
  "renderReply hist replyTo body =
     (if replyTo = '''' then Returns body
      else bind_outcome
        (case FindByIDPrefix replyTo hist of
           None \<Rightarrow> Returns (shortID replyTo)
         | Some original \<Rightarrow>
             bind_outcome (Truncate (cm_Body original) 40) (\<lambda>preview.
               Returns (if cm_From original \<noteq> '''' then cm_From original @ '': '' @ preview else preview)))
        (\<lambda>preview. Returns ([CHR 0xE2, CHR 0x86, CHR 0xA9] @ '' '' @ preview @ [nl] @ body)))"

text \<open>How a branch ends: it falls out of the \<^verbatim>\<open>switch\<close>, continues the loop at once, or returns from \<^verbatim>\<open>main\<close>.\<close>

datatype ending = Done App | Continue App | Return App

subsection \<open>Messages\<close>

definition queue_for :: "cenv \<Rightarrow> string \<Rightarrow> Contact \<Rightarrow> Node \<Rightarrow> Node" where
  "queue_for C line c n =
     n\<lparr>nd_Queue := map_option (\<lambda>q. snd (Enqueue (en_fmt (ce_E C)) (en_qw (ce_E C))
        \<lparr>om_ID = '''', om_ToJID = ct_JID c, om_Body = line, om_CreatedAt = en_now (ce_E C), om_Attempts = 0\<rparr> q)) (nd_Queue n)\<rparr>"

definition cmd_chat :: "cenv \<Rightarrow> string \<Rightarrow> App \<Rightarrow> ending outcome" where
  "cmd_chat C line a =
     (let n = ap_node a;
          ready = length (filter pi_Ready (Peers n));
          (envID, a1) =
            (if ready = 0 then
               let cs = ListContacts (en_now (ce_E C)) '''' (the_book a);
                   queued = length cs
               in ('''', say [if queued = 0 then ShFailure ''No peers connected yet. Message saved to history only.''
                              else ShHint (''No peers online. Queued for '' @ Itoa (int queued) @ '' contact(s), will send on reconnect.'')]
                           (set_node (fold (queue_for C line) cs n) a))
             else case Broadcast (ce_E C) line n of (mid, n') \<Rightarrow> (mid, set_node n' a));
          a2 = remember C (sent_entry C envID (nd_DeviceID n) '''' '''' line a1) a1
      in Returns (Done (say [ShOut (nd_Name n) line] a2)))"

text \<open>The first word of the rest and the text after it; \<open>None\<close> when there is no blank.\<close>

definition word_and_text :: "string \<Rightarrow> (string \<times> string) option" where
  "word_and_text rest = map_option (\<lambda>i. (take i rest, TrimSpace (drop (i + 1) rest))) (Index rest '' '')"

definition cmd_g :: "cenv \<Rightarrow> string \<Rightarrow> App \<Rightarrow> ending outcome" where
  "cmd_g C rest a =
     Returns (case word_and_text rest of
        None \<Rightarrow> Continue (say [ShHint ''usage: /g <room> <message>''] a)
      | Some (ref, txt) \<Rightarrow>
          if txt = '''' then Continue (say [ShHint ''usage: /g <room> <message>''] a)
          else case ResolveRoom ref (the_rooms a) of
            None \<Rightarrow> Continue (say [ShFailure ''Unknown or ambiguous room. See /groups.''] a)
          | Some room \<Rightarrow>
              (case SendGroup (ce_E C) (rm_ID room) txt '''' (ap_node a) of
                 ((envID, Some e), n) \<Rightarrow> Continue (say [ShError (RoomFault e)] (set_node n a))
               | ((envID, None), n) \<Rightarrow>
                   let a1 = set_node n a
                   in Done (say [ShOut (''['' @ rm_Name room @ ''] '' @ nd_Name n) txt]
                        (remember C (sent_entry C envID '''' (rm_ID room) '''' txt a1) a1))))"

definition cmd_reply :: "cenv \<Rightarrow> string \<Rightarrow> App \<Rightarrow> ending outcome" where
  "cmd_reply C rest a =
     (case word_and_text rest of
        None \<Rightarrow> Returns (Continue (say [ShHint ''usage: /reply <message-id> <message>''] a))
      | Some (ref, txt) \<Rightarrow>
          (case FindByIDPrefix ref (the_history a) of
             None \<Rightarrow> Returns (Continue (say [ShFailure ''Message not found or ambiguous. See /history for IDs.''] a))
           | Some original \<Rightarrow>
               if cm_GroupID original \<noteq> '''' then
                 (case ResolveRoom (cm_GroupID original) (the_rooms a) of
                    None \<Rightarrow> Returns (Continue (say [ShFailure ''Original room no longer available.''] a))
                  | Some room \<Rightarrow>
                      (case SendGroup (ce_E C) (rm_ID room) txt (cm_ID original) (ap_node a) of
                         ((envID, Some e), n) \<Rightarrow> Returns (Continue (say [ShError (RoomFault e)] (set_node n a)))
                       | ((envID, None), n) \<Rightarrow>
                           let a1 = set_node n a;
                               a2 = remember C (sent_entry C envID '''' (rm_ID room) (cm_ID original) txt a1) a1
                           in bind_outcome (renderReply (the_history a2) (cm_ID original) txt) (\<lambda>r.
                                Returns (Done (say [ShOut (''['' @ rm_Name room @ ''] '' @ nd_Name n) r] a2)))))
               else
                 (case BroadcastReply (ce_E C) txt (cm_ID original) (ap_node a) of (envID, n) \<Rightarrow>
                    let a1 = set_node n a;
                        a2 = remember C (sent_entry C envID '''' '''' (cm_ID original) txt a1) a1
                    in bind_outcome (renderReply (the_history a2) (cm_ID original) txt) (\<lambda>r.
                         Returns (Done (say [ShOut (nd_Name n) r] a2))))))"

subsection \<open>Rooms\<close>

text \<open>\<^verbatim>\<open>%.12s\<close> cuts after twelve runes.\<close>

fun rune_prefix :: "nat \<Rightarrow> nat list \<Rightarrow> nat list" where
  "rune_prefix 0 bs = []"
| "rune_prefix (Suc k) bs =
     (case bs of
        [] \<Rightarrow> []
      | b # r \<Rightarrow> (case decode_rune bs of
                   None \<Rightarrow> b # rune_prefix k r
                 | Some (c, rest) \<Rightarrow> take (length bs - length rest) bs @ rune_prefix k rest))"

definition cmd_groups :: "App \<Rightarrow> ending outcome" where
  "cmd_groups a =
     (let rooms = ListRooms (the_rooms a)
      in Returns (Done (say
           (if rooms = [] then [ShHint ''no groups yet. Create one: /group create <name>'']
            else ShSystem ''groups'' # map (\<lambda>r. ShPlain (''  - '' @ rm_Name r @ '' ['' @ shortID (rm_ID r) @ ''] members='' @
                   Itoa (int (length (rm_Members r))) @ '' creator='' @
                   map char_of (rune_prefix 12 (map byte_of (rm_Creator r))))) rooms) a)))"

definition group_usage :: shown where
  "group_usage = ShHint ''usage: /group create|invite|leave|rekey ... (see /help)''"

definition with_room :: "string \<Rightarrow> (Room \<Rightarrow> App) \<Rightarrow> App \<Rightarrow> App" where
  "with_room ref f a =
     (case ResolveRoom ref (the_rooms a) of
        None \<Rightarrow> say [ShFailure ''Unknown or ambiguous room. See /groups.''] a
      | Some room \<Rightarrow> f room)"

definition group_create :: "cenv \<Rightarrow> string list \<Rightarrow> App \<Rightarrow> App" where
  "group_create C args a =
     (if length args < 2 then say [ShHint ''usage: /group create <name>''] a
      else case NodeCreateRoom (ce_E C) (Join (drop 1 args) '' '') (ap_node a) of
        (Inl e, n) \<Rightarrow> say [ShError (RoomFault e)] (set_node n a)
      | (Inr room, n) \<Rightarrow>
          AuditLog C ''group.create'' (nd_Name n) (''room '' @ shortID (rm_ID room))
            (say [ShSuccess (''group created: '' @ rm_Name room @ '' ['' @ shortID (rm_ID room) @ '']''),
                  ShHint (''Invite members: /group invite '' @ shortID (rm_ID room) @ '' <jid>'')] (set_node n a)))"

definition group_invite :: "cenv \<Rightarrow> string list \<Rightarrow> App \<Rightarrow> App" where
  "group_invite C args a =
     (if length args < 3 then say [ShHint ''usage: /group invite <room> <jid>''] a
      else with_room (args ! 1) (\<lambda>room.
        (case InviteToRoom (ce_E C) (rm_ID room) (args ! 2) (ap_node a) of
           (Some e, n) \<Rightarrow> say [ShError (RoomFault e)] (set_node n a)
         | (None, n) \<Rightarrow>
             AuditLog C ''group.invite'' (nd_Name n) (''room '' @ shortID (rm_ID room) @ '' member '' @ shortID (args ! 2))
               (say [ShSuccess (''invited '' @ shortID (args ! 2) @ '' to '' @ rm_Name room)] (set_node n a)))) a)"

definition group_leave :: "cenv \<Rightarrow> string list \<Rightarrow> App \<Rightarrow> App" where
  "group_leave C args a =
     (if length args < 2 then say [ShHint ''usage: /group leave <room>''] a
      else with_room (args ! 1) (\<lambda>room.
        (case LeaveRoom (ce_E C) (rm_ID room) (ap_node a) of
           (Some e, n) \<Rightarrow> say [ShError (RoomFault e)] (set_node n a)
         | (None, n) \<Rightarrow> say [ShSuccess (''left group '' @ rm_Name room)] (set_node n a))) a)"

definition group_rekey :: "cenv \<Rightarrow> string list \<Rightarrow> App \<Rightarrow> App" where
  "group_rekey C args a =
     (if length args < 2 then say [ShHint ''usage: /group rekey <room>''] a
      else with_room (args ! 1) (\<lambda>room.
        (case NodeRekeyRoom (ce_E C) (rm_ID room) (ap_node a) of
           (Some e, n) \<Rightarrow> say [ShError (RoomFault e)] (set_node n a)
         | (None, n) \<Rightarrow>
             AuditLog C ''group.rekey'' (nd_Name n) (''room '' @ shortID (rm_ID room))
               (say [ShSuccess (''group key rotated for '' @ rm_Name room)] (set_node n a)))) a)"

definition handleGroupCommand :: "cenv \<Rightarrow> string \<Rightarrow> App \<Rightarrow> App" where
  "handleGroupCommand C line a =
     (let args = Fields (argument ''/group '' line)
      in if args = [] then say [group_usage] a
         else if hd args = ''create'' then group_create C args a
         else if hd args = ''invite'' then group_invite C args a
         else if hd args = ''leave'' then group_leave C args a
         else if hd args = ''rekey'' then group_rekey C args a
         else say [group_usage] a)"

subsection \<open>Connections\<close>

definition cmd_connect_candidates :: "cenv \<Rightarrow> string \<Rightarrow> App \<Rightarrow> ending outcome" where
  "cmd_connect_candidates C encoded a =
     Returns (case DecodeBundle (ce_unbundle C) encoded of
        Inl e \<Rightarrow> Continue (say [ShFailure ''Invalid bundle. Paste the full output of peer /candidates.''] a)
      | Inr bundle \<Rightarrow> Done (start_job (JobCandidates bundle) a))"

definition cmd_connect :: "cenv \<Rightarrow> string \<Rightarrow> App \<Rightarrow> ending outcome" where
  "cmd_connect C addr a =
     Returns (Done (case ConnectTo (ce_E C) (ce_dial C) addr (ap_node a) of (r, n) \<Rightarrow>
        (case r of
           Skipped \<Rightarrow> say [ShError (ConnectFault r)] (set_node n a)
         | DialFailed err \<Rightarrow> say [ShError (ConnectFault r)] (set_node n a)
         | _ \<Rightarrow> say [ShSystem (''connecting to '' @ addr @ ''...'')] (set_node n a))))"

definition cmd_devices :: "App \<Rightarrow> ending outcome" where
  "cmd_devices a =
     (let n = ap_node a; linked = LinkedDevices n
      in Returns (Done (say
        (ShSystem (''this device: '' @ nd_DeviceID n @ '' ('' @ cf_DeviceLabel (ap_cfg a) @ '')'') #
         (if linked = [] then
            [ShHint ''no linked devices online.'',
             ShHint ''Link a second CLI: /export backup.json on this device, then /import backup.json there.'']
          else ShSystem (''linked devices ('' @ Itoa (int (length linked)) @ '')'') #
            map (\<lambda>p. ShPlain (''  - '' @ pi_Name p @ '' device:'' @ pi_DeviceID p @ '' @ '' @ pi_Addr p @ '' ready='' @
              (if pi_Ready p then ''true'' else ''false''))) linked)) a)))"

definition cmd_status :: "cenv \<Rightarrow> App \<Rightarrow> ending outcome" where
  "cmd_status C a =
     (let n = ap_node a
      in case Snapshot (en_now (ce_E C)) (nd_Status n) of (phase, detail, age) \<Rightarrow>
           Returns (Done (say
             ([ShPlain (''connection: '' @ phase @ '' '' @ detail @ '' ('' @ Itoa (int_seconds age) @ ''s ago)''),
               ShPlain (''queued messages: '' @ Itoa (int (QueueLen (the_queue a))))] @
              map (\<lambda>p. ShPlain (''  - '' @ pi_Name p @ '' ['' @ pi_Addr p @ ''] '' @
                 (case LastHeartbeat (pi_JID p) n of
                    None \<Rightarrow> ''no heartbeat yet''
                  | Some t \<Rightarrow> ''last heartbeat '' @ ce_fmt C ''15:04:05'' t))) (Peers n)) a)))"

subsection \<open>Settings and views\<close>

text \<open>The lines of the history view; \<open>ui\<close> and its colours are those of \<open>Ui_Text\<close>.\<close>

definition history_view :: "cenv \<Rightarrow> App \<Rightarrow> ChatMessage \<Rightarrow> shown outcome" where
  "history_view C a msg =
     bind_outcome (if cm_ReplyTo msg \<noteq> '''' then renderReply (the_history a) (cm_ReplyTo msg) (cm_Body msg) else Returns (cm_Body msg))
       (\<lambda>body.
          let label = (if cm_GroupID msg \<noteq> '''' then ''['' @ cm_GroupID msg @ ''] '' @ cm_From msg else cm_From msg);
              pre = (if cm_ID msg \<noteq> '''' then ''['' @ shortID (cm_ID msg) @ ''] '' else '''');
              now = en_now (ce_E C)
          in Returns (ShLine (pre @ (if cm_Direction msg = ''sent''
               then Outgoing (ce_fmt C) now label body (cm_Timestamp msg) (ap_mode a)
               else Incoming (ce_fmt C) now label body (cm_Timestamp msg) (ap_mode a)))))"

fun show_all :: "('a \<Rightarrow> shown outcome) \<Rightarrow> 'a list \<Rightarrow> App \<Rightarrow> App outcome" where
  "show_all f [] a = Returns a"
| "show_all f (x # xs) a = bind_outcome (f x) (\<lambda>l. show_all f xs (say [l] a))"

definition cmd_history :: "cenv \<Rightarrow> string \<Rightarrow> App \<Rightarrow> ending outcome" where
  "cmd_history C line a =
     (let parts = Fields line;
          count = (if 1 < length parts then (case Atoi (parts ! 1) of Some n \<Rightarrow> n | None \<Rightarrow> 20) else 20);
          messages = GetLast count (the_history a)
      in if messages = [] then Returns (Done (say [ShHint ''no message history''] a))
         else bind_outcome (show_all (history_view C a) messages (say [ShSystem ''message history (reply with /reply <id> <text>)''] a))
                (\<lambda>a1. Returns (Done a1)))"

definition cmd_timestamp :: "string \<Rightarrow> App \<Rightarrow> ending outcome" where
  "cmd_timestamp arg a =
     Returns (Done
       (if arg = ''relative'' then say [ShSuccess ''timestamps: relative (e.g. 2m ago)''] (a\<lparr>ap_mode := TimestampRelative\<rparr>)
        else if arg = ''absolute'' then say [ShSuccess ''timestamps: absolute (HH:MM:SS)''] (a\<lparr>ap_mode := TimestampAbsolute\<rparr>)
        else say [ShHint ''usage: /timestamp [relative|absolute]''] a))"

text \<open>\<open>name\<close> is the command that is named in the examples: both branches are the same but for it.\<close>

definition cmd_disappearing :: "cenv \<Rightarrow> string \<Rightarrow> string \<Rightarrow> App \<Rightarrow> ending outcome" where
  "cmd_disappearing C name arg a =
     Returns (Done
       (if arg = '''' \<or> arg = ''off'' \<or> arg = ''0''
        then say [ShSuccess ''disappearing messages: off''] (set_history (SetTTL 0 (the_history a)) a)
        else let bad = say [ShFailure (''Invalid duration. Examples: '' @ name @ '' 1h, '' @ name @ '' 24h, '' @ name @ '' off'')] a
             in case ce_dur C arg of
                  None \<Rightarrow> bad
                | Some d \<Rightarrow>
                    if d \<le> 0 then bad
                    else say [ShSuccess (''disappearing messages: new messages expire after '' @ ce_durstr C d)]
                           (set_history (SetTTL d (the_history a)) a)))"

definition cmd_queue :: "App \<Rightarrow> ending outcome" where
  "cmd_queue a =
     (let pending = Pending (the_queue a)
      in if pending = [] then Returns (Done (say [ShHint ''message queue empty''] a))
         else bind_outcome
           (show_all (\<lambda>m. bind_outcome (Truncate (om_ToJID m) 20) (\<lambda>to. bind_outcome (Truncate (om_Body m) 60) (\<lambda>body.
              Returns (ShPlain (''  - to '' @ to @ '' attempts='' @ Itoa (om_Attempts m) @ '': '' @ body))))) pending
              (say [ShSystem (''queued messages ('' @ Itoa (int (length pending)) @ '')'')] a))
           (\<lambda>a1. Returns (Done a1)))"

subsection \<open>Files\<close>

definition EqualFold_all :: "string \<Rightarrow> bool" where
  "EqualFold_all s \<longleftrightarrow> map lower_ascii s = ''all''"

definition cmd_send :: "cenv \<Rightarrow> string \<Rightarrow> App \<Rightarrow> ending outcome" where
  "cmd_send C rawArgs a =
     Returns (case parseSendArgs (ce_exists C) rawArgs (ce_home C) of
        Inl e \<Rightarrow> Continue (say [ShError (SendArgsFault e)] a)
      | Inr (filePath, target) \<Rightarrow>
          let direct = (case SendFile (ce_E C) target filePath (ap_node a) of
                 (Some e, n) \<Rightarrow> say [ShError (FileFault e)] (set_node n a)
               | (None, n) \<Rightarrow> say [ShFile (''file offer sent to '' @ target @ '': '' @ filePath)] (set_node n a))
          in Done
            (if target = '''' \<or> EqualFold_all target then
               (case SendFileMulticast (ce_E C) filePath (ap_node a) of
                  (Some e, n) \<Rightarrow> say [ShError (FileFault e)] (set_node n a)
                | (None, n) \<Rightarrow> say [ShFile (''multicast file offer sent: '' @ filePath)] (set_node n a))
             else case nd_Groups (ap_node a) of
               Some s \<Rightarrow>
                 (case ResolveRoom target s of
                    Some room \<Rightarrow>
                      (case SendFileGroup (ce_E C) (rm_ID room) filePath (ap_node a) of
                         (Some e, n) \<Rightarrow> say [ShError (FileFault e)] (set_node n a)
                       | (None, n) \<Rightarrow> say [ShFile (''group file offer sent to ['' @ rm_Name room @ '']: '' @ filePath)] (set_node n a))
                  | None \<Rightarrow> direct)
             | None \<Rightarrow> direct))"

definition file_answer :: "(string \<Rightarrow> Node \<Rightarrow> file_error option \<times> Node) \<Rightarrow> string \<Rightarrow> App \<Rightarrow> ending outcome" where
  "file_answer act fileID a =
     Returns (Done (case act fileID (ap_node a) of
        (Some e, n) \<Rightarrow> say [ShError (FileFault e)] (set_node n a)
      | (None, n) \<Rightarrow> set_node n a))"

subsection \<open>Contacts\<close>

abbreviation star :: string where "star \<equiv> [CHR 0xE2, CHR 0xAD, CHR 0x90]"

definition contact_lines :: "cenv \<Rightarrow> nat \<Rightarrow> Contact \<Rightarrow> shown list" where
  "contact_lines C i c =
     ShPlain (Itoa (int i + 1) @ ''. '' @ (if ct_Favorite c then star else '''') @ GetDisplayName c @ '' ['' @ ShortJID c @ ''] - '' @
       Itoa (ct_MessageCount c) @ '' msgs, last seen '' @
       (if IsZero (ct_LastSeen c) then ''never'' else formatTimeSince (ce_fmt C) (en_now (ce_E C)) (ct_LastSeen c))) #
     (if ct_LastAddress c \<noteq> '''' then [ShPlain (''    address: '' @ ct_LastAddress c)] else [])"

definition cmd_contacts :: "cenv \<Rightarrow> string \<Rightarrow> App \<Rightarrow> ending outcome" where
  "cmd_contacts C line a =
     (let parts = Fields line;
          flt = (if 1 < length parts then parts ! 1 else '''');
          cs = ListContacts (en_now (ce_E C)) flt (the_book a)
      in Returns (Done (say
        (if cs = [] then [ShHint ''no contacts found'']
         else ShSystem (''contacts ('' @ flt @ '')'') # concat (map (\<lambda>(i, c). contact_lines C i c) (enumerate 0 cs))) a)))"

definition cmd_search :: "cenv \<Rightarrow> string \<Rightarrow> App \<Rightarrow> ending outcome" where
  "cmd_search C query a =
     (let results = SearchContacts (en_uni (ce_E C)) query (the_book a); quote = [CHR 0x27]
      in Returns (Done (say
        (if results = [] then [ShPlain (''no contacts found matching '' @ quote @ query @ quote)]
         else ShSystem (''search results for '' @ quote @ query @ quote) #
           map (\<lambda>(i, c). ShPlain (Itoa (int i + 1) @ ''. '' @ GetDisplayName c @ '' ['' @ ShortJID c @ ''] - '' @
             Itoa (ct_MessageCount c) @ '' msgs'')) (enumerate 0 results)) a)))"

definition book_command :: "(contacts_error + unit) \<times> ContactBook \<Rightarrow> shown \<Rightarrow> App \<Rightarrow> ending outcome" where
  "book_command r ok a =
     Returns (Done (case r of
        (Inl e, b) \<Rightarrow> say [ShError (BookFault e)] (set_book b a)
      | (Inr _, b) \<Rightarrow> say [ok] (set_book b a)))"

definition cmd_alias :: "cenv \<Rightarrow> string \<Rightarrow> App \<Rightarrow> ending outcome" where
  "cmd_alias C line a =
     (let parts = Fields line
      in if length parts < 3 then Returns (Done (say [ShHint ''usage: /alias <jid> <display_name>''] a))
         else let jid = parts ! 1; alias = Join (drop 2 parts) '' ''
              in book_command (SetDisplayName (en_cw (ce_E C)) jid alias (the_book a))
                   (ShPlain (''set alias for '' @ jid @ '': '' @ alias)) a)"

definition contact_details :: "cenv \<Rightarrow> Contact \<Rightarrow> shown list" where
  "contact_details C c =
     [ShSystem ''contact details'', ShPlain (''Name: '' @ ct_Name c)] @
     (if ct_DisplayName c \<noteq> '''' then [ShPlain (''Alias: '' @ ct_DisplayName c)] else []) @
     [ShPlain (''JID: '' @ ct_JID c), ShPlain (''LID: '' @ ShortJID c), ShPlain (''Messages: '' @ Itoa (ct_MessageCount c)),
      ShPlain (''First met: '' @ ce_fmt C ''2006-01-02 15:04:05'' (ct_FirstMet c)),
      ShPlain (''Last seen: '' @ formatTimeSince (ce_fmt C) (en_now (ce_E C)) (ct_LastSeen c))] @
     (if ct_LastAddress c \<noteq> '''' then [ShPlain (''Last address: '' @ ct_LastAddress c)] else []) @
     (if ct_Favorite c then [ShPlain (star @ '' Favorite'')] else []) @
     (if ct_Blocked c then [ShPlain ([CHR 0xF0, CHR 0x9F, CHR 0x9A, CHR 0xAB] @ '' Blocked'')] else []) @
     (if ct_Tags c \<noteq> [] then [ShPlain (''Tags: '' @ Join (ct_Tags c) '', '')] else []) @
     (if ct_Notes c \<noteq> '''' then [ShPlain (''Notes: '' @ ct_Notes c)] else [])"

definition cmd_contact :: "cenv \<Rightarrow> string \<Rightarrow> App \<Rightarrow> ending outcome" where
  "cmd_contact C jid a =
     Returns (Done (say (case GetContact jid (the_book a) of
        Some c \<Rightarrow> contact_details C c
      | None \<Rightarrow> [ShFailure ''Contact not found. Use /search to find it.'']) a))"

text \<open>The contact is changed through the pointer that \<^verbatim>\<open>Get\<close> returned, then saved by \<^verbatim>\<open>SetFavorite\<close>.\<close>

definition cmd_trust :: "cenv \<Rightarrow> string \<Rightarrow> App \<Rightarrow> ending outcome" where
  "cmd_trust C jid a =
     Returns (Done (case GetContact jid (the_book a) of
        Some c \<Rightarrow>
          let c' = c\<lparr>ct_Notes := TrimSpace (ct_Notes c @ '' [trusted]'')\<rparr>;
              b = (the_book a)\<lparr>cb_contacts := AList.update jid c' (cb_contacts (the_book a))\<rparr>
          in say [ShSuccess (''Contact '' @ GetDisplayName c' @ '' ('' @ shortID jid @ '') explicitly trusted.'')]
               (set_book (snd (SetFavorite (en_cw (ce_E C)) jid True b)) a)
      | None \<Rightarrow>
          say [ShSuccess (''Added and trusted contact '' @ shortID jid)]
            (set_book (snd (AddContact (en_cw (ce_E C)) (en_now (ce_E C)) (en_now (ce_E C)) jid (shortID jid) (the_book a))) a)))"

definition cmd_verify :: "cenv \<Rightarrow> string \<Rightarrow> App \<Rightarrow> ending outcome" where
  "cmd_verify C jid a =
     bind_outcome (showSafetyNumber (en_P (ce_E C)) jid (the_book a)) (\<lambda>r.
       Returns (Done (AuditLog C ''verify.show'' (nd_Name (ap_node a)) (''safety number displayed for '' @ shortID jid)
         (say (case r of
            None \<Rightarrow> [ShFailure ''Invalid key for safety number. Use a full JID from /contacts.'']
          | Some (name, number, code) \<Rightarrow>
              [ShSystem (''safety number for '' @ name), ShPlain (''  '' @ number),
               ShHint ''Compare this number over a trusted channel (call/in person).'', ShHint (''Short code: '' @ code)]) a))))"

subsection \<open>Peers and candidates\<close>

definition peer_line :: "Node \<Rightarrow> PeerInfo \<Rightarrow> shown" where
  "peer_line n p =
     (let label = (if pi_Name p = '''' then ''(not handshaked yet)'' else pi_Name p);
          status = (if pi_Ready p then ''e2e ready'' else ''handshake...'');
          device = (if pi_DeviceID p \<noteq> '''' then '' device:'' @ pi_DeviceID p else '''');
          linked = (if pi_JID p \<noteq> '''' \<and> pi_JID p = JID_of n \<and> pi_DeviceID p \<noteq> nd_DeviceID n then '' [linked-device]'' else '''')
      in ShPlain (''  - '' @ label @ '' [LID:'' @ pi_LID p @ ''] @ '' @ pi_Addr p @ '' ('' @ status @ device @ '')'' @ linked))"

definition ListPeers :: "Node \<Rightarrow> shown list" where
  "ListPeers n =
     (if Peers n = [] then [ShPlain ''no peers connected yet''] else ShPlain ''active peers:'' # map (peer_line n) (Peers n))"

definition printCandidates :: "cenv \<Rightarrow> Node \<Rightarrow> shown list" where
  "printCandidates C n =
     (let uni = en_uni (ce_E C);
          cands = LocalCandidates uni (ce_interfaces C) (ce_port C) (ce_internet C)
      in if cands = [] then [ShHint ''no candidates yet (network interfaces unavailable)'']
         else ShSystem (''candidates ('' @ Itoa (int (length cands)) @ '', priority order)'') #
           map (\<lambda>c. ShPlain (''  - ['' @ StepString (StepFor c) @ ''] '' @ ca_Type c @ '' '' @ ca_Transport c @ '' '' @ Address c @
             '' pri='' @ Itoa (ca_Priority c) @ '' iface='' @ ca_Interface c)) cands @
           [ShHint ''share bundle (peer runs /connect-candidates <bundle>):'',
            ShPlain (BundleForShare (ce_bundle C) uni (ce_interfaces C) (ce_port C) (n, ce_internet C)),
            ShHint (''fingerprint: '' @ Fingerprint (sha256 (en_P (ce_E C))) (ce_candjson C)
              \<lparr>bu_Version = 0, bu_JID = '''', bu_DeviceID = '''', bu_Candidates = cands\<rparr>)])"

subsection \<open>Backups\<close>

definition export_payload :: "cenv \<Rightarrow> string \<Rightarrow> Payload \<Rightarrow> string \<Rightarrow> string \<Rightarrow> App \<Rightarrow> ending outcome" where
  "export_payload C dest payload what event a =
     (case Export (ce_B C) (ce_password C) payload (ap_backups a dest) of
        None \<Rightarrow> Blocks
      | Some (err, f) \<Rightarrow>
          let a1 = a\<lparr>ap_backups := (ap_backups a)(dest := f)\<rparr>
          in Returns (Done (case err of
               Some e \<Rightarrow> say [ShError (BackupFault e)] a1
             | None \<Rightarrow> AuditLog C event (nd_Name (ap_node a)) (what @ '' exported to '' @ dest)
                        (say [ShSuccess (what @ '' exported to '' @ dest)] a1))))"

definition cmd_export_identity :: "cenv \<Rightarrow> string \<Rightarrow> App \<Rightarrow> ending outcome" where
  "cmd_export_identity C dest a =
     export_payload C dest
       \<lparr>pl_PrivateKeyHex = RawPrivateHex (nd_Identity (ap_node a)), pl_Config = '''', pl_Contacts = '''', pl_History = ''''\<rparr>
       ''identity'' ''identity.export_only'' a"

definition cmd_export_data :: "cenv \<Rightarrow> string \<Rightarrow> App \<Rightarrow> ending outcome" where
  "cmd_export_data C dest a =
     (case buildBackupPayload (ap_home a) of
        Inl e \<Rightarrow> Returns (Continue (say [ShError (BuildFault e)] a))
      | Inr payload \<Rightarrow> export_payload C dest payload ''backup'' ''identity.export'' a)"

definition cmd_import_identity :: "cenv \<Rightarrow> string \<Rightarrow> App \<Rightarrow> ending outcome" where
  "cmd_import_identity C src a =
     (case Import (ce_B C) (ce_password C) (ap_backups a src) of
        None \<Rightarrow> Blocks
      | Some r \<Rightarrow>
          let refused = Returns (Continue (say [ShFailure ''Invalid identity backup or wrong password.''] a))
          in case r of
               Inl e \<Rightarrow> refused
             | Inr payload \<Rightarrow>
                 if pl_PrivateKeyHex payload = '''' then refused
                 else case RestoreFromHex (rs_P (ce_R C)) (pl_PrivateKeyHex payload) (rs_identity (ce_R C)) (hd_identity (ap_home a)) of
                   (Inl e, f) \<Rightarrow> Returns (Done (say [ShError (IdentityFault e)] (a\<lparr>ap_home := (ap_home a)\<lparr>hd_identity := f\<rparr>\<rparr>)))
                 | (Inr i, f) \<Rightarrow>
                     Returns (Done (AuditLog C ''identity.import_only'' (nd_Name (ap_node a)) (''identity imported from '' @ src)
                       (say [ShSuccess ''identity restored. Restart korik to use the restored identity.'']
                         (a\<lparr>ap_home := (ap_home a)\<lparr>hd_identity := f\<rparr>\<rparr>)))))"

definition cmd_import_data :: "cenv \<Rightarrow> string \<Rightarrow> App \<Rightarrow> ending outcome" where
  "cmd_import_data C src a =
     (case Import (ce_B C) (ce_password C) (ap_backups a src) of
        None \<Rightarrow> Blocks
      | Some (Inl e) \<Rightarrow> Returns (Continue (say [ShFailure ''Wrong password or corrupted backup.''] a))
      | Some (Inr payload) \<Rightarrow>
          (case restoreBackupPayload (ce_R C) payload (ap_home a) of
             (Some e, h) \<Rightarrow> Returns (Done (say [ShError (RestoreFault e)] (a\<lparr>ap_home := h\<rparr>)))
           | (None, h) \<Rightarrow>
               Returns (Done (AuditLog C ''identity.import'' (nd_Name (ap_node a)) (''backup imported from '' @ src)
                 (say [ShSuccess ''backup restored. Restart korik to use the restored identity.''] (a\<lparr>ap_home := h\<rparr>))))))"

subsection \<open>The loop\<close>

abbreviation to_right :: string where "to_right \<equiv> [CHR 0xE2, CHR 0x86, CHR 0x92]"

definition printHelp :: "shown list" where
  "printHelp =
    [ShSystem ''commands'', ShPlain ''  Peers & connection:'', ShPlain ''    /peers, /devices, /candidates, /status, /test-nat'',
     ShPlain ''    /connect <ip:port>, /retry <ip:port>, /link-device'',
     ShPlain (''    /connect-candidates <bundle> (robust: LAN '' @ to_right @ '' IPv6 '' @ to_right @ '' public '' @ to_right @ '' punching)''),
     ShPlain ''  Messaging:'', ShPlain ''    /history [n], /queue, /timestamp [relative|absolute]'',
     ShPlain ''    /disappearing [1h|24h|off] (alias /ephemeral), /reply <id> <text>'', ShPlain ''  Groups:'',
     ShPlain ''    /groups, /group create|invite|leave|rekey, /g <room> <text>'', ShPlain ''  Files:'',
     ShPlain ''    /send <path> [target] (multicast to all or target peer/group), /accept <id>, /reject <id>, /resume <id>'',
     ShPlain ''  Contacts:'', ShPlain ''    /contacts [filter], /search <query> (fuzzy), /contact <jid>'',
     ShPlain ''    /alias, /favorite, /block, /unblock, /trust <jid>'', ShPlain ''  Security & backup:'',
     ShPlain ''    /verify <jid>, /safety <jid>, /export <path>, /import <path>'',
     ShPlain ''    /export-identity <path>, /import-identity <path>'', ShPlain ''    /export-data <path>, /import-data <path>'',
     ShPlain ''  App: /check-update, /help, /quit'']"

definition printBanner :: "string \<Rightarrow> string \<Rightarrow> string \<Rightarrow> int \<Rightarrow> int \<Rightarrow> int \<Rightarrow> shown list" where
  "printBanner name jid lid port dport queued =
     [ShSystem ''korik p2p chat (end-to-end encrypted)'', ShPlain (''name: '' @ name), ShPlain (''JID : '' @ jid),
      ShPlain (''LID : '' @ lid), ShPlain (''listen tcp: '' @ Itoa port @ '' | discovery udp: '' @ Itoa dport)] @
     (if 0 < queued then [ShHint (Itoa queued @ '' queued message(s) will be delivered on reconnect. See /queue.'')] else []) @
     [ShHint ''Type /help for commands. Tab completes, Up/Down recalls history.'']"

definition link_device_lines :: "shown list" where
  "link_device_lines =
    [ShSystem ''=== Link a Secondary Device ==='',
     ShPlain ''To link a second CLI (laptop, server) with the same identity:'',
     ShPlain ''1) Run on this device:   /export backup.json'', ShPlain ''2) Copy backup.json to your second device safely.'',
     ShPlain ''3) Run on second device: /import backup.json'',
     ShPlain ''Both devices will share identity while maintaining unique device IDs.'']"

definition quit :: "App \<Rightarrow> App" where
  "quit a = say [ShSystem ''bye''] (set_node (Stop (ap_node a)) (say [ShSystem ''shutting down: closing sockets...''] a))"


fun run_command :: "cenv \<Rightarrow> command \<Rightarrow> App \<Rightarrow> ending outcome" where
  "run_command C CQuit a = Returns (Return (quit a))"
| "run_command C CHelp a = Returns (Done (say printHelp a))"
| "run_command C CPeers a = Returns (Done (say (ListPeers (ap_node a)) a))"
| "run_command C CCandidates a = Returns (Done (say (printCandidates C (ap_node a)) a))"
| "run_command C (CConnectCandidates s) a = cmd_connect_candidates C s a"
| "run_command C CGroups a = cmd_groups a"
| "run_command C (CGroup line) a = Returns (Done (handleGroupCommand C line a))"
| "run_command C (CG rest) a = cmd_g C rest a"
| "run_command C (CReply rest) a = cmd_reply C rest a"
| "run_command C CDevices a = cmd_devices a"
| "run_command C CStatus a = cmd_status C a"
| "run_command C (CConnect addr) a = cmd_connect C addr a"
| "run_command C (CRetry addr) a = Returns (Done (start_job (JobRetry addr 10) a))"
| "run_command C (CHistory line) a = cmd_history C line a"
| "run_command C (CTimestamp arg) a = cmd_timestamp arg a"
| "run_command C (CDisappearing arg) a = cmd_disappearing C ''/disappearing'' arg a"
| "run_command C (CSend raw) a = cmd_send C raw a"
| "run_command C (CAccept fid) a = file_answer (AcceptFile (ce_E C)) fid a"
| "run_command C (CReject fid) a = file_answer (RejectFile (ce_E C)) fid a"
| "run_command C (CResume fid) a = file_answer (RequestResume (ce_E C)) fid a"
| "run_command C CQueue a = cmd_queue a"
| "run_command C (CContacts line) a = cmd_contacts C line a"
| "run_command C (CSearch query) a = cmd_search C query a"
| "run_command C (CAlias line) a = cmd_alias C line a"
| "run_command C (CFavorite jid) a =
     book_command (SetFavorite (en_cw (ce_E C)) jid True (the_book a)) (ShSuccess ''added to favorites'') a"
| "run_command C (CBlock jid) a =
     book_command (SetBlocked (en_cw (ce_E C)) jid True (the_book a)) (ShSuccess ''contact blocked'') a"
| "run_command C (CUnblock jid) a =
     book_command (SetBlocked (en_cw (ce_E C)) jid False (the_book a)) (ShSuccess ''contact unblocked'') a"
| "run_command C (CContact jid) a = cmd_contact C jid a"
| "run_command C (CVerify jid) a = cmd_verify C jid a"
| "run_command C CTestNat a =
     Returns (Done (start_job JobTestNat (say [ShSystem (''testing NAT type using STUN server '' @ ce_stun C @ ''...'')] a)))"
| "run_command C (CTrust jid) a = cmd_trust C jid a"
| "run_command C (CEphemeral arg) a = cmd_disappearing C ''/ephemeral'' arg a"
| "run_command C CLinkDevice a = Returns (Done (say link_device_lines a))"
| "run_command C (CExportIdentity dest) a = cmd_export_identity C dest a"
| "run_command C (CImportIdentity src) a = cmd_import_identity C src a"
| "run_command C CCheckUpdate a = Returns (Done (start_job JobCheckUpdate (say [ShSystem ''checking for updates...''] a)))"
| "run_command C (CExportData dest) a = cmd_export_data C dest a"
| "run_command C (CImportData src) a = cmd_import_data C src a"
| "run_command C (CChat line) a = cmd_chat C line a"

definition run_line :: "cenv \<Rightarrow> string \<Rightarrow> App \<Rightarrow> ending outcome" where
  "run_line C line0 a =
     (let line = TrimSpace line0
      in if line = '''' then Returns (Continue a)
         else bind_outcome
           (run_command C (parse_command line)
              (a\<lparr>ap_shell := AddHistory (ce_shell C) line (ap_shell a), ap_typingSent := False\<rparr>))
           (\<lambda>r. Returns (case r of Done b \<Rightarrow> Done (b\<lparr>ap_lastInput := en_now (ce_E C)\<rparr>) | _ \<Rightarrow> r)))"

text \<open>One tick of the goroutine that announces typing, and of the one that removes expired messages.\<close>

definition typing_round :: "env \<Rightarrow> App \<Rightarrow> App" where
  "typing_round E a =
     (let since = Sub (en_now E) (ap_lastInput a)
      in if 0 < since \<and> since < 2 * Second \<and> \<not> ap_typingSent a
         then (set_node (SendTyping E (ap_node a)) a)\<lparr>ap_typingSent := True\<rparr>
         else if 3 * Second \<le> since then a\<lparr>ap_typingSent := False\<rparr>
         else a)"

definition expiry_round :: "env \<Rightarrow> App \<Rightarrow> App" where
  "expiry_round E a = set_history (snd (PruneExpired (en_hw E) (en_now E) (the_history a))) a"

end
