(* ===== verification/Node_Stores.thy ===== *)
theory Node_Stores
  imports Node_Frame
begin

text \<open>
  What the operations of a node keep of its stores: a store that is open stays open, the queue does not grow beyond a
  thousand entries and the history not beyond its bound, or beyond what they hold already.
\<close>

definition history_kept :: "History option \<Rightarrow> History option \<Rightarrow> bool" where
  "history_kept ho ho' \<longleftrightarrow>
     (\<forall>h. ho = Some h \<longrightarrow> (\<exists>h'. ho' = Some h' \<and> h_maxSize h' = h_maxSize h \<and>
        (0 < h_maxSize h \<longrightarrow> hlen h' \<le> max (h_maxSize h) (hlen h))))"

definition queue_kept :: "Queue option \<Rightarrow> Queue option \<Rightarrow> bool" where
  "queue_kept qo qo' \<longleftrightarrow>
     (\<forall>q. qo = Some q \<longrightarrow> (\<exists>q'. qo' = Some q' \<and> QueueLen q' \<le> max MaxMessages (QueueLen q)))"

definition keeps_stores :: "Node \<Rightarrow> Node \<Rightarrow> bool" where
  "keeps_stores n n' \<longleftrightarrow>
     history_kept (nd_History n) (nd_History n') \<and> queue_kept (nd_Queue n) (nd_Queue n') \<and>
     (nd_Contacts n \<noteq> None \<longrightarrow> nd_Contacts n' \<noteq> None) \<and> (nd_Groups n \<noteq> None \<longrightarrow> nd_Groups n' \<noteq> None)"

lemma history_kept_refl [simp]: "history_kept h h" by (simp add: history_kept_def)

lemma queue_kept_refl [simp]: "queue_kept q q" by (simp add: queue_kept_def)

lemma history_kept_trans: "history_kept a b \<Longrightarrow> history_kept b c \<Longrightarrow> history_kept a c"
  unfolding history_kept_def by (cases a; cases b) fastforce+

lemma queue_kept_trans: "queue_kept a b \<Longrightarrow> queue_kept b c \<Longrightarrow> queue_kept a c"
  unfolding queue_kept_def by (cases a; cases b) fastforce+

lemma keeps_refl [simp]: "keeps_stores n n" by (simp add: keeps_stores_def)

lemma keeps_trans: "keeps_stores n n' \<Longrightarrow> keeps_stores n' n'' \<Longrightarrow> keeps_stores n n''"
  unfolding keeps_stores_def using history_kept_trans queue_kept_trans by blast

subsection \<open>Single updates\<close>

lemma history_kept_add: "history_kept h (map_option (\<lambda>h. snd (HistoryAdd w now now' m h)) h)"
proof -
  have "int (length (takeLast (nat k) xs)) \<le> k" if "0 < k" for k and xs :: "ChatMessage list"
    using that by (simp add: length_takeLast)
  then show ?thesis
    by (cases h) (simp_all del: length_takeLast add: history_kept_def HistoryAdd_messages Let_def le_max_iff_disj)
qed

lemma queue_kept_enqueue: "queue_kept (Some q) (Some (snd (Enqueue fmt w m q)))"
  by (simp add: queue_kept_def QueueLen_def Enqueue_items length_takeLast)

lemma queue_kept_mark: "queue_kept q (map_option (MarkAttempt w mid) q)"
  by (cases q) (simp_all add: queue_kept_def QueueLen_def MarkAttempt_def)

lemma queue_kept_remove: "queue_kept q (map_option (\<lambda>q. snd (Remove w mid q)) q)"
  by (cases q) (simp_all add: queue_kept_def QueueLen_def Remove_def le_max_iff_disj)

lemma keeps_update [simp]:
  "keeps_stores n (n'\<lparr>nd_Files := f\<rparr>) = keeps_stores n n'" "keeps_stores n (n'\<lparr>nd_Limiter := l\<rparr>) = keeps_stores n n'"
  "keeps_stores n (n'\<lparr>nd_lastBeat := b\<rparr>) = keeps_stores n n'" "keeps_stores n (n'\<lparr>nd_typing := ty\<rparr>) = keeps_stores n n'"
  "keeps_stores n (n'\<lparr>nd_rekeySlots := sl\<rparr>) = keeps_stores n n'" "keeps_stores n (n'\<lparr>nd_lastRekey := lr\<rparr>) = keeps_stores n n'"
  "keeps_stores n (n'\<lparr>nd_Breaker := br\<rparr>) = keeps_stores n n'" "keeps_stores n (n'\<lparr>nd_tasks := ts\<rparr>) = keeps_stores n n'"
  "keeps_stores n (n'\<lparr>nd_stopped := st\<rparr>) = keeps_stores n n'" "keeps_stores n (n'\<lparr>nd_seen := se\<rparr>) = keeps_stores n n'"
  "keeps_stores n (n'\<lparr>nd_draws := d\<rparr>) = keeps_stores n n'" "keeps_stores n (n'\<lparr>nd_seq := s, nd_draws := d\<rparr>) = keeps_stores n n'"
  "keeps_stores n (n'\<lparr>nd_Breaker := br, nd_Limiter := l\<rparr>) = keeps_stores n n'" "keeps_stores n (n'\<lparr>nd_conns := cs\<rparr>) = keeps_stores n n'"
  "keeps_stores n (n'\<lparr>nd_next := nx\<rparr>) = keeps_stores n n'"
  by (simp_all add: keeps_stores_def)

lemma keeps_over [simp]:
  "keeps_stores n (emit ev n') = keeps_stores n n'" "keeps_stores n (spawn tk n') = keeps_stores n n'"
  "keeps_stores n (status_set E ph d n') = keeps_stores n n'" "keeps_stores n (show_chat c text n') = keeps_stores n n'"
  "keeps_stores n (put_transfer fid t n') = keeps_stores n n'" "keeps_stores n (sendRaw E c msg n') = keeps_stores n n'"
  "keeps_stores n (set_pc c pc n') = keeps_stores n n'" "keeps_stores n (count_message E jid n') = keeps_stores n n'"
  "keeps_stores n (hello_contacts E c msg n') = keeps_stores n n'" "keeps_stores n (finish_rekey E c ky sh n') = keeps_stores n n'"
  "keeps_stores n (snd (draw E k n')) = keeps_stores n n'" "keeps_stores n (snd (nextEnvelopeID E n')) = keeps_stores n n'"
  by (auto simp: keeps_stores_def emit_def spawn_def status_set_def show_chat_def put_transfer_def set_pc_def count_message_def
      hello_contacts_def finish_rekey_def draw_def nextEnvelopeID_state Let_def)

text \<open>What was written before does not matter either.\<close>

lemma keeps_from [simp]:
  "keeps_stores (sendRaw E c m n) n' = keeps_stores n n'" "keeps_stores (n\<lparr>nd_rekeySlots := sl\<rparr>) n' = keeps_stores n n'"
  "keeps_stores (n\<lparr>nd_seen := se\<rparr>) n' = keeps_stores n n'" "keeps_stores (n\<lparr>nd_tasks := ts\<rparr>) n' = keeps_stores n n'"
  "keeps_stores (n\<lparr>nd_Files := f\<rparr>) n' = keeps_stores n n'"
  by (simp_all add: keeps_stores_def)

lemma keeps_history [simp]: "keeps_stores n n' \<Longrightarrow> keeps_stores n (history_add E m n')"
  using keeps_trans [of n n' "history_add E m n'"] history_kept_add
  by (simp add: keeps_stores_def history_add_def)

lemma keeps_queue:
  assumes "keeps_stores n n'" and "queue_kept (nd_Queue n') q"
  shows "keeps_stores n (n'\<lparr>nd_Queue := q\<rparr>)"
  by (rule keeps_trans [OF assms(1)]) (use assms(2) in \<open>simp add: keeps_stores_def\<close>)

lemma keeps_groups [simp]: "keeps_stores n n' \<Longrightarrow> keeps_stores n (n'\<lparr>nd_Groups := Some s\<rparr>)"
  by (simp add: keeps_stores_def)

lemma keeps_groups_map [simp]: "keeps_stores n n' \<Longrightarrow> keeps_stores n (n'\<lparr>nd_Groups := map_option f (nd_Groups n')\<rparr>)"
  by (simp add: keeps_stores_def)

lemma keeps_fold: "(\<And>x n. keeps_stores n (f x n)) \<Longrightarrow> keeps_stores n (fold f xs n)"
  by (induction xs arbitrary: n) (auto intro: keeps_trans)

text \<open>The same through a pair, as the operations take results apart.\<close>

lemma keeps_pair: "keeps_stores n (snd p) \<Longrightarrow> p = (r, n') \<Longrightarrow> keeps_stores n n'"
  by simp

lemma keeps_draw: "draw E k n = (r, n') \<Longrightarrow> keeps_stores n n'"
  by (auto simp: draw_def)

lemma keeps_envelope: "nextEnvelopeID E n = (r, n') \<Longrightarrow> keeps_stores n n'"
  using keeps_over(12) [of n E n] by simp

subsection \<open>Sending\<close>

named_theorems keeps

lemma keeps_encrypt [keeps]: "keeps_stores n (snd (encryptForSend E k p n))"
  by (auto simp: encryptForSend_def draw_def Let_def split: prod.splits option.splits)

lemma keeps_SendToWithID [keeps]: "keeps_stores n (snd (SendToWithID E jid text mid n))"
  by (auto simp: SendToWithID_def split: option.splits prod.splits dest!: keeps_pair [OF keeps_encrypt])

lemma keeps_SendTo [keeps]: "keeps_stores n (snd (SendTo E jid text n))"
  by (auto simp: SendTo_def split: prod.splits intro: keeps_trans [OF keeps_envelope keeps_SendToWithID])

lemma keeps_flush_one: "keeps_stores n (snd (flush_one E mark deliver m n))"
proof -
  have marked: "keeps_stores n (n\<lparr>nd_Queue := map_option (MarkAttempt w mid) (nd_Queue n)\<rparr>)" for n w mid
    by (rule keeps_queue [OF keeps_refl queue_kept_mark])
  have removed: "keeps_stores n n' \<Longrightarrow> keeps_stores n (n'\<lparr>nd_Queue := map_option (\<lambda>q. snd (Remove w mid q)) (nd_Queue n')\<rparr>)" for n n' w mid
    by (rule keeps_queue [OF _ queue_kept_remove])
  show ?thesis
    using keeps_trans [OF marked keeps_SendToWithID]
    by (auto simp: flush_one_def Let_def split: prod.splits option.splits intro!: removed
        dest: keeps_pair [OF keeps_SendToWithID] keeps_pair [OF keeps_trans [OF marked keeps_SendToWithID]])
qed

lemma keeps_flush [keeps]: "keeps_stores n (snd (flush_loop E mark deliver jid ms n k))"
proof (induction ms arbitrary: n k)
  case (Cons m ms)
  show ?case
    unfolding flush_loop_Cons using Cons.IH keeps_flush_one [of n E mark deliver m]
    by (auto split: prod.splits intro: keeps_trans)
qed simp

lemma keeps_FlushQueue [keeps]: "keeps_stores n (snd (FlushQueue E deliver jid n))"
  by (simp add: FlushQueue_def keeps_flush split: option.splits)

lemma keeps_QueueOrSend [keeps]: "keeps_stores n (snd (QueueOrSend E jid body n))"
  by (auto simp: QueueOrSend_def split: prod.splits option.splits dest!: keeps_envelope keeps_pair [OF keeps_SendToWithID]
      intro!: keeps_queue intro: keeps_trans queue_kept_enqueue)

subsection \<open>Handlers\<close>

lemma keeps_joined: "keeps_stores n n' \<Longrightarrow> keeps_stores n (joined E c msg n')"
  unfolding joined_def Let_def by (auto split: option.splits intro: keeps_trans [OF _ keeps_flush])

lemma keeps_allowed: "allowInbound E c n = (ok, n') \<Longrightarrow> keeps_stores n n'"
  by (auto simp: allowInbound_def split: option.splits prod.splits)

lemma keeps_handlers [keeps]:
  "keeps_stores n (handle_hello E c msg n)" "keeps_stores n (handle_chat E c msg n)" "keeps_stores n (handleGroupInvite E c msg n)"
  "keeps_stores n (handleGroupChat E c msg n)" "keeps_stores n (handle_group_leave E c msg n)"
  "keeps_stores n (handleSyncData E c msg n)" "keeps_stores n (handle_heartbeat E c n)" "keeps_stores n (handle_typing E c n)"
  "keeps_stores n (handle_read_receipt c n)" "keeps_stores n (handle_chunk_request c msg n)"
  "keeps_stores n (handle_file_offer E c msg n)" "keeps_stores n (handle_file_reject msg n)"
  "keeps_stores n (handle_file_complete msg n)"
  by (auto simp: handle_hello_def handle_chat_def handleGroupInvite_def handleGroupChat_def handle_group_leave_def
      handleSyncData_def handle_heartbeat_def handle_typing_def handle_read_receipt_def handle_chunk_request_def
      handle_file_offer_def handle_file_reject_def handle_file_complete_def Let_def keeps_joined
      split: prod.splits option.splits dest!: keeps_allowed)

lemma keeps_rekey [keeps]: "keeps_stores n (handle_rekey E c msg n)"
  by (auto simp: handle_rekey_def Let_def split: option.splits prod.splits dest!: keeps_draw)

lemma keeps_sendSyncData: "keeps_stores n (snd (sendSyncData E c body re n))"
  by (auto simp: sendSyncData_def split: option.splits prod.splits dest!: keeps_pair [OF keeps_encrypt])

lemma keeps_sync_loop: "keeps_stores n (sync_loop E c ms k n)"
  by (induction E c ms k n rule: sync_loop.induct) (auto intro: keeps_trans [OF keeps_sendSyncData])

lemma keeps_missed_loop: "keeps_stores n (missed_loop E c ms k n)"
  by (induction ms arbitrary: k n)
    (auto split: prod.splits option.splits dest!: keeps_pair [OF keeps_SendTo] intro: keeps_trans)

lemma keeps_syncs [keeps]: "keeps_stores n (handleSyncRequest E c msg n)" "keeps_stores n (run_sync E c prev n)"
  by (auto simp: handleSyncRequest_def run_sync_def syncMissedTo_def Let_def keeps_sync_loop keeps_missed_loop
      split: option.splits)

lemma keeps_send_file: "keeps_stores n (snd (send_file_loop E c fid t n))"
proof (induction E c fid t n rule: send_file_loop.induct)
  case (1 E c fid t n)
  show ?case
    using 1 by (subst send_file_loop.simps) (auto split: outcome.splits sum.splits prod.splits)
qed

lemma keeps_resend_loop: "keeps_stores n (resend_loop E c fid t is seen n)"
proof (induction E c fid t "is" seen n rule: resend_loop.induct)
  case (2 E c fid t i "is" seen n)
  show ?case using 2 by (auto split: sum.splits)
qed simp

lemma keeps_task [keeps]: "keeps_stores n (run_task E t (n\<lparr>nd_tasks := ts\<rparr>))"
proof -
  have "keeps_stores n (run_task E t n)" for n
    by (cases t) (auto simp: startFileSend_def resendChunks_def keeps_resend_loop intro: keeps
        split: option.splits prod.splits dest!: keeps_pair [OF keeps_send_file])
  from this [of "n\<lparr>nd_tasks := ts\<rparr>"] show ?thesis by simp
qed

lemma keeps_chunk_arrived: "chunk_arrived E c msg data t n = Returns n' \<Longrightarrow> keeps_stores n n'"
  by (auto simp: chunk_arrived_def Let_def elim!: bind_outcome_Returns split: prod.splits sum.splits if_splits)

lemma keeps_file_chunk: "handle_file_chunk E c msg n = Returns n' \<Longrightarrow> keeps_stores n n'"
  by (auto simp: handle_file_chunk_def Let_def split: option.splits prod.splits dest!: keeps_chunk_arrived)

lemma keeps_dispatch: "dispatch E c msg n = Returns n' \<Longrightarrow> keeps_stores n n'"
  by (auto simp: dispatch_def split: MsgType.splits intro: keeps dest: keeps_file_chunk)

lemma keeps_handleMessage: "handleMessage E c msg n = Returns n' \<Longrightarrow> keeps_stores n n'"
  using keeps_trans [of n "n\<lparr>nd_seen := gate_seen E msg (nd_seen n)\<rparr>" n']
  by (auto simp: handleMessage_cases dest: keeps_dispatch split: if_splits)

subsection \<open>Actions\<close>

lemma keeps_conns [keeps]:
  "keeps_stores n (snd (open_conn E addr n))" "keeps_stores n (removePeer addr n)" "keeps_stores n (snd (ConnectTo E d addr n))"
  by (auto simp: open_conn_def removePeer_def ConnectTo_def Let_def split: option.splits prod.splits)

lemma keeps_rekey_if_due: "keeps_stores n (rekey_if_due E c n)"
  by (auto simp: rekey_if_due_def initiateRekey_def Let_def split: option.splits prod.splits dest!: keeps_draw)

lemma keeps_broadcast [keeps]: "keeps_stores n (snd (broadcastWithReply E text re n))"
proof -
  have "keeps_stores n (broadcast_loop E text re mid cs n)" for mid cs n
  proof (induction cs arbitrary: n)
    case (Cons c cs)
    have "keeps_stores n (broadcast_loop E text re mid cs (sendRaw E c m n'))" if "keeps_stores n n'" for m n'
      using keeps_trans [OF that Cons [of "sendRaw E c m n'", simplified]] .
    then show ?case
      by (auto split: option.splits prod.splits dest!: keeps_pair [OF keeps_encrypt] intro: Cons keeps_trans)
  qed simp
  then show ?thesis
    by (auto simp: broadcastWithReply_def Let_def split: prod.splits dest!: keeps_envelope intro: keeps_trans)
qed

lemma keeps_periodic [keeps]:
  "keeps_stores n (heartbeat_tick E n)" "keeps_stores n (typing_tick E n)" "keeps_stores n (SendTyping E n)"
  "keeps_stores n (SendReadReceipt E jid mid n)" "keeps_stores n (Stop n)"
  by (auto simp: maybeRekey_def heartbeat_tick_def typing_tick_def SendTyping_def SendReadReceipt_def Stop_def Let_def
      split: option.splits intro!: keeps_fold keeps_trans [OF _ keeps_fold] keeps_rekey_if_due)

lemma keeps_group_loop: "keeps_stores n (snd (group_loop E room msg cs k n))"
proof (induction cs arbitrary: k n)
  case (Cons c cs)
  show ?case using Cons keeps_trans [OF _ Cons, of n "sendRaw E c msg n"] by (simp add: Let_def)
qed simp

lemma keeps_SendGroup [keeps]: "keeps_stores n (snd (SendGroup E rid text re n))"
  by (auto simp: SendGroup_def split: option.splits prod.splits
      dest!: keeps_pair [OF keeps_encrypt] keeps_pair [OF keeps_group_loop] keeps_envelope intro: keeps_trans)

lemma keeps_invite [keeps]: "keeps_stores n (snd (InviteToRoom E rid m n))"
  by (auto simp: InviteToRoom_def Let_def draw_def split: option.splits prod.splits)

lemma keeps_rooms [keeps]:
  "keeps_stores n (snd (NodeCreateRoom E name n))" "keeps_stores n (snd (LeaveRoom E rid n))" "keeps_stores n (snd (NodeRekeyRoom E rid n))"
  by (auto simp: NodeCreateRoom_def LeaveRoom_def NodeRekeyRoom_def Let_def draw_def keeps_invite intro!: keeps_groups keeps_trans [OF _ keeps_fold] keeps_fold
      split: option.splits prod.splits sum.splits)

lemma keeps_offer_all: "keeps_stores n (snd (offer_all E gid path cs n))"
  by (auto simp: offer_all_def split: prod.splits sum.splits option.splits intro!: keeps_trans [OF _ keeps_fold])

lemma keeps_files [keeps]:
  "keeps_stores n (snd (SendFile E jid path n))" "keeps_stores n (snd (SendFileMulticast E path n))"
  "keeps_stores n (snd (SendFileGroup E rid path n))" "keeps_stores n (snd (answer_file E ty fid n))"
  "keeps_stores n (snd (RequestResume E fid n))"
  by (auto simp: SendFile_def SendFileMulticast_def SendFileGroup_def answer_file_def RequestResume_def keeps_offer_all
      Let_def split: option.splits prod.splits sum.splits)

end
