(* ===== verification/Main_Frame.thy ===== *)
theory Main_Frame
  imports Main_Commands Node_Stores
begin

text \<open>
  What the commands of the main loop leave alone. The contract \<open>command_frame\<close> names what a relation between nodes
  must allow, the operations that commands call; every such relation holds between the
  nodes before and after a line. It is used for the links of a node (\<open>same_links\<close>) and for its stores (\<open>keeps_stores\<close>).
\<close>

definition app_of :: "ending \<Rightarrow> App" where
  "app_of r = (case r of Done a \<Rightarrow> a | Continue a \<Rightarrow> a | Return a \<Rightarrow> a)"

locale command_frame =
  fixes R :: "Node \<Rightarrow> Node \<Rightarrow> bool"
  assumes R_refl: "R n n"
    and R_trans: "R n n' \<Longrightarrow> R n' n'' \<Longrightarrow> R n n''"
    and R_history: "R n (history_add E m n)"
    and R_queue: "R n (queue_for C line c n)"
    and R_set_book: "R n (n\<lparr>nd_Contacts := Some b\<rparr>)"
    and R_set_history: "(\<And>h0. nd_History n = Some h0 \<Longrightarrow> h_maxSize h = h_maxSize h0 \<and> h_messages h = h_messages h0)
      \<Longrightarrow> R n (n\<lparr>nd_History := Some h\<rparr>)"
    and R_connect: "R n (snd (ConnectTo E d addr n))"
    and R_broadcast: "R n (snd (broadcastWithReply E txt re n))"
    and R_group: "R n (snd (SendGroup E rid txt re n))"
    and R_create: "R n (snd (NodeCreateRoom E name n))"
    and R_invite: "R n (snd (InviteToRoom E rid mem n))"
    and R_leave: "R n (snd (LeaveRoom E rid n))"
    and R_rekey: "R n (snd (NodeRekeyRoom E rid n))"
    and R_send: "R n (snd (SendFile E jid path n))"
    and R_multicast: "R n (snd (SendFileMulticast E path n))"
    and R_send_group: "R n (snd (SendFileGroup E rid path n))"
    and R_answer: "R n (snd (answer_file E ty fid n))"
    and R_resume: "R n (snd (RequestResume E fid n))"
    and R_stop: "R n (Stop n)"
begin

definition after :: "App \<Rightarrow> App \<Rightarrow> bool" where
  "after a b \<longleftrightarrow> R (ap_node a) (ap_node b) \<and> ap_typingSent b = ap_typingSent a"

lemma after_refl: "after a a" by (simp add: after_def R_refl)

lemma after_trans: "after a b \<Longrightarrow> after b c \<Longrightarrow> after a c"
  unfolding after_def using R_trans by auto

lemma after_say [simp]: "after a (say ls b) = after a b"
  by (simp add: after_def say_def)

lemma after_audit [simp]: "after a (AuditLog C ev ac de b) = after a b"
  by (simp add: after_def AuditLog_def)

lemma after_job [simp]: "after a (start_job j b) = after a b"
  by (simp add: after_def start_job_def)

lemma after_update [simp]:
  "after a (b\<lparr>ap_mode := m\<rparr>) = after a b" "after a (b\<lparr>ap_home := h\<rparr>) = after a b" "after a (b\<lparr>ap_backups := f\<rparr>) = after a b"
  "after a (b\<lparr>ap_lastInput := t\<rparr>) = after a b"
  by (simp_all add: after_def)

lemma after_node [simp]: "after a (set_node n a) = R (ap_node a) n"
  by (simp add: after_def set_node_def)

lemma after_book [simp]: "after a (set_book b a)"
  by (simp add: set_book_def R_set_book)

lemma after_history [simp]: "after a (set_history (SetTTL d (the_history a)) a)"
  by (simp add: set_history_def R_set_history SetTTL_def the_history_def)

lemma after_remember: "after a b \<Longrightarrow> after a (remember C m b)"
  unfolding remember_def after_def set_node_def by (auto intro: R_trans [OF _ R_history])

lemma after_queue: "R n (fold (queue_for C line) cs n)"
  by (induction cs arbitrary: n) (auto intro: R_refl R_trans R_queue)

text \<open>The same through a pair, as the commands take results apart.\<close>

lemma R_pair: "R n (snd p) \<Longrightarrow> p = (r, n') \<Longrightarrow> R n n'"
  by simp

lemmas R_pairs = R_pair [OF R_connect] R_pair [OF R_broadcast] R_pair [OF R_group] R_pair [OF R_create]
  R_pair [OF R_invite] R_pair [OF R_leave] R_pair [OF R_rekey] R_pair [OF R_send] R_pair [OF R_multicast]
  R_pair [OF R_send_group] R_pair [OF R_answer] R_pair [OF R_resume]

fun fine :: "App \<Rightarrow> ending outcome \<Rightarrow> bool" where
  "fine a (Returns (Done b)) = after a b"
| "fine a (Returns (Continue b)) = after a b"
| "fine a (Returns (Return b)) = after a b"
| "fine a Blocks = True"
| "fine a Panics = True"

lemma fine_bind: "(\<And>x. r = Returns x \<Longrightarrow> fine a (f x)) \<Longrightarrow> fine a (bind_outcome r f)"
  by (cases r) auto

lemma after_show_all: "show_all f xs a = Returns b \<Longrightarrow> after a b"
proof (induction xs arbitrary: a)
  case (Cons x xs)
  then obtain l where "show_all f xs (say [l] a) = Returns b" by (auto elim: bind_outcome_Returns)
  from Cons.IH [OF this] show ?case by (simp add: after_def say_def)
qed (simp add: after_refl)

lemma fine_messages:
  "fine a (cmd_chat C line a)" "fine a (cmd_g C rest a)" "fine a (cmd_reply C rest a)"
proof -
  show "fine a (cmd_chat C line a)"
    using after_queue by (auto simp: R_refl cmd_chat_def Let_def Broadcast_def dest: R_pairs intro!: after_remember split: prod.splits)
  show "fine a (cmd_g C rest a)"
    by (auto simp: cmd_g_def Let_def after_refl dest: R_pairs intro!: after_remember split: option.split prod.split)
  show "fine a (cmd_reply C rest a)"
    by (auto simp: cmd_reply_def Let_def BroadcastReply_def after_refl dest: R_pairs intro!: after_remember fine_bind split: option.split prod.split)
      (blast dest: R_pairs)+
qed

lemma after_rooms: "after a (handleGroupCommand C line a)"
  by (auto simp: handleGroupCommand_def group_create_def group_invite_def group_leave_def group_rekey_def with_room_def
      Let_def after_refl dest: R_pairs split: option.split prod.split sum.split)

lemma fine_views:
  "fine a (cmd_groups a)" "fine a (cmd_devices a)" "fine a (cmd_status C a)" "fine a (cmd_history C line a)"
  "fine a (cmd_timestamp arg a)" "fine a (cmd_disappearing C name arg a)" "fine a (cmd_queue a)"
  "fine a (cmd_contacts C line a)" "fine a (cmd_search C query a)" "fine a (cmd_contact C jid a)"
  by (auto simp: cmd_groups_def cmd_devices_def cmd_status_def cmd_history_def cmd_timestamp_def cmd_disappearing_def
      cmd_queue_def cmd_contacts_def cmd_search_def cmd_contact_def Let_def after_refl
      intro!: fine_bind dest: after_show_all [of _ _ "say _ a"] split: option.split prod.split simp del: show_all.simps)
    (auto simp: after_def say_def dest!: after_show_all)

lemma fine_contacts:
  "fine a (book_command r ok a)" "fine a (cmd_alias C line a)" "fine a (cmd_trust C jid a)" "fine a (cmd_verify C jid a)"
  by (auto simp: book_command_def cmd_alias_def cmd_trust_def cmd_verify_def Let_def after_refl
      intro!: fine_bind split: option.split prod.split sum.split)

lemma fine_links:
  "fine a (cmd_connect_candidates C s a)" "fine a (cmd_connect C addr a)" "fine a (cmd_send C raw a)"
  "fine a (file_answer (AcceptFile E) fid a)" "fine a (file_answer (RejectFile E) fid a)"
  "fine a (file_answer (RequestResume E) fid a)"
  by (auto simp: cmd_connect_candidates_def cmd_connect_def cmd_send_def file_answer_def AcceptFile_def RejectFile_def Let_def
      after_refl dest: R_pairs split: option.split prod.split sum.split connect_result.split)

lemma fine_backups:
  "fine a (cmd_export_identity C dest a)" "fine a (cmd_export_data C dest a)"
  "fine a (cmd_import_identity C dest a)" "fine a (cmd_import_data C dest a)"
  by (auto simp: cmd_export_identity_def cmd_export_data_def cmd_import_identity_def cmd_import_data_def export_payload_def
      Let_def after_refl split: option.split prod.split sum.split)

lemma fine_command: "fine a (run_command C cmd a)"
  using after_rooms [unfolded after_def, of a C] by (cases cmd) (simp_all add: fine_messages after_rooms fine_views fine_contacts fine_links fine_backups after_refl
      quit_def after_def say_def set_node_def R_stop start_job_def R_refl)

lemma line_after:
  assumes "run_line C line a = Returns r"
  shows "R (ap_node a) (ap_node (app_of r))"
    and "r = Done b \<Longrightarrow> \<not> ap_typingSent b \<and> ap_lastInput b = en_now (ce_E C)"
proof -
  let ?b = "a\<lparr>ap_shell := AddHistory (ce_shell C) (TrimSpace line) (ap_shell a), ap_typingSent := False\<rparr>"
  have fine: "fine ?b (run_command C (parse_command (TrimSpace line)) ?b)" by (rule fine_command)
  show "R (ap_node a) (ap_node (app_of r))"
    using assms fine R_refl
    by (cases "run_command C (parse_command (TrimSpace line)) ?b")
      (auto simp: run_line_def app_of_def after_def Let_def split: ending.splits if_splits)
  show "\<not> ap_typingSent b \<and> ap_lastInput b = en_now (ce_E C)" if "r = Done b"
    using assms fine that
    by (cases "run_command C (parse_command (TrimSpace line)) ?b")
      (auto simp: run_line_def after_def Let_def split: ending.splits if_splits)
qed

end

subsection \<open>Links\<close>

interpretation links: command_frame same_links
proof
  show "same_links n (queue_for C line c n)" for n C line c by (simp add: queue_for_def same_links_def)
  show "same_links n (n\<lparr>nd_Contacts := Some b\<rparr>)" "same_links n (n\<lparr>nd_History := Some h\<rparr>)" for n b h
    by (simp_all add: same_links_def)
qed (auto intro: links same_links_trans)


text \<open>
  C19. What is typed does not touch the sessions. Whatever line is entered, the connections of the node, the keys of their
  sessions, its identity and its replay filter are the same after the line as before.\<close>

theorem commands_keep_sessions:
  assumes "run_line C line a = Returns r"
  shows "nd_pc (ap_node (app_of r)) = nd_pc (ap_node a) \<and> nd_conns (ap_node (app_of r)) = nd_conns (ap_node a)
    \<and> nd_Identity (ap_node (app_of r)) = nd_Identity (ap_node a) \<and> nd_seen (ap_node (app_of r)) = nd_seen (ap_node a)"
  using links.line_after(1) [OF assms] by (simp add: same_links_def)

subsection \<open>Stores\<close>

interpretation stores: command_frame keeps_stores
proof
  show "keeps_stores n n'' " if "keeps_stores n n'" "keeps_stores n' n''" for n n' n'' using that by (rule keeps_trans)
  show "keeps_stores n (queue_for C line c n)" for n C line c
    unfolding queue_for_def by (cases "nd_Queue n") (auto intro!: keeps_queue simp: queue_kept_enqueue)
  show "keeps_stores n (n\<lparr>nd_History := Some h\<rparr>)"
    if "\<And>h0. nd_History n = Some h0 \<Longrightarrow> h_maxSize h = h_maxSize h0 \<and> h_messages h = h_messages h0" for n h
    using that by (auto simp: keeps_stores_def history_kept_def)
  show "keeps_stores n (n\<lparr>nd_Contacts := Some b\<rparr>)" for n b by (simp add: keeps_stores_def)
qed (auto intro: keeps)

fun run_lines :: "(cenv \<times> string) list \<Rightarrow> App \<Rightarrow> App outcome" where
  "run_lines [] a = Returns a"
| "run_lines ((C, line) # ls) a =
     bind_outcome (run_line C line a) (\<lambda>r. case r of Return b \<Rightarrow> Returns b | _ \<Rightarrow> run_lines ls (app_of r))"


text \<open>
  The stores stay open. Once the node has a history, a contact book, a queue and rooms, as it has when the loop starts, it
  has them after every sequence of lines that does not end the program.\<close>

theorem stores_stay_open:
  assumes "run_lines ls a = Returns b" and "nd_History (ap_node a) \<noteq> None" "nd_Contacts (ap_node a) \<noteq> None"
    "nd_Queue (ap_node a) \<noteq> None" "nd_Groups (ap_node a) \<noteq> None"
  shows "nd_History (ap_node b) \<noteq> None \<and> nd_Contacts (ap_node b) \<noteq> None \<and> nd_Queue (ap_node b) \<noteq> None \<and> nd_Groups (ap_node b) \<noteq> None"
proof -
  have "keeps_stores (ap_node a) (ap_node b)"
    using assms(1)
  proof (induction ls arbitrary: a)
    case (Cons p ls)
    obtain C line where p: "p = (C, line)" by force
    obtain r where r: "run_line C line a = Returns r" "(case r of Return b \<Rightarrow> Returns b | _ \<Rightarrow> run_lines ls (app_of r)) = Returns b"
      using Cons.prems unfolding p by (auto elim: bind_outcome_Returns)
    show ?case
      using stores.line_after(1) [OF r(1)] r(2) Cons.IH [of "app_of r"]
      by (cases r) (auto simp: app_of_def intro: keeps_trans)
  qed simp
  then show ?thesis using assms(2-) by (auto simp: keeps_stores_def history_kept_def queue_kept_def)
qed

end
