(* ===== verification/Main_Start.thy ===== *)
theory Main_Start
  imports Main_Frame Setup_Wizard Node_Sample
begin

text \<open>
  The start of the program, the first half of \<^verbatim>\<open>main\<close> in \<^verbatim>\<open>src/main.go\<close>: configuration, flags, wizard, identity, history,
  contacts, queue, rooms and the node. Sockets, goroutines and the update check are not part of it. The flags are
  what the command line gives, \<open>None\<close> for a flag that is not given; a wizard that never returns is \<open>Blocks\<close>.
\<close>

record flags =
  fg_name :: "string option"
  fg_internet :: "bool option"
  fg_historySize :: "int option"
  fg_readReceipts :: "bool option"
  fg_typingIndicator :: "bool option"
  fg_autoReconnect :: "bool option"

record korik_files =
  kf_config :: "config_doc stored"
  kf_identity :: "string stored"
  kf_history :: "ChatMessage list stored"
  kf_contacts :: "Contact option list stored"
  kf_queue :: "OutgoingMessage list stored"
  kf_groups :: "Room option list stored"

record start_env =
  se_P :: primitives
  se_now :: gotime
  se_rnd :: "nat \<Rightarrow> string option"
  se_gen :: "string option"
  se_homedir :: "string option"
  se_ifaces :: "iface list option"
  se_input :: "string list"
  se_cfgw :: "config_doc saving"
  se_idw :: "string saving"
  se_hw :: "ChatMessage list saving"

datatype start_error =
    ConfigFailed config_error | IdentityFailed identity_error | HistoryFailed history_error
  | ContactsFailed contacts_error | GroupsFailed group_error

record started =
  sd_node :: Node
  sd_cfg :: Config
  sd_internet :: bool
  sd_config_file :: "config_doc stored"
  sd_identity_file :: "string stored"

text \<open>Lines 42 to 94: the configuration with its file, the name and whether the internet mode is on.\<close>

definition start_config :: "start_env \<Rightarrow> flags \<Rightarrow> korik_files \<Rightarrow> (config_error + (Config \<times> string \<times> bool \<times> config_doc stored)) outcome" where
  "start_config S g f =
     (case Load (se_rnd S 0) (kf_config f) of
        Inl e \<Rightarrow> Returns (Inl e)
      | Inr cfg0 \<Rightarrow>
          let (assigned, cfg) = EnsureDeviceID (se_rnd S 1) cfg0;
              file1 = (if assigned then snd (ConfigSave (se_cfgw S) cfg (kf_config f)) else kf_config f);
              firstRun = IsFirstRun (file1 \<noteq> Absent) (kf_identity f \<noteq> Absent);
              name = overlay (cf_Name cfg) (fg_name g);
              internet = overlay (cf_InternetMode cfg) (fg_internet g)
          in if firstRun \<and> name = ''korik-user'' then
               (case RunWizard (se_ifaces S) (se_input S) cfg of
                  None \<Rightarrow> Blocks
                | Some ((wizardName, wizardInternet), cfg') \<Rightarrow>
                    Returns (Inr (cfg', wizardName, wizardInternet, snd (ConfigSave (se_cfgw S) cfg' file1))))
             else Returns (Inr (cfg, name, internet, file1)))"

definition open_node :: "start_env \<Rightarrow> flags \<Rightarrow> Config \<Rightarrow> string \<Rightarrow> Identity \<Rightarrow> History \<Rightarrow> ContactBook \<Rightarrow> Queue \<Rightarrow> Store \<Rightarrow> Node" where
  "open_node S g cfg name i h b q s =
     (let n = NewNode (se_now S) (se_homedir S) name i
      in n\<lparr>nd_DeviceID := (if cf_DeviceID cfg = '''' then ''cli-1'' else cf_DeviceID cfg),
           nd_History := Some h, nd_Contacts := Some b,
           nd_ReadReceipts := overlay (cf_ReadReceipts cfg) (fg_readReceipts g),
           nd_TypingIndicator := overlay (cf_TypingIndicator cfg) (fg_typingIndicator g),
           nd_AutoReconnect := overlay (cf_AutoReconnect cfg) (fg_autoReconnect g),
           nd_Queue := Some q, nd_Groups := Some s,
           nd_Status := (nd_Status n)\<lparr>tk_OnChange := True\<rparr>\<rparr>)"

definition start_stores ::
    "start_env \<Rightarrow> flags \<Rightarrow> korik_files \<Rightarrow> Config \<Rightarrow> string \<Rightarrow> (start_error + Node) outcome" where
  "start_stores S g f cfg name =
     (case fst (LoadOrCreate (se_P S) (se_gen S) (se_idw S) (kf_identity f)) of
        Inl e \<Rightarrow> Returns (Inl (IdentityFailed e))
      | Inr i \<Rightarrow>
          (case NewWithTail (se_now S) (kf_history f) (overlay (cf_HistorySize cfg) (fg_historySize g)) 500 of
             Inl e \<Rightarrow> Returns (Inl (HistoryFailed e))
           | Inr h0 \<Rightarrow>
               let h = snd (PruneExpired (se_hw S) (se_now S) h0)
               in bind_outcome (NewContactBook (kf_contacts f)) (\<lambda>r.
                    case r of
                      Inl e \<Rightarrow> Returns (Inl (ContactsFailed e))
                    | Inr b \<Rightarrow>
                        (case NewStore (kf_groups f) of
                           Inl e \<Rightarrow> Returns (Inl (GroupsFailed e))
                         | Inr s \<Rightarrow> Returns (Inr (open_node S g cfg name i h b (NewQueue (kf_queue f)) s))))))"

definition start_node :: "start_env \<Rightarrow> flags \<Rightarrow> korik_files \<Rightarrow> (start_error + started) outcome" where
  "start_node S g f =
     bind_outcome (start_config S g f) (\<lambda>r.
       case r of
         Inl e \<Rightarrow> Returns (Inl (ConfigFailed e))
       | Inr (cfg, name, internet, file) \<Rightarrow>
           bind_outcome (start_stores S g f cfg name) (\<lambda>r2.
             case r2 of
               Inl e \<Rightarrow> Returns (Inl e)
             | Inr n \<Rightarrow> Returns (Inr \<lparr>sd_node = n, sd_cfg = cfg, sd_internet = internet, sd_config_file = file,
                 sd_identity_file = snd (LoadOrCreate (se_P S) (se_gen S) (se_idw S) (kf_identity f))\<rparr>)))"

subsection \<open>Properties\<close>

lemma start_nodeE:
  assumes "start_node S g f = Returns (Inr d)"
  obtains cfg name internet cff i h b s where
    "start_config S g f = Returns (Inr (cfg, name, internet, cff))"
    "fst (LoadOrCreate (se_P S) (se_gen S) (se_idw S) (kf_identity f)) = Inr i"
    "d = \<lparr>sd_node = open_node S g cfg name i h b (NewQueue (kf_queue f)) s, sd_cfg = cfg, sd_internet = internet, sd_config_file = cff,
      sd_identity_file = snd (LoadOrCreate (se_P S) (se_gen S) (se_idw S) (kf_identity f))\<rparr>"
  using assms
  by (auto simp: start_node_def start_stores_def Let_def elim!: bind_outcome_Returns split: sum.splits prod.splits)

text \<open>
  A started node is ready for the loop. Whenever the start succeeds, the node has its four stores, the identity of its
  file, no connection, and an identifier of the device; the messages that waited in the queue file wait in its queue.\<close>

theorem started_node_ready:
  assumes "start_node S g f = Returns (Inr d)"
  shows "nd_History (sd_node d) \<noteq> None \<and> nd_Contacts (sd_node d) \<noteq> None \<and> nd_Groups (sd_node d) \<noteq> None
    \<and> nd_Queue (sd_node d) = Some (NewQueue (kf_queue f))
    \<and> fst (LoadOrCreate (se_P S) (se_gen S) (se_idw S) (kf_identity f)) = Inr (nd_Identity (sd_node d))
    \<and> nd_conns (sd_node d) = [] \<and> nd_DeviceID (sd_node d) \<noteq> ''''"
  using assms
proof (rule start_nodeE)
  fix cfg name internet cff i h b s
  assume "fst (LoadOrCreate (se_P S) (se_gen S) (se_idw S) (kf_identity f)) = Inr i"
    "d = \<lparr>sd_node = open_node S g cfg name i h b (NewQueue (kf_queue f)) s, sd_cfg = cfg, sd_internet = internet, sd_config_file = cff,
      sd_identity_file = snd (LoadOrCreate (se_P S) (se_gen S) (se_idw S) (kf_identity f))\<rparr>"
  then show ?thesis by (simp add: open_node_def NewNode_def Let_def)
qed

lemma start_config_plain:
  assumes "Load (se_rnd S 0) (kf_config f) = Inr cfg" and "cf_DeviceID cfg \<noteq> ''''"
    and "overlay (cf_Name cfg) (fg_name g) \<noteq> ''korik-user''"
  shows "start_config S g f = Returns (Inr (cfg, overlay (cf_Name cfg) (fg_name g), overlay (cf_InternetMode cfg) (fg_internet g), kf_config f))"
  using assms by (simp add: start_config_def EnsureDeviceID_def Let_def)

text \<open>
  The identifier of the device. A configuration file that has an identifier gives it to the node at every start. When the
  file has none, or does not exist and the wizard is not run because a name is given, the node gets
  one from the random numbers of this start and the file is left as it is, so that the next start draws another.\<close>

theorem device_id_drawn_at_every_start:
  assumes "start_node S g f = Returns (Inr d)" and "fg_name g = Some name" and "name \<noteq> ''korik-user''"
  shows "(\<forall>doc i. kf_config f = Doc doc \<longrightarrow> cd_device_id doc = Some i \<longrightarrow> i \<noteq> '''' \<longrightarrow> nd_DeviceID (sd_node d) = i)
    \<and> (kf_config f = Absent \<or> (\<exists>doc. kf_config f = Doc doc \<and> cd_device_id doc = None) \<longrightarrow>
        nd_DeviceID (sd_node d) = newDeviceID (se_rnd S 0) \<and> sd_config_file d = kf_config f)"
proof -
  obtain cfg n internet cff i h b s where st: "start_config S g f = Returns (Inr (cfg, n, internet, cff))"
      "d = \<lparr>sd_node = open_node S g cfg n i h b (NewQueue (kf_queue f)) s, sd_cfg = cfg, sd_internet = internet, sd_config_file = cff,
      sd_identity_file = snd (LoadOrCreate (se_P S) (se_gen S) (se_idw S) (kf_identity f))\<rparr>"
    using start_nodeE [OF assms(1)] by metis
  have dev: "nd_DeviceID (sd_node d) = (if cf_DeviceID cfg = '''' then ''cli-1'' else cf_DeviceID cfg)" "sd_config_file d = cff"
    by (simp_all add: st(2) open_node_def Let_def)
  have plain: "cfg = cfg0 \<and> cff = kf_config f" if "Load (se_rnd S 0) (kf_config f) = Inr cfg0" "cf_DeviceID cfg0 \<noteq> ''''" for cfg0
    using start_config_plain [OF that, of g] st(1) assms(2,3) by (simp add: overlay_def)
  show ?thesis
  proof (intro conjI impI allI)
    fix doc i assume "kf_config f = Doc doc" "cd_device_id doc = Some i" "i \<noteq> ''''"
    then show "nd_DeviceID (sd_node d) = i"
      using plain [of "config_unmarshal doc (DefaultConfig (se_rnd S 0))"] dev(1) by (auto simp: config_unmarshal_def overlay_def)
  next
    assume no: "kf_config f = Absent \<or> (\<exists>doc. kf_config f = Doc doc \<and> cd_device_id doc = None)"
    then obtain cfg0 where c: "Load (se_rnd S 0) (kf_config f) = Inr cfg0" "cf_DeviceID cfg0 = newDeviceID (se_rnd S 0)"
      by (auto simp: DefaultConfig_def config_unmarshal_def overlay_def)
    then show "nd_DeviceID (sd_node d) = newDeviceID (se_rnd S 0)" "sd_config_file d = kf_config f"
      using plain [OF c(1)] device_id_nonempty dev by auto
  qed
qed

definition sample_start :: start_env where
  "sample_start = \<lparr>se_P = toy, se_now = 0, se_rnd = (\<lambda>_. Some ''wxyz''), se_gen = Some sample_key, se_homedir = None,
     se_ifaces = None, se_input = [], se_cfgw = Written, se_idw = Written, se_hw = Written\<rparr>"

definition named :: "string \<Rightarrow> flags" where
  "named name = \<lparr>fg_name = Some name, fg_internet = None, fg_historySize = None, fg_readReceipts = None,
     fg_typingIndicator = None, fg_autoReconnect = None\<rparr>"

definition no_files :: korik_files where
  "no_files = \<lparr>kf_config = Absent, kf_identity = Absent, kf_history = Absent, kf_contacts = Absent, kf_queue = Absent, kf_groups = Absent\<rparr>"

lemma sample_starts: "\<exists>d. start_node sample_start (named ''ann'') no_files = Returns (Inr d)"
  by (simp add: start_node_def start_config_def start_stores_def sample_start_def named_def no_files_def EnsureDeviceID_def
      DefaultConfig_def device_id_nonempty overlay_def LoadOrCreate_def fromRawPrivate_def sample_key_def save_identity_def
      NewWithTail_def history_load_def NewContactBook_def NewStore_def Let_def)

theorem started_node_ready_witness:
  "\<exists>d. start_node sample_start (named ''ann'') no_files = Returns (Inr d) \<and> nd_conns (sd_node d) = [] \<and> nd_DeviceID (sd_node d) \<noteq> ''''"
proof -
  obtain d where d: "start_node sample_start (named ''ann'') no_files = Returns (Inr d)" using sample_starts by blast
  from started_node_ready [OF d] d show ?thesis by blast
qed

theorem device_id_drawn_at_every_start_witness:
  "\<exists>d. start_node sample_start (named ''ann'') no_files = Returns (Inr d) \<and>
     nd_DeviceID (sd_node d) = newDeviceID (Some ''wxyz'') \<and> sd_config_file d = Absent"
proof -
  obtain d where d: "start_node sample_start (named ''ann'') no_files = Returns (Inr d)" using sample_starts by blast
  have n: "fg_name (named ''ann'') = Some ''ann''" by (simp add: named_def)
  from device_id_drawn_at_every_start [OF d n] d show ?thesis by (auto simp: no_files_def sample_start_def)
qed

end
