(* ===== verification/Main_Session.thy ===== *)
theory Main_Session
  imports Main_Start Node_Policy
begin

text \<open>
  What a user who types into the loop of \<^verbatim>\<open>src/main.go\<close> obtains: the composition of the commands with the node, its queue, its
  handlers and the backups.
\<close>

lemma run_line_done:
  assumes "TrimSpace line0 = line" and "line \<noteq> ''''"
    and "run_command C (parse_command line)
      (a\<lparr>ap_shell := AddHistory (ce_shell C) line (ap_shell a), ap_typingSent := False\<rparr>) = Returns (Done b)"
  shows "run_line C line0 a = Returns (Done (b\<lparr>ap_lastInput := en_now (ce_E C)\<rparr>))"
  using assms by (simp add: run_line_def Let_def)

lemma app_node_simps [simp]:
  "ap_node (say ls a) = ap_node a" "ap_node (set_node n a) = n"
  "ap_node (remember C m a) = history_add (ce_E C) m (ap_node a)"
  by (simp_all add: say_def set_node_def remember_def)

lemma app_fields [simp]:
  "the_book (a\<lparr>ap_shell := s, ap_typingSent := d\<rparr>) = the_book a"
  by (simp add: the_book_def)

subsection \<open>A message that is typed\<close>

lemma queue_history_add [simp]: "nd_Queue (history_add E m n) = nd_Queue n"
  by (simp add: history_add_def)

lemma ready_peers: "filter pi_Ready (Peers n) = [] \<longleftrightarrow> (\<forall>(addr, c) \<in> set (nd_conns n). pc_sessionKey (nd_pc n c) = None)"
  by (auto simp: Peers_def filter_empty_conv Let_def)

lemma broadcast_rest:
  "nd_Queue (snd (Broadcast E body n)) = nd_Queue n" "nd_History (snd (Broadcast E body n)) = nd_History n"
  "nd_Name (snd (Broadcast E body n)) = nd_Name n" "nd_Identity (snd (Broadcast E body n)) = nd_Identity n"
proof -
  have enc: "nd_Queue n' = nd_Queue n \<and> nd_History n' = nd_History n \<and> nd_Name n' = nd_Name n \<and> nd_Identity n' = nd_Identity n"
    if "encryptForSend E k p n = (r, n')" for k p n r n'
    using that by (auto simp: encryptForSend_def draw_def Let_def split: prod.splits option.splits)
  have "nd_Queue (broadcast_loop E body re mid cs n) = nd_Queue n \<and> nd_History (broadcast_loop E body re mid cs n) = nd_History n
      \<and> nd_Name (broadcast_loop E body re mid cs n) = nd_Name n \<and> nd_Identity (broadcast_loop E body re mid cs n) = nd_Identity n" for re mid cs n
    by (induction cs arbitrary: n) (auto split: option.split prod.split dest: enc)
  then show "nd_Queue (snd (Broadcast E body n)) = nd_Queue n" "nd_History (snd (Broadcast E body n)) = nd_History n"
    "nd_Name (snd (Broadcast E body n)) = nd_Name n" "nd_Identity (snd (Broadcast E body n)) = nd_Identity n"
    using nextEnvelopeID_state [of E n]
    by (auto simp: Broadcast_def broadcastWithReply_def Let_def split: prod.split)
qed

lemma typed_line_sent:
  assumes "TrimSpace line0 = line" and "line \<noteq> ''''" and "parse_command line = CChat line"
    and "filter pi_Ready (Peers (ap_node a)) \<noteq> []"
    and "good_rand (ce_E C)" and "good_cipher (en_P (ce_E C))" and "length line \<le> MaxDecompressed"
    and "\<forall>c k. pc_sessionKey (nd_pc (ap_node a) c) = Some k \<longrightarrow> length k = 32"
  shows "\<exists>b ws. run_line C line0 a = Returns (Done b)
    \<and> nd_out (ap_node b) = nd_out (ap_node a) @ ws
    \<and> map fst ws = filter (\<lambda>c. pc_sessionKey (nd_pc (ap_node a) c) \<noteq> None \<and> \<not> blocked (pc_jid (nd_pc (ap_node a) c)) (ap_node a))
        (map snd (nd_conns (ap_node a)))
    \<and> (\<forall>(c, w) \<in> set ws. m_Type w = MsgChat \<and> m_ID w = fst (Broadcast (ce_E C) line (ap_node a)) \<and> carries (en_P (ce_E C)) (the (pc_sessionKey (nd_pc (ap_node a) c))) line w)
    \<and> nd_Queue (ap_node b) = nd_Queue (ap_node a)
    \<and> nd_History (ap_node b) =
        nd_History (history_add (ce_E C) (sent_entry C (fst (Broadcast (ce_E C) line (ap_node a))) (nd_DeviceID (ap_node a)) '''' '''' line a) (ap_node a))"
proof -
  obtain mid n' where b: "Broadcast (ce_E C) line (ap_node a) = (mid, n')" by force
  let ?a = "a\<lparr>ap_shell := AddHistory (ce_shell C) line (ap_shell a), ap_typingSent := False\<rparr>"
  have "\<exists>b. run_command C (parse_command line) ?a = Returns (Done b)
      \<and> ap_node b = history_add (ce_E C) (sent_entry C mid (nd_DeviceID (ap_node a)) '''' '''' line (set_node n' a)) n'"
    using assms(3,4) b by (simp add: cmd_chat_def Let_def sent_entry_def)
  then obtain b0 where b0: "run_command C (parse_command line) ?a = Returns (Done b0)"
      "ap_node b0 = history_add (ce_E C) (sent_entry C mid (nd_DeviceID (ap_node a)) '''' '''' line (set_node n' a)) n'" by blast
  note run = run_line_done [OF assms(1,2) b0(1)]
  have n': "nd_Queue n' = nd_Queue (ap_node a)" "nd_History n' = nd_History (ap_node a)" "nd_Name n' = nd_Name (ap_node a)"
      "nd_Identity n' = nd_Identity (ap_node a)"
    using broadcast_rest [of "ce_E C" line "ap_node a"] by (simp_all add: b)
  then have entry: "sent_entry C mid (nd_DeviceID (ap_node a)) '''' '''' line (set_node n' a) =
      sent_entry C mid (nd_DeviceID (ap_node a)) '''' '''' line a"
    by (simp add: sent_entry_def)
  obtain ws where ws: "nd_out n' = nd_out (ap_node a) @ ws"
      "map fst ws = filter (\<lambda>c. pc_sessionKey (nd_pc (ap_node a) c) \<noteq> None \<and> \<not> blocked (pc_jid (nd_pc (ap_node a) c)) (ap_node a))
        (map snd (nd_conns (ap_node a)))"
      "\<forall>(c, w) \<in> set ws. m_Type w = MsgChat \<and> m_ID w = mid \<and> carries (en_P (ce_E C)) (the (pc_sessionKey (nd_pc (ap_node a) c))) line w"
    using broadcast_out [OF assms(5-8)] b by auto
  show ?thesis
    by (intro exI [of _ "b0\<lparr>ap_lastInput := en_now (ce_E C)\<rparr>"] exI [of _ ws])
      (simp add: run b b0(2) n' entry ws del: history_add_fields(10), simp add: n' ws)
qed

text \<open>
  C16. Typed text reaches the peers. When a line that is no command is entered and some peer is ready, it is written once to every
  ready peer that is not blocked, and each copy opens to the line under the key of its session; the
  line is added to the history. Nothing is queued: a contact that is offline while another is
  online never gets the message.\<close>

theorem typed_text_reaches_ready_peers:
  assumes "TrimSpace line0 = line" and "line \<noteq> ''''" and "parse_command line = CChat line"
    and "filter pi_Ready (Peers (ap_node a)) \<noteq> []"
    and "good_rand (ce_E C)" and "good_cipher (en_P (ce_E C))" and "length line \<le> MaxDecompressed"
    and "\<forall>c k. pc_sessionKey (nd_pc (ap_node a) c) = Some k \<longrightarrow> length k = 32"
  shows "\<exists>b mid ws. run_line C line0 a = Returns (Done b)
    \<and> nd_out (ap_node b) = nd_out (ap_node a) @ ws
    \<and> map fst ws = filter (\<lambda>c. pc_sessionKey (nd_pc (ap_node a) c) \<noteq> None \<and> \<not> blocked (pc_jid (nd_pc (ap_node a) c)) (ap_node a))
        (map snd (nd_conns (ap_node a)))
    \<and> (\<forall>(c, w) \<in> set ws. m_Type w = MsgChat \<and> m_ID w = mid \<and> carries (en_P (ce_E C)) (the (pc_sessionKey (nd_pc (ap_node a) c))) line w)
    \<and> nd_Queue (ap_node b) = nd_Queue (ap_node a)
    \<and> nd_History (ap_node b) =
        nd_History (history_add (ce_E C) (sent_entry C mid (nd_DeviceID (ap_node a)) '''' '''' line a) (ap_node a))"
  using typed_line_sent [OF assms] by blast

lemma queue_for_items:
  assumes "nd_Queue n = Some q" and "length (q_items q) \<le> MaxMessages"
  shows "\<exists>q'. nd_Queue (fold (queue_for C line) cs n) = Some q'
    \<and> map (\<lambda>m. (om_ToJID m, om_Body m)) (q_items q') =
        takeLast MaxMessages (map (\<lambda>m. (om_ToJID m, om_Body m)) (q_items q) @ map (\<lambda>c. (ct_JID c, line)) cs)
    \<and> nd_out (fold (queue_for C line) cs n) = nd_out n"
  using assms
proof (induction cs arbitrary: n q)
  case Nil
  then show ?case by (simp add: takeLast_all)
next
  case (Cons c cs)
  let ?m = "\<lparr>om_ID = '''', om_ToJID = ct_JID c, om_Body = line, om_CreatedAt = en_now (ce_E C), om_Attempts = 0\<rparr>"
  let ?q = "snd (Enqueue (en_fmt (ce_E C)) (en_qw (ce_E C)) ?m q)"
  have q: "nd_Queue (queue_for C line c n) = Some ?q" "nd_out (queue_for C line c n) = nd_out n"
    using Cons.prems(1) by (simp_all add: queue_for_def)
  have items: "q_items ?q = takeLast MaxMessages (q_items q @ [with_id (en_fmt (ce_E C)) ?m])"
    by (simp add: Enqueue_def Let_def takeLast_def)
  have "map (\<lambda>m. (om_ToJID m, om_Body m)) (q_items ?q) =
      takeLast MaxMessages (map (\<lambda>m. (om_ToJID m, om_Body m)) (q_items q) @ [(ct_JID c, line)])"
    unfolding items by (simp add: takeLast_def drop_map with_id_def)
  then show ?case
    using Cons.IH [OF q(1)] items q(2) by (simp add: takeLast_takeLast_append)
qed

lemma typed_line_queued:
  assumes "TrimSpace line0 = line" and "line \<noteq> ''''" and "parse_command line = CChat line"
    and "filter pi_Ready (Peers (ap_node a)) = []"
    and "nd_Queue (ap_node a) = Some q" and "QueueLen q \<le> MaxMessages"
  shows "\<exists>b q'. run_line C line0 a = Returns (Done b) \<and> nd_out (ap_node b) = nd_out (ap_node a)
    \<and> nd_Queue (ap_node b) = Some q'
    \<and> map (\<lambda>m. (om_ToJID m, om_Body m)) (Pending q') =
        takeLast MaxMessages (map (\<lambda>m. (om_ToJID m, om_Body m)) (Pending q)
          @ map (\<lambda>c. (ct_JID c, line)) (ListContacts (en_now (ce_E C)) '''' (the_book a)))
    \<and> (\<forall>c \<in> set (ListContacts (en_now (ce_E C)) '''' (the_book a)). \<not> ct_Blocked c)"
proof -
  let ?a = "a\<lparr>ap_shell := AddHistory (ce_shell C) line (ap_shell a), ap_typingSent := False\<rparr>"
  let ?cs = "ListContacts (en_now (ce_E C)) '''' (the_book a)"
  obtain q' where q': "nd_Queue (fold (queue_for C line) ?cs (ap_node a)) = Some q'"
      "map (\<lambda>m. (om_ToJID m, om_Body m)) (q_items q') =
        takeLast MaxMessages (map (\<lambda>m. (om_ToJID m, om_Body m)) (q_items q) @ map (\<lambda>c. (ct_JID c, line)) ?cs)"
      "nd_out (fold (queue_for C line) ?cs (ap_node a)) = nd_out (ap_node a)"
    using queue_for_items [of "ap_node a" q C line ?cs] assms(5,6) by (auto simp: QueueLen_def)
  have "\<exists>b m. run_command C (parse_command line) ?a = Returns (Done b)
      \<and> ap_node b = history_add (ce_E C) m (fold (queue_for C line) ?cs (ap_node a))"
    using assms(3,4) by (simp add: cmd_chat_def Let_def) blast
  then obtain b m where b: "run_command C (parse_command line) ?a = Returns (Done b)"
      "ap_node b = history_add (ce_E C) m (fold (queue_for C line) ?cs (ap_node a))" by blast
  have "\<forall>c \<in> set ?cs. \<not> ct_Blocked c" by (auto simp: ListContacts_def)
  then show ?thesis
    using run_line_done [OF assms(1,2) b(1)] b(2) q' by (auto simp: Pending_def)
qed

text \<open>
  C17. Typed text waits for everybody. When no peer is ready the line is put into the queue exactly once for every contact of the book
  that is not blocked, in the order of the contact list and behind what waits already, the oldest entries making room beyond
  a thousand; nothing is sent. In a consistent book the recipients are the JIDs that are not blocked, each once. The body that waits is the line as
  it was typed: it is encrypted when it is sent, and not before it is stored, as requirement 7.9 asks.\<close>

theorem typed_text_waits_for_contacts:
  assumes "TrimSpace line0 = line" and "line \<noteq> ''''" and "parse_command line = CChat line"
    and "filter pi_Ready (Peers (ap_node a)) = []"
    and "nd_Queue (ap_node a) = Some q" and "QueueLen q \<le> MaxMessages"
  shows "\<exists>b q'. run_line C line0 a = Returns (Done b) \<and> nd_out (ap_node b) = nd_out (ap_node a)
    \<and> nd_Queue (ap_node b) = Some q'
    \<and> map (\<lambda>m. (om_ToJID m, om_Body m)) (Pending q') =
        takeLast MaxMessages (map (\<lambda>m. (om_ToJID m, om_Body m)) (Pending q)
          @ map (\<lambda>c. (ct_JID c, line)) (ListContacts (en_now (ce_E C)) '''' (the_book a)))
    \<and> mset (ListContacts (en_now (ce_E C)) '''' (the_book a)) = filter_mset (\<lambda>c. \<not> ct_Blocked c) (mset (map snd (cb_contacts (the_book a))))
    \<and> (book_inv (the_book a) \<longrightarrow> distinct (map ct_JID (ListContacts (en_now (ce_E C)) '''' (the_book a)))
        \<and> set (map ct_JID (ListContacts (en_now (ce_E C)) '''' (the_book a))) = {jid. \<exists>c. GetContact jid (the_book a) = Some c \<and> \<not> ct_Blocked c})"
  using typed_line_queued [OF assms, of C] ListContacts_unblocked ListContacts_jids [of "the_book a"] by fast

subsection \<open>Typing\<close>

lemma fold_sendRaw_out:
  "\<exists>ws. nd_out (fold (\<lambda>c n'. sendRaw E c msg n') cs n) = nd_out n @ ws \<and> map fst ws = cs \<and> (\<forall>(c, w) \<in> set ws. m_Type w = m_Type msg)"
proof (induction cs arbitrary: n)
  case (Cons c cs)
  obtain ws where ws: "nd_out (fold (\<lambda>c n'. sendRaw E c msg n') cs (sendRaw E c msg n)) = nd_out (sendRaw E c msg n) @ ws"
      "map fst ws = cs" "\<forall>(c, w) \<in> set ws. m_Type w = m_Type msg"
    using Cons.IH by blast
  then show ?case by (intro exI [of _ "(c, wire E msg n) # ws"]) simp
qed simp

text \<open>
  The typing indicator comes after the message. Within two seconds after a line was completed, a message or any other
  command, the next tick announces to every ready peer that this user is typing; the completion of a line
  is the only thing that sets the time the tick looks at.\<close>

theorem typing_announced_after_line:
  assumes "run_line C line a = Returns (Done b)" and "nd_TypingIndicator (ap_node b)"
    and "en_now (ce_E C) < en_now E" and "en_now E < en_now (ce_E C) + 2 * Second"
  shows "\<exists>ws. nd_out (ap_node (typing_round E b)) = nd_out (ap_node b) @ ws
    \<and> map fst ws = filter (\<lambda>c. pc_sessionKey (nd_pc (ap_node b) c) \<noteq> None) (map snd (nd_conns (ap_node b)))
    \<and> (\<forall>(c, w) \<in> set ws. m_Type w = MsgTyping)"
proof -
  have b: "\<not> ap_typingSent b" "ap_lastInput b = en_now (ce_E C)"
    using links.line_after(2) [OF assms(1)] by auto
  have "Sub (en_now E) (en_now (ce_E C)) = en_now E - en_now (ce_E C)"
    using assms(3,4) by (intro Sub_exact) (simp_all add: minDuration_def maxDuration_def)
  then have "ap_node (typing_round E b) = SendTyping E (ap_node b)"
    using assms(3,4) b by (simp add: typing_round_def Let_def)
  then show ?thesis
    using assms(2) fold_sendRaw_out [of E "(from_me MsgTyping (ap_node b))\<lparr>m_DeviceID := nd_DeviceID (ap_node b)\<rparr>"
        "filter (\<lambda>c. pc_sessionKey (nd_pc (ap_node b) c) \<noteq> None) (map snd (nd_conns (ap_node b)))" "ap_node b"]
    by (simp add: SendTyping_def)
qed

subsection \<open>Blocking\<close>

lemma parse_block: "no_space jid \<Longrightarrow> parse_command (''/block '' @ jid) = CBlock jid"
  unfolding parse_command_def branch_defs by (simp add: argument_def TrimSpace_plain)

text \<open>
  C18. Blocking works at once. After \<^verbatim>\<open>/block\<close> with the JID of a contact, whatever chat message arrives on a connection of that
  contact shows nothing, stores nothing and answers nothing.\<close>

theorem block_command_silences:
  assumes "no_space jid" and "list_all ascii jid" and "jid \<noteq> ''''" and "GetContact jid (the_book a) = Some c"
  shows "\<exists>b. run_line C (''/block '' @ jid) a = Returns (Done b) \<and> blocked jid (ap_node b)
    \<and> (\<forall>E k msg n'. m_Type msg = MsgChat \<longrightarrow> pc_jid (nd_pc (ap_node b) k) = jid \<longrightarrow> handleMessage E k msg (ap_node b) = Returns n' \<longrightarrow>
        nd_events n' = nd_events (ap_node b) \<and> nd_History n' = nd_History (ap_node b) \<and> nd_out n' = nd_out (ap_node b))"
proof -
  let ?line = "''/block '' @ jid"
  let ?a = "a\<lparr>ap_shell := AddHistory (ce_shell C) ?line (ap_shell a), ap_typingSent := False\<rparr>"
  have "last jid \<in> set jid" using assms(3) by simp
  then have "byte_of (last jid) \<notin> {9, 10, 11, 12, 13, 32}" "byte_of (last jid) < 128"
    using assms(1,2) by (auto simp: list_all_iff ascii_def)
  then have trim: "TrimSpace ?line = ?line"
    using assms(3) by (intro TrimSpace_ends) (simp_all add: byte_of_def)
  define book where "book = snd (SetBlocked (en_cw (ce_E C)) jid True (the_book a))"
  have book: "SetBlocked (en_cw (ce_E C)) jid True (the_book a) = (Inr (), book)" "IsBlocked jid book"
    using assms(4) by (simp_all add: book_def SetBlocked_def with_contact_def GetContact_def IsBlocked_def contacts_save_def)
  then obtain b0 where b0: "run_command C (parse_command ?line) ?a = Returns (Done b0)" "nd_Contacts (ap_node b0) = Some book"
    unfolding parse_block [OF assms(1)] by (simp add: book_command_def set_book_def)
  define b where "b = b0\<lparr>ap_lastInput := en_now (ce_E C)\<rparr>"
  have "run_line C ?line a = Returns (Done b)" using run_line_done [OF trim _ b0(1)] by (simp add: b_def)
  moreover have "blocked jid (ap_node b)" using b0(2) book(2) by (simp add: blocked_def b_def)
  ultimately show ?thesis using blocked_chat_ignored by blast
qed

subsection \<open>A second device\<close>

lemma restored_key:
  assumes "load_identity (rs_P R) (pl_PrivateKeyHex p) = Inr i" and "pl_PrivateKeyHex p \<noteq> ''''" and "rs_identity R = Written"
  shows "\<exists>h'. restoreBackupPayload R p h = (None, h') \<and> hd_identity h' = Doc (EncodeToString (id_rawPriv i))"
  using assms restored_identity(1) [OF assms(1), of "hd_identity h"] by (simp add: restoreBackupPayload_def Let_def)

text \<open>
  C20. Moving to a second device. The backup that \<^verbatim>\<open>/export-data\<close> writes on one device and \<^verbatim>\<open>/import-data\<close> reads on another, with the
  same password of at least eight bytes, gives the second device at its next start the identity of the
  first.\<close>

theorem backup_moves_identity:
  assumes "hd_identity (ap_home a) = Doc key" and "key \<noteq> ''''" and "load_identity (rs_P (ce_R C')) key = Inr i"
    and "hmac_len (be_hmac (ce_B C))" and "gcm_opens (be_P (ce_B C))"
    and "buildBackupPayload (ap_home a) = Inr payload" and "be_marshal (ce_B C) payload = Some plain"
    and "be_salt (ce_B C) = Some salt" and "be_nonce (ce_B C) = Some nonce" and "length nonce = NonceSize"
    and "be_save (ce_B C) = Written" and "8 \<le> length (ce_password C)"
    and "be_P (ce_B C') = be_P (ce_B C)" and "be_hmac (ce_B C') = be_hmac (ce_B C)" and "ce_password C' = ce_password C"
    and "be_unmarshal (ce_B C') plain = Some payload'" and "pl_PrivateKeyHex payload' = pl_PrivateKeyHex payload"
    and "rs_identity (ce_R C') = Written"
  shows "\<exists>b b'. run_command C (CExportData dest) a = Returns (Done b)
    \<and> run_command C' (CImportData src) (a'\<lparr>ap_backups := (ap_backups a')(src := ap_backups b dest)\<rparr>) = Returns (Done b')
    \<and> fst (LoadOrCreate (rs_P (ce_R C')) gen w (hd_identity (ap_home b'))) = Inr i"
proof -
  obtain f' where f': "Export (ce_B C) (ce_password C) payload (ap_backups a dest) = Some (None, f')"
      "Import (ce_B C') (ce_password C) f' = Some (Inr payload')"
    using export_import [OF assms(4,5,7-11,13,14,16,12), of "ap_backups a dest"] by blast
  obtain b where b: "run_command C (CExportData dest) a = Returns (Done b)" "ap_backups b dest = f'"
    using f'(1) assms(6) by (simp add: cmd_export_data_def export_payload_def AuditLog_def say_def Let_def)
  have "pl_PrivateKeyHex payload' = key"
    using assms(1,6,17) by (auto simp: buildBackupPayload_def)
  then obtain h' where h': "restoreBackupPayload (ce_R C') payload' (ap_home a') = (None, h')" "hd_identity h' = Doc (EncodeToString (id_rawPriv i))"
    using restored_key [of "ce_R C'" payload' i "ap_home a'"] assms(2,3,18) by auto
  have "\<exists>b'. run_command C' (CImportData src) (a'\<lparr>ap_backups := (ap_backups a')(src := ap_backups b dest)\<rparr>) = Returns (Done b')
      \<and> ap_home b' = h'"
    using f'(2) h'(1) assms(15) b(2) by (simp add: cmd_import_data_def AuditLog_def say_def)
  moreover have "fst (LoadOrCreate (rs_P (ce_R C')) gen w (hd_identity h')) = Inr i"
    using h'(2) restored_identity(2) [OF assms(3)] by (simp add: LoadOrCreate_def)
  ultimately show ?thesis using b(1) by blast
qed

subsection \<open>Witnesses\<close>

definition sample_cenv :: cenv where
  "sample_cenv = \<lparr>ce_E = sample_env, ce_fmt = (\<lambda>_ _. ''now''), ce_dur = (\<lambda>_. None), ce_durstr = (\<lambda>_. ''1h''), ce_exists = (\<lambda>_. True),
     ce_home = ''/home/ann'', ce_stun = ''stun:1'', ce_dial = None, ce_unbundle = (\<lambda>_. None), ce_bundle = (\<lambda>_. None),
     ce_candjson = (\<lambda>_. ''[]''), ce_interfaces = None, ce_internet = None, ce_port = 9999,
     ce_password = ''password'', ce_B = toy_backup, ce_R = toy_restore, ce_audit = True, ce_shell = Written\<rparr>"

definition sample_app :: "Node \<Rightarrow> App" where
  "sample_app n = \<lparr>ap_node = n, ap_cfg = zero_config,
     ap_shell = \<lparr>sh_history = [], sh_commands = [], sh_contacts = None, sh_file = Absent\<rparr>, ap_mode = TimestampAbsolute,
     ap_home = \<lparr>hd_identity = Doc (EncodeToString sample_key), hd_config = Absent, hd_contacts = Absent, hd_history = Absent\<rparr>,
     ap_backups = (\<lambda>_. Absent), ap_audit = [], ap_out = [], ap_jobs = [], ap_lastInput = 0, ap_typingSent = False\<rparr>"

definition sample_stores :: Node where
  "sample_stores = ann\<lparr>nd_Contacts := Some \<lparr>cb_contacts = [(''j'', toy_contact ''j'')], cb_file = Absent\<rparr>,
     nd_Queue := Some \<lparr>q_items = [], q_file = Absent\<rparr>, nd_Groups := Some \<lparr>st_rooms = [], st_file = Absent\<rparr>,
     nd_History := Some \<lparr>h_maxSize = 10, h_messages = [], h_ttl = 0, h_totalStored = 0, h_tailOnly = False, h_file = Absent\<rparr>\<rparr>"

definition online :: App where "online = sample_app (linked ''bob'' ''j'' ''b:1'' sample_session sample_stores)"
definition offline :: App where "offline = sample_app sample_stores"

lemma sample_cenv_fields [simp]:
  "ce_E sample_cenv = sample_env" "ce_B sample_cenv = toy_backup" "ce_R sample_cenv = toy_restore" "ce_password sample_cenv = ''password''"
  by (simp_all add: sample_cenv_def)

lemma sample_app_fields [simp]:
  "ap_node online = linked ''bob'' ''j'' ''b:1'' sample_session sample_stores" "ap_node offline = sample_stores"
  "ap_home online = \<lparr>hd_identity = Doc (EncodeToString sample_key), hd_config = Absent, hd_contacts = Absent, hd_history = Absent\<rparr>"
  "nd_out sample_stores = []" "nd_conns sample_stores = []" "nd_Queue sample_stores = Some \<lparr>q_items = [], q_file = Absent\<rparr>"
  "nd_Contacts sample_stores = Some \<lparr>cb_contacts = [(''j'', toy_contact ''j'')], cb_file = Absent\<rparr>"
  by (simp_all add: online_def offline_def sample_app_def sample_stores_def)

lemma hi_line: "TrimSpace ''hi'' = ''hi''" "parse_command ''hi'' = CChat ''hi''"
  by code_simp (simp add: parse_command_def branch_defs)

lemma sample_ready: "filter pi_Ready (Peers (ap_node online)) \<noteq> []" "filter pi_Ready (Peers (ap_node offline)) = []"
  by (simp_all add: Peers_def Let_def)

lemma sample_keys: "\<forall>c k. pc_sessionKey (nd_pc (ap_node online) c) = Some k \<longrightarrow> length k = 32"
  by (auto simp: linked_def sample_stores_def ann_def NewNode_def sample_session_def)

theorem typed_text_reaches_ready_peers_witness:
  "\<exists>b w. run_line sample_cenv ''hi'' online = Returns (Done b) \<and> nd_out (ap_node b) = [(0, w)] \<and> carries toy sample_session ''hi'' w"
proof -
  have free: "\<not> blocked ''j'' (ap_node online)"
    by (simp add: blocked_def IsBlocked_def toy_contact_def)
  show ?thesis
    using typed_text_reaches_ready_peers [OF hi_line(1) _ hi_line(2) sample_ready(1) _ _ _ sample_keys, of sample_cenv] sample_good free
    by (auto simp: map_eq_Cons_conv)
qed

theorem typed_text_waits_for_contacts_witness:
  "book_inv (the_book offline) \<and>
   (\<exists>b q'. run_line sample_cenv ''hi'' offline = Returns (Done b) \<and> nd_Queue (ap_node b) = Some q'
     \<and> map (\<lambda>m. (om_ToJID m, om_Body m)) (Pending q') = [(''j'', ''hi'')])"
proof -
  have list: "ListContacts 1000000000 '''' (the_book offline) = [toy_contact ''j'']"
    by (simp add: the_book_def ListContacts_def toy_contact_def)
  have inv: "book_inv (the_book offline)"
    by (simp add: the_book_def book_inv_def goMap_def toy_contact_def)
  have q: "nd_Queue (ap_node offline) = Some \<lparr>q_items = [], q_file = Absent\<rparr>"
      "QueueLen \<lparr>q_items = [], q_file = Absent\<rparr> \<le> MaxMessages"
    by (simp_all add: QueueLen_def)
  have hi: "''hi'' \<noteq> ''''" by simp
  obtain b q' where b: "run_line sample_cenv ''hi'' offline = Returns (Done b)" "nd_Queue (ap_node b) = Some q'"
      and items: "map (\<lambda>m. (om_ToJID m, om_Body m)) (Pending q') =
        takeLast MaxMessages (map (\<lambda>m. (om_ToJID m, om_Body m)) (Pending \<lparr>q_items = [], q_file = Absent\<rparr>)
          @ map (\<lambda>c. (ct_JID c, ''hi'')) (ListContacts (en_now (ce_E sample_cenv)) '''' (the_book offline)))"
    using typed_text_waits_for_contacts [OF hi_line(1) hi hi_line(2) sample_ready(2) q, of sample_cenv] by blast
  have "map (\<lambda>m. (om_ToJID m, om_Body m)) (Pending q') = [(''j'', ''hi'')]"
    using items list by (simp add: Pending_def takeLast_def toy_contact_def)
  with b show ?thesis by (intro conjI [OF inv] exI [of _ b] exI [of _ q'] conjI)
qed

lemma online_line: "\<exists>b. run_line sample_cenv ''hi'' online = Returns (Done b)"
  using sample_ready(1) by (simp add: run_line_def hi_line Let_def cmd_chat_def split: prod.split)

theorem commands_keep_sessions_witness:
  "\<exists>r. run_line sample_cenv ''hi'' online = Returns r \<and> nd_conns (ap_node (app_of r)) = [(''b:1'', 0)]"
  using online_line commands_keep_sessions [of sample_cenv "''hi''" online] by auto

theorem stores_stay_open_witness:
  "\<exists>b. run_lines [(sample_cenv, ''hi''), (sample_cenv, '''')] online = Returns b \<and> nd_Queue (ap_node b) \<noteq> None"
proof -
  have "\<exists>b. run_lines [(sample_cenv, ''hi''), (sample_cenv, '''')] online = Returns b"
    using online_line by (auto simp: app_of_def) (simp add: run_line_def)
  then show ?thesis
    using stores_stay_open [of "[(sample_cenv, ''hi''), (sample_cenv, '''')]" online] by (auto simp: sample_stores_def)
qed

theorem block_command_silences_witness:
  "\<exists>b. run_line sample_cenv ''/block j'' online = Returns (Done b) \<and> blocked ''j'' (ap_node b)"
  using block_command_silences [of "''j''" online "toy_contact ''j''" sample_cenv]
  by (auto simp: ascii_def the_book_def GetContact_def byte_of_def)

theorem typing_announced_after_line_witness:
  "\<exists>b w. run_line sample_cenv ''/help'' online = Returns (Done b)
     \<and> nd_out (ap_node (typing_round (sample_env\<lparr>en_now := 1500000000\<rparr>) b)) = nd_out (ap_node b) @ [(0, w)] \<and> m_Type w = MsgTyping"
proof -
  let ?E = "sample_env\<lparr>en_now := 1500000000\<rparr>"
  have "TrimSpace ''/help'' = ''/help''" by code_simp
  then obtain b where b: "run_line sample_cenv ''/help'' online = Returns (Done b)" "ap_node b = ap_node online"
    by (simp add: run_line_def parse_command_def branch_defs say_def)
  show ?thesis
    using typing_announced_after_line [OF b(1), of ?E] b
    by (auto simp: map_eq_Cons_conv sample_stores_def linked_def ann_def NewNode_def)
qed

theorem backup_moves_identity_witness:
  "\<exists>b b' i. run_command sample_cenv (CExportData ''out'') online = Returns (Done b)
     \<and> run_command sample_cenv (CImportData ''in'') (offline\<lparr>ap_backups := (ap_backups offline)(''in'' := ap_backups b ''out'')\<rparr>) = Returns (Done b')
     \<and> fst (LoadOrCreate toy None Written (hd_identity (ap_home b'))) = Inr i \<and> id_rawPriv i = sample_key"
proof -
  obtain i where i: "load_identity toy (EncodeToString sample_key) = Inr i" "id_rawPriv i = sample_key"
    by (simp add: load_identity_def fromRawPrivate_def sample_key_def Let_def)
  obtain payload where p: "buildBackupPayload (ap_home online) = Inr payload" "pl_PrivateKeyHex payload = EncodeToString sample_key"
    by (simp add: buildBackupPayload_def)
  show ?thesis
    using backup_moves_identity [of online "EncodeToString sample_key" sample_cenv i sample_cenv payload "EncodeToString sample_key"
        "replicate 16 CHR ''s''" "replicate 12 CHR ''n''" "toy_payload\<lparr>pl_PrivateKeyHex := EncodeToString sample_key\<rparr>"
        "''out''" "''in''" offline None Written] p i toy_hmac_len toy_ok
    by (auto simp: toy_backup_def toy_restore_def sample_key_def EncodeToString_def)
qed

end
