(* ===== verification/Main_Run.thy ===== *)
theory Main_Run
  imports Main_Session Node_Session
begin

text \<open>
  The program as a whole, the second half of \<^verbatim>\<open>main\<close> in \<^verbatim>\<open>src/main.go\<close>: how it goes online, what it shows when a message arrives, and
  a run, in which typed lines, the node's own steps and the two tickers alternate. \<open>node_round\<close> is a step of
  the node with the callbacks it makes; callbacks render with the history as it is before the message is stored, because
  the handlers of the node call them first. What the node prints itself is not part of the screen.
\<close>


subsection \<open>Going online\<close>

text \<open>
  \<^verbatim>\<open>Node.Start\<close>: the listeners that are opened; an argument is the error of \<^verbatim>\<open>net.Listen\<close>, \<open>None\<close> for success. Accepting and the
  goroutine of each connection are \<open>handleIncoming\<close>.\<close>

definition NodeStart :: "string option \<Rightarrow> string option \<Rightarrow> string option \<Rightarrow> string + string list" where
  "NodeStart listen4 listen6 listen =
     (let listeners = (if listen4 = None then [''tcp4''] else []) @ (if listen6 = None then [''tcp6''] else [])
      in if listeners = []
         then (case listen of Some err \<Rightarrow> Inl err | None \<Rightarrow> Inr [''tcp''])
         else Inr listeners)"

record net_flags =
  nf_noDiscovery :: bool
  nf_connect :: string
  nf_connectPublic :: string
  nf_stunServer :: string
  nf_port :: int
  nf_discoveryPort :: int

record net_env =
  ne_listen4 :: "string option"
  ne_listen6 :: "string option"
  ne_listen :: "string option"
  ne_udp :: "string option"
  ne_stun :: stun_io

text \<open>A goroutine that runs beside the loop.\<close>

datatype service = TypingCleaner | Heartbeats | Discovering | Dialling string | DiallingPublic string | TypingTicker | ExpiryTicker

definition services :: "bool \<Rightarrow> net_flags \<Rightarrow> service list" where
  "services typing f =
     (if typing then [TypingCleaner] else []) @ [Heartbeats] @
     (if nf_noDiscovery f then [] else [Discovering]) @
     (if nf_connect f \<noteq> '''' then [Dialling (nf_connect f)] else []) @
     (if nf_connectPublic f \<noteq> '''' then [DiallingPublic (nf_connectPublic f)] else []) @
     (if typing then [TypingTicker] else []) @ [ExpiryTicker]"

definition start_internet :: "cenv \<Rightarrow> net_env \<Rightarrow> net_flags \<Rightarrow> App \<Rightarrow> (App \<times> InternetTransport option) outcome" where
  "start_internet C N f a =
     (let a1 = set_node (status_set (ce_E C) PhaseTraversing (''querying STUN '' @ nf_stunServer f) (ap_node a)) a
      in bind_outcome (StartInternet (ne_udp N) (ne_stun N) (nf_stunServer f)) (\<lambda>r.
           case r of
             Inl err \<Rightarrow> Returns (say [ShFailure (HumanizeError (en_uni (ce_E C)) (Some err))] a1, None)
           | Inr it \<Rightarrow>
               let addr = PublicAddrString (it_pubAddr it);
                   a2 = set_node (status_set (ce_E C) PhaseConnected (''internet mode, public '' @ addr) (ap_node a1)) a1
               in Returns (say ([ShSuccess (''internet mode active. Public address: '' @ addr),
                    ShHint (''Share candidates so the peer can try LAN '' @ to_right @ '' IPv6 '' @ to_right @ '' public '' @ to_right @ '' punching.'')] @
                    printCandidates (C\<lparr>ce_internet := Some it\<rparr>) (ap_node a2)) a2, Some it)))"

text \<open>The names that the shell completes: what the provider answers now.\<close>

definition contact_names :: "gotime \<Rightarrow> ContactBook \<Rightarrow> string list" where
  "contact_names now b = map GetDisplayName (ListContacts now '''' b)"

text \<open>The state of the loop when it starts; the files of the shell, of the backups and of the audit log are as they are found.\<close>

definition first_app :: "gotime \<Rightarrow> started \<Rightarrow> string stored \<Rightarrow> home_dir \<Rightarrow> (string \<Rightarrow> BackupBundle stored) \<Rightarrow> auditEntry list \<Rightarrow> App" where
  "first_app now d shell_file home backups audit =
     (let n = sd_node d;
          names = (case nd_Contacts n of None \<Rightarrow> [] | Some b \<Rightarrow> contact_names now b)
      in \<lparr>ap_node = n, ap_cfg = sd_cfg d, ap_shell = SetContactProvider names (NewShell shell_file commands),
          ap_mode = TimestampAbsolute, ap_home = home, ap_backups = backups, ap_audit = audit, ap_out = [], ap_jobs = [],
          ap_lastInput = 0, ap_typingSent = False\<rparr>)"

definition go_online ::
    "cenv \<Rightarrow> net_env \<Rightarrow> net_flags \<Rightarrow> bool \<Rightarrow> App \<Rightarrow> (string + App \<times> InternetTransport option \<times> service list) outcome" where
  "go_online C N f internet a =
     (let n = ap_node a in
      case NodeStart (ne_listen4 N) (ne_listen6 N) (ne_listen N) of
        Inl err \<Rightarrow> Returns (Inl (HumanizeError (en_uni (ce_E C)) (Some err)))
      | Inr listeners \<Rightarrow>
          let a1 = (if nf_noDiscovery f then a
                    else set_node (status_set (ce_E C) PhaseDiscovering ''broadcasting on LAN'' n) a)
          in bind_outcome (if internet then start_internet C N f a1 else Returns (a1, None)) (\<lambda>(a2, it).
               Returns (Inr (say (printBanner (nd_Name n) (JID_of n) (LID_of n) (nf_port f) (nf_discoveryPort f)
                   (int (QueueLen (the_queue a2)))) a2, it, services (nd_TypingIndicator n) f))))"

subsection \<open>What arrives is shown\<close>

record Program =
  pg_app :: App
  pg_notes :: "string list list"

record screen_env =
  sc_C :: cenv
  sc_os :: platform
  sc_has :: "string \<Rightarrow> bool"

definition show_incoming :: "screen_env \<Rightarrow> string \<Rightarrow> string \<Rightarrow> string \<Rightarrow> string \<Rightarrow> Program \<Rightarrow> Program" where
  "show_incoming S name body title text p =
     (let E = ce_E (sc_C S); a = pg_app p
      in p\<lparr>pg_app := say [ShLine '''', ShLine (Incoming (ce_fmt (sc_C S)) (en_now E) name body (en_now E) (ap_mode a)), ShLine ''> ''] a,
           pg_notes := pg_notes p @ (case NotifySend (sc_os S) (sc_has S) title text of None \<Rightarrow> [] | Some cmd \<Rightarrow> [cmd])\<rparr>)"

definition OnChat :: "screen_env \<Rightarrow> string \<Rightarrow> string \<Rightarrow> Program \<Rightarrow> Program" where
  "OnChat S peerName body = show_incoming S peerName body (''korik: '' @ peerName) body"

definition OnGroupChat :: "screen_env \<Rightarrow> History \<Rightarrow> string \<Rightarrow> string \<Rightarrow> string \<Rightarrow> string \<Rightarrow> Program \<Rightarrow> Program outcome" where
  "OnGroupChat S hist groupID peerName body replyTo p =
     bind_outcome (renderReply hist replyTo body) (\<lambda>txt.
       Returns (show_incoming S (''['' @ groupID @ ''] '' @ peerName) txt (''korik ['' @ groupID @ '']: '' @ peerName) body p))"

fun callback :: "screen_env \<Rightarrow> History \<Rightarrow> event \<Rightarrow> Program \<Rightarrow> Program outcome" where
  "callback S hist (ChatEv lid jid name body) p = Returns (OnChat S name body p)"
| "callback S hist (GroupChatEv gid lid jid name body replyTo) p = OnGroupChat S hist gid name body replyTo p"
| "callback S hist ev p = Returns p"

fun callbacks :: "screen_env \<Rightarrow> History \<Rightarrow> event list \<Rightarrow> Program \<Rightarrow> Program outcome" where
  "callbacks S hist [] p = Returns p"
| "callbacks S hist (ev # evs) p = bind_outcome (callback S hist ev p) (callbacks S hist evs)"

text \<open>A step that made \<open>n'\<close> of the node.\<close>

definition node_round :: "screen_env \<Rightarrow> Node \<Rightarrow> Program \<Rightarrow> Program outcome" where
  "node_round S n' p =
     (let a = pg_app p
      in callbacks S (the_history a) (drop (length (nd_events (ap_node a))) (nd_events n')) (p\<lparr>pg_app := set_node n' a\<rparr>))"

text \<open>\<open>readPasswordLine\<close>: \<open>hidden\<close> is what \<^verbatim>\<open>term.ReadPassword\<close> answers; its failure falls back to a line of the input.\<close>

definition readPasswordLine :: "bool \<Rightarrow> string option \<Rightarrow> string \<Rightarrow> string" where
  "readPasswordLine isTerminal hidden line =
     (case (if isTerminal then hidden else None) of Some password \<Rightarrow> TrimSpace password | None \<Rightarrow> TrimSpace line)"

subsection \<open>The run\<close>

text \<open>One round of the loop with what \<^verbatim>\<open>ReadLine\<close> answers.\<close>

datatype read_result = LineRead string | AtEOF | ReadFault string

definition loop_round :: "cenv \<Rightarrow> read_result \<Rightarrow> App \<Rightarrow> ending outcome" where
  "loop_round C r a =
     (case r of
        LineRead line \<Rightarrow> run_line C line a
      | AtEOF \<Rightarrow> Returns (Return (say [ShSystem ''bye''] a))
      | ReadFault err \<Rightarrow> Returns (Continue (say [ShFailure (HumanizeError (en_uni (ce_E C)) (Some err))] a)))"

definition stays :: "ending \<Rightarrow> bool" where
  "stays r = (case r of Return a \<Rightarrow> False | _ \<Rightarrow> True)"

inductive program_step :: "primitives \<Rightarrow> Program \<Rightarrow> Program \<Rightarrow> bool" for P :: primitives where
  typed: "loop_round C i (pg_app p) = Returns r \<Longrightarrow> stays r \<Longrightarrow> program_step P p (p\<lparr>pg_app := app_of r\<rparr>)"
| node: "node_step P (ap_node (pg_app p)) n' \<Longrightarrow> node_round S n' p = Returns p' \<Longrightarrow> program_step P p p'"
| typing: "program_step P p (p\<lparr>pg_app := typing_round E (pg_app p)\<rparr>)"
| expiry: "program_step P p (p\<lparr>pg_app := expiry_round E (pg_app p)\<rparr>)"

inductive program :: "primitives \<Rightarrow> App \<Rightarrow> Program \<Rightarrow> bool" for P a where
  launched: "program P a \<lparr>pg_app = a, pg_notes = []\<rparr>"
| continued: "program P a p \<Longrightarrow> program_step P p p' \<Longrightarrow> program P a p'"

subsection \<open>Invariants of every run\<close>

lemma node_step_keeps: "node_step P n n' \<Longrightarrow> keeps_stores n n'"
  by (erule node_stepE) (auto intro: keeps keeps_handleMessage)

lemma renderReply_returns: "\<exists>txt. renderReply hist re body = Returns txt"
  by (auto simp: renderReply_def Truncate_def split: option.splits)

lemma show_incoming_node [simp]: "ap_node (pg_app (show_incoming S name body title txt p)) = ap_node (pg_app p)"
  by (simp add: show_incoming_def say_def Let_def)

text \<open>The callbacks always return and leave the node alone.\<close>

lemma callbacks_node: "\<exists>q. callbacks S hist evs p = Returns q \<and> ap_node (pg_app q) = ap_node (pg_app p)"
proof (induction evs arbitrary: p)
  case (Cons ev evs)
  obtain q where "callback S hist ev p = Returns q" "ap_node (pg_app q) = ap_node (pg_app p)"
  proof (cases ev)
    case (GroupChatEv gid lid jid name body re)
    then show ?thesis
      using that renderReply_returns [of hist re body] by (auto simp: OnGroupChat_def)
  qed (use that in \<open>simp_all add: OnChat_def\<close>)
  then show ?case using Cons.IH [of q] by auto
qed simp

lemma node_round_node: "\<exists>q. node_round S n' p = Returns q \<and> ap_node (pg_app q) = n'"
  using callbacks_node [of S _ _ "p\<lparr>pg_app := set_node n' (pg_app p)\<rparr>"] by (simp add: node_round_def Let_def)

lemma loop_round_frame:
  assumes "loop_round C i a = Returns r"
  shows "same_links (ap_node a) (ap_node (app_of r))" "keeps_stores (ap_node a) (ap_node (app_of r))"
  using assms links.line_after(1) stores.line_after(1)
  by (auto simp: loop_round_def app_of_def split: read_result.splits)

text \<open>Each step of the program is one of the node, or leaves its links alone.\<close>

lemma program_step_node:
  assumes "program_step P p p'"
  shows "keeps_stores (ap_node (pg_app p)) (ap_node (pg_app p'))
    \<and> (same_links (ap_node (pg_app p)) (ap_node (pg_app p')) \<or> node_step P (ap_node (pg_app p)) (ap_node (pg_app p')))"
  using assms
proof (cases rule: program_step.cases)
  case (typed C i r)
  then show ?thesis using loop_round_frame by simp
next
  case (node n' S)
  then have "ap_node (pg_app p') = n'" using node_round_node [of S n' p] by auto
  then show ?thesis using node node_step_keeps by simp
next
  case (typing E)
  then show ?thesis by (auto simp: typing_round_def Let_def intro: keeps links)
next
  case (expiry E)
  then show ?thesis
    by (auto simp: expiry_round_def set_history_def keeps_stores_def history_kept_def the_history_def same_links_def le_max_iff_disj
        split: option.splits)
qed

lemma program_node:
  assumes "program P a p" and "node_inv P (ap_node a)"
  shows "node_inv P (ap_node (pg_app p)) \<and> nd_Identity (ap_node (pg_app p)) = nd_Identity (ap_node a)
    \<and> keeps_stores (ap_node a) (ap_node (pg_app p))"
  using assms
proof (induction rule: program.induct)
  case (continued p p')
  then show ?case
    using program_step_node [OF continued.hyps(2)] node_inv_links node_inv_step node_step_identity same_linksD(5) keeps_trans
    by metis
qed simp

subsection \<open>From the start\<close>

lemma start_history:
  assumes "start_node S g f = Returns (Inr d)"
  shows "\<exists>h. nd_History (sd_node d) = Some h \<and> hlen h \<le> 500 \<and> h_maxSize h = overlay (cf_HistorySize (sd_cfg d)) (fg_historySize g)"
proof -
  have tail: "hlen h \<le> 500 \<and> h_maxSize h = m" if "NewWithTail now f m 500 = Inr h" for now f m h
    using that by (auto simp: NewWithTail_def history_load_def Let_def pruneExpiredLocked_eq split: stored.splits if_splits)
  have prune: "hlen (snd (PruneExpired w now h)) \<le> 500" if "hlen h \<le> 500" for w now h
    using that by (simp add: order_trans [OF length_filter_le])
  show ?thesis
    using assms tail prune
    by (fastforce simp: start_node_def start_stores_def open_node_def Let_def elim!: bind_outcome_Returns split: sum.splits prod.splits)
qed

lemma start_inv:
  assumes "start_node S g f = Returns (Inr d)"
  shows "node_inv P (sd_node d)"
  using assms
  by (rule start_nodeE) (simp add: open_node_def NewNode_def node_inv_def session_ok_def seen_inv_New Let_def)

lemma status_set_frame [simp]: "same_links n (status_set E ph de n') = same_links n n'" "keeps_stores n (status_set E ph de n') = keeps_stores n n'"
  by (simp_all add: links_simps)

lemma go_online_node:
  assumes "go_online C N f internet a = Returns (Inr (b, it, svs))"
  shows "same_links (ap_node a) (ap_node b)" "keeps_stores (ap_node a) (ap_node b)"
  using assms
  by (auto simp: go_online_def start_internet_def Let_def elim!: bind_outcome_Returns split: sum.splits if_splits)

subsection \<open>Properties\<close>

text \<open>
  C4. What holds in every run of the program. However a started program goes online, and whatever lines are typed, messages arrive and
  tickers fire in whatever order: the node keeps the identity it started with and all four stores; the queue never
  grows beyond a thousand messages, or what its file held; with a positive history size the window never exceeds
  that size, or the 500 messages it was opened with; and each session belongs to the key that is announced in its JID.\<close>

theorem program_invariant:
  assumes "start_node S g f = Returns (Inr d)" and "go_online C N nf internet (first_app now d sf home bk au) = Returns (Inr (a, it, svs))"
    and "program P a p" and "sha_len P"
  shows "nd_Identity (ap_node (pg_app p)) = nd_Identity (sd_node d)
    \<and> nd_Contacts (ap_node (pg_app p)) \<noteq> None \<and> nd_Groups (ap_node (pg_app p)) \<noteq> None
    \<and> (\<exists>q. nd_Queue (ap_node (pg_app p)) = Some q \<and> QueueLen q \<le> max MaxMessages (QueueLen (NewQueue (kf_queue f))))
    \<and> (\<exists>h. nd_History (ap_node (pg_app p)) = Some h
        \<and> (0 < overlay (cf_HistorySize (sd_cfg d)) (fg_historySize g) \<longrightarrow> hlen h \<le> max (overlay (cf_HistorySize (sd_cfg d)) (fg_historySize g)) 500))
    \<and> (\<forall>c k. pc_sessionKey (nd_pc (ap_node (pg_app p)) c) = Some k \<longrightarrow> length k = 32
        \<and> (\<exists>h pub. pc_jid (nd_pc (ap_node (pg_app p)) c) = JIDFromPublicKeyHex h \<and> ParsePeerPublicKey h = Some pub
            \<and> key_lineage P (id_rawPriv (nd_Identity (sd_node d))) pub k))"
proof -
  let ?n = "ap_node (pg_app p)"
  have first: "ap_node (first_app now d sf home bk au) = sd_node d" by (simp add: first_app_def Let_def)
  note online = go_online_node [OF assms(2), unfolded first]
  have "node_inv P (ap_node a)" using start_inv [OF assms(1)] online(1) node_inv_links by blast
  from program_node [OF assms(3) this] online
  have inv: "node_inv P ?n" "nd_Identity ?n = nd_Identity (sd_node d)" "keeps_stores (sd_node d) ?n"
    using keeps_trans same_linksD(5) by metis+
  obtain i h b s where d: "nd_Queue (sd_node d) = Some (NewQueue (kf_queue f))" "nd_Contacts (sd_node d) = Some b" "nd_Groups (sd_node d) = Some s"
    using assms(1) by (rule start_nodeE) (simp add: open_node_def NewNode_def Let_def)
  obtain h where h: "nd_History (sd_node d) = Some h" "hlen h \<le> 500" "h_maxSize h = overlay (cf_HistorySize (sd_cfg d)) (fg_historySize g)"
    using start_history [OF assms(1)] by blast
  have sess: "session_ok P (id_rawPriv (nd_Identity (sd_node d))) (nd_pc ?n c)" for c using inv by (simp add: node_inv_def)
  have "length k = 32 \<and> (\<exists>h pub. pc_jid (nd_pc ?n c) = JIDFromPublicKeyHex h \<and> ParsePeerPublicKey h = Some pub
            \<and> key_lineage P (id_rawPriv (nd_Identity (sd_node d))) pub k)" if "pc_sessionKey (nd_pc ?n c) = Some k" for c k
    using sess [of c] that key_lineage_len [OF _ assms(4)] by (auto simp: session_ok_def)
  moreover obtain h' where h': "nd_History ?n = Some h'" "h_maxSize h' = h_maxSize h" "0 < h_maxSize h \<longrightarrow> hlen h' \<le> max (h_maxSize h) (hlen h)"
    using inv(3) h(1) by (auto simp: keeps_stores_def history_kept_def)
  moreover have "nd_Contacts ?n \<noteq> None" "nd_Groups ?n \<noteq> None"
    "\<exists>q. nd_Queue ?n = Some q \<and> QueueLen q \<le> max MaxMessages (QueueLen (NewQueue (kf_queue f)))"
    using inv(3) d by (auto simp: keeps_stores_def queue_kept_def)
  moreover have "0 < h_maxSize h \<longrightarrow> hlen h' \<le> max (h_maxSize h) 500" using h'(3) h(2) by linarith
  ultimately show ?thesis using inv(2) h(3) by auto
qed

lemma show_incoming_out:
  "ap_out (pg_app (show_incoming S name body title txt p)) = ap_out (pg_app p) @
     [ShLine '''', ShLine (Incoming (ce_fmt (sc_C S)) (en_now (ce_E (sc_C S))) name body (en_now (ce_E (sc_C S))) (ap_mode (pg_app p))), ShLine ''> '']"
  "pg_notes (show_incoming S name body title txt p) = pg_notes p @ (case NotifySend (sc_os S) (sc_has S) title txt of None \<Rightarrow> [] | Some cmd \<Rightarrow> [cmd])"
  by (simp_all add: show_incoming_def say_def Let_def)

text \<open>The screen after a message that opens to \<open>text\<close> was handled.\<close>

definition screen_shows :: "screen_env \<Rightarrow> nat \<Rightarrow> Message \<Rightarrow> string \<Rightarrow> Program \<Rightarrow> Program \<Rightarrow> bool" where
  "screen_shows S cb w body p q \<longleftrightarrow>
     ap_out (pg_app q) = ap_out (pg_app p) @ [ShLine '''', ShLine (Incoming (ce_fmt (sc_C S)) (en_now (ce_E (sc_C S)))
        (pc_name (nd_pc (ap_node (pg_app p)) cb)) body (en_now (ce_E (sc_C S))) (ap_mode (pg_app p))), ShLine ''> '']
     \<and> pg_notes q = pg_notes p @ (case NotifySend (sc_os S) (sc_has S) (''korik: '' @ pc_name (nd_pc (ap_node (pg_app p)) cb)) body of
        None \<Rightarrow> [] | Some cmd \<Rightarrow> [cmd])
     \<and> nd_History (ap_node (pg_app q)) = map_option (\<lambda>h. snd (HistoryAdd (en_hw (ce_E (sc_C S))) (en_now (ce_E (sc_C S))) (en_now (ce_E (sc_C S)))
        (Node_Handlers.received (ce_E (sc_C S)) cb w '''' body (ap_node (pg_app p))) h)) (nd_History (ap_node (pg_app p)))"

lemma chat_reaches_screen:
  assumes "m_Type w = MsgChat" and "fst (dedup_gate (ce_E (sc_C S)) w (ap_node (pg_app p)))" and "open_body (ce_E (sc_C S)) k w = Some body"
    and "pc_sessionKey (nd_pc (ap_node (pg_app p)) cb) = Some k"
    and "\<not> blocked (pc_jid (nd_pc (ap_node (pg_app p)) cb)) (ap_node (pg_app p))" and "fst (allowInbound (ce_E (sc_C S)) cb (ap_node (pg_app p)))"
  shows "\<exists>n' q. handleMessage (ce_E (sc_C S)) cb w (ap_node (pg_app p)) = Returns n' \<and> node_round S n' p = Returns q \<and> screen_shows S cb w body p q"
proof -
  let ?E = "ce_E (sc_C S)" and ?B = "ap_node (pg_app p)"
  define B where "B = ?B\<lparr>nd_seen := gate_seen ?E w (nd_seen ?B)\<rparr>"
  have handled: "handleMessage ?E cb w ?B = Returns (handle_chat ?E cb w B)"
    using handleMessage_chat [OF assms(1,2)] by (simp add: B_def)
  have same: "Node_Handlers.received ?E cb w '''' body B = Node_Handlers.received ?E cb w '''' body ?B" "nd_events B = nd_events ?B"
    "nd_pc B = nd_pc ?B" "nd_History B = nd_History ?B"
    by (simp_all add: B_def Node_Handlers.received_def)
  have "fst (allowInbound ?E cb B)" "\<not> blocked (pc_jid (nd_pc B cb)) B" "pc_sessionKey (nd_pc B cb) = Some k"
    using assms(4-6) by (simp_all add: B_def allowInbound_seen blocked_def)
  note shown = handle_chat_shows [OF this(1,3,2) assms(3), unfolded same]
  obtain q where q: "node_round S (handle_chat ?E cb w B) p = Returns q"
      "q = OnChat S (pc_name (nd_pc ?B cb)) body (p\<lparr>pg_app := set_node (handle_chat ?E cb w B) (pg_app p)\<rparr>)"
    using shown(1) by (simp add: node_round_def Let_def)
  have "screen_shows S cb w body p q"
    using shown(2) unfolding q(2) screen_shows_def by (simp add: OnChat_def show_incoming_out) (simp add: set_node_def)
  then show ?thesis using handled q(1) by blast
qed

text \<open>
  C5. From one keyboard to the other screen. A line that is typed at one device is written to every peer with a session that is not blocked;
  when the program at the other end handles what was written to it, it puts exactly this line under the name of the sender on its
  screen, starts one notification with it, and adds it to the history of its node.\<close>

theorem typed_line_reaches_screen:
  assumes "TrimSpace line0 = line" and "line \<noteq> ''''" and "parse_command line = CChat line"
    and "good_rand (ce_E C)" and "good_cipher (en_P (ce_E C))" and "length line \<le> MaxDecompressed"
    and "\<forall>c k. pc_sessionKey (nd_pc (ap_node a) c) = Some k \<longrightarrow> length k = 32"
    and "ca \<in> set (map snd (nd_conns (ap_node a)))" and "pc_sessionKey (nd_pc (ap_node a) ca) = Some k" and "\<not> blocked (pc_jid (nd_pc (ap_node a) ca)) (ap_node a)"
    and "en_P (ce_E (sc_C S)) = en_P (ce_E C)" and "pc_sessionKey (nd_pc (ap_node (pg_app p)) cb) = Some k"
    and "\<not> blocked (pc_jid (nd_pc (ap_node (pg_app p)) cb)) (ap_node (pg_app p))" and "fst (allowInbound (ce_E (sc_C S)) cb (ap_node (pg_app p)))"
    and "\<forall>w. m_ID w = fst (Broadcast (ce_E C) line (ap_node a)) \<longrightarrow> fst (dedup_gate (ce_E (sc_C S)) w (ap_node (pg_app p)))"
  shows "\<exists>b w n' q. run_line C line0 a = Returns (Done b) \<and> (ca, w) \<in> set (nd_out (ap_node b))
    \<and> handleMessage (ce_E (sc_C S)) cb w (ap_node (pg_app p)) = Returns n' \<and> node_round S n' p = Returns q
    \<and> ap_out (pg_app q) = ap_out (pg_app p) @ [ShLine '''', ShLine (Incoming (ce_fmt (sc_C S)) (en_now (ce_E (sc_C S)))
        (pc_name (nd_pc (ap_node (pg_app p)) cb)) line (en_now (ce_E (sc_C S))) (ap_mode (pg_app p))), ShLine ''> '']
    \<and> pg_notes q = pg_notes p @ (case NotifySend (sc_os S) (sc_has S) (''korik: '' @ pc_name (nd_pc (ap_node (pg_app p)) cb)) line of
        None \<Rightarrow> [] | Some cmd \<Rightarrow> [cmd])
    \<and> nd_History (ap_node (pg_app q)) = map_option (\<lambda>h. snd (HistoryAdd (en_hw (ce_E (sc_C S))) (en_now (ce_E (sc_C S))) (en_now (ce_E (sc_C S)))
        (Node_Handlers.received (ce_E (sc_C S)) cb w '''' line (ap_node (pg_app p))) h)) (nd_History (ap_node (pg_app p)))"
proof -
  let ?E = "ce_E (sc_C S)" and ?B = "ap_node (pg_app p)"
  have ready: "filter pi_Ready (Peers (ap_node a)) \<noteq> []"
    using assms(8,9) ready_peers [of "ap_node a"] by fastforce
  obtain b ws where b: "run_line C line0 a = Returns (Done b)" "nd_out (ap_node b) = nd_out (ap_node a) @ ws"
      "map fst ws = filter (\<lambda>c. pc_sessionKey (nd_pc (ap_node a) c) \<noteq> None \<and> \<not> blocked (pc_jid (nd_pc (ap_node a) c)) (ap_node a))
        (map snd (nd_conns (ap_node a)))"
      "\<forall>(c, w) \<in> set ws. m_Type w = MsgChat \<and> m_ID w = fst (Broadcast (ce_E C) line (ap_node a))
        \<and> carries (en_P (ce_E C)) (the (pc_sessionKey (nd_pc (ap_node a) c))) line w"
    using typed_line_sent [OF assms(1-3) ready assms(4-7)] by blast
  have "ca \<in> set (map fst ws)" unfolding b(3) using assms(8-10) by simp
  then obtain w where w: "(ca, w) \<in> set ws" by auto
  then have carried: "m_Type w = MsgChat" "fst (dedup_gate ?E w ?B)" "open_body ?E k w = Some line"
    using b(4) assms(9,11,15) by (auto simp: carries_def)
  from chat_reaches_screen [OF this assms(12-14)] obtain n' q where
    "handleMessage ?E cb w ?B = Returns n'" "node_round S n' p = Returns q" "screen_shows S cb w line p q" by blast
  then show ?thesis using b(1,2) w
    by (intro exI [of _ b] exI [of _ w] exI [of _ n'] exI [of _ q]) (simp add: screen_shows_def)
qed

subsection \<open>Witnesses\<close>

definition sample_screen :: screen_env where
  "sample_screen = \<lparr>sc_C = sample_cenv, sc_os = Linux, sc_has = (\<lambda>_. True)\<rparr>"

definition lan_only :: net_flags where
  "lan_only = \<lparr>nf_noDiscovery = False, nf_connect = '''', nf_connectPublic = '''', nf_stunServer = ''stun:1'', nf_port = 9999,
     nf_discoveryPort = 9998\<rparr>"

definition sample_net :: net_env where
  "sample_net = \<lparr>ne_listen4 = None, ne_listen6 = Some ''no IPv6'', ne_listen = None, ne_udp = None,
     ne_stun = \<lparr>st_resolve = Some ''no such host'', st_rand = Inl ''EOF'', st_deadline = None, st_write = None, st_reply = (\<lambda>_. Inl ''timeout'')\<rparr>\<rparr>"

lemma sample_online:
  "\<exists>a it svs. go_online sample_cenv sample_net lan_only False b = Returns (Inr (a, it, svs))"
  by (simp add: go_online_def NodeStart_def sample_net_def lan_only_def Let_def)

theorem program_invariant_witness:
  "\<exists>d a it svs p. start_node sample_start (named ''ann'') no_files = Returns (Inr d)
     \<and> go_online sample_cenv sample_net lan_only False (first_app 0 d Absent (ap_home offline) (\<lambda>_. Absent) []) = Returns (Inr (a, it, svs))
     \<and> program toy a p \<and> nd_Identity (ap_node (pg_app p)) = nd_Identity (sd_node d)
     \<and> (\<exists>q. nd_Queue (ap_node (pg_app p)) = Some q \<and> QueueLen q \<le> 1000)"
proof -
  obtain d where d: "start_node sample_start (named ''ann'') no_files = Returns (Inr d)" using sample_starts by blast
  obtain a it svs where a: "go_online sample_cenv sample_net lan_only False (first_app 0 d Absent (ap_home offline) (\<lambda>_. Absent) [])
      = Returns (Inr (a, it, svs))"
    using sample_online by blast
  let ?p = "\<lparr>pg_app = a, pg_notes = []\<rparr>"
  obtain p where "node_round sample_screen (heartbeat_tick sample_env (ap_node a)) ?p = Returns p"
    using node_round_node by blast
  then have "program_step toy ?p p"
    by (intro program_step.node [where n' = "heartbeat_tick sample_env (ap_node a)"]) (simp_all add: node_step.heartbeat)
  then have p: "program toy a p" by (rule program.continued [OF program.launched])
  show ?thesis
    using program_invariant [OF d a p toy_ok(2)] d a p
    by (auto simp: no_files_def NewQueue_def QueueLen_def)
qed

theorem typed_line_reaches_screen_witness:
  "\<exists>w n' q. handleMessage sample_env 0 w sample_bob = Returns n'
     \<and> node_round sample_screen n' \<lparr>pg_app = sample_app sample_bob, pg_notes = []\<rparr> = Returns q
     \<and> pg_notes q = [[''notify-send'', ''korik: ann'', ''hi'']]
     \<and> ap_out (pg_app q) = [ShLine '''', ShLine (Incoming (\<lambda>_ _. ''now'') 1000000000 ''ann'' ''hi'' 1000000000 TimestampAbsolute), ShLine ''> '']"
proof -
  let ?p = "\<lparr>pg_app = sample_app sample_bob, pg_notes = []\<rparr>"
  have free: "\<not> blocked ''j'' (ap_node online)"
    by (simp add: blocked_def IsBlocked_def toy_contact_def)
  have node: "ap_node (pg_app ?p) = sample_bob" "ap_out (pg_app ?p) = []" "ap_mode (pg_app ?p) = TimestampAbsolute"
    "ce_fmt sample_cenv = (\<lambda>_ _. ''now'')"
    by (simp_all add: sample_app_def sample_cenv_def)
  have C: "sc_C sample_screen = sample_cenv" "NotifySend (sc_os sample_screen) (sc_has sample_screen) t x = Some [''notify-send'', t, x]" for t x
    by (simp_all add: sample_screen_def NotifySend_def)
  show ?thesis
    using typed_line_reaches_screen [OF hi_line(1) _ hi_line(2) _ _ _ sample_keys, of sample_cenv 0 sample_session sample_screen ?p 0]
      sample_good free node C by (simp add: blocked_def) blast
qed

end
