(* ===== verification/Offline_Delivery.thy ===== *)
theory Offline_Delivery
  imports Main_Run
begin

text \<open>
  A line that is typed while nobody is there, followed through the queue, the hello of the contact and the wire to the screen of the
  contact: the composition of the loop, the queue, the handlers of both nodes and the callbacks.
\<close>

lemma typed_line_in_queue:
  assumes "TrimSpace line0 = line" and "line \<noteq> ''''" and "parse_command line = CChat line" and "filter pi_Ready (Peers (ap_node a)) = []"
    and "nd_Queue (ap_node a) = Some q" and "QueueLen q + length (ListContacts (en_now (ce_E C)) '''' (the_book a)) \<le> MaxMessages"
    and "run_line C line0 a = Returns (Done b)" and "ct \<in> set (ListContacts (en_now (ce_E C)) '''' (the_book a))"
  obtains q' m where "nd_Queue (ap_node b) = Some q'" "m \<in> set (Pending q')" "om_ToJID m = ct_JID ct" "om_Body m = line"
proof -
  let ?cs = "ListContacts (en_now (ce_E C)) '''' (the_book a)"
  have "QueueLen q \<le> MaxMessages" using assms(6) by simp
  from typed_line_queued [OF assms(1-5) this, of C] assms(7) obtain q' where q': "nd_Queue (ap_node b) = Some q'"
      "map (\<lambda>m. (om_ToJID m, om_Body m)) (Pending q') =
        takeLast MaxMessages (map (\<lambda>m. (om_ToJID m, om_Body m)) (Pending q) @ map (\<lambda>c. (ct_JID c, line)) ?cs)"
    by auto
  have "(ct_JID ct, line) \<in> set (map (\<lambda>m. (om_ToJID m, om_Body m)) (Pending q'))"
    using assms(6,8) unfolding q'(2) by (simp add: takeLast_all QueueLen_def Pending_def)
  then show ?thesis using that q'(1) by auto
qed

lemma list_all2_hit: "list_all2 R xs ys \<Longrightarrow> x \<in> set xs \<Longrightarrow> \<exists>y \<in> set ys. R x y"
  by (induction rule: list_all2_induct) auto

text \<open>
  C6. What is typed while nobody is there arrives later. A line that is entered without any ready peer waits in the queue; when a
  contact to whom it is addressed says a valid first hello, on a node that still has this queue, it is written to the new session under
  the key just agreed on and nothing for that contact stays behind; and the program of the contact, when it handles what was written, shows
  the line on its screen, notifies, and keeps it in its history.\<close>

theorem offline_line_reaches_screen:
  assumes typed: "TrimSpace line0 = line" "line \<noteq> ''''" "parse_command line = CChat line" "length line \<le> MaxDecompressed"
      "filter pi_Ready (Peers (ap_node a)) = []" "nd_Queue (ap_node a) = Some q"
      "QueueLen q + length (ListContacts (en_now (ce_E C)) '''' (the_book a)) \<le> MaxMessages"
      "run_line C line0 a = Returns (Done b)" "ct \<in> set (ListContacts (en_now (ce_E C)) '''' (the_book a))"
    and later: "nd_Queue n = nd_Queue (ap_node b)"
      "\<forall>q'. nd_Queue n = Some q' \<longrightarrow> distinct (map om_ID (Pending q')) \<and> (\<forall>m \<in> set (Pending q'). om_ID m \<noteq> '''')"
    and hello: "m_Type h = MsgHello" "ParsePeerPublicKey (m_PubKey h) = Some pub" "m_JID h = JIDFromPublicKeyHex (m_PubKey h)"
      "m_JID h = ct_JID ct" "DeriveSessionKey (en_P E) (id_rawPriv (nd_Identity n)) pub = Some k" "pc_sessionKey (nd_pc n c) = None"
      "c \<in> snd ` set (nd_conns n)" "\<forall>d \<in> snd ` set (nd_conns n). pc_jid (nd_pc n d) = m_JID h \<longrightarrow> d = c"
    and crypto: "sha_len (en_P E)" "good_rand E" "good_cipher (en_P E)"
    and peer: "en_P (ce_E (sc_C S)) = en_P E" "pc_sessionKey (nd_pc (ap_node (pg_app p)) cb) = Some k"
      "\<not> blocked (pc_jid (nd_pc (ap_node (pg_app p)) cb)) (ap_node (pg_app p))" "fst (allowInbound (ce_E (sc_C S)) cb (ap_node (pg_app p)))"
      "\<forall>w q'. nd_Queue n = Some q' \<longrightarrow> m_ID w \<in> om_ID ` set (Pending q') \<longrightarrow> fst (dedup_gate (ce_E (sc_C S)) w (ap_node (pg_app p)))"
  shows "\<exists>n1 w n' r q1. handleMessage E c h n = Returns n1 \<and> (c, w) \<in> set (nd_out n1)
    \<and> nd_Queue n1 = Some q1 \<and> (\<forall>m \<in> set (Pending q1). om_ToJID m \<noteq> ct_JID ct)
    \<and> handleMessage (ce_E (sc_C S)) cb w (ap_node (pg_app p)) = Returns n' \<and> node_round S n' p = Returns r \<and> screen_shows S cb w line p r"
proof -
  obtain q' m where q': "nd_Queue n = Some q'" "m \<in> set (Pending q')" "om_ToJID m = m_JID h" "om_Body m = line"
    using typed_line_in_queue [OF typed(1-3,5-9)] later(1) hello(4) by metis
  then obtain n1 ws q1 where n1: "handleMessage E c h n = Returns n1" "nd_out n1 = nd_out n @ map (Pair c) ws"
      "list_all2 (delivers (en_P E) k) (filter (\<lambda>m. om_ToJID m = m_JID h) (Pending q')) ws"
      "nd_Queue n1 = Some q1" "Pending q1 = filter (\<lambda>m. om_ToJID m \<noteq> m_JID h) (Pending q')"
    using hello_flushes [OF hello(1,2,3,5,6) crypto hello(7,8), of q'] later(2) by blast
  have "m \<in> set (filter (\<lambda>m. om_ToJID m = m_JID h) (Pending q'))" using q' by simp
  then obtain w where w: "w \<in> set ws" "delivers (en_P E) k m w"
    using list_all2_hit [OF n1(3)] by blast
  then have opened: "m_Type w = MsgChat" "open_body (ce_E (sc_C S)) k w = Some line" "m_ID w \<in> om_ID ` set (Pending q')"
    using q'(2,4) typed(4) peer(1) by (auto simp: delivers_def carries_def)
  then have "fst (dedup_gate (ce_E (sc_C S)) w (ap_node (pg_app p)))" using peer(5) q'(1) by blast
  from chat_reaches_screen [OF opened(1) this opened(2) peer(2-4)] show ?thesis
    using n1(1,2,4,5) w(1) hello(4) by auto
qed

definition awaiting_bob :: App where
  "awaiting_bob = sample_app (sample_stores\<lparr>nd_Contacts := Some \<lparr>cb_contacts = [(JID_of bob, toy_contact (JID_of bob))], cb_file = Absent\<rparr>\<rparr>)"

lemma awaiting_bob_fields:
  "filter pi_Ready (Peers (ap_node awaiting_bob)) = []" "nd_Queue (ap_node awaiting_bob) = Some \<lparr>q_items = [], q_file = Absent\<rparr>"
  "ListContacts 1000000000 '''' (the_book awaiting_bob) = [toy_contact (JID_of bob)]" "nd_conns (ap_node awaiting_bob) = []"
  "nd_Identity (ap_node awaiting_bob) = sample_id CHR ''a''" "nd_next (ap_node awaiting_bob) = 0"
  by (simp_all add: awaiting_bob_def sample_app_def Peers_def the_book_def ListContacts_def toy_contact_def sample_stores_def)

lemma hi_queued:
  "\<exists>b q' m. run_line sample_cenv ''hi'' awaiting_bob = Returns (Done b) \<and> nd_Queue (ap_node b) = Some q' \<and> Pending q' = [m] \<and> om_ID m \<noteq> ''''"
  using awaiting_bob_fields
  by (auto simp: run_line_def hi_line Let_def cmd_chat_def queue_for_def Enqueue_items Pending_def with_id_def takeLast_def toy_contact_def)

theorem offline_line_reaches_screen_witness:
  "\<exists>b n h n1 w k n' r. run_line sample_cenv ''hi'' awaiting_bob = Returns (Done b) \<and> nd_Queue n = nd_Queue (ap_node b)
     \<and> handleMessage sample_env 0 h n = Returns n1 \<and> (0, w) \<in> set (nd_out n1)
     \<and> handleMessage sample_env 0 w (linked ''ann'' (JID_of ann) ''a:1'' k bob) = Returns n'
     \<and> node_round sample_screen n' \<lparr>pg_app = sample_app (linked ''ann'' (JID_of ann) ''a:1'' k bob), pg_notes = []\<rparr> = Returns r
     \<and> pg_notes r = [[''notify-send'', ''korik: ann'', ''hi'']]"
proof -
  let ?i = "sample_id CHR ''b''"
  define h where "h = (blank MsgHello)\<lparr>m_From := ''bob'', m_PubKey := PublicKeyHex ?i, m_JID := id_JID ?i\<rparr>"
  obtain b q' m where b: "run_line sample_cenv ''hi'' awaiting_bob = Returns (Done b)" "nd_Queue (ap_node b) = Some q'"
      "Pending q' = [m]" "om_ID m \<noteq> ''''"
    using hi_queued by blast
  have links: "same_links (ap_node awaiting_bob) (ap_node b)" using links.line_after(1) [OF b(1)] by (simp add: app_of_def)
  define n where "n = snd (open_conn sample_env ''b:1'' (ap_node b))"
  have n: "nd_Queue n = nd_Queue (ap_node b)" "nd_conns n = [(''b:1'', 0)]" "nd_Identity n = sample_id CHR ''a''"
      "pc_sessionKey (nd_pc n 0) = None" "pc_jid (nd_pc n 0) = ''''"
    using links awaiting_bob_fields by (auto simp: n_def open_conn_def set_pc_def Let_def same_links_def)
  obtain k where k: "DeriveSessionKey toy (id_rawPriv (sample_id CHR ''a'')) (x25519_pub toy (id_rawPriv ?i)) = Some k"
    using DeriveSessionKey_agree [OF toy_ok(1)] identity_ok_fields(4) [OF sample_id_ok] by metis
  let ?p = "\<lparr>pg_app = sample_app (linked ''ann'' (JID_of ann) ''a:1'' k bob), pg_notes = []\<rparr>"
  have p: "ap_node (pg_app ?p) = linked ''ann'' (JID_of ann) ''a:1'' k bob" by (simp add: sample_app_def)
  have h: "m_Type h = MsgHello" "m_PubKey h = PublicKeyHex ?i" "m_JID h = id_JID ?i" by (simp_all add: h_def blank_def)
  have scr: "NotifySend (sc_os sample_screen) (sc_has sample_screen) t x = Some [''notify-send'', t, x]" "sc_C sample_screen = sample_cenv" for t x
    by (simp_all add: sample_screen_def NotifySend_def)
  have "\<exists>n1 w n' r q1. handleMessage sample_env 0 h n = Returns n1 \<and> (0, w) \<in> set (nd_out n1)
    \<and> nd_Queue n1 = Some q1 \<and> (\<forall>m \<in> set (Pending q1). om_ToJID m \<noteq> ct_JID (toy_contact (JID_of bob)))
    \<and> handleMessage (ce_E (sc_C sample_screen)) 0 w (ap_node (pg_app ?p)) = Returns n' \<and> node_round sample_screen n' ?p = Returns r
    \<and> screen_shows sample_screen 0 w ''hi'' ?p r"
    by (rule offline_line_reaches_screen [OF hi_line(1) _ hi_line(2) _ awaiting_bob_fields(1,2) _ b(1) _ n(1), where h = h and k = k and ct = "toy_contact (JID_of bob)"])
      (use b n k h p scr awaiting_bob_fields sample_good toy_ok(2) announced_parses [OF sample_id_ok toy_pub_len, of "CHR ''b''"] in
        \<open>simp_all add: toy_contact_def QueueLen_def blocked_def\<close>)
  then show ?thesis using b(1) n(1) p scr by (auto simp: screen_shows_def) blast
qed

end
