(* ===== verification/Rekey_Loss.thy ===== *)
theory Rekey_Loss
  imports Node_Session Node_Delivery
begin

text \<open>
  A message that crosses a rotation of the key: what becomes of a text that is sent between \<^verbatim>\<open>initiateRekey\<close> and the answer of
  the peer, both in \<^verbatim>\<open>src/internal/peer/node.go\<close>.
\<close>

text \<open>Opening with another key than the one that sealed fails, as \<^verbatim>\<open>cipher.AEAD\<close> documents for messages that are not authentic.\<close>

definition rejects_other_keys :: "primitives \<Rightarrow> bool" where
  "rejects_other_keys P \<longleftrightarrow>
     (\<forall>k k' nonce plain. k \<noteq> k' \<longrightarrow> length nonce = NonceSize \<longrightarrow> gcm_open P k' nonce (gcm_seal P k nonce plain) = None)"

lemma sealed_closed:
  assumes "encryptForSend E k text n = (Some (ct, z), n')" and "good_rand E" and "rejects_other_keys (en_P E)" and "k \<noteq> k'"
    and "m_Body w = b64_encode ct" and "en_P E' = en_P E"
  shows "open_body E' k' w = None"
proof -
  obtain nonce where nonce: "en_rand E (nd_draws n) NonceSize = Some nonce" "length nonce = NonceSize"
    using assms(2) by (auto simp: good_rand_def)
  then obtain payload where "ct = nonce @ gcm_seal (en_P E) k nonce payload"
    using assms(1) by (auto simp: encryptForSend_def draw_def Encrypt_def Let_def split: prod.splits option.splits if_splits)
  then have "Decrypt (en_P E) k' ct = None"
    using nonce(2) assms(3,4) by (simp add: Decrypt_def rejects_other_keys_def)
  then show ?thesis using assms(5,6) by (simp add: open_body_def)
qed

lemma SendToWithID_sealed:
  assumes "SendToWithID E jid text mid n = (None, n')" and "conn_of_jid jid n = Some c" and "pc_sessionKey (nd_pc n c) = Some k"
  obtains ct z n1 w where "encryptForSend E k text n = (Some (ct, z), n1)" "m_Body w = b64_encode ct" "m_Type w = MsgChat"
    "nd_out n' = nd_out n @ [(c, w)]" "nd_Queue n' = nd_Queue n" "nd_History n' = nd_History n"
proof -
  obtain ct z n1 where e: "encryptForSend E k text n = (Some (ct, z), n1)"
    using assms by (auto simp: SendToWithID_def split: option.splits prod.splits)
  have n1: "n1 = n\<lparr>nd_draws := nd_draws n + 1\<rparr>"
    using e by (auto simp: encryptForSend_def draw_def Let_def split: prod.splits option.splits)
  show ?thesis
    by (rule that [OF e]) (use assms e in \<open>auto simp: SendToWithID_def n1\<close>)
qed

lemma unreadable_chat:
  assumes "pc_sessionKey (nd_pc n c) = Some k" and "open_body E k w = None" and "m_Type w = MsgChat"
  shows "\<exists>n'. handleMessage E c w n = Returns n' \<and> nd_events n' = nd_events n \<and> nd_History n' = nd_History n \<and> nd_out n' = nd_out n"
proof -
  have quiet: "nd_events (handle_chat E c w m) = nd_events m \<and> nd_History (handle_chat E c w m) = nd_History m
      \<and> nd_out (handle_chat E c w m) = nd_out m" if "nd_pc m = nd_pc n" for m
  proof -
    obtain ok l where "allowInbound E c m = (ok, m\<lparr>nd_Limiter := l\<rparr>)"
      using allowInbound_state [of E c m] by (metis prod.collapse)
    then show ?thesis using assms(1,2) that by (simp add: handle_chat_def)
  qed
  show ?thesis using assms(3) quiet [of "n\<lparr>nd_seen := gate_seen E w (nd_seen n)\<rparr>"]
    by (simp add: handleMessage_cases dispatch_def)
qed

lemma rekey_keeps_rest:
  "nd_events (handle_rekey E c msg n) = nd_events n" "nd_History (handle_rekey E c msg n) = nd_History n"
  by (auto simp: handle_rekey_def finish_rekey_def set_pc_def draw_def Let_def split: option.splits prod.splits)

text \<open>
  C10. A rotation loses messages. A text that a node sends after it initiated a rekey and before the answer of the peer arrives is
  sealed with the old key; the peer mixed the new key when it handled the rekey and reads the connection in order, so
  it cannot open the text: it shows nothing, stores nothing and answers nothing. The sender was told that the text is sent and has nothing in
  its queue to send again.\<close>

theorem message_during_rekey_lost:
  assumes P: "pub_len P" "rejects_other_keys P" "en_P E1 = P" "en_P E2 = P" "en_P E3 = P" "en_P E4 = P"
    and k: "pc_sessionKey (nd_pc A ca) = Some k" "pc_sessionKey (nd_pc B cb) = Some k"
    and rnd: "en_rand E1 (nd_draws A) 32 = Some e1" "length e1 = 32" "en_rand E3 (nd_draws B) 32 = Some e2" "good_rand E2"
    and idle: "map_of (nd_rekeySlots B) (pc_addr (nd_pc B cb)) = None"
    and start: "initiateRekey E1 ca A = (None, A1)" "nd_out A1 = nd_out A @ [(ca, mA)]" "fst (dedup_gate E3 mA B)"
    and sent: "conn_of_jid jid A = Some ca" "SendToWithID E2 jid text mid A1 = (None, A2)"
    and mixed: "x25519 P e2 (x25519_pub P e1) = Some sh" "MixKeys P k sh \<noteq> k"
  shows "\<exists>w B1 B2. nd_out A2 = nd_out A @ [(ca, mA), (ca, w)] \<and> nd_Queue A2 = nd_Queue A1
    \<and> handleMessage E3 cb mA B = Returns B1 \<and> pc_sessionKey (nd_pc B1 cb) = Some (MixKeys P k sh)
    \<and> handleMessage E4 cb w B1 = Returns B2
    \<and> nd_events B2 = nd_events B \<and> nd_History B2 = nd_History B \<and> nd_out B2 = nd_out B1"
proof -
  note a = initiateRekey_shape [OF start(1) k(1) rnd(1)]
  have mA: "m_Type mA = MsgRekey" "m_RekeyPubKey mA = EncodeToString (x25519_pub P e1)"
    using a(1) start(2) P(3) by auto
  obtain s where b: "handleMessage E3 cb mA B = Returns (handle_rekey E3 cb mA (B\<lparr>nd_seen := s\<rparr>))"
    using handleMessage_fresh [OF start(3)] mA(1) by (auto simp: dispatch_def)
  define B1 where "B1 = handle_rekey E3 cb mA (B\<lparr>nd_seen := s\<rparr>)"
  have B1: "pc_sessionKey (nd_pc B1 cb) = Some (MixKeys P k sh)" "nd_events B1 = nd_events B" "nd_History B1 = nd_History B"
    using responder_finishes(1) [OF mA(2) P(1) rnd(2), of "B\<lparr>nd_seen := s\<rparr>" cb k E3 e2 sh] k(2) idle rnd(3) mixed(1) P(5)
    by (simp_all add: B1_def rekey_keeps_rest)
  have "nd_conns A1 = nd_conns A" using initiateRekey_links [OF start(1)] by (rule same_linksD(3))
  then have "conn_of_jid jid A1 = Some ca" "pc_sessionKey (nd_pc A1 ca) = Some k"
    using sent(1) k(1) a(3) by (simp_all add: conn_of_jid_def)
  from SendToWithID_sealed [OF sent(2) this]
  obtain ct z n1 w where w: "encryptForSend E2 k text A1 = (Some (ct, z), n1)" "m_Body w = b64_encode ct" "m_Type w = MsgChat"
      "nd_out A2 = nd_out A1 @ [(ca, w)]" "nd_Queue A2 = nd_Queue A1"
    by metis
  have "open_body E4 (MixKeys P k sh) w = None"
    using sealed_closed [OF w(1) rnd(4) _ _ w(2), of "MixKeys P k sh" E4] P(2,4,6) mixed(2) by metis
  then obtain B2 where "handleMessage E4 cb w B1 = Returns B2" "nd_events B2 = nd_events B1" "nd_History B2 = nd_History B1" "nd_out B2 = nd_out B1"
    using unreadable_chat [OF B1(1) _ w(3)] by blast
  then show ?thesis using b B1 w(4,5) start(2) unfolding B1_def by auto
qed

text \<open>Primitives whose ciphers hold their key, after its length in unary.\<close>

definition key_header :: "string \<Rightarrow> string" where
  "key_header k = replicate (length k) CHR ''x'' @ ''-'' @ k"

definition keyed :: primitives where
  "keyed = toy\<lparr>gcm_seal := (\<lambda>k n p. key_header k @ n @ p),
     gcm_open := (\<lambda>k n c. if prefix (key_header k @ n) c then Some (drop (length (key_header k @ n)) c) else None)\<rparr>"

lemma key_header_inj:
  assumes "prefix (key_header k @ r) (key_header k' @ s)"
  shows "k = k'"
proof -
  obtain t where t: "key_header k' @ s = key_header k @ r @ t" using assms by (auto simp: prefix_def)
  have x: "length (takeWhile ((=) CHR ''x'') (replicate m CHR ''x'' @ CHR ''-'' # v)) = m" for m and v :: string
    by (induction m) simp_all
  have "length (takeWhile ((=) CHR ''x'') (key_header j @ u)) = length j" for j u
    using x [of "length j" "j @ u"] by (simp add: key_header_def)
  then have "length k' = length k" using arg_cong [OF t, of "\<lambda>l. length (takeWhile ((=) CHR ''x'') l)"] by metis
  then show ?thesis using t by (simp add: key_header_def)
qed

lemma keyed_rejects: "rejects_other_keys keyed"
  using key_header_inj by (auto simp: rejects_other_keys_def keyed_def)

theorem message_during_rekey_lost_witness:
  "\<exists>A1 mA A2 w B1 B2. initiateRekey (sample_env\<lparr>en_P := keyed\<rparr>) 0 sample_ann = (None, A1)
     \<and> SendToWithID (sample_env\<lparr>en_P := keyed\<rparr>) (JID_of bob) ''hi'' ''m1'' A1 = (None, A2) \<and> nd_out A2 = [(0, mA), (0, w)]
     \<and> handleMessage (sample_env\<lparr>en_P := keyed\<rparr>) 0 mA sample_bob = Returns B1
     \<and> handleMessage (sample_env\<lparr>en_P := keyed\<rparr>) 0 w B1 = Returns B2 \<and> nd_events B2 = []"
proof -
  let ?E = "sample_env\<lparr>en_P := keyed\<rparr>"
  have rand: "good_rand ?E" by (simp add: good_rand_def)
  have key: "aes_key sample_session" "length (replicate 32 CHR ''r'') = 32" by (simp_all add: sample_session_def)
  have pub: "pub_len keyed" using toy_pub_len by (simp add: pub_len_def keyed_def)
  obtain A1 mA where a: "initiateRekey ?E 0 sample_ann = (None, A1)" "nd_out A1 = [(0, mA)]" "nd_pc A1 = nd_pc sample_ann"
    by (auto simp: initiateRekey_def draw_def Let_def)
  have "nd_conns A1 = nd_conns sample_ann" using initiateRekey_links [OF a(1)] by (rule same_linksD(3))
  then have "conn_of_jid (JID_of bob) A1 = Some 0" "pc_sessionKey (nd_pc A1 0) = Some sample_session"
    using a(3) by (simp_all add: conn_of_jid_def)
  from SendToWithID_ready [OF this key(1) rand] obtain A2 where s: "SendToWithID ?E (JID_of bob) ''hi'' ''m1'' A1 = (None, A2)" by metis
  have mix: "x25519 keyed (replicate 32 CHR ''r'') (x25519_pub keyed (replicate 32 CHR ''r'')) = Some ''shared''"
    "MixKeys keyed sample_session ''shared'' \<noteq> sample_session"
    by (simp_all add: keyed_def toy_def MixKeys_def sample_session_def numeral_eq_Suc)
  show ?thesis
    using message_during_rekey_lost [OF pub keyed_rejects _ _ _ _ _ _ _ key(2) _ rand _ a(1) _ _ _ s mix, of ?E ?E sample_bob 0]
      a s by simp blast
qed

end
