(* ===== verification/Data_Paths.thy ===== *)
theory Data_Paths
  imports Go_Path
begin

text \<open>
  Where the program keeps its files: the functions \<^verbatim>\<open>Default...Path\<close> of the packages with a store, the audit log of
  \<^verbatim>\<open>src/internal/audit/audit.go\<close> and the history of the shell. The argument is what \<^verbatim>\<open>os.UserHomeDir\<close> answers, \<open>None\<close> for an error.
\<close>

definition home_or_dot :: "string option \<Rightarrow> string" where
  "home_or_dot home = (case home of None \<Rightarrow> ''.'' | Some h \<Rightarrow> h)"

definition DefaultConfigPath :: "string option \<Rightarrow> string" where
  "DefaultConfigPath home = JoinPath [home_or_dot home, ''.korik'', ''config.json'']"

definition DefaultIdentityPath :: "string option \<Rightarrow> string" where
  "DefaultIdentityPath home = JoinPath [home_or_dot home, ''.korik'', ''identity.json'']"

definition DefaultHistoryPath :: "string option \<Rightarrow> string" where
  "DefaultHistoryPath home = JoinPath [home_or_dot home, ''.korik'', ''history.json'']"

definition DefaultContactsPath :: "string option \<Rightarrow> string" where
  "DefaultContactsPath home = JoinPath [home_or_dot home, ''.korik'', ''contacts.json'']"

definition DefaultQueuePath :: "string option \<Rightarrow> string" where
  "DefaultQueuePath home = JoinPath [home_or_dot home, ''.korik'', ''queue.json'']"

definition DefaultGroupsPath :: "string option \<Rightarrow> string" where
  "DefaultGroupsPath home = JoinPath [home_or_dot home, ''.korik'', ''groups.json'']"

text \<open>\<open>logPath\<close> with the path that \<^verbatim>\<open>Init\<close> has set, empty when it was not called.\<close>

definition logPath :: "string \<Rightarrow> string option \<Rightarrow> string" where
  "logPath custom home = (if custom \<noteq> '''' then custom else JoinPath [home_or_dot home, ''.korik'', ''audit.log''])"

text \<open>In \<^verbatim>\<open>main\<close> the error is ignored: without a home directory the path is relative.\<close>

definition shell_history_path :: "string option \<Rightarrow> string" where
  "shell_history_path home = JoinPath [case home of None \<Rightarrow> '''' | Some h \<Rightarrow> h, ''.korik'', ''shell_history'']"

definition data_files :: "string option \<Rightarrow> string list" where
  "data_files home =
     [DefaultConfigPath home, DefaultIdentityPath home, DefaultHistoryPath home, DefaultContactsPath home, DefaultQueuePath home,
      DefaultGroupsPath home, logPath '''' home, shell_history_path home]"

lemma data_file:
  assumes "home \<noteq> ''''" and "f \<noteq> ''''" and "f \<noteq> ''.''" and "f \<noteq> ''..''" and "CHR ''/'' \<notin> set f"
  shows "JoinPath [home, ''.korik'', f] = Clean (home @ ''/.korik'') @ ''/'' @ f"
proof -
  have f: "Split f CHR ''/'' = [f]" using assms(5) by (simp add: Split_no_sep)
  have k: "plain_parts (Split ''.korik'' CHR ''/'') = [''.korik'']" by (simp add: plain_parts_def)
  have abs: "IsAbs (home @ x) = IsAbs home" for x using assms(1) by (cases home) (auto simp: IsAbs_def HasPrefix_def)
  have dir: "path_parts (home @ ''/'' @ ''.korik'') = path_parts home @ [''.korik'']"
    using parts_under [OF assms(1), of "''.korik''"] k by simp
  have "path_parts ((home @ ''/.korik'') @ ''/'' @ f) = path_parts (home @ ''/.korik'') @ [f]"
    using parts_under [of "home @ ''/.korik''" f] f assms(2-4) by (simp add: plain_parts_def)
  then have parts: "path_parts (home @ ''/.korik/'' @ f) = (path_parts home @ [''.korik'']) @ [f]" "path_parts (home @ ''/.korik'') = path_parts home @ [''.korik'']"
    using dir by simp_all
  have "Clean (home @ ''/.korik/'' @ f) = Clean (home @ ''/.korik'') @ ''/'' @ f"
    unfolding Clean_def parts abs Join_snoc [of _ f] by (simp add: Let_def Join_snoc)
  then show ?thesis using assms(1) by (simp add: JoinPath_def)
qed

text \<open>
  Files do not collide. For every home directory, and when there is none, the six stores, the audit log and the history of the shell
  have eight different paths.\<close>

theorem data_files_apart:
  assumes "home \<noteq> Some ''''"
  shows "distinct (data_files home)"
proof (cases home)
  case None
  show ?thesis unfolding None by code_simp
next
  case (Some h)
  then show ?thesis
    using assms by (simp add: data_files_def DefaultConfigPath_def DefaultIdentityPath_def DefaultHistoryPath_def DefaultContactsPath_def
        DefaultQueuePath_def DefaultGroupsPath_def logPath_def shell_history_path_def home_or_dot_def data_file)
qed

end
