(* ===== verification/Go_Regexp.thy ===== *)
theory Go_Regexp
  imports Validate
begin

text \<open>
  The part of \<^verbatim>\<open>regexp\<close> that \<^verbatim>\<open>src/internal/debug/debug.go\<close> uses: character classes with repetition, greedy or lazy,
  sequence, alternation, the optional group and the word boundary, and \<^verbatim>\<open>ReplaceAllStringFunc\<close>. A text is the list of
  its runes, each with the bytes it was decoded from. \<open>ends\<close> lists the lengths of the matches at a position in the order in
  which a backtracking search would find them; the first one is the match of the package.
\<close>

type_synonym rune = "nat \<times> string"

subsection \<open>Runes\<close>

function rune_list :: "string \<Rightarrow> rune list" where
  "rune_list s =
     (case s of
        [] \<Rightarrow> []
      | c # r \<Rightarrow> (case decode_rune (map byte_of s) of
                   None \<Rightarrow> (0xFFFD, [c]) # rune_list r
                 | Some (v, rest) \<Rightarrow> let k = length s - length rest in (v, take k s) # rune_list (drop k s)))"
  by auto
termination
  by (relation "measure length") (auto simp del: decode_rune.simps dest!: decode_rune_shorter)

declare rune_list.simps [simp del]

definition bytes_of_runes :: "rune list \<Rightarrow> string" where
  "bytes_of_runes rs = concat (map snd rs)"

subsection \<open>Patterns\<close>

datatype regexp =
    Rep nat "nat option" bool "nat \<Rightarrow> bool"
  | Seq regexp regexp
  | Alt regexp regexp
  | Opt regexp
  | WordB

abbreviation One :: "(nat \<Rightarrow> bool) \<Rightarrow> regexp" where "One P \<equiv> Rep 1 (Some 1) True P"

definition word_rune :: "nat \<Rightarrow> bool" where
  "word_rune v \<longleftrightarrow> 48 \<le> v \<and> v \<le> 57 \<or> 65 \<le> v \<and> v \<le> 90 \<or> v = 95 \<or> 97 \<le> v \<and> v \<le> 122"

definition is_word :: "rune option \<Rightarrow> bool" where
  "is_word r = (case r of None \<Rightarrow> False | Some (v, b) \<Rightarrow> word_rune v)"

definition head_rune :: "rune list \<Rightarrow> rune option" where
  "head_rune rs = (case rs of [] \<Rightarrow> None | r # _ \<Rightarrow> Some r)"

text \<open>The rune before the position \<open>k\<close>.\<close>

definition before :: "rune option \<Rightarrow> nat \<Rightarrow> rune list \<Rightarrow> rune option" where
  "before prev k rs = (if k = 0 then prev else Some (rs ! (k - 1)))"

definition span_length :: "nat option \<Rightarrow> (nat \<Rightarrow> bool) \<Rightarrow> rune list \<Rightarrow> nat" where
  "span_length hi P rs =
     (let m = length (takeWhile (\<lambda>r. P (fst r)) rs) in case hi of None \<Rightarrow> m | Some h \<Rightarrow> min h m)"

primrec ends :: "regexp \<Rightarrow> rune option \<Rightarrow> rune list \<Rightarrow> nat list" where
  "ends (Rep lo hi greedy P) prev rs =
     (let ks = [lo ..< Suc (span_length hi P rs)] in if greedy then rev ks else ks)"
| "ends (Seq a b) prev rs = concat (map (\<lambda>k. map ((+) k) (ends b (before prev k rs) (drop k rs))) (ends a prev rs))"
| "ends (Alt a b) prev rs = ends a prev rs @ ends b prev rs"
| "ends (Opt a) prev rs = ends a prev rs @ [0]"
| "ends WordB prev rs = (if is_word prev \<noteq> is_word (head_rune rs) then [0] else [])"

text \<open>
  \<^verbatim>\<open>ReplaceAllStringFunc\<close> for a pattern that has no empty match, and \<^verbatim>\<open>ReplaceAllString\<close> with a text without
  \<^verbatim>\<open>$\<close>.\<close>

function replace_all :: "regexp \<Rightarrow> (string \<Rightarrow> string) \<Rightarrow> rune option \<Rightarrow> rune list \<Rightarrow> string" where
  "replace_all r f prev [] = ''''"
| "replace_all r f prev (x # xs) =
     (case ends r prev (x # xs) of
        Suc k # _ \<Rightarrow> f (snd x @ bytes_of_runes (take k xs)) @ replace_all r f (before prev (Suc k) (x # xs)) (drop k xs)
      | _ \<Rightarrow> snd x @ replace_all r f (Some x) xs)"
  by pat_completeness auto
termination
  by (relation "measure (\<lambda>(r, f, prev, rs). length rs)") auto

declare replace_all.simps(2) [simp del]

definition ReplaceAllStringFunc :: "regexp \<Rightarrow> (string \<Rightarrow> string) \<Rightarrow> string \<Rightarrow> string" where
  "ReplaceAllStringFunc r f s = replace_all r f None (rune_list s)"

subsection \<open>Writing patterns\<close>

text \<open>Under \<^verbatim>\<open>(?i)\<close> the long s and the Kelvin sign belong to \<open>s\<close> and \<open>k\<close>.\<close>

definition folded :: "nat \<Rightarrow> nat" where
  "folded v = (if 65 \<le> v \<and> v \<le> 90 then v + 32 else if v = 0x17F then 115 else if v = 0x212A then 107 else v)"

definition fold_class :: "(nat \<Rightarrow> bool) \<Rightarrow> nat \<Rightarrow> bool" where
  "fold_class P v \<longleftrightarrow> P v \<or> v \<in> {0x17F, 0x212A} \<and> P (folded v)"

fun literal :: "(nat \<Rightarrow> nat) \<Rightarrow> string \<Rightarrow> regexp \<Rightarrow> regexp" where
  "literal g [] r = r"
| "literal g (c # cs) r = Seq (One (\<lambda>v. g v = byte_of c)) (literal g cs r)"

abbreviation empty_match :: regexp where "empty_match \<equiv> Rep 0 (Some 0) True (\<lambda>_. True)"

subsection \<open>Lemmas on runes\<close>

lemma bytes_of_runes_simps [simp]:
  "bytes_of_runes [] = ''''" "bytes_of_runes (r # rs) = snd r @ bytes_of_runes rs"
  "bytes_of_runes (rs @ rs') = bytes_of_runes rs @ bytes_of_runes rs'"
  by (simp_all add: bytes_of_runes_def)

lemma rune_list_Nil [simp]: "rune_list [] = []"
  by (simp add: rune_list.simps)

text \<open>A rune below 128 is its own byte; the bytes of every other rune are above.\<close>

definition proper :: "rune \<Rightarrow> bool" where
  "proper r \<longleftrightarrow> snd r \<noteq> [] \<and> (if fst r < 128 then snd r = [char_of (fst r)] else list_all (\<lambda>c. 128 \<le> byte_of c) (snd r))"

lemma decode_rune_parts:
  assumes "decode_rune bs = Some (v, rest)"
  shows "\<exists>w. bs = w @ rest \<and> w \<noteq> [] \<and> (if v < 128 then w = [v] else list_all (\<lambda>b. 128 \<le> b) w)"
proof (cases bs)
  case (Cons b r)
  show ?thesis
    using assms unfolding Cons
    by (auto simp: cont_def split: if_splits list.splits)
qed (use assms in simp)

lemma rune_list_proper: "list_all proper (rune_list s) \<and> bytes_of_runes (rune_list s) = s"
proof (induction s rule: rune_list.induct)
  case (1 s)
  show ?case
  proof (cases s)
    case (Cons c r)
    show ?thesis
    proof (cases "decode_rune (map byte_of s)")
      case None
      have "128 \<le> byte_of c" using None unfolding Cons by (auto split: if_splits)
      then have "proper (0xFFFD, [c])" by (simp add: proper_def)
      moreover have "rune_list s = (0xFFFD, [c]) # rune_list r"
        using None unfolding Cons by (simp add: rune_list.simps [of "c # r"] del: decode_rune.simps)
      ultimately show ?thesis using "1.IH"(1) [OF Cons None] Cons by simp
    next
      case (Some p)
      obtain v rest where p: "p = (v, rest)" by force
      obtain w where w: "map byte_of s = w @ rest" "w \<noteq> []" "if v < 128 then w = [v] else list_all (\<lambda>b. 128 \<le> b) w"
        using decode_rune_parts Some p by metis
      let ?k = "length s - length rest"
      have k: "?k = length w" using arg_cong [OF w(1), of length] by simp
      then have t: "map byte_of (take ?k s) = w" by (simp add: w(1) flip: take_map)
      have proper: "proper (v, take ?k s)"
      proof (cases "v < 128")
        case True
        then obtain d where "take ?k s = [d]" "byte_of d = v" using t w(3) by (auto simp: map_eq_Cons_conv)
        then show ?thesis using True by (auto simp: proper_def)
      next
        case False
        then have "list_all (\<lambda>b. 128 \<le> b) (map byte_of (take ?k s))" using w(3) t by simp
        then show ?thesis using False w(2) t by (auto simp: proper_def list_all_iff)
      qed
      have "rune_list s = (v, take ?k s) # rune_list (drop ?k s)"
        using Some unfolding p Cons by (simp add: rune_list.simps [of "c # r"] Let_def del: decode_rune.simps)
      then show ?thesis using "1.IH"(2) [OF Cons Some p [symmetric] refl] proper by simp
    qed
  qed simp
qed

lemma rune_list_ascii: "list_all ascii s \<Longrightarrow> rune_list s = map (\<lambda>c. (byte_of c, [c])) s"
  by (induction s) (simp_all add: rune_list.simps [of "_ # _"] ascii_def Let_def)

subsection \<open>Lemmas on matches\<close>

lemma span_length_le: "span_length hi P rs \<le> length rs"
  by (auto simp: span_length_def Let_def length_takeWhile_le min_le_iff_disj split: option.split)

lemma ends_le: "k \<in> set (ends r prev rs) \<Longrightarrow> k \<le> length rs"
proof (induction r arbitrary: prev rs k)
  case (Rep lo hi greedy P)
  then show ?case using span_length_le [of hi P rs] by (auto simp: Let_def split: if_splits)
next
  case (Seq a b)
  then obtain i j where "i \<in> set (ends a prev rs)" "j \<in> set (ends b (before prev i rs) (drop i rs))" "k = i + j" by auto
  then show ?case using Seq.IH(1) [of i prev rs] Seq.IH(2) [of j "before prev i rs" "drop i rs"] by simp
qed (auto split: if_splits)

lemma ends_literal:
  "ends (literal g (c # cs) r) prev rs =
     (case rs of x # xs \<Rightarrow> if g (fst x) = byte_of c then map Suc (ends (literal g cs r) (Some x) xs) else [] | [] \<Rightarrow> [])"
  by (cases rs) (auto simp: span_length_def Let_def before_def)

lemma ends_literal_iff:
  "k \<in> set (ends (literal g cs r) prev rs) \<longleftrightarrow>
     length cs \<le> k \<and> length cs \<le> length rs \<and> map (\<lambda>x. g (fst x)) (take (length cs) rs) = map byte_of cs
     \<and> k - length cs \<in> set (ends r (before prev (length cs) rs) (drop (length cs) rs))"
proof (induction cs arbitrary: prev rs k)
  case Nil
  then show ?case by (simp add: before_def)
next
  case (Cons c cs)
  show ?case
  proof (cases rs)
    case (Cons x xs)
    have "before (Some x) (length cs) xs = before prev (Suc (length cs)) (x # xs)"
      by (auto simp: before_def nth_Cons split: nat.split)
    then show ?thesis
      unfolding Cons ends_literal using Cons.IH [of _ "Some x" xs]
      by (cases k) (auto simp: image_iff)
  qed (simp add: ends_literal del: literal.simps ends.simps)
qed

lemma ends_rep_iff: "k \<in> set (ends (Rep lo hi greedy P) prev rs) \<longleftrightarrow> lo \<le> k \<and> k \<le> span_length hi P rs"
  by (auto simp: Let_def)

lemma proper_ascii_prefix:
  assumes "list_all proper rs" and "bytes_of_runes rs = w @ t" and "list_all ascii w"
  shows "\<exists>rs'. rs = map (\<lambda>c. (byte_of c, [c])) w @ rs' \<and> bytes_of_runes rs' = t"
  using assms
proof (induction w arbitrary: rs)
  case (Cons c w)
  obtain x xs where rs: "rs = x # xs" using Cons.prems(2) by (cases rs) auto
  have x: "x = (byte_of c, [c])"
  proof -
    have "hd (snd x) = c" "snd x \<noteq> []" using Cons.prems(1,2) unfolding rs by (auto simp: proper_def neq_Nil_conv)
    then show ?thesis
      using Cons.prems(1,3) unfolding rs by (cases x; cases "snd x") (auto simp: proper_def ascii_def byte_of_char_of split: if_splits)
  qed
  then show ?case using Cons.IH [of xs] Cons.prems unfolding rs by auto
qed simp

lemma replace_match:
  "ends r prev (x # xs) = Suc k # ks \<Longrightarrow>
     replace_all r f prev (x # xs) = f (snd x @ bytes_of_runes (take k xs)) @ replace_all r f (before prev (Suc k) (x # xs)) (drop k xs)"
  by (simp add: replace_all.simps(2))

lemma replace_skip:
  "(\<And>k ks. ends r prev (x # xs) \<noteq> Suc k # ks) \<Longrightarrow> replace_all r f prev (x # xs) = snd x @ replace_all r f (Some x) xs"
  by (auto simp: replace_all.simps(2) split: list.split nat.split)

lemma replace_induct [case_names Nil Match Skip]:
  assumes "\<And>prev. Q prev []"
    and "\<And>prev x xs k ks. ends r prev (x # xs) = Suc k # ks \<Longrightarrow> Q (before prev (Suc k) (x # xs)) (drop k xs) \<Longrightarrow> Q prev (x # xs)"
    and "\<And>prev x xs. (\<And>k ks. ends r prev (x # xs) \<noteq> Suc k # ks) \<Longrightarrow> Q (Some x) xs \<Longrightarrow> Q prev (x # xs)"
  shows "Q prev rs"
proof (induction "length rs" arbitrary: prev rs rule: less_induct)
  case less
  show ?case
  proof (cases rs)
    case (Cons x xs)
    show ?thesis
    proof (cases "\<exists>k ks. ends r prev (x # xs) = Suc k # ks")
      case True
      then show ?thesis using assms(2) less.hyps unfolding Cons by (metis le_imp_less_Suc length_Cons length_drop diff_le_self)
    next
      case False
      then show ?thesis using assms(3) less.hyps unfolding Cons by (metis length_Cons lessI)
    qed
  qed (simp add: assms(1))
qed

lemma bytes_take_drop: "bytes_of_runes (take k xs) @ bytes_of_runes (drop k xs) = bytes_of_runes xs"
  by (simp flip: bytes_of_runes_simps(3))

text \<open>A text in which no position has a match is left alone.\<close>

lemma replace_none:
  assumes "\<And>us vs prev. rs = us @ vs \<Longrightarrow> vs \<noteq> [] \<Longrightarrow> ends r prev vs = []"
  shows "replace_all r f prev rs = bytes_of_runes rs"
  using assms
proof (induction rs arbitrary: prev)
  case (Cons x xs)
  have "ends r p vs = []" if "xs = us @ vs" "vs \<noteq> []" for us vs p
    using Cons.prems [of "x # us" vs] that by simp
  moreover have "ends r prev (x # xs) = []" using Cons.prems [of "[]" "x # xs"] by simp
  ultimately show ?case using Cons.IH by (simp add: replace_all.simps(2))
qed simp

text \<open>Every match of the pattern has a rune of the class.\<close>

fun needs :: "(nat \<Rightarrow> bool) \<Rightarrow> regexp \<Rightarrow> bool" where
  "needs Q (Rep lo hi greedy P) \<longleftrightarrow> 0 < lo \<and> (\<forall>v. P v \<longrightarrow> Q v)"
| "needs Q (Seq a b) \<longleftrightarrow> needs Q a \<or> needs Q b"
| "needs Q (Alt a b) \<longleftrightarrow> needs Q a \<and> needs Q b"
| "needs Q (Opt a) \<longleftrightarrow> False"
| "needs Q WordB \<longleftrightarrow> False"

lemma ends_needs:
  assumes "needs Q r" and "\<forall>x \<in> set rs. \<not> Q (fst x)"
  shows "ends r prev rs = []"
  using assms
proof (induction r arbitrary: prev rs)
  case (Rep lo hi greedy P)
  have "takeWhile (\<lambda>r. P (fst r)) rs = []" using Rep.prems by (cases rs) auto
  then show ?case using Rep.prems by (simp add: span_length_def Let_def split: option.split)
next
  case (Seq a b)
  have "\<forall>x \<in> set (drop k rs). \<not> Q (fst x)" for k using Seq.prems by (auto dest: in_set_dropD)
  then show ?case using Seq by (auto simp: concat_eq_Nil_conv)
qed auto

lemma replace_needs:
  "needs Q r \<Longrightarrow> \<forall>x \<in> set rs. \<not> Q (fst x) \<Longrightarrow> replace_all r f prev rs = bytes_of_runes rs"
  by (intro replace_none ends_needs) auto

lemma needs_literal: "c \<in> set cs \<Longrightarrow> (\<And>v. g v = byte_of c \<Longrightarrow> Q v) \<Longrightarrow> needs Q (literal g cs r)"
  by (induction cs) auto

lemma replace_none_context:
  assumes "\<And>us x xs. rs = us @ x # xs \<Longrightarrow> ends r (if us = [] then prev else Some (last us)) (x # xs) = []"
  shows "replace_all r f prev rs = bytes_of_runes rs"
  using assms
proof (induction rs arbitrary: prev)
  case (Cons x xs)
  have "ends r prev (x # xs) = []" using Cons.prems [of "[]"] by simp
  moreover have "ends r (if us = [] then Some x else Some (last us)) (y # ys) = []" if "xs = us @ y # ys" for us y ys
    using Cons.prems [of "x # us" y ys] that by (simp split: if_splits)
  ultimately show ?case using Cons.IH by (simp add: replace_all.simps(2))
qed simp

end
