(* ===== verification/Debug_Log.thy ===== *)
theory Debug_Log
  imports Go_Regexp
begin

text \<open>
  The debug log, \<^verbatim>\<open>src/internal/debug/debug.go\<close>: the masking of what is logged, the log file of the day and the removal of
  old files. The directory is the list of its entries, each with the lines written to it and whether it is a
  directory; the time stamps in front of the lines are left out. An environment has the date that
  \<^verbatim>\<open>Format\<close> gives for now, the time a week ago, and whether the system calls succeed.
\<close>

subsection \<open>Patterns\<close>

abbreviation ranges :: "(nat \<times> nat) list \<Rightarrow> nat \<Rightarrow> bool" where
  "ranges ps v \<equiv> list_ex (\<lambda>(l, h). l \<le> v \<and> v \<le> h) ps"

definition key_rune :: "nat \<Rightarrow> bool" where
  "key_rune v \<longleftrightarrow> ranges [(65, 90), (97, 122), (48, 57)] v \<or> List.member [43, 47, 61] v"

definition hex_rune :: "nat \<Rightarrow> bool" where
  "hex_rune v \<longleftrightarrow> ranges [(48, 57), (97, 102), (65, 70)] v"

definition base64_rune :: "nat \<Rightarrow> bool" where
  "base64_rune v \<longleftrightarrow> ranges [(65, 90), (97, 122), (48, 57)] v \<or> List.member [43, 47] v"

definition token_rune :: "nat \<Rightarrow> bool" where
  "token_rune v \<longleftrightarrow> ranges [(65, 90), (97, 122), (48, 57)] v \<or> List.member [95, 45] v"

definition space_rune :: "nat \<Rightarrow> bool" where
  "space_rune v \<longleftrightarrow> List.member [9, 10, 12, 13, 32] v"

definition quote_rune :: "nat \<Rightarrow> bool" where
  "quote_rune v \<longleftrightarrow> List.member [34, 39] v \<or> space_rune v"

definition sep_rune :: "nat \<Rightarrow> bool" where
  "sep_rune v \<longleftrightarrow> quote_rune v \<or> List.member [58, 61] v"

definition plain_rune :: "nat \<Rightarrow> bool" where
  "plain_rune v \<longleftrightarrow> \<not> space_rune v \<and> \<not> List.member [44, 59, 125, 93] v"

text \<open>\<^verbatim>\<open>["'\s:=]*["'\s]?\<close> followed by the value.\<close>

definition assigned :: "regexp \<Rightarrow> regexp" where
  "assigned value = Seq (Rep 0 None True sep_rune) (Seq (Opt (One quote_rune)) value)"

abbreviation key_value :: regexp where "key_value \<equiv> Rep 16 None True (fold_class key_rune)"

definition pem_kind :: "regexp \<Rightarrow> regexp" where
  "pem_kind r =
     (let k = (\<lambda>s. literal id s empty_match)
      in Seq (Opt (Alt (k ''RSA '') (Alt (k ''EC '') (Alt (k ''OPENSSH '') (Alt (k ''DSA '') (k ''PGP '')))))) r)"

definition pem_pattern :: regexp where
  "pem_pattern =
     literal id ''-----BEGIN '' (pem_kind (literal id ''PRIVATE KEY-----''
       (Seq (Rep 0 None False (\<lambda>_. True)) (literal id ''-----END '' (pem_kind (literal id ''PRIVATE KEY-----'' empty_match))))))"

definition named_key :: "string \<Rightarrow> string \<Rightarrow> regexp" where
  "named_key name glue =
     literal folded name (Seq (Opt (One (\<lambda>v. List.member (map byte_of glue) v))) (literal folded ''key'' (assigned key_value)))"

definition secret_pattern :: regexp where
  "secret_pattern =
     Seq (Alt (literal folded ''secret'' empty_match) (Alt (literal folded ''password'' empty_match) (literal folded ''passphrase'' empty_match)))
       (assigned (Rep 1 None True plain_rune))"

definition jid_pattern :: regexp where
  "jid_pattern = literal folded ''korik:'' (Rep 1 None True (fold_class key_rune))"

definition hex_pattern :: regexp where
  "hex_pattern = Seq WordB (Seq (Rep 32 None True hex_rune) WordB)"

definition base64_pattern :: regexp where
  "base64_pattern = Seq WordB (Seq (Rep 16 None True base64_rune) (Seq (Rep 0 (Some 2) True (\<lambda>v. v = 61)) WordB))"

definition token_pattern :: regexp where
  "token_pattern = literal folded ''token'' (assigned (Rep 16 None True (fold_class token_rune)))"

definition sig_pattern :: regexp where
  "sig_pattern = literal folded ''sig'' (assigned key_value)"

subsection \<open>Sanitize\<close>

definition mask_jid :: "string \<Rightarrow> string" where
  "mask_jid m = (case Index m '':'' of Some i \<Rightarrow> take i m @ '':[REDACTED]'' | None \<Rightarrow> ''[REDACTED]'')"

definition masks_before :: "(regexp \<times> string) list" where
  "masks_before =
     [(pem_pattern, ''[REDACTED_PRIVATE_KEY]''), (named_key ''session'' ''_-'', ''[REDACTED_SESSION_KEY]''),
      (named_key ''private'' ''_-'', ''[REDACTED_PRIVATE_KEY]''), (secret_pattern, ''[REDACTED_SECRET]''),
      (named_key ''encryption'' ''_-'', ''[REDACTED_KEY]''), (named_key ''public'' ''- '', ''[REDACTED_PUBLIC_KEY]'')]"

definition masks_after :: "(regexp \<times> string) list" where
  "masks_after =
     [(hex_pattern, ''[REDACTED_HEX_KEY]''), (base64_pattern, ''[REDACTED_BASE64_KEY]''),
      (token_pattern, ''[REDACTED_TOKEN]''), (sig_pattern, ''[REDACTED_SIG]'')]"

definition mask_with :: "(regexp \<times> string) \<Rightarrow> string \<Rightarrow> string" where
  "mask_with p s = ReplaceAllStringFunc (fst p) (\<lambda>_. snd p) s"

definition Sanitize :: "string \<Rightarrow> string" where
  "Sanitize s =
     fold mask_with masks_after (ReplaceAllStringFunc jid_pattern mask_jid (fold mask_with masks_before (TrimSpace s)))"

subsection \<open>The log\<close>

record log_entry =
  le_name :: string
  le_dir :: bool
  le_lines :: "string list"

text \<open>A \<^verbatim>\<open>*log.Logger\<close> is the file it writes to and whether that file was closed.\<close>

record log_state =
  lg_Enabled :: bool
  lg_Logger :: "(string \<times> bool) option"
  lg_currentDate :: string
  lg_files :: "log_entry list"

record log_env =
  lv_date :: string
  lv_cutoff :: gotime
  lv_open :: bool
  lv_readdir :: bool
  lv_upper :: "string \<Rightarrow> string"

text \<open>\<^verbatim>\<open>time.Parse("2006-01-02", s)\<close>, at midnight UTC.\<close>

definition leap_year :: "int \<Rightarrow> bool" where
  "leap_year y \<longleftrightarrow> y mod 4 = 0 \<and> (y mod 100 \<noteq> 0 \<or> y mod 400 = 0)"

definition days_in :: "int \<Rightarrow> nat \<Rightarrow> int" where
  "days_in y m = (if m = 2 then (if leap_year y then 29 else 28) else if List.member [4, 6, 9, 11] m then 30 else 31)"

definition day_number :: "int \<Rightarrow> nat \<Rightarrow> int \<Rightarrow> int" where
  "day_number y m d =
     365 * (y - 1) + (y - 1) div 4 - (y - 1) div 100 + (y - 1) div 400 + (\<Sum>i\<leftarrow>[1 ..< m]. days_in y i) + d - 1"

definition parse_date :: "string \<Rightarrow> gotime option" where
  "parse_date s =
     (let y = int (digits_value (take 4 s)); m = digits_value (take 2 (drop 5 s)); d = int (digits_value (drop 8 s))
      in if length s = 10 \<and> list_all is_digit (take 4 s @ take 2 (drop 5 s) @ drop 8 s) \<and> s ! 4 = CHR ''-'' \<and> s ! 7 = CHR ''-''
           \<and> 1 \<le> m \<and> m \<le> 12 \<and> 1 \<le> d \<and> d \<le> days_in y m
         then Some (24 * Hour * day_number y m d) else None)"

definition TrimSuffix :: "string \<Rightarrow> string \<Rightarrow> string" where
  "TrimSuffix s suf = (if HasSuffix s suf then take (length s - length suf) s else s)"

definition TrimPrefix :: "string \<Rightarrow> string \<Rightarrow> string" where
  "TrimPrefix s pre = (if HasPrefix s pre then drop (length pre) s else s)"

definition log_name :: "string \<Rightarrow> string" where
  "log_name date = ''korik-'' @ date @ ''.log''"

definition expired_log :: "gotime \<Rightarrow> log_entry \<Rightarrow> bool" where
  "expired_log cutoff e \<longleftrightarrow>
     \<not> le_dir e \<and> HasPrefix (le_name e) ''korik-'' \<and> HasSuffix (le_name e) ''.log''
     \<and> (case parse_date (TrimPrefix (TrimSuffix (le_name e) ''.log'') ''korik-'') of None \<Rightarrow> False | Some t \<Rightarrow> t < cutoff)"

definition cleanupExpiredLogs :: "log_env \<Rightarrow> log_state \<Rightarrow> log_state" where
  "cleanupExpiredLogs V l =
     (if lv_readdir V then l\<lparr>lg_files := filter (\<lambda>e. \<not> expired_log (lv_cutoff V) e) (lg_files l)\<rparr> else l)"

text \<open>\<^verbatim>\<open>os.OpenFile\<close> creates the file where there is none.\<close>

definition open_log :: "string \<Rightarrow> log_state \<Rightarrow> log_state" where
  "open_log name l =
     l\<lparr>lg_files := (if name \<in> le_name ` set (lg_files l) then lg_files l
                   else lg_files l @ [\<lparr>le_name = name, le_dir = False, le_lines = []\<rparr>]),
       lg_Logger := Some (name, False)\<rparr>"

definition InitLog :: "log_env \<Rightarrow> bool \<Rightarrow> log_state \<Rightarrow> log_state" where
  "InitLog V enabled l =
     (let l0 = l\<lparr>lg_Enabled := enabled\<rparr>
      in if \<not> enabled then l0\<lparr>lg_Logger := None\<rparr>
         else let l1 = cleanupExpiredLogs V l0
              in if lv_open V then (open_log (log_name (lv_date V)) l1)\<lparr>lg_currentDate := lv_date V\<rparr>
                 else l1\<lparr>lg_Logger := None\<rparr>)"

definition rotate_log :: "log_env \<Rightarrow> log_state \<Rightarrow> log_state" where
  "rotate_log V l =
     (if lv_date V = lg_currentDate l \<and> lg_Logger l \<noteq> None then l
      else let l1 = l\<lparr>lg_Logger := map_option (\<lambda>(name, closed). (name, True)) (lg_Logger l), lg_currentDate := lv_date V\<rparr>
           in if lv_open V then cleanupExpiredLogs V (open_log (log_name (lv_date V)) l1) else l1)"

text \<open>\<^verbatim>\<open>Logger.Printf\<close>: a write to a closed file fails, and the error is dropped.\<close>

definition print_log :: "string \<Rightarrow> log_state \<Rightarrow> log_state" where
  "print_log s l =
     (case lg_Logger l of
        Some (name, False) \<Rightarrow>
          l\<lparr>lg_files := map (\<lambda>e. if le_name e = name then e\<lparr>le_lines := le_lines e @ [s]\<rparr> else e) (lg_files l)\<rparr>
      | _ \<Rightarrow> l)"

definition log_with :: "log_env \<Rightarrow> string \<Rightarrow> log_state \<Rightarrow> log_state" where
  "log_with V s l = (if \<not> lg_Enabled l \<or> lg_Logger l = None then l else print_log s (rotate_log V l))"

definition upper_ascii :: "char \<Rightarrow> char" where
  "upper_ascii c = (if 97 \<le> byte_of c \<and> byte_of c \<le> 122 then char_of (byte_of c - 32) else c)"

definition Log :: "log_env \<Rightarrow> string \<Rightarrow> string \<Rightarrow> log_state \<Rightarrow> log_state" where
  "Log V level message = log_with V (''['' @ (if list_all ascii level then map upper_ascii level else lv_upper V level) @ ''] '' @ Sanitize message)"

definition LogConnection :: "log_env \<Rightarrow> string \<Rightarrow> string \<Rightarrow> log_state \<Rightarrow> log_state" where
  "LogConnection V event peer = log_with V (''[CONNECTION] event='' @ Sanitize event @ '' peer='' @ Sanitize peer)"

definition LogHandshake :: "log_env \<Rightarrow> string \<Rightarrow> string \<Rightarrow> log_state \<Rightarrow> log_state" where
  "LogHandshake V peer step = log_with V (''[HANDSHAKE] peer='' @ Sanitize peer @ '' step='' @ Sanitize step)"

definition LogNAT :: "log_env \<Rightarrow> string \<Rightarrow> string \<Rightarrow> log_state \<Rightarrow> log_state" where
  "LogNAT V step detail = log_with V (''[NAT] step='' @ Sanitize step @ '' detail='' @ Sanitize detail)"

definition LogProtocol :: "log_env \<Rightarrow> string \<Rightarrow> int \<Rightarrow> string \<Rightarrow> log_state \<Rightarrow> log_state" where
  "LogProtocol V msgType n peer =
     log_with V (''[PROTOCOL] type='' @ Sanitize msgType @ '' length='' @ Itoa n @ '' peer='' @ Sanitize peer @ '' encrypted=true'')"

definition EnsureDebugFlag :: "string list \<Rightarrow> bool" where
  "EnsureDebugFlag args = list_ex (\<lambda>arg. arg = ''--debug'' \<or> arg = ''-debug'') (drop 1 args)"

subsection \<open>JIDs\<close>

text \<open>A JID starts the text: the scheme in any case and at least one character of the key.\<close>

definition jid_at :: "string \<Rightarrow> bool" where
  "jid_at s \<longleftrightarrow> 7 \<le> length s \<and> map lower_ascii (take 6 s) = ''korik:'' \<and> key_rune (byte_of (s ! 6))"

definition no_jid :: "string \<Rightarrow> bool" where
  "no_jid s \<longleftrightarrow> (\<forall>i. \<not> jid_at (drop i s))"

definition jid_char :: "char \<Rightarrow> bool" where
  "jid_char c \<longleftrightarrow> key_rune (byte_of c) \<or> c = CHR '':''"

lemma byte_of_lower: "byte_of (lower_ascii c) = (if 65 \<le> byte_of c \<and> byte_of c \<le> 90 then byte_of c + 32 else byte_of c)"
  by (simp add: lower_ascii_def byte_of_char_of)

lemma lower_colon: "lower_ascii c = CHR '':'' \<Longrightarrow> c = CHR '':''"
proof -
  assume "lower_ascii c = CHR '':''"
  then have "byte_of c = byte_of CHR '':''" using byte_of_lower [of c] by (simp add: byte_of_def split: if_splits)
  then show ?thesis by (metis char_of_byte_of)
qed

lemma lower_jid_char: "lower_ascii c \<in> set ''korik:'' \<Longrightarrow> jid_char c"
  by (auto simp: lower_ascii_def jid_char_def key_rune_def byte_of_def char_of_def split: if_splits) 

lemma jid_at_chars:
  assumes "jid_at s"
  shows "\<exists>c d. take 7 s = c @ [d] \<and> length c = 6 \<and> map lower_ascii c = ''korik:'' \<and> key_rune (byte_of d)"
    and "list_all jid_char (take 7 s)"
proof -
  have s: "take 7 s = take 6 s @ [s ! 6]" using assms take_Suc_conv_app_nth [of 6 s] by (simp add: jid_at_def)
  then show "\<exists>c d. take 7 s = c @ [d] \<and> length c = 6 \<and> map lower_ascii c = ''korik:'' \<and> key_rune (byte_of d)"
    using assms by (auto simp: jid_at_def)
  have "jid_char c" if "c \<in> set (take 6 s)" for c
  proof (rule lower_jid_char)
    have "lower_ascii c \<in> set (map lower_ascii (take 6 s))" using that by simp
    then show "lower_ascii c \<in> set ''korik:''" using assms unfolding jid_at_def by metis
  qed
  then show "list_all jid_char (take 7 s)"
    unfolding s using assms by (auto simp: list_all_iff jid_at_def jid_char_def)
qed

lemma jid_at_take: "jid_at s \<longleftrightarrow> jid_at (take 7 s)"
  by (auto simp: jid_at_def min_def)

lemma no_jid_parts: "no_jid (u @ v) \<Longrightarrow> no_jid v"
  unfolding no_jid_def by (metis append_eq_conv_conj drop_drop)

lemma no_jid_append:
  assumes "no_jid u" and "no_jid v" and "u = [] \<or> \<not> jid_char (last u) \<or> v = [] \<or> \<not> jid_char (hd v)"
  shows "no_jid (u @ v)"
  unfolding no_jid_def
proof (intro allI notI)
  fix i
  assume j: "jid_at (drop i (u @ v))"
  show False
  proof (cases "length u \<le> i")
    case True
    then show False using j assms(2) by (simp add: no_jid_def)
  next
    case False
    let ?w = "drop i u"
    have w: "?w \<noteq> []" "last ?w = last u" using False by simp_all
    show False
    proof (cases "7 \<le> length ?w")
      case True
      then show False using j assms(1) jid_at_take [of "drop i (u @ v)"] jid_at_take [of ?w] False
        by (simp add: no_jid_def)
    next
      case short: False
      have t: "take 7 (drop i (u @ v)) = ?w @ take (7 - length ?w) v" using False short by simp
      have "v \<noteq> []" using j False short by (auto simp: jid_at_def)
      then have "hd v \<in> set (take (7 - length ?w) v)" using short by (cases v; cases "7 - length ?w") auto
      moreover have "last u \<in> set ?w" using w by (metis last_in_set)
      ultimately show False
        using jid_at_chars(2) [OF j] assms(3) \<open>v \<noteq> []\<close> False unfolding t by (auto simp: list_all_iff)
    qed
  qed
qed

lemma no_colon: "CHR '':'' \<notin> set s \<Longrightarrow> no_jid s"
  unfolding no_jid_def
proof (intro allI notI)
  fix i
  assume c: "CHR '':'' \<notin> set s" and j: "jid_at (drop i s)"
  obtain cs d where cs: "take 7 (drop i s) = cs @ [d]" "map lower_ascii cs = ''korik:''" using jid_at_chars(1) [OF j] by auto
  have "CHR '':'' \<in> set (map lower_ascii cs)" unfolding cs(2) by simp
  then have "CHR '':'' \<in> lower_ascii ` set cs" by simp
  then have "CHR '':'' \<in> set cs" by (metis imageE lower_colon)
  then have "CHR '':'' \<in> set (take 7 (drop i s))" using cs(1) by simp
  then show False using c by (meson in_set_takeD in_set_dropD)
qed

text \<open>A mask between brackets separates what is left of it from what is right of it.\<close>

lemma bracket_apart: "\<not> jid_char CHR ''[''" "\<not> jid_char CHR '']''"
  by (simp_all add: jid_char_def key_rune_def byte_of_def)

lemma no_jid_mask:
  assumes "no_jid u" and "no_jid v" and "CHR '':'' \<notin> set m"
  shows "no_jid (u @ ''['' @ m @ '']'' @ v)"
proof -
  have "no_jid ((''['' @ m @ '']'') @ v)"
    by (intro no_jid_append no_colon assms(2)) (use assms(3) bracket_apart in auto)
  from no_jid_append [OF assms(1) this] show ?thesis using bracket_apart by simp
qed

lemma no_jid_prefix: "no_jid (u @ v) \<Longrightarrow> no_jid u"
  unfolding no_jid_def
proof (intro allI notI)
  fix i
  assume uv: "\<forall>i. \<not> jid_at (drop i (u @ v))" and j: "jid_at (drop i u)"
  then have "jid_at (drop i (u @ v))" by (auto simp: jid_at_def nth_append)
  then show False using uv by blast
qed

lemma replace_keeps_no_jid:
  assumes "CHR '':'' \<notin> set m" and "no_jid (u @ bytes_of_runes rs)"
  shows "no_jid (u @ replace_all r (\<lambda>_. ''['' @ m @ '']'') prev rs)"
  using assms(2)
proof (induction prev rs arbitrary: u rule: replace_induct [where r = r])
  case (Match prev x xs k ks)
  have "no_jid (bytes_of_runes (drop k xs))"
    using Match.prems no_jid_parts [of "u @ snd x @ bytes_of_runes (take k xs)" "bytes_of_runes (drop k xs)"]
    by (simp add: bytes_take_drop)
  then have "no_jid (replace_all r (\<lambda>_. ''['' @ m @ '']'') (before prev (Suc k) (x # xs)) (drop k xs))"
    using Match.IH [of "[]"] by simp
  moreover have "no_jid u" using Match.prems no_jid_prefix by blast
  ultimately show ?case using no_jid_mask [OF _ _ assms(1)] by (simp add: replace_match [OF Match.hyps])
next
  case (Skip prev x xs)
  show ?case using Skip.IH [of "u @ snd x"] Skip.prems by (simp add: replace_skip [OF Skip.hyps])
qed simp

lemma mask_keeps_no_jid:
  assumes "snd p = ''['' @ m @ '']''" and "CHR '':'' \<notin> set m" and "no_jid s"
  shows "no_jid (mask_with p s)"
  using replace_keeps_no_jid [OF assms(2), of "[]" "rune_list s"] assms(3) rune_list_proper [of s]
  by (simp add: mask_with_def ReplaceAllStringFunc_def assms(1))

lemma masks_keep_no_jid:
  "\<forall>p \<in> set ps. \<exists>m. snd p = ''['' @ m @ '']'' \<and> CHR '':'' \<notin> set m \<Longrightarrow> no_jid s \<Longrightarrow> no_jid (fold mask_with ps s)"
proof (induction ps arbitrary: s)
  case (Cons p ps)
  obtain m where "snd p = ''['' @ m @ '']''" "CHR '':'' \<notin> set m" using Cons.prems(1) by auto
  from mask_keeps_no_jid [OF this Cons.prems(2)] show ?case using Cons.IH Cons.prems(1) by simp
qed simp

lemma masks_after_brackets: "\<forall>p \<in> set masks_after. \<exists>m. snd p = ''['' @ m @ '']'' \<and> CHR '':'' \<notin> set m"
  unfolding masks_after_def
  by (auto intro: exI [of _ "''REDACTED_HEX_KEY''"] exI [of _ "''REDACTED_BASE64_KEY''"] exI [of _ "''REDACTED_TOKEN''"]
      exI [of _ "''REDACTED_SIG''"])

subsection \<open>The masking of JIDs\<close>

lemma jid_match_iff:
  "k \<in> set (ends jid_pattern prev rs) \<longleftrightarrow>
     7 \<le> k \<and> 6 \<le> length rs \<and> map (\<lambda>x. folded (fst x)) (take 6 rs) = map byte_of ''korik:''
     \<and> k - 6 \<le> span_length None (fold_class key_rune) (drop 6 rs)"
proof -
  have len: "length ''korik:'' = 6" by simp
  show ?thesis unfolding jid_pattern_def ends_literal_iff ends_rep_iff len by auto
qed

lemma folded_colon: "folded v = 58 \<longleftrightarrow> v = 58"
  by (auto simp: folded_def)

lemma proper_no_colon: "proper x \<Longrightarrow> fst x \<noteq> 58 \<Longrightarrow> CHR '':'' \<notin> set (snd x)"
proof
  assume p: "proper x" "fst x \<noteq> 58" and c: "CHR '':'' \<in> set (snd x)"
  have b: "byte_of CHR '':'' = 58" by (simp add: byte_of_def)
  show False
  proof (cases "fst x < 128")
    case True
    then have "CHR '':'' = char_of (fst x)" using p(1) c by (simp add: proper_def)
    then show False using byte_of_char_of [of "fst x"] True b p(2) by simp
  qed (use p(1) c b in \<open>auto simp: proper_def list_all_iff\<close>)
qed

lemma Index_colon: "CHR '':'' \<notin> set a \<Longrightarrow> Index (a @ '':'' @ t) '':'' = Some (length a)"
  by (induction a) (auto simp: HasPrefix_def)

lemma jid_match_masked:
  assumes "k \<in> set (ends jid_pattern prev rs)" and "list_all proper rs"
  shows "\<exists>a t. bytes_of_runes (take k rs) = a @ '':'' @ t \<and> CHR '':'' \<notin> set a
    \<and> mask_jid (bytes_of_runes (take k rs)) = a @ '':[REDACTED]''"
proof -
  have k: "7 \<le> k" "6 \<le> length rs" "map (\<lambda>x. folded (fst x)) (take 6 rs) = map byte_of ''korik:''"
    using assms(1) by (simp_all add: jid_match_iff)
  obtain x0 x1 x2 x3 x4 x5 zs where rs: "rs = x0 # x1 # x2 # x3 # x4 # x5 # zs"
    using k(2) by (auto simp: eval_nat_numeral Suc_le_length_iff)
  let ?a = "bytes_of_runes [x0, x1, x2, x3, x4]"
  have f: "folded (fst x0) = 107" "folded (fst x1) = 111" "folded (fst x2) = 114" "folded (fst x3) = 105"
      "folded (fst x4) = 107" "folded (fst x5) = 58"
    using k(3) unfolding rs by (simp_all add: byte_of_def)
  have "CHR '':'' \<notin> set (snd x)" if "x \<in> {x0, x1, x2, x3, x4}" for x
    using that f assms(2) unfolding rs by (intro proper_no_colon) (auto simp: folded_def)
  then have a: "CHR '':'' \<notin> set ?a" by auto
  have b: "byte_of CHR '':'' = 58" by (simp add: byte_of_def)
  have "char_of (58::nat) = CHR '':''" using char_of_byte_of [of "CHR '':''"] unfolding b .
  then have "snd x5 = '':''" using f(6) assms(2) unfolding rs by (simp add: folded_colon proper_def)
  then have "bytes_of_runes (take k rs) = ?a @ '':'' @ bytes_of_runes (take (k - 6) zs)"
    using k(1) unfolding rs by (simp add: take_Cons' numeral_eq_Suc)
  then have eq: "bytes_of_runes (take k rs) = ?a @ '':'' @ bytes_of_runes (take (k - 6) zs)" .
  have "mask_jid (bytes_of_runes (take k rs)) = ?a @ '':[REDACTED]''"
    unfolding eq mask_jid_def Index_colon [OF a] by simp
  then show ?thesis using a eq by blast
qed

lemma jid_found:
  assumes "jid_at (bytes_of_runes rs)" and "list_all proper rs"
  shows "\<exists>k ks. ends jid_pattern prev rs = Suc k # ks"
proof -
  let ?s = "bytes_of_runes rs"
  have w: "list_all ascii (take 7 ?s)"
    using jid_at_chars(2) [OF assms(1)] by (auto simp: list_all_iff jid_char_def key_rune_def ascii_def byte_of_def)
  obtain rs' where rs: "rs = map (\<lambda>c. (byte_of c, [c])) (take 7 ?s) @ rs'"
    using proper_ascii_prefix [OF assms(2) _ w, of "drop 7 ?s"] by auto
  have len: "7 \<le> length ?s" "length rs \<ge> 7" using assms(1) rs by (auto simp: jid_at_def) (metis length_append length_map length_take le_add1 min_absorb2)
  have six: "take 6 rs = map (\<lambda>c. (byte_of c, [c])) (take 6 ?s)"
    using len(1) by (subst rs) (simp add: take_map min_def)
  have "folded (byte_of c) = byte_of (lower_ascii c)" if "c \<in> set (take 6 ?s)" for c
  proof -
    have "byte_of c < 128" using that w by (auto simp: list_all_iff ascii_def dest: set_take_subset_set_take [THEN subsetD, rotated, of _ 6 _ 7])
    then show ?thesis by (simp add: folded_def byte_of_lower)
  qed
  then have "map (\<lambda>x. folded (fst x)) (take 6 rs) = map byte_of (map lower_ascii (take 6 ?s))" by (simp add: six)
  then have lit: "map (\<lambda>x. folded (fst x)) (take 6 rs) = map byte_of ''korik:''" using assms(1) unfolding jid_at_def by metis
  have "rs ! 6 = (byte_of (?s ! 6), [?s ! 6])" using len(1) by (subst rs) (simp add: nth_append)
  then obtain ys where "drop 6 rs = (byte_of (?s ! 6), [?s ! 6]) # ys"
    using Cons_nth_drop_Suc [of 6 rs] len(2) by (metis Suc_le_lessD eval_nat_numeral(3) less_le_trans lessI numeral_eq_Suc pred_numeral_simps(3))
  then have "1 \<le> span_length None (fold_class key_rune) (drop 6 rs)"
    using assms(1) by (simp add: span_length_def fold_class_def jid_at_def)
  then have "7 \<in> set (ends jid_pattern prev rs)" using len(2) lit by (simp add: jid_match_iff)
  then obtain e es where "ends jid_pattern prev rs = e # es" by (cases "ends jid_pattern prev rs") auto
  moreover from this have "7 \<le> e" using jid_match_iff [of e prev rs] by simp
  ultimately show ?thesis by (cases e) auto
qed

lemma replace_jid_prefix:
  assumes "prefix w (replace_all jid_pattern mask_jid prev rs)" and "CHR ''['' \<notin> set w" and "list_all proper rs"
  shows "prefix w (bytes_of_runes rs)"
  using assms
proof (induction prev rs arbitrary: w rule: replace_induct [where r = jid_pattern])
  case (Match prev x xs k ks)
  obtain a t where a: "bytes_of_runes (take (Suc k) (x # xs)) = a @ '':'' @ t"
      "mask_jid (bytes_of_runes (take (Suc k) (x # xs))) = a @ '':[REDACTED]''"
    using jid_match_masked [of "Suc k" prev "x # xs"] Match.hyps Match.prems(3) by (auto simp del: take_Suc_Cons)
  have "replace_all jid_pattern mask_jid prev (x # xs) = (a @ '':'') @ ''[REDACTED]'' @
      replace_all jid_pattern mask_jid (before prev (Suc k) (x # xs)) (drop k xs)"
    using a(2) by (simp add: replace_match [OF Match.hyps])
  then have "prefix w (a @ '':'')"
    using Match.prems(1,2) by (auto simp: prefix_append prefix_Cons)
  moreover have "prefix (a @ '':'') (bytes_of_runes (x # xs))"
    using a(1) bytes_take_drop [of "Suc k" "x # xs"] by (metis append_assoc prefixI)
  ultimately show ?case by (rule prefix_order.trans)
next
  case (Skip prev x xs)
  have "prefix w (snd x @ replace_all jid_pattern mask_jid (Some x) xs)" using Skip.prems(1) by (simp add: replace_skip [OF Skip.hyps])
  then consider "prefix w (snd x)" | w' where "w = snd x @ w'" "prefix w' (replace_all jid_pattern mask_jid (Some x) xs)"
    by (auto simp: prefix_append)
  then show ?case using Skip.IH Skip.prems(2,3) by cases (auto simp: prefix_append)
qed simp

lemma replace_jid_safe:
  assumes "list_all proper rs"
  shows "no_jid (replace_all jid_pattern mask_jid prev rs)"
  using assms
proof (induction prev rs rule: replace_induct [where r = jid_pattern])
  case (Nil prev)
  then show ?case by (simp add: no_jid_def jid_at_def)
next
  case (Match prev x xs k ks)
  obtain a where a: "CHR '':'' \<notin> set a" "mask_jid (bytes_of_runes (take (Suc k) (x # xs))) = a @ '':[REDACTED]''"
    using jid_match_masked [of "Suc k" prev "x # xs"] Match.hyps Match.prems by (auto simp del: take_Suc_Cons)
  have "no_jid (a @ '':'')"
    unfolding no_jid_def
  proof (intro allI notI)
    fix i
    assume j: "jid_at (drop i (a @ '':''))"
    then have i: "7 \<le> length (drop i (a @ '':''))" by (simp add: jid_at_def)
    obtain c d where c: "take 7 (drop i (a @ '':'')) = c @ [d]" "length c = 6" "map lower_ascii c = ''korik:''"
      using jid_at_chars(1) [OF j] by auto
    have "CHR '':'' \<in> set (map lower_ascii c)" unfolding c(3) by simp
    then have "CHR '':'' \<in> lower_ascii ` set c" by simp
    then have "CHR '':'' \<in> set c" by (metis imageE lower_colon)
    moreover have "c = take 6 (take 7 (drop i (a @ '':'')))" unfolding c(1) using c(2) by simp
    then have "c = take 6 (drop i a)" using i by simp
    ultimately show False using a(1) by (auto dest!: in_set_takeD in_set_dropD)
  qed
  moreover have "no_jid (replace_all jid_pattern mask_jid (before prev (Suc k) (x # xs)) (drop k xs))"
    using Match.IH Match.prems by (auto simp: list_all_iff dest: in_set_dropD)
  ultimately have "no_jid ((a @ '':'') @ ''['' @ ''REDACTED'' @ '']'' @ replace_all jid_pattern mask_jid (before prev (Suc k) (x # xs)) (drop k xs))"
    by (rule no_jid_mask) simp
  then show ?case using a(2) by (simp add: replace_match [OF Match.hyps])
next
  case (Skip prev x xs)
  let ?r = "replace_all jid_pattern mask_jid (Some x) xs"
  have r: "no_jid ?r" using Skip.IH Skip.prems by simp
  have x: "proper x" "snd x \<noteq> []" using Skip.prems by (auto simp: proper_def)
  have out: "replace_all jid_pattern mask_jid prev (x # xs) = snd x @ ?r" by (rule replace_skip [OF Skip.hyps])
  have start: "\<not> jid_at (snd x @ ?r)"
  proof
    assume j: "jid_at (snd x @ ?r)"
    let ?w = "take 7 (snd x @ ?r)"
    have "prefix ?w (replace_all jid_pattern mask_jid prev (x # xs))" unfolding out by (rule take_is_prefix)
    moreover have "CHR ''['' \<notin> set ?w" using jid_at_chars(2) [OF j] bracket_apart by (auto simp: list_all_iff)
    ultimately have "prefix ?w (bytes_of_runes (x # xs))" using replace_jid_prefix Skip.prems by blast
    moreover have "length ?w = 7" using j unfolding jid_at_def length_take by simp
    ultimately have "take 7 (bytes_of_runes (x # xs)) = ?w" by (metis append_eq_conv_conj prefixE)
    then have "jid_at (bytes_of_runes (x # xs))" using j jid_at_take by metis
    then show False using jid_found [OF _ Skip.prems] Skip.hyps by blast
  qed
  show ?case
  proof (cases "fst x < 128")
    case True
    then obtain c where c: "snd x = [c]" using x(1) by (auto simp: proper_def)
    have "\<not> jid_at (drop i (c # ?r))" for i
      using start r c by (cases i) (auto simp: no_jid_def)
    then show ?thesis by (simp add: out c no_jid_def)
  next
    case False
    then have "list_all (\<lambda>c. 128 \<le> byte_of c) (snd x)" using x(1) by (simp add: proper_def)
    then have b: "\<not> jid_char (last (snd x))" "CHR '':'' \<notin> set (snd x)"
      using x(2) by (auto simp: list_all_iff jid_char_def key_rune_def byte_of_def dest!: last_in_set)
    show ?thesis unfolding out using no_jid_append [OF no_colon [OF b(2)] r] b(1) by blast
  qed
qed

lemma Sanitize_no_jid: "no_jid (Sanitize s)"
  unfolding Sanitize_def ReplaceAllStringFunc_def
  using rune_list_proper by (intro masks_keep_no_jid masks_after_brackets replace_jid_safe) blast

subsection \<open>Keys\<close>

definition is_hex :: "char \<Rightarrow> bool" where "is_hex c \<longleftrightarrow> hex_rune (byte_of c)"

lemma hex_bytes: "is_hex c \<or> c = CHR ''_'' \<Longrightarrow> byte_of c \<in> {48..57} \<union> {65..70} \<union> {97..102} \<union> {95}"
  by (auto simp: is_hex_def hex_rune_def byte_of_def)

lemma hex_text:
  assumes "list_all (\<lambda>c. is_hex c \<or> c = CHR ''_'') s"
  shows "rune_list s = map (\<lambda>c. (byte_of c, [c])) s" "TrimSpace s = s"
    and "\<forall>x \<in> set (rune_list s). fst x \<in> {48..57} \<union> {65..70} \<union> {97..102} \<union> {95}"
proof -
  have a: "list_all ascii s" using assms hex_bytes by (fastforce simp: list_all_iff ascii_def)
  show r: "rune_list s = map (\<lambda>c. (byte_of c, [c])) s" by (rule rune_list_ascii [OF a])
  show "\<forall>x \<in> set (rune_list s). fst x \<in> {48..57} \<union> {65..70} \<union> {97..102} \<union> {95}"
    unfolding r using assms hex_bytes by (auto simp: list_all_iff)
  show "TrimSpace s = s"
  proof (cases "s = []")
    case False
    have b: "byte_of c \<in> {48..57} \<union> {65..70} \<union> {97..102} \<union> {95}" if "c \<in> set s" for c
      using assms hex_bytes that by (auto simp: list_all_iff)
    show ?thesis using b [of "hd s"] b [of "last s"] False by (intro TrimSpace_ends) auto
  qed (use TrimSpace_plain [of "[]"] in simp)
qed

text \<open>The patterns that need a letter which is no hexadecimal digit.\<close>

lemma hex_passes:
  assumes "list_all (\<lambda>c. is_hex c \<or> c = CHR ''_'') s"
    and "\<And>v. v \<in> {48..57} \<union> {65..70} \<union> {97..102} \<union> {95} \<Longrightarrow> \<not> Q v" and "needs Q r"
  shows "ReplaceAllStringFunc r f s = s"
  unfolding ReplaceAllStringFunc_def using hex_text(3) [OF assms(1)] assms(2) rune_list_proper [of s]
  by (subst replace_needs [OF assms(3)]) blast+

lemma letters_pass:
  assumes "list_all (\<lambda>c. is_hex c \<or> c = CHR ''_'') s"
  shows "fold mask_with masks_before s = s" "ReplaceAllStringFunc jid_pattern f s = s"
    "ReplaceAllStringFunc token_pattern f s = s" "ReplaceAllStringFunc sig_pattern f s = s"
proof -
  note p = hex_passes [OF assms, of "\<lambda>v. v = 45 \<or> folded v \<in> {107, 115, 116, 121}"]
  have Q: "\<not> (v = 45 \<or> folded v \<in> {107, 115, 116, 121})" if "v \<in> {48..57} \<union> {65..70} \<union> {97..102} \<union> {95}" for v :: nat
    using that by (auto simp: folded_def)
  have key: "needs (\<lambda>v. v = 45 \<or> folded v \<in> {107, 115, 116, 121}) (named_key name glue)" for name glue
    unfolding named_key_def by (induction name) (auto intro!: needs_literal [of "CHR ''y''"] simp: byte_of_def)
  have rest: "needs (\<lambda>v. v = 45 \<or> folded v \<in> {107, 115, 116, 121}) pem_pattern"
    "needs (\<lambda>v. v = 45 \<or> folded v \<in> {107, 115, 116, 121}) secret_pattern"
    "needs (\<lambda>v. v = 45 \<or> folded v \<in> {107, 115, 116, 121}) jid_pattern"
    "needs (\<lambda>v. v = 45 \<or> folded v \<in> {107, 115, 116, 121}) token_pattern"
    "needs (\<lambda>v. v = 45 \<or> folded v \<in> {107, 115, 116, 121}) sig_pattern"
    by (simp_all add: pem_pattern_def secret_pattern_def jid_pattern_def token_pattern_def sig_pattern_def byte_of_def)
  show "fold mask_with masks_before s = s" "ReplaceAllStringFunc jid_pattern f s = s"
    "ReplaceAllStringFunc token_pattern f s = s" "ReplaceAllStringFunc sig_pattern f s = s"
    using p [OF Q] key rest by (simp_all add: masks_before_def mask_with_def)
qed

text \<open>
  Keys behind an underscore pass. A key in hexadecimal digits, of whatever length, that follows an underscore is logged as it
  is: no word starts behind an underscore.\<close>

theorem underscore_shows_key:
  assumes "list_all is_hex key"
  shows "Sanitize (''_'' @ key) = ''_'' @ key"
proof -
  let ?s = "''_'' @ key"
  have s: "list_all (\<lambda>c. is_hex c \<or> c = CHR ''_'') ?s" using assms by (auto simp: list_all_iff)
  have word: "is_word (Some x)" if "x \<in> set (rune_list ?s)" for x
    using hex_text(3) [OF s] that by (auto simp: is_word_def word_rune_def split: prod.splits)
  have stuck: "ReplaceAllStringFunc (Seq WordB (Seq (Rep n None True P) r)) f ?s = ?s" if P: "\<not> P 95" "0 < n" for n P r f
  proof -
    have "ends (Seq WordB (Seq (Rep n None True P) r)) (if us = [] then None else Some (last us)) (x # xs) = []"
      if "rune_list ?s = us @ x # xs" for us x xs
    proof (cases us)
      case Nil
      then have "x = (95, ''_'')" using that hex_text(1) [OF s] by (simp add: byte_of_def)
      then show ?thesis using P Nil by (simp add: span_length_def Let_def before_def)
    next
      case (Cons y ys)
      then have "is_word (Some (last us))" "is_word (Some x)" using that word by auto
      then show ?thesis using Cons by (simp add: head_rune_def)
    qed
    then show ?thesis
      using rune_list_proper [of ?s] unfolding ReplaceAllStringFunc_def by (subst replace_none_context) auto
  qed
  show ?thesis
    using hex_text(2) [OF s] letters_pass [OF s] stuck
    by (simp add: Sanitize_def masks_after_def mask_with_def hex_pattern_def base64_pattern_def hex_rune_def base64_rune_def)
qed

text \<open>
  Keys are masked. A message that is a key of at least 32 hexadecimal digits is logged as the mask.\<close>

theorem hex_key_is_masked:
  assumes "list_all is_hex key" and "32 \<le> length key"
  shows "Sanitize key = ''[REDACTED_HEX_KEY]''"
proof -
  have s: "list_all (\<lambda>c. is_hex c \<or> c = CHR ''_'') key" using assms by (auto simp: list_all_iff)
  have all: "list_all (\<lambda>x. hex_rune (fst x)) (rune_list key)"
    using assms(1) by (simp add: hex_text(1) [OF s] list_all_iff is_hex_def)
  then have tw: "takeWhile (\<lambda>x. hex_rune (fst x)) (rune_list key) = rune_list key" by (simp add: takeWhile_eq_all_conv list_all_iff)
  have n: "span_length None hex_rune (rune_list key) = length key"
    unfolding span_length_def Let_def tw using hex_text(1) [OF s] by simp
  have word: "is_word (Some x)" if "x \<in> set (rune_list key)" for x
    using all that by (auto simp: list_all_iff is_word_def word_rune_def hex_rune_def split: prod.splits)
  obtain x xs where x: "rune_list key = x # xs" using assms(2) hex_text(1) [OF s] by (cases key) auto
  have len: "length (x # xs) = length key" using arg_cong [OF hex_text(1) [OF s], of length] x by simp
  have "before None (length key) (rune_list key) = Some (last (rune_list key))"
    using assms(2) len last_conv_nth [of "x # xs"] unfolding x before_def by auto
  then have w1: "ends WordB (before None (length key) (rune_list key)) (drop (length key) (rune_list key)) = [0]"
    using word [of "last (rune_list key)"] len x by (simp add: head_rune_def is_word_def)
  have w0: "ends WordB None (rune_list key) = [0]"
    using word [of x] x by (simp add: head_rune_def is_word_def)
  have rp: "ends (Rep 32 None True hex_rune) None (rune_list key) = length key # rev [32 ..< length key]"
    using assms(2) n by simp
  have "\<exists>ks. ends (Seq (Rep 32 None True hex_rune) WordB) None (rune_list key) = length key # ks"
    unfolding ends.simps(2) [of "Rep 32 None True hex_rune"] rp using w1 by (simp del: ends.simps)
  then have "\<exists>ks. ends hex_pattern None (rune_list key) = length key # ks"
    unfolding hex_pattern_def ends.simps(2) [of WordB] w0 by (auto simp: before_def simp del: ends.simps)
  then obtain ks where "ends hex_pattern None (x # xs) = Suc (length xs) # ks" using x len by auto
  then have "mask_with (hex_pattern, ''[REDACTED_HEX_KEY]'') key = ''[REDACTED_HEX_KEY]''"
    unfolding mask_with_def ReplaceAllStringFunc_def x by (simp add: replace_match)
  moreover have "fold mask_with (tl masks_after) ''[REDACTED_HEX_KEY]'' = ''[REDACTED_HEX_KEY]''" by code_simp
  ultimately show ?thesis
    using hex_text(2) [OF s] letters_pass [OF s] by (simp add: Sanitize_def masks_after_def)
qed

theorem hex_key_is_masked_witness: "Sanitize ''0123456789abcdef0123456789ABCDEF'' = ''[REDACTED_HEX_KEY]''"
  using hex_key_is_masked [of "''0123456789abcdef0123456789ABCDEF''"] by (simp add: is_hex_def hex_rune_def byte_of_def)

theorem underscore_shows_key_witness:
  "Sanitize ''_0123456789abcdef0123456789ABCDEF'' = ''_0123456789abcdef0123456789ABCDEF''"
  using underscore_shows_key [of "''0123456789abcdef0123456789ABCDEF''"] by (simp add: is_hex_def hex_rune_def byte_of_def)

subsection \<open>What is written\<close>

lemma space_apart: "\<not> jid_char CHR '' ''"
  by (simp add: jid_char_def key_rune_def byte_of_def)

lemma rotate_log_lines:
  "lg_files (rotate_log V l) \<noteq> lg_files l \<Longrightarrow> e \<in> set (lg_files (rotate_log V l)) \<Longrightarrow>
     e \<in> set (lg_files l) \<or> le_lines e = []"
  by (auto simp: rotate_log_def cleanupExpiredLogs_def open_log_def Let_def split: if_splits)

lemma log_with_lines:
  assumes "e \<in> set (lg_files (log_with V s l))" and "x \<in> set (le_lines e)"
  shows "x = s \<or> (\<exists>e' \<in> set (lg_files l). x \<in> set (le_lines e'))"
proof -
  have rot: "\<exists>e' \<in> set (lg_files l). x \<in> set (le_lines e')"
    if "e' \<in> set (lg_files (rotate_log V l))" "x \<in> set (le_lines e')" for e'
    using rotate_log_lines [of V l e'] that by (cases "lg_files (rotate_log V l) = lg_files l") auto
  show ?thesis
    using assms by (auto simp: log_with_def print_log_def split: if_splits option.splits bool.splits dest!: rot)
qed

lemma no_jid_words: "no_jid a \<Longrightarrow> no_jid b \<Longrightarrow> no_jid (a @ '' '' @ b)"
proof -
  assume a: "no_jid a" "no_jid b"
  have "no_jid ('' '' @ b)" by (rule no_jid_append [OF no_colon a(2)]) (use space_apart in auto)
  from no_jid_append [OF a(1) this] show ?thesis using space_apart by auto
qed

lemma jid_at_nth:
  assumes "jid_at (drop i t)" and "k < 6"
  shows "lower_ascii (t ! (i + k)) = ''korik:'' ! k"
proof -
  have len: "7 \<le> length (drop i t)" and eq: "map lower_ascii (take 6 (drop i t)) = ''korik:''"
    using assms(1) unfolding jid_at_def by blast+
  have "map lower_ascii (take 6 (drop i t)) ! k = lower_ascii (t ! (i + k))" using len assms(2) by simp
  then show ?thesis unfolding eq by simp
qed

lemma no_jid_value:
  assumes "CHR '':'' \<notin> set a" and "no_jid v"
  shows "no_jid (a @ ''='' @ v)"
  unfolding no_jid_def
proof (intro allI notI)
  fix i
  let ?t = "a @ ''='' @ v"
  assume j: "jid_at (drop i ?t)"
  note low = jid_at_nth [OF j]
  show False
  proof (cases "i \<le> length a")
    case False
    then obtain m where "i = Suc (length a + m)" by (metis less_iff_Suc_add not_le add_Suc_right)
    then show False using j assms(2) by (simp add: no_jid_def)
  next
    case True
    consider "i + 5 < length a" | "length a - i < 6" by linarith
    then show False
    proof cases
      case 1
      then have "a ! (i + 5) = CHR '':''" using low [of 5] lower_colon by (simp add: nth_append)
      then show False using 1 assms(1) nth_mem by metis
    next
      case 2
      have "lower_ascii CHR ''='' = CHR ''=''" by (simp add: lower_ascii_def byte_of_def)
      then show False using low [OF 2] True 2 by (auto simp: less_Suc_eq numeral_eq_Suc)
    qed
  qed
qed

lemma log_lines_no_jid:
  "no_jid (''[CONNECTION] event='' @ Sanitize x @ '' peer='' @ Sanitize y)"
  "no_jid (''[HANDSHAKE] peer='' @ Sanitize x @ '' step='' @ Sanitize y)"
  "no_jid (''[NAT] step='' @ Sanitize x @ '' detail='' @ Sanitize y)"
  "no_jid (''[PROTOCOL] type='' @ Sanitize x @ '' length='' @ Itoa n @ '' peer='' @ Sanitize y @ '' encrypted=true'')"
proof -
  have val: "no_jid (a @ ''='' @ Sanitize t)" if "CHR '':'' \<notin> set a" for a t
    by (rule no_jid_value [OF that Sanitize_no_jid])
  have "CHR '':'' \<notin> set (Itoa n)"
  proof -
    have "\<not> is_digit CHR '':''" by (simp add: is_digit_def byte_of_def)
    then show ?thesis using nat_digits_all by (auto simp: Itoa_def list_all_iff)
  qed
  then have num: "no_jid (''length='' @ Itoa n)" by (intro no_colon) simp
  have "no_jid (''[CONNECTION]'' @ '' '' @ (''event'' @ ''='' @ Sanitize x) @ '' '' @ ''peer'' @ ''='' @ Sanitize y)"
    "no_jid (''[HANDSHAKE]'' @ '' '' @ (''peer'' @ ''='' @ Sanitize x) @ '' '' @ ''step'' @ ''='' @ Sanitize y)"
    "no_jid (''[NAT]'' @ '' '' @ (''step'' @ ''='' @ Sanitize x) @ '' '' @ ''detail'' @ ''='' @ Sanitize y)"
    "no_jid (''[PROTOCOL]'' @ '' '' @ (''type'' @ ''='' @ Sanitize x) @ '' '' @ (''length='' @ Itoa n) @ '' '' @
      (''peer'' @ ''='' @ Sanitize y) @ '' '' @ ''encrypted=true'')"
    by (intro no_jid_words val num no_colon; simp)+
  then show "no_jid (''[CONNECTION] event='' @ Sanitize x @ '' peer='' @ Sanitize y)"
    "no_jid (''[HANDSHAKE] peer='' @ Sanitize x @ '' step='' @ Sanitize y)"
    "no_jid (''[NAT] step='' @ Sanitize x @ '' detail='' @ Sanitize y)"
    "no_jid (''[PROTOCOL] type='' @ Sanitize x @ '' length='' @ Itoa n @ '' peer='' @ Sanitize y @ '' encrypted=true'')"
    by simp_all
qed

text \<open>
  C21. No JID in the log. Whatever is given to the log as an event, a peer, a step or a detail, the files hold afterwards no line with a JID, in
  any case of its letters, that they did not hold before.\<close>

theorem log_hides_jids:
  assumes "l' \<in> {LogConnection V x y l, LogHandshake V x y l, LogNAT V x y l, LogProtocol V x n y l}"
    and "e \<in> set (lg_files l')" and "s \<in> set (le_lines e)"
  shows "no_jid s \<or> (\<exists>e' \<in> set (lg_files l). s \<in> set (le_lines e'))"
  using assms log_lines_no_jid(1-3) [of x y] log_lines_no_jid(4) [of x n y] log_with_lines [of e V _ l s]
  by (auto simp: LogConnection_def LogHandshake_def LogNAT_def LogProtocol_def)

definition sample_log :: log_state where
  "sample_log = \<lparr>lg_Enabled = True, lg_Logger = Some (''korik-2024-05-01.log'', False), lg_currentDate = ''2024-05-01'',
     lg_files = [\<lparr>le_name = ''korik-2024-05-01.log'', le_dir = False, le_lines = []\<rparr>]\<rparr>"

definition sample_day :: "string \<Rightarrow> bool \<Rightarrow> log_env" where
  "sample_day date ok = \<lparr>lv_date = date, lv_cutoff = 0, lv_open = ok, lv_readdir = True, lv_upper = (\<lambda>s. s)\<rparr>"

theorem log_hides_jids_witness:
  "\<exists>s. lg_files (LogConnection (sample_day ''2024-05-01'' True) ''connect'' ''korik:ab12'' sample_log) =
     [\<lparr>le_name = ''korik-2024-05-01.log'', le_dir = False, le_lines = [s]\<rparr>] \<and> no_jid s"
proof -
  let ?l = "LogConnection (sample_day ''2024-05-01'' True) ''connect'' ''korik:ab12'' sample_log"
  obtain s where s: "lg_files ?l = [\<lparr>le_name = ''korik-2024-05-01.log'', le_dir = False, le_lines = [s]\<rparr>]"
    by (simp add: LogConnection_def log_with_def rotate_log_def print_log_def sample_day_def sample_log_def)
  have "no_jid s"
    using log_hides_jids [of ?l "sample_day ''2024-05-01'' True" "''connect''" "''korik:ab12''" sample_log 0
        "\<lparr>le_name = ''korik-2024-05-01.log'', le_dir = False, le_lines = [s]\<rparr>" s] s
    by (auto simp: sample_log_def)
  then show ?thesis using s by blast
qed

subsection \<open>Files\<close>

text \<open>
  A rotation that fails loses the day. When the file of a new day cannot be opened at the first line of that day, then no
  line of the day is written, even after files can be opened again: the date is stored before the
  file is opened, and the closed logger is kept.\<close>

theorem failed_rotation_loses_day:
  assumes "lv_date V \<noteq> lg_currentDate l" and "\<not> lv_open V" and "lv_date W = lv_date V"
  shows "Log W level message (Log V level' first l) = Log V level' first l \<and> lg_files (Log V level' first l) = lg_files l"
  using assms by (auto simp: Log_def log_with_def rotate_log_def print_log_def Let_def split: option.split)

theorem failed_rotation_loses_day_witness:
  "Log (sample_day ''2024-05-02'' True) ''info'' ''lost'' (Log (sample_day ''2024-05-02'' False) ''info'' ''first'' sample_log)
     = Log (sample_day ''2024-05-02'' False) ''info'' ''first'' sample_log"
  using failed_rotation_loses_day [of "sample_day ''2024-05-02'' False" sample_log "sample_day ''2024-05-02'' True"]
  by (simp add: sample_day_def sample_log_def)

lemma log_with_appends:
  assumes "lg_Enabled l" and "lg_Logger l = Some (name, False)" and "lg_currentDate l = lv_date V"
    and "e \<in> set (lg_files l)" and "le_name e = name"
  shows "\<exists>e' \<in> set (lg_files (log_with V s l)). le_name e' = name \<and> le_lines e' \<noteq> [] \<and> last (le_lines e') = s"
proof -
  have "e\<lparr>le_lines := le_lines e @ [s]\<rparr> \<in> set (lg_files (log_with V s l))"
    using assms by (auto simp: log_with_def rotate_log_def print_log_def)
  then show ?thesis using assms(5) by (intro bexI) auto
qed

text \<open>
  Retention. At a start with logging on, where the directory can be read and the file of the day be opened, an entry of
  the directory survives with its lines exactly when it is not a file of the log that is dated before the cutoff, and the
  next line that is logged on that day is the last line of the file of the day.\<close>

theorem start_keeps_unexpired:
  assumes "lv_readdir V" and "lv_open V" and "\<not> expired_log (lv_cutoff V) \<lparr>le_name = log_name (lv_date V), le_dir = False, le_lines = []\<rparr>"
  shows "e \<in> set (lg_files l) \<Longrightarrow> e \<in> set (lg_files (InitLog V True l)) \<longleftrightarrow> \<not> expired_log (lv_cutoff V) e"
    and "\<exists>e' \<in> set (lg_files (LogNAT V step detail (InitLog V True l))). le_name e' = log_name (lv_date V) \<and>
      le_lines e' \<noteq> [] \<and> last (le_lines e') = ''[NAT] step='' @ Sanitize step @ '' detail='' @ Sanitize detail"
proof -
  show "e \<in> set (lg_files l) \<Longrightarrow> e \<in> set (lg_files (InitLog V True l)) \<longleftrightarrow> \<not> expired_log (lv_cutoff V) e"
    using assms by (auto simp: InitLog_def cleanupExpiredLogs_def open_log_def Let_def)
  have "log_name (lv_date V) \<in> le_name ` set (lg_files (InitLog V True l))"
    using assms by (auto simp: InitLog_def cleanupExpiredLogs_def open_log_def Let_def)
  then obtain e0 where e0: "e0 \<in> set (lg_files (InitLog V True l))" "le_name e0 = log_name (lv_date V)" by auto
  have "lg_Enabled (InitLog V True l)" "lg_Logger (InitLog V True l) = Some (log_name (lv_date V), False)"
    "lg_currentDate (InitLog V True l) = lv_date V"
    using assms by (simp_all add: InitLog_def cleanupExpiredLogs_def open_log_def Let_def)
  then show "\<exists>e' \<in> set (lg_files (LogNAT V step detail (InitLog V True l))). le_name e' = log_name (lv_date V) \<and>
      le_lines e' \<noteq> [] \<and> last (le_lines e') = ''[NAT] step='' @ Sanitize step @ '' detail='' @ Sanitize detail"
    using log_with_appends [OF _ _ _ e0] by (simp add: LogNAT_def)
qed

theorem start_keeps_unexpired_witness:
  "\<lparr>le_name = ''korik-2024-05-01.log'', le_dir = False, le_lines = []\<rparr> \<in> set (lg_files (InitLog (sample_day ''2024-05-02'' True) True sample_log))"
proof -
  have "\<not> expired_log 0 \<lparr>le_name = log_name ''2024-05-02'', le_dir = False, le_lines = []\<rparr>"
    "\<not> expired_log 0 \<lparr>le_name = ''korik-2024-05-01.log'', le_dir = False, le_lines = []\<rparr>"
    by (code_simp, code_simp)
  then show ?thesis
    using start_keeps_unexpired(1) [of "sample_day ''2024-05-02'' True" "\<lparr>le_name = ''korik-2024-05-01.log'', le_dir = False, le_lines = []\<rparr>" sample_log]
    by (simp add: sample_day_def sample_log_def)
qed

end
