(* ===== verification/Pretty_Json.thy ===== *)
theory Pretty_Json
  imports Persist
begin

text \<open>
  Reading and writing JSON, \<^verbatim>\<open>src/internal/pretty/pretty.go\<close>, over the codec of \<^verbatim>\<open>encoding/json\<close>: \<open>js_parse\<close> is
  \<^verbatim>\<open>Unmarshal\<close> into an \<^verbatim>\<open>interface{}\<close>, \<open>js_indent\<close> is \<^verbatim>\<open>MarshalIndent\<close> with two blanks and \<open>js_compact\<close> is
  \<^verbatim>\<open>Marshal\<close>; each is \<open>None\<close> where the call returns an error. A file is a document of bytes.
\<close>

record 'v json_codec =
  js_parse :: "string \<Rightarrow> 'v option"
  js_indent :: "'v \<Rightarrow> string option"
  js_compact :: "'v \<Rightarrow> string option"

datatype pretty_error = ReadFault | InvalidJSON | MarshalFault | ReparseFault | CanonicalFault | RoundTripMismatch | WriteFault

definition PrettyPrintJSON :: "'v json_codec \<Rightarrow> 'v \<Rightarrow> pretty_error + string" where
  "PrettyPrintJSON J v = (case js_indent J v of None \<Rightarrow> Inl MarshalFault | Some s \<Rightarrow> Inr s)"

definition PrettyPrintBytes :: "'v json_codec \<Rightarrow> string \<Rightarrow> pretty_error + string" where
  "PrettyPrintBytes J data =
     (case js_parse J data of None \<Rightarrow> Inl InvalidJSON
      | Some raw \<Rightarrow> (case js_indent J raw of None \<Rightarrow> Inl MarshalFault | Some s \<Rightarrow> Inr s))"

definition LoadAndPretty :: "'v json_codec \<Rightarrow> string stored \<Rightarrow> pretty_error + string" where
  "LoadAndPretty J f =
     (case f of Doc data \<Rightarrow> PrettyPrintBytes J data | Malformed \<Rightarrow> Inl InvalidJSON | _ \<Rightarrow> Inl ReadFault)"

definition SavePretty :: "'v json_codec \<Rightarrow> string saving \<Rightarrow> 'v \<Rightarrow> string stored \<Rightarrow> pretty_error option \<times> string stored" where
  "SavePretty J w v f =
     (case PrettyPrintJSON J v of
        Inl e \<Rightarrow> (Some e, f)
      | Inr s \<Rightarrow> (case save_doc w s f of (ok, f') \<Rightarrow> (if ok then None else Some WriteFault, f')))"

definition RoundTrip :: "'v json_codec \<Rightarrow> string \<Rightarrow> pretty_error + string" where
  "RoundTrip J data =
     (case js_parse J data of
        None \<Rightarrow> Inl InvalidJSON
      | Some raw \<Rightarrow>
          (case js_indent J raw of
             None \<Rightarrow> Inl MarshalFault
           | Some pretty \<Rightarrow>
               (case js_parse J pretty of
                  None \<Rightarrow> Inl ReparseFault
                | Some raw2 \<Rightarrow>
                    (case js_compact J raw of
                       None \<Rightarrow> Inl CanonicalFault
                     | Some b1 \<Rightarrow>
                         (case js_compact J raw2 of
                            None \<Rightarrow> Inl CanonicalFault
                          | Some b2 \<Rightarrow> if b1 \<noteq> b2 then Inl RoundTripMismatch else Inr pretty)))))"

definition SortKeys :: "'v json_codec \<Rightarrow> string \<Rightarrow> pretty_error + string" where
  "SortKeys J raw =
     (case js_parse J raw of None \<Rightarrow> Inl InvalidJSON
      | Some v \<Rightarrow> (case js_indent J v of None \<Rightarrow> Inl MarshalFault | Some s \<Rightarrow> Inr s))"

definition ValidateConfig :: "'v json_codec \<Rightarrow> string \<Rightarrow> pretty_error option" where
  "ValidateConfig J data = (case js_parse J data of None \<Rightarrow> Some InvalidJSON | Some _ \<Rightarrow> None)"

text \<open>What the calls rely on: what a value prints as, indented, parses to the value, and a value can be printed in both forms or in neither.\<close>

definition codec_faithful :: "'v json_codec \<Rightarrow> bool" where
  "codec_faithful J \<longleftrightarrow>
     (\<forall>v s. js_indent J v = Some s \<longrightarrow> js_parse J s = Some v) \<and> (\<forall>v. js_indent J v = None \<longleftrightarrow> js_compact J v = None)"

text \<open>
  The round trip is a check that always passes. Over a faithful codec \<^verbatim>\<open>RoundTrip\<close>, \<^verbatim>\<open>SortKeys\<close> and \<^verbatim>\<open>PrettyPrintBytes\<close> are
  the same function, with the same errors.\<close>

theorem round_trip_is_pretty_print:
  assumes "codec_faithful J"
  shows "RoundTrip J data = PrettyPrintBytes J data \<and> SortKeys J data = PrettyPrintBytes J data"
proof -
  have c: "\<exists>b. js_compact J v = Some b" if "js_indent J v = Some s" for v s
    using assms that by (metis codec_faithful_def option.exhaust option.distinct(1))
  have p: "js_parse J s = Some v" if "js_indent J v = Some s" for v s
    using assms that by (simp add: codec_faithful_def)
  show ?thesis
    by (auto simp: RoundTrip_def SortKeys_def PrettyPrintBytes_def p split: option.split dest: c)
qed

text \<open>
  Printing is stable. What \<^verbatim>\<open>SavePretty\<close> has written is read back by \<^verbatim>\<open>LoadAndPretty\<close> as the same bytes, passes
  \<^verbatim>\<open>ValidateConfig\<close>, and pretty-printing it again changes nothing.\<close>

theorem saved_is_stable:
  assumes "codec_faithful J" and "SavePretty J w v f = (None, f')"
  shows "\<exists>s. f' = Doc s \<and> LoadAndPretty J f' = Inr s \<and> ValidateConfig J s = None \<and> PrettyPrintBytes J s = Inr s"
proof -
  obtain s where s: "js_indent J v = Some s" "f' = Doc s"
    using assms(2) by (cases w) (auto simp: SavePretty_def PrettyPrintJSON_def split: option.splits)
  then have "js_parse J s = Some v" using assms(1) by (simp add: codec_faithful_def)
  then show ?thesis using s by (simp add: LoadAndPretty_def ValidateConfig_def PrettyPrintBytes_def)
qed

definition toy_json :: "string json_codec" where
  "toy_json = \<lparr>js_parse = (\<lambda>s. if s = ''!'' then None else Some s), js_indent = (\<lambda>s. if s = ''!'' then None else Some s),
     js_compact = (\<lambda>s. if s = ''!'' then None else Some s)\<rparr>"

lemma toy_json_ok: "codec_faithful toy_json"
  by (auto simp: codec_faithful_def toy_json_def split: if_splits)

theorem round_trip_is_pretty_print_witness: "RoundTrip toy_json ''{}'' = Inr ''{}''"
  using round_trip_is_pretty_print [OF toy_json_ok, of "''{}''"] by (simp add: PrettyPrintBytes_def toy_json_def)

theorem saved_is_stable_witness: "LoadAndPretty toy_json (snd (SavePretty toy_json Written ''{}'' Absent)) = Inr ''{}''"
  using saved_is_stable [OF toy_json_ok, of Written "''{}''" Absent] by (simp add: SavePretty_def PrettyPrintJSON_def toy_json_def)

end
