(* ===== verification/Spec2Isabelle.thy ===== *)
theory Spec2Isabelle
  imports Circuit Dedup Ratelimit Msg_Queue Chat_History Validate Verify_Safety Protocol_Version
    Group_Store Contact_Book File_Transfer Status_Tracker Node_Session Node_Delivery Node_Policy
    Stun Nat_Candidates Nat_Tester Discovery_Run Udp_Link Internet
    Config_File Setup_Wizard Backup_Bundle Auto_Update Shell_Line
    Ui_Text Main_Session Main_Run Offline_Delivery Rekey_Loss Data_Paths Debug_Log Pretty_Json
begin

text \<open>
  Verification library of Korik, a peer-to-peer messenger with end-to-end encryption (Go, \<^verbatim>\<open>src/main.go\<close> and the packages
  under \<^verbatim>\<open>src/internal\<close>). The root theory only collects the others; each property stands in the theory of the component, or of the
  composition of components, that it is about.

  \<^bold>\<open>The program.\<close> \<^verbatim>\<open>main.go\<close> loads the configuration, opens the identity and four stores (history, contacts, queue, rooms)
  and runs a loop that reads a line and performs a command. The node of \<^verbatim>\<open>internal/peer\<close> holds these stores, its
  connections with their session keys, the replay filter, the limiter, the circuit breaker, the transfers and the retry
  plan. A connection arises from an announcement on the local network, from an address that is typed, from a bundle of candidates, or by
  UDP hole punching; both ends say hello, derive the session key from their identities, send what waits in the queue, and
  rotate the key by an exchange of ephemeral keys. Messages are JSON lines; bodies are compressed and encrypted.

  \<^bold>\<open>Theories, from the bottom.\<close>
  \<^item> \<open>Korik_Prelude\<close>: time and durations, integer division of Go, calls that block or panic (type \<open>outcome\<close>), generic list lemmas,
    the collections of theorems. \<open>Persist\<close>: files as \<open>stored\<close> documents and the reaction of the file system as \<open>saving\<close>; the
    contracts \<open>persisted\<close> and \<open>bounded_log\<close>. \<open>Go_Strings\<close>, \<open>Go_Utf8\<close>, \<open>Go_Base64\<close>, \<open>Go_Float\<close>, \<open>Go_Net\<close>, \<open>Go_Path\<close>, \<open>Go_Regexp\<close>: what
    the sources use of the standard library, on bytes. \<open>Data_Paths\<close>: where the files are.
  \<^item> Components with a state of their own: \<open>Circuit\<close> (\<^verbatim>\<open>circuit\<close>), \<open>Dedup\<close> (\<^verbatim>\<open>dedup\<close>), \<open>Ratelimit\<close> (\<^verbatim>\<open>ratelimit\<close>), \<open>Msg_Queue\<close>
    (\<^verbatim>\<open>queue\<close>), \<open>Chat_History\<close> (\<^verbatim>\<open>history\<close>), \<open>Group_Store\<close> (\<^verbatim>\<open>group\<close>), \<open>Contact_Book\<close> (\<^verbatim>\<open>contacts\<close>), \<open>File_Transfer\<close> (\<^verbatim>\<open>filetransfer\<close>),
    \<open>Status_Tracker\<close> (\<^verbatim>\<open>status\<close>), \<open>Config_File\<close> (\<^verbatim>\<open>config\<close>), \<open>Setup_Wizard\<close> (\<^verbatim>\<open>setup\<close>), \<open>Backup_Bundle\<close> (\<^verbatim>\<open>backup\<close>),
    \<open>Auto_Update\<close> (\<^verbatim>\<open>autoupdate\<close>), \<open>Shell_Line\<close> (\<^verbatim>\<open>shell\<close>), \<open>Debug_Log\<close> (\<^verbatim>\<open>debug\<close>).
  \<^item> Functions: \<open>Crypto_Util\<close> (\<^verbatim>\<open>crypto\<close>, \<^verbatim>\<open>cryptobox\<close>, \<^verbatim>\<open>compress\<close>), \<open>Identity_Keys\<close> (\<^verbatim>\<open>identity\<close>), \<open>Validate\<close>, \<open>Verify_Safety\<close>,
    \<open>Protocol_Version\<close>, \<open>Pretty_Json\<close>, \<open>Ui_Text\<close> (\<^verbatim>\<open>ui\<close>, \<^verbatim>\<open>notify\<close>).
  \<^item> The node, \<^verbatim>\<open>peer/node.go\<close> and \<^verbatim>\<open>peer/message.go\<close>: \<open>Node_State\<close> (record \<open>Node\<close>, sending), \<open>Node_Handlers\<close> (\<open>handleMessage\<close> with
    a definition for each type of message), \<open>Node_Actions\<close> (connections, periodic work, broadcasts, rooms, files), \<open>Node_Frame\<close>
    (what these leave alone of the links), \<open>Node_Stores\<close> (what they keep of the stores), \<open>Node_Session\<close>, \<open>Node_Delivery\<close>,
    \<open>Node_Policy\<close>, \<open>Rekey_Loss\<close> (properties), \<open>Node_Sample\<close> (the nodes of the witnesses).
  \<^item> The network: \<open>Stun\<close>, \<open>Nat_Candidates\<close>, \<open>Nat_Tester\<close> (\<^verbatim>\<open>nat\<close>), \<open>Discovery\<close>, \<open>Discovery_Run\<close>, \<open>Udp_Link\<close>, \<open>Internet\<close> (\<^verbatim>\<open>peer/discovery.go\<close>,
    \<^verbatim>\<open>udp_adapter.go\<close>, \<^verbatim>\<open>internet.go\<close>).
  \<^item> The main program: \<open>Main_Parse\<close> (which command a line is), \<open>Main_Backup\<close> (helpers of the commands), \<open>Main_Commands\<close> (every
    branch, \<open>run_line\<close>, with the audit log of \<^verbatim>\<open>audit\<close>), \<open>Main_Frame\<close> (what commands leave alone), \<open>Main_Start\<close> (the start up to the node),
    \<open>Main_Session\<close> (what a line that is typed achieves, across all of these), \<open>Main_Run\<close> (going online, the callbacks that show what
    arrives, and the run of the whole program as the relation \<open>program_step\<close> between values of \<open>Program\<close>), \<open>Offline_Delivery\<close> (from a line
    through the queue to the screen of a contact).

  \<^bold>\<open>How code and model correspond.\<close> A struct is a record with the fields of the code behind a prefix (\<open>nd_\<close> for \<^verbatim>\<open>Node\<close>, \<open>pc_\<close> for
  \<^verbatim>\<open>peerConn\<close>, \<open>q_\<close> for \<^verbatim>\<open>Queue\<close>, and so on); a method is a function that returns the changed record. An error is a value of a
  datatype of the component, in a sum or option. A connection is a number and \<open>nd_pc\<close> gives its \<^verbatim>\<open>peerConn\<close>, so that handlers share it as the
  code does by pointer. What is written to a connection is appended to \<open>nd_out\<close>, a callback to \<open>nd_events\<close>, a goroutine to
  \<open>nd_tasks\<close> or \<open>ap_jobs\<close>. A map that the code ranges over is an association list, so that the order is that of the list. The random draws,
  the clock, the answers of the network and of the file system are an argument (\<open>env\<close>, \<open>stun_io\<close>, \<open>world\<close>, \<open>cenv\<close>). X25519,
  SHA-256, AES-GCM and gzip are the record \<open>primitives\<close>; what the code relies on of them is a named hypothesis (\<open>ecdh_agrees\<close>,
  \<open>sha_len\<close>, \<open>gcm_opens\<close>, \<open>gzip_inverts\<close>), for which \<open>toy\<close> is a model in the witnesses. Lengths, ports and counters whose overflow
  matters are bounded by hypotheses or are words; \<open>float64\<close> is rational arithmetic with rounding (\<open>f64\<close>).

  \<^bold>\<open>What the lemmas show.\<close>
  \<^item> Sessions and delivery: both ends of a handshake and of a rekey hold the same key; every session of a reachable node belongs to the identity
    that its peer announced; what one end sends, the other shows, once, in the order sent; what finds no session waits in the queue (the newest
    thousand messages for all peers together); a message of a kind that the replay filter covers, when it is repeated, a spoofed hello, a chat message
    of a blocked contact and one of a stranger to a room have no effect. Two exceptions are proved too: what is sent between a rekey and its answer is
    lost, and a received file is complete in memory but never written, because saving it waits for a lock it holds.
  \<^item> Contracts, stated as locales and interpreted by the components of the program: \<open>persisted\<close> (a restart gives back what was in memory: history and queue as far as their
    texts are UTF-8, contacts, rooms, shell), \<open>bounded_log\<close> (the newest entries are kept: history, queue), \<open>token_guard\<close> (three limiters),
    \<open>replay_filter\<close>, \<open>circuit_gate\<close>, \<open>member_sets\<close>, \<open>float_rounding\<close>, \<open>quiet_op\<close> and \<open>command_frame\<close> (operations and commands that leave
    the links, or the stores, of the node alone).
  \<^item> The network: the STUN client finds the address of a server that answers, every stage is tried in its order, a bundle connects to nobody
    but the peer it names, the UDP adapter neither cuts nor joins the lines that the network lets through.
  \<^item> The main program: typed text reaches every ready peer or waits for every contact; \<^verbatim>\<open>/block\<close> holds from the next message on; a backup carries
    the identity to a second device; no line of the debug log shows a JID. In every run, from the start of the program and through any
    interleaving of lines, steps of the node and tickers, the identity and the four stores stay, the queue and the history are bounded, and the
    sessions are authentic (\<open>program_invariant\<close>); a line goes from one keyboard to the other screen, at once or when the contact comes online.

  \<^bold>\<open>Loops and fuel.\<close> Structural recursion or a measure wherever the code has one. \<open>unique_loop\<close> (names of received files) has the fuel
  \<open>length existing + 1\<close> and \<open>retry_loop\<close> (connecting with backoff) the fuel \<open>maxAttempts\<close>; both are proved to be enough. Loops that may not end
  are \<open>partial_function (option)\<close>: \<open>nick_loop\<close>, for which the properties say exactly when it returns, and \<open>pbkdf2_loop\<close> and
  \<open>discarded_loop\<close>, which are proved to end for a MAC of 32 bytes.

  \<^bold>\<open>Not modelled.\<close> The goroutines that only move bytes between sockets and these functions (the accepting of \<^verbatim>\<open>Start\<close>, the signal
  handler); what the node prints itself beside its callbacks; mutexes: an operation is one step, and where the code would wait for a lock it holds itself the model says \<open>Blocks\<close>; the encoding of JSON,
  which is an argument or taken at the level of the members: that it keeps of a string only valid UTF-8 is part of the model for the history and the
  queue, which store bytes that nobody checked, while the texts of contacts, rooms and configuration are taken to be valid; drawing on the terminal; the map of \<^verbatim>\<open>rekeySlots\<close> is one for each node although the code has
  one for the process; the order in which Go ranges over a map is that of insertion.
\<close>

end
